(* ===== verification/Civitas_Prelude.thy ===== *)
theory Civitas_Prelude
  imports Complex_Main "HOL-Library.AList" "HOL-Library.Sublist"
begin

text \<open>
  Shared vocabulary of the development: the Python values a message payload can carry,
  the exceptions the runtime raises (\<^verbatim>\<open>src/civitas/errors.py\<close>), insertion-ordered
  dictionaries, the string operations the sources use, and the generic interfaces that several
  components implement: a state machine with an inductive invariant, a sliding window of
  timestamps, and a limiter of events per window.

  Conventions. A Python \<^verbatim>\<open>float\<close> is a \<^typ>\<open>real\<close>: rounding is not modelled. A
  Python \<^verbatim>\<open>str\<close> is a \<^typ>\<open>string\<close>. A \<^verbatim>\<open>dict\<close> is an association list
  updated in place by \<^const>\<open>AList.update\<close>, which keeps Python's insertion order. A call that
  can raise returns \<open>exn + 'a\<close>.
\<close>

section \<open>Exceptions and results\<close>

datatype exn =
    ValueError
  | TypeError
  | ZeroDivisionError
  | KeyError
  | IndexError
  | AttributeError
  | RuntimeError
  | TimeoutError
  | CancelledError
  | QueueFull
  | UserError string            \<comment> \<open>raised by application code in a hook\<close>
  | TransientError
  | MessageValidationError
  | MessageRoutingError
  | AgentSuspendedError
  | ConfigurationError
  | StateDecryptionError
  | DeserializationError
  | PluginError string string string
  | SpawnError string
  | SignatureError
  | CapabilityNotFoundError string
  | StreamError string
  | SlowConsumerError string
  | StreamInterrupted string
  | StreamTimeout string
  | HeartbeatTimeout string int
  | StreamStop                  \<comment> \<open>internal: a producer stops cleanly\<close>
  | ForcedRestart               \<comment> \<open>internal: a restart requested by a control message\<close>

type_synonym 'a result = "exn + 'a"

lemma if_Inl_eq_Inr: "(if c then Inl e else x) = Inr v \<longleftrightarrow> \<not> c \<and> x = Inr v"
  by simp

lemma map_sum_eq_Inr [simp]: "map_sum f g x = Inr y \<longleftrightarrow> (\<exists>z. x = Inr z \<and> y = g z)"
  by (cases x) auto

text \<open>The hook verdicts of \<^verbatim>\<open>ErrorAction\<close>.\<close>

datatype error_action = RETRY | SKIP | ESCALATE | STOP

section \<open>JSON and msgpack values\<close>

datatype json =
    JNull
  | JBool bool
  | JInt int
  | JFloat real
  | JStr string
  | JBytes string               \<comment> \<open>msgpack's binary type; a \<^typ>\<open>char\<close> is a byte\<close>
  | JList "json list"
  | JDict "(string \<times> json) list"

type_synonym payload = "(string \<times> json) list"

text \<open>Python's truth value of a JSON value.\<close>

fun truthy :: "json \<Rightarrow> bool" where
  "truthy JNull = False"
| "truthy (JBool b) = b"
| "truthy (JInt i) = (i \<noteq> 0)"
| "truthy (JFloat r) = (r \<noteq> 0)"
| "truthy (JStr s) = (s \<noteq> [])"
| "truthy (JBytes s) = (s \<noteq> [])"
| "truthy (JList xs) = (xs \<noteq> [])"
| "truthy (JDict d) = (d \<noteq> [])"

text \<open>\<^verbatim>\<open>payload.get(key, default)\<close> read at type \<^verbatim>\<open>str\<close>, where a value of
  another type is left to the default.\<close>

definition get_str :: "payload \<Rightarrow> string \<Rightarrow> string \<Rightarrow> string" where
  "get_str p k d = (case map_of p k of Some (JStr s) \<Rightarrow> s | _ \<Rightarrow> d)"

text \<open>\<^verbatim>\<open>str(v)\<close>, where the text of a value that is not a string is a parameter.\<close>

definition as_str :: "(json \<Rightarrow> string) \<Rightarrow> json \<Rightarrow> string" where
  "as_str py_str v = (case v of JStr s \<Rightarrow> s | _ \<Rightarrow> py_str v)"

section \<open>Insertion-ordered dictionaries\<close>

type_synonym ('k, 'v) dict = "('k \<times> 'v) list"

abbreviation dget :: "('k, 'v) dict \<Rightarrow> 'k \<Rightarrow> 'v option" where
  "dget d k \<equiv> map_of d k"

abbreviation dput :: "'k \<Rightarrow> 'v \<Rightarrow> ('k, 'v) dict \<Rightarrow> ('k, 'v) dict" where
  "dput k v d \<equiv> AList.update k v d"

abbreviation dpop :: "'k \<Rightarrow> ('k, 'v) dict \<Rightarrow> ('k, 'v) dict" where
  "dpop k d \<equiv> AList.delete k d"

abbreviation dkeys :: "('k, 'v) dict \<Rightarrow> 'k list" where
  "dkeys d \<equiv> map fst d"

abbreviation dict_ok :: "('k, 'v) dict \<Rightarrow> bool" where
  "dict_ok d \<equiv> distinct (map fst d)"

named_theorems dict_simps \<open>lookups and sizes of updated dictionaries\<close>

lemma dget_dput [dict_simps]: "dget (dput k v d) k' = (if k' = k then Some v else dget d k')"
  by (simp add: AList.update_conv')

lemma dget_dpop [dict_simps]: "dget (dpop k d) k' = (if k' = k then None else dget d k')"
  by (simp add: AList.delete_conv')

lemma dict_ok_dput [dict_simps, intro]: "dict_ok d \<Longrightarrow> dict_ok (dput k v d)"
  by (rule AList.distinct_update)

lemma dict_ok_dpop [dict_simps, intro]: "dict_ok d \<Longrightarrow> dict_ok (dpop k d)"
  by (rule AList.distinct_delete)

lemma in_dkeys_iff: "k \<in> set (dkeys d) \<longleftrightarrow> dget d k \<noteq> None"
  by (simp add: map_of_eq_None_iff)

lemma set_dkeys_dput [dict_simps]: "fst ` set (dput k v d) = insert k (fst ` set d)"
  using AList.dom_update [of k v d] by (simp add: dom_map_of_conv_image_fst)

lemma set_dkeys_dpop [dict_simps]: "fst ` set (dpop k d) = fst ` set d - {k}"
  by (auto simp: AList.delete_eq)

lemma in_set_dpop [dict_simps]: "(k', v) \<in> set (dpop k d) \<longleftrightarrow> k' \<noteq> k \<and> (k', v) \<in> set d"
  by (auto simp: AList.delete_eq)

lemma length_dput [dict_simps]:
  "length (dput k v d) = (if dget d k = None then Suc (length d) else length d)"
  by (induction d) auto

lemma length_dpop_le: "length (dpop k d) \<le> length d"
  by (simp add: AList.delete_eq)

lemma dget_in_set: "dget d k = Some v \<Longrightarrow> (k, v) \<in> set d"
  by (rule map_of_SomeD)

lemma in_set_dget: "dict_ok d \<Longrightarrow> (k, v) \<in> set d \<longleftrightarrow> dget d k = Some v"
  by (metis map_of_is_SomeI map_of_SomeD)

text \<open>\<^verbatim>\<open>{**p, **q}\<close>.\<close>

definition merge :: "('k, 'v) dict \<Rightarrow> ('k, 'v) dict \<Rightarrow> ('k, 'v) dict" where
  "merge p q = fold (\<lambda>(k, v) d. dput k v d) q p"

lemma dget_fold_dput:
  "dget (fold (\<lambda>(k, v) d. dput k v d) q p) k = (case dget (rev q) k of None \<Rightarrow> dget p k | Some v \<Rightarrow> Some v)"
  by (induction q arbitrary: p) (auto simp: dict_simps map_add_def split: option.split)

lemma dget_rev: "dict_ok q \<Longrightarrow> dget (rev q) k = dget q k"
  by (rule map_of_eqI [THEN fun_cong]) (auto intro: map_of_is_SomeI dest: map_of_SomeD simp: rev_map [symmetric])

lemma dget_merge [dict_simps]: "dict_ok q \<Longrightarrow> dget (merge p q) k = (case dget q k of None \<Rightarrow> dget p k | Some v \<Rightarrow> Some v)"
  by (simp add: merge_def dget_fold_dput dget_rev)

lemma dict_ok_merge [dict_simps, intro]: "dict_ok p \<Longrightarrow> dict_ok (merge p q)"
  unfolding merge_def by (induction q arbitrary: p) auto

lemma find_not_dropWhile:
  "find (\<lambda>x. \<not> P x) xs = (case dropWhile P xs of [] \<Rightarrow> None | y # ys \<Rightarrow> Some y)"
  by (induction xs) auto

text \<open>\<^verbatim>\<open>data.get(key, default)\<close>; a block that is not a dictionary has no \<^verbatim>\<open>get\<close>.\<close>

definition get_or :: "json \<Rightarrow> payload \<Rightarrow> string \<Rightarrow> json" where
  "get_or d p k = (case dget p k of None \<Rightarrow> d | Some v \<Rightarrow> v)"

lemma get_or_simps [simp]:
  "get_or x [] k = x"
  "get_or x ((k', v) # d) k = (if k = k' then v else get_or x d k)"
  by (auto simp: get_or_def)

definition get_block :: "payload \<Rightarrow> string \<Rightarrow> payload result" where
  "get_block p k = (case dget p k of None \<Rightarrow> Inr [] | Some (JDict d) \<Rightarrow> Inr d | Some v \<Rightarrow> Inl AttributeError)"

definition bind_r :: "'a result \<Rightarrow> ('a \<Rightarrow> 'b result) \<Rightarrow> 'b result" where
  "bind_r r f = (case r of Inl e \<Rightarrow> Inl e | Inr v \<Rightarrow> f v)"

section \<open>Python strings\<close>

abbreviation startswith :: "string \<Rightarrow> string \<Rightarrow> bool" where
  "startswith s p \<equiv> prefix p s"

text \<open>\<^verbatim>\<open>s.split(c)\<close> for a single character.\<close>

fun py_split :: "char \<Rightarrow> string \<Rightarrow> string list" where
  "py_split c [] = [[]]"
| "py_split c (x # xs) =
     (if x = c then [] # py_split c xs
      else case py_split c xs of [] \<Rightarrow> [[x]] | w # ws \<Rightarrow> (x # w) # ws)"

text \<open>\<^verbatim>\<open>s.strip(c)\<close> for a single character.\<close>

definition py_strip :: "char \<Rightarrow> string \<Rightarrow> string" where
  "py_strip c s = rev (dropWhile (\<lambda>x. x = c) (rev (dropWhile (\<lambda>x. x = c) s)))"

text \<open>\<^verbatim>\<open>s.rpartition(c)\<close>: what precedes and what follows the last \<open>c\<close>; with no
  \<open>c\<close> the first part is empty and the last part is \<open>s\<close>.\<close>

definition py_rpartition :: "char \<Rightarrow> string \<Rightarrow> string \<times> string" where
  "py_rpartition c s =
     (let t = takeWhile (\<lambda>x. x \<noteq> c) (rev s); r = dropWhile (\<lambda>x. x \<noteq> c) (rev s)
      in (rev (tl r), rev t))"

text \<open>\<^verbatim>\<open>sep.join(parts)\<close> for a single character.\<close>

fun py_join :: "char \<Rightarrow> string list \<Rightarrow> string" where
  "py_join c [] = []"
| "py_join c [w] = w"
| "py_join c (w # v # ws) = w @ c # py_join c (v # ws)"

text \<open>\<^verbatim>\<open>s.partition(c)\<close> without the separator; with no \<open>c\<close> the last part is
  empty.\<close>

definition py_partition :: "char \<Rightarrow> string \<Rightarrow> string \<times> string" where
  "py_partition c s = (takeWhile (\<lambda>x. x \<noteq> c) s, tl (dropWhile (\<lambda>x. x \<noteq> c) s))"

text \<open>\<^verbatim>\<open>str.upper\<close>, \<^verbatim>\<open>str.lower\<close> and \<^verbatim>\<open>str.strip()\<close> on ASCII.\<close>

definition upper_char :: "char \<Rightarrow> char" where
  "upper_char c =
     (let n = of_char c :: nat in if 97 \<le> n \<and> n \<le> 122 then char_of (n - 32) else c)"

definition py_upper :: "string \<Rightarrow> string" where
  "py_upper = map upper_char"

definition lower_char :: "char \<Rightarrow> char" where
  "lower_char c =
     (let n = of_char c :: nat in if 65 \<le> n \<and> n \<le> 90 then char_of (n + 32) else c)"

definition py_lower :: "string \<Rightarrow> string" where
  "py_lower = map lower_char"

definition is_space :: "char \<Rightarrow> bool" where
  "is_space c = (let n = of_char c :: nat in 9 \<le> n \<and> n \<le> 13 \<or> 28 \<le> n \<and> n \<le> 32)"

definition py_strip_ws :: "string \<Rightarrow> string" where
  "py_strip_ws s = rev (dropWhile is_space (rev (dropWhile is_space s)))"

definition py_rstrip :: "char \<Rightarrow> string \<Rightarrow> string" where
  "py_rstrip c s = rev (dropWhile (\<lambda>x. x = c) (rev s))"

definition is_ascii :: "string \<Rightarrow> bool" where
  "is_ascii s = list_all (\<lambda>c. (of_char c :: nat) < 128) s"

lemma py_split_nonempty [simp]: "py_split c s \<noteq> []"
  by (cases s) (auto split: list.splits)

lemma py_split_no_sep: "w \<in> set (py_split c s) \<Longrightarrow> c \<notin> set w"
  by (induction s arbitrary: w) (auto split: if_splits list.splits)

lemma py_split_id: "c \<notin> set s \<Longrightarrow> py_split c s = [s]"
  by (induction s) auto

lemma py_split_append: "c \<notin> set w \<Longrightarrow> py_split c (w @ c # s) = w # py_split c s"
  by (induction w) auto

lemma py_split_join:
  "ws \<noteq> [] \<Longrightarrow> \<forall>w \<in> set ws. c \<notin> set w \<Longrightarrow> py_split c (py_join c ws) = ws"
  by (induction c ws rule: py_join.induct) (auto simp: py_split_id py_split_append)

section \<open>Bounded buffers that forget the oldest entry\<close>

text \<open>The last \<open>n\<close> elements.\<close>

definition keep_last :: "nat \<Rightarrow> 'a list \<Rightarrow> 'a list" where
  "keep_last n xs = drop (length xs - n) xs"

lemma length_keep_last [simp]: "length (keep_last n xs) = min n (length xs)"
  by (simp add: keep_last_def)

lemma keep_last_short [simp]: "length xs \<le> n \<Longrightarrow> keep_last n xs = xs"
  by (simp add: keep_last_def)

lemma set_keep_last: "set (keep_last n xs) \<subseteq> set xs"
  by (simp add: keep_last_def set_drop_subset)

lemma distinct_keep_last: "distinct xs \<Longrightarrow> distinct (keep_last n xs)"
  by (simp add: keep_last_def)

lemma keep_last_append: "keep_last n (xs @ ys) = keep_last (n - length ys) xs @ keep_last n ys"
  by (cases "length ys \<le> n") (auto simp: keep_last_def)

lemma keep_last_keep_last_append: "keep_last n (keep_last n xs @ ys) = keep_last n (xs @ ys)"
proof -
  have "keep_last (n - length ys) (keep_last n xs) = keep_last (n - length ys) xs"
    by (cases "length xs \<le> n"; cases "length xs \<le> n - length ys") (auto simp: keep_last_def)
  then show ?thesis by (simp add: keep_last_append)
qed

text \<open>
  The interface of a buffer of capacity \<open>cap\<close>: inserting appends, and drops the oldest entry
  when there is no room. Its clients get the contents after any sequence of insertions.
\<close>

locale drop_oldest =
  fixes cap :: nat
    and put :: "'a \<Rightarrow> 's \<Rightarrow> 's"
    and contents :: "'s \<Rightarrow> 'a list"
    and ok :: "'s \<Rightarrow> bool"
  assumes put_contents: "ok s \<Longrightarrow> contents (put x s) = keep_last cap (contents s @ [x])"
    and put_ok: "ok s \<Longrightarrow> ok (put x s)"
begin

lemma puts_ok: "ok s \<Longrightarrow> ok (fold put xs s)"
  by (induction xs arbitrary: s) (simp_all add: put_ok)

lemma puts_contents: "ok s \<Longrightarrow> length (contents s) \<le> cap \<Longrightarrow> contents (fold put xs s) = keep_last cap (contents s @ xs)"
proof (induction xs arbitrary: s)
  case Nil
  then show ?case by simp
next
  case (Cons x xs)
  have "contents (fold put xs (put x s)) = keep_last cap (keep_last cap (contents s @ [x]) @ xs)"
    using Cons.IH [of "put x s"] Cons.prems by (simp add: put_ok put_contents)
  then show ?case by (simp add: keep_last_keep_last_append)
qed

end

section \<open>Python integers from values\<close>

text \<open>\<^verbatim>\<open>int(v)\<close>: truncation of a float; decimal digits with a sign, surrounding white space and
  single underscores between digits in a string or in bytes.\<close>

definition digit_val :: "char \<Rightarrow> int option" where
  "digit_val c = (let n = of_char c :: nat in if 48 \<le> n \<and> n \<le> 57 then Some (int n - 48) else None)"

fun scan_digits :: "int \<Rightarrow> bool \<Rightarrow> string \<Rightarrow> int option" where
  "scan_digits acc after_digit [] = (if after_digit then Some acc else None)"
| "scan_digits acc after_digit (c # cs) =
     (if c = CHR ''_'' then (if after_digit \<and> cs \<noteq> [] then scan_digits acc False cs else None)
      else case digit_val c of None \<Rightarrow> None | Some v \<Rightarrow> scan_digits (acc * 10 + v) True cs)"

definition int_of_str :: "string \<Rightarrow> int result" where
  "int_of_str s =
     (case (case py_strip_ws s of
              CHR ''-'' # r \<Rightarrow> map_option uminus (scan_digits 0 False r)
            | CHR ''+'' # r \<Rightarrow> scan_digits 0 False r
            | r \<Rightarrow> scan_digits 0 False r)
      of None \<Rightarrow> Inl ValueError | Some i \<Rightarrow> Inr i)"

definition trunc_real :: "real \<Rightarrow> int" where
  "trunc_real x = (if x \<ge> 0 then \<lfloor>x\<rfloor> else \<lceil>x\<rceil>)"

definition int_of_json :: "json \<Rightarrow> int result" where
  "int_of_json v =
     (case v of
        JInt i \<Rightarrow> Inr i
      | JBool b \<Rightarrow> Inr (if b then 1 else 0)
      | JFloat r \<Rightarrow> Inr (trunc_real r)
      | JStr s \<Rightarrow> int_of_str s
      | JBytes s \<Rightarrow> int_of_str s
      | _ \<Rightarrow> Inl TypeError)"

section \<open>State machines with an inductive invariant\<close>

text \<open>
  A component whose operations are a relation on its states, and a predicate that holds at
  the start and that every operation keeps. The reachable states are the reflexive
  transitive closure of the operations from the initial states.
\<close>

locale invariant_machine =
  fixes init :: "'s \<Rightarrow> bool"
    and step :: "'s \<Rightarrow> 's \<Rightarrow> bool"
    and inv :: "'s \<Rightarrow> bool"
  assumes init_inv: "init s \<Longrightarrow> inv s"
    and step_inv: "inv s \<Longrightarrow> step s t \<Longrightarrow> inv t"
begin

lemma steps_inv: "step\<^sup>*\<^sup>* s t \<Longrightarrow> inv s \<Longrightarrow> inv t"
  by (induction rule: rtranclp_induct) (auto intro: step_inv)

lemma reachable_inv: "init s \<Longrightarrow> step\<^sup>*\<^sup>* s t \<Longrightarrow> inv t"
  by (blast intro: steps_inv init_inv)

end

section \<open>Sliding windows of timestamps\<close>

text \<open>
  The restart engine, the evaluation agent and the rate limiter all keep a list of recent
  timestamps and discard the old ones before they count. \<open>live now t\<close> says that
  timestamp \<open>t\<close> still counts at time \<open>now\<close>; a timestamp that has expired stays
  expired. What the interface gives its clients: discarding early loses nothing, so the count
  over the pruned list is the count over the whole history.
\<close>

locale sliding_window =
  fixes live :: "real \<Rightarrow> real \<Rightarrow> bool"
  assumes live_antimono: "now \<le> now' \<Longrightarrow> live now' t \<Longrightarrow> live now t"
begin

fun run :: "real list \<Rightarrow> real list \<Rightarrow> real list" where
  "run w [] = w"
| "run w (t # ts) = run (filter (live t) (w @ [t])) ts"

lemma prune_prune:
  "now \<le> now' \<Longrightarrow> filter (live now') (filter (live now) ts) = filter (live now') ts"
  by (induction ts) (auto dest: live_antimono)

lemma run_snoc: "run w (ts @ [t]) = filter (live t) (run w ts @ [t])"
  by (induction ts arbitrary: w) auto

lemma run_history:
  "sorted (ts @ [t]) \<Longrightarrow> run w (ts @ [t]) = filter (live t) (w @ ts @ [t])"
proof (induction ts arbitrary: t rule: rev_induct)
  case Nil
  show ?case by simp
next
  case (snoc u ts)
  from snoc.prems have u: "u \<le> t" and srt: "sorted (ts @ [u])"
    by (auto simp: sorted_append)
  have "run w ((ts @ [u]) @ [t]) = filter (live t) (run w (ts @ [u]) @ [t])"
    by (rule run_snoc)
  also have "run w (ts @ [u]) = filter (live u) (w @ ts @ [u])"
    by (rule snoc.IH [OF srt])
  finally show ?case
    by (simp only: filter_append prune_prune [OF u] append_assoc)
qed

end

section \<open>Limits on events per window\<close>

text \<open>
  Serving a sequence of timed requests with an operation that grants or refuses each of them, and
  the times at which a key was granted.
\<close>

fun serve :: "(real \<Rightarrow> 'k \<Rightarrow> 'st \<Rightarrow> bool \<times> 'st) \<Rightarrow> (real \<times> 'k) list \<Rightarrow> 'st \<Rightarrow> (real \<times> 'k \<times> bool) list \<times> 'st" where
  "serve acquire [] st = ([], st)"
| "serve acquire ((now, k) # rs) st =
     (case acquire now k st of (ok, st1) \<Rightarrow>
        (case serve acquire rs st1 of (hist, st2) \<Rightarrow> ((now, k, ok) # hist, st2)))"

definition granted :: "'k \<Rightarrow> (real \<times> 'k \<times> bool) list \<Rightarrow> real list" where
  "granted k hist = map fst (filter (\<lambda>(t, k', ok). k' = k \<and> ok) hist)"

lemma granted_Nil [simp]: "granted k [] = []"
  by (simp add: granted_def)

lemma granted_Cons [simp]: "granted k ((t, k', ok) # hist) = (if k' = k \<and> ok then t # granted k hist else granted k hist)"
  by (simp add: granted_def)

text \<open>
  The interface of a limiter: it grants a request when fewer than \<open>limit\<close> of the grants it
  remembers for that key are live, and remembers the live ones and the new one. Its clients get the
  meaning over the whole history: a decision counts exactly the grants inside the window, and there
  are never more than \<open>limit\<close> of them, whatever the other keys do.
\<close>

locale window_limiter = sliding_window live for live :: "real \<Rightarrow> real \<Rightarrow> bool" +
  fixes limit :: int
    and acquire :: "real \<Rightarrow> 'k \<Rightarrow> 'st \<Rightarrow> bool \<times> 'st"
    and hits :: "'st \<Rightarrow> 'k \<Rightarrow> real list"
  assumes acquire_grants: "fst (acquire now k st) \<longleftrightarrow> int (length (filter (live now) (hits st k))) < limit"
    and acquire_hits: "hits (snd (acquire now k st)) k' =
      (if k' = k then filter (live now) (hits st k) @ (if fst (acquire now k st) then [now] else []) else hits st k')"
begin

lemma serve_hits:
  "sorted (map fst rs @ [now]) \<Longrightarrow>
   filter (live now) (hits (snd (serve acquire rs st)) k) = filter (live now) (hits st k @ granted k (fst (serve acquire rs st)))"
proof (induction rs arbitrary: st)
  case Nil
  show ?case by simp
next
  case (Cons r rs)
  obtain t k' where r: "r = (t, k')" by (cases r)
  obtain ok st1 where tk: "acquire t k' st = (ok, st1)" by (cases "acquire t k' st")
  obtain hist st2 where sv: "serve acquire rs st1 = (hist, st2)" by (cases "serve acquire rs st1")
  have le: "t \<le> now" using Cons.prems by (simp add: r)
  have h1: "hits st1 k = (if k = k' then filter (live t) (hits st k') @ (if ok then [t] else []) else hits st k)"
    using acquire_hits [of t k' st k] by (simp add: tk)
  have "filter (live now) (hits st2 k) = filter (live now) (hits st1 k @ granted k hist)"
    using Cons.IH [of st1] Cons.prems by (simp add: sv)
  then show ?case
    using prune_prune [OF le, of "hits st k'"] by (auto simp: r tk sv h1 simp del: filter_filter)
qed

lemma decision_counts_history:
  "sorted (map fst rs @ [now]) \<Longrightarrow> hits st k = [] \<Longrightarrow>
   fst (acquire now k (snd (serve acquire rs st)))
     \<longleftrightarrow> int (length (filter (live now) (granted k (fst (serve acquire rs st))))) < limit"
  by (simp add: acquire_grants serve_hits)

lemma hits_bounded:
  "0 \<le> limit \<Longrightarrow> int (length (hits st k)) \<le> limit \<Longrightarrow> int (length (hits (snd (serve acquire rs st)) k)) \<le> limit"
proof (induction rs arbitrary: st)
  case Nil
  then show ?case by simp
next
  case (Cons r rs)
  obtain t k' where r: "r = (t, k')" by (cases r)
  obtain ok st1 where tk: "acquire t k' st = (ok, st1)" by (cases "acquire t k' st")
  have "int (length (filter (live t) (hits st k))) \<le> limit"
    using Cons.prems(2) length_filter_le [of "live t" "hits st k"] by linarith
  then have "int (length (hits st1 k)) \<le> limit"
    using acquire_hits [of t k' st k] acquire_grants [of t k' st] Cons.prems by (auto simp: tk)
  with Cons.IH [of st1] Cons.prems(1) show ?case by (cases "serve acquire rs st1") (simp add: r tk)
qed

lemma grants_bounded:
  assumes "0 \<le> limit" "hits st k = []" "sorted (map fst rs @ [now])"
  shows "int (length (filter (live now) (granted k (fst (serve acquire rs st))))) \<le> limit"
proof -
  have "filter (live now) (granted k (fst (serve acquire rs st))) = filter (live now) (hits (snd (serve acquire rs st)) k)"
    using serve_hits [OF assms(3), of st k] assms(2) by simp
  then show ?thesis
    using hits_bounded [of st k rs] assms(1,2) length_filter_le [of "live now" "hits (snd (serve acquire rs st)) k"]
    by (metis list.size(3) of_nat_0 of_nat_le_iff order_trans)
qed

end

end
