(* ===== verification/Messages.thy ===== *)
theory Messages
  imports Civitas_Prelude "HOL-Library.Char_ord" "HOL-Library.List_Lexorder"
begin

unbundle bit_operations_syntax

text \<open>
  \<^verbatim>\<open>src/civitas/messages.py\<close>: the message envelope, its dictionary form, the reserved
  message types and the time-sortable identifiers of \<^verbatim>\<open>_uuid7\<close>. The clock and the
  random bytes of \<^verbatim>\<open>os.urandom\<close> are arguments. Payloads are JSON values, so the check of
  \<^verbatim>\<open>__post_init__\<close> that a payload can be dumped is not repeated.
\<close>

section \<open>The envelope\<close>

record message =
  m_id :: string
  m_type :: string
  m_sender :: string
  m_recipient :: string
  m_correlation_id :: "string option"
  m_reply_to :: "string option"
  m_payload :: payload
  m_timestamp :: real
  m_trace_id :: string
  m_span_id :: string
  m_parent_span_id :: "string option"
  m_attempt :: int
  m_priority :: int
  m_ttl :: "real option"
  m_seq :: "int option"

text \<open>The constructor with every default; \<open>fid\<close> is the fresh \<^verbatim>\<open>_uuid7()\<close> and
  \<open>now\<close> the clock.\<close>

definition default_message :: "string \<Rightarrow> real \<Rightarrow> message" where
  "default_message fid now =
     \<lparr>m_id = fid, m_type = ''message'', m_sender = '''', m_recipient = '''',
      m_correlation_id = None, m_reply_to = None, m_payload = [], m_timestamp = now,
      m_trace_id = '''', m_span_id = '''', m_parent_span_id = None, m_attempt = 0,
      m_priority = 0, m_ttl = None, m_seq = None\<rparr>"

text \<open>\<^verbatim>\<open>original.reply_to or original.sender\<close>: the empty string is falsy.\<close>

definition reply_address :: "message \<Rightarrow> string" where
  "reply_address m =
     (case m_reply_to m of Some r \<Rightarrow> if r = '''' then m_sender m else r | None \<Rightarrow> m_sender m)"

section \<open>The dictionary form\<close>

definition jopt_str :: "string option \<Rightarrow> json" where
  "jopt_str x = (case x of None \<Rightarrow> JNull | Some s \<Rightarrow> JStr s)"

definition jopt_float :: "real option \<Rightarrow> json" where
  "jopt_float x = (case x of None \<Rightarrow> JNull | Some r \<Rightarrow> JFloat r)"

definition jopt_int :: "int option \<Rightarrow> json" where
  "jopt_int x = (case x of None \<Rightarrow> JNull | Some i \<Rightarrow> JInt i)"

definition to_dict :: "message \<Rightarrow> payload" where
  "to_dict m =
     [(''schema_version'', JInt 1),
      (''id'', JStr (m_id m)),
      (''type'', JStr (m_type m)),
      (''sender'', JStr (m_sender m)),
      (''recipient'', JStr (m_recipient m)),
      (''correlation_id'', jopt_str (m_correlation_id m)),
      (''reply_to'', jopt_str (m_reply_to m)),
      (''payload'', JDict (m_payload m)),
      (''timestamp'', JFloat (m_timestamp m)),
      (''trace_id'', JStr (m_trace_id m)),
      (''span_id'', JStr (m_span_id m)),
      (''parent_span_id'', jopt_str (m_parent_span_id m)),
      (''attempt'', JInt (m_attempt m)),
      (''priority'', JInt (m_priority m)),
      (''ttl'', jopt_float (m_ttl m)),
      (''seq'', jopt_int (m_seq m))]"

definition MESSAGE_FIELDS :: "string list" where
  "MESSAGE_FIELDS =
     [''id'', ''type'', ''sender'', ''recipient'', ''correlation_id'', ''reply_to'',
      ''payload'', ''timestamp'', ''trace_id'', ''span_id'', ''parent_span_id'',
      ''attempt'', ''priority'', ''ttl'', ''seq'']"

text \<open>
  The dataclass constructor assigns one field per keyword and does not check its type; a
  value of a type the envelope does not declare is outside the model (\<^const>\<open>None\<close>).
\<close>

definition set_field :: "string \<Rightarrow> json \<Rightarrow> message \<Rightarrow> message option" where
  "set_field k v m =
     (if k = ''id'' then (case v of JStr s \<Rightarrow> Some (m\<lparr>m_id := s\<rparr>) | _ \<Rightarrow> None)
      else if k = ''type'' then (case v of JStr s \<Rightarrow> Some (m\<lparr>m_type := s\<rparr>) | _ \<Rightarrow> None)
      else if k = ''sender'' then (case v of JStr s \<Rightarrow> Some (m\<lparr>m_sender := s\<rparr>) | _ \<Rightarrow> None)
      else if k = ''recipient'' then (case v of JStr s \<Rightarrow> Some (m\<lparr>m_recipient := s\<rparr>) | _ \<Rightarrow> None)
      else if k = ''correlation_id'' then
        (case v of JStr s \<Rightarrow> Some (m\<lparr>m_correlation_id := Some s\<rparr>)
                 | JNull \<Rightarrow> Some (m\<lparr>m_correlation_id := None\<rparr>) | _ \<Rightarrow> None)
      else if k = ''reply_to'' then
        (case v of JStr s \<Rightarrow> Some (m\<lparr>m_reply_to := Some s\<rparr>)
                 | JNull \<Rightarrow> Some (m\<lparr>m_reply_to := None\<rparr>) | _ \<Rightarrow> None)
      else if k = ''payload'' then (case v of JDict d \<Rightarrow> Some (m\<lparr>m_payload := d\<rparr>) | _ \<Rightarrow> None)
      else if k = ''timestamp'' then
        (case v of JFloat r \<Rightarrow> Some (m\<lparr>m_timestamp := r\<rparr>)
                 | JInt i \<Rightarrow> Some (m\<lparr>m_timestamp := real_of_int i\<rparr>) | _ \<Rightarrow> None)
      else if k = ''trace_id'' then (case v of JStr s \<Rightarrow> Some (m\<lparr>m_trace_id := s\<rparr>) | _ \<Rightarrow> None)
      else if k = ''span_id'' then (case v of JStr s \<Rightarrow> Some (m\<lparr>m_span_id := s\<rparr>) | _ \<Rightarrow> None)
      else if k = ''parent_span_id'' then
        (case v of JStr s \<Rightarrow> Some (m\<lparr>m_parent_span_id := Some s\<rparr>)
                 | JNull \<Rightarrow> Some (m\<lparr>m_parent_span_id := None\<rparr>) | _ \<Rightarrow> None)
      else if k = ''attempt'' then (case v of JInt i \<Rightarrow> Some (m\<lparr>m_attempt := i\<rparr>) | _ \<Rightarrow> None)
      else if k = ''priority'' then (case v of JInt i \<Rightarrow> Some (m\<lparr>m_priority := i\<rparr>) | _ \<Rightarrow> None)
      else if k = ''ttl'' then
        (case v of JFloat r \<Rightarrow> Some (m\<lparr>m_ttl := Some r\<rparr>)
                 | JInt i \<Rightarrow> Some (m\<lparr>m_ttl := Some (real_of_int i)\<rparr>)
                 | JNull \<Rightarrow> Some (m\<lparr>m_ttl := None\<rparr>) | _ \<Rightarrow> None)
      else if k = ''seq'' then
        (case v of JInt i \<Rightarrow> Some (m\<lparr>m_seq := Some i\<rparr>)
                 | JNull \<Rightarrow> Some (m\<lparr>m_seq := None\<rparr>) | _ \<Rightarrow> None)
      else Some m)"

fun set_fields :: "payload \<Rightarrow> message \<Rightarrow> message option" where
  "set_fields [] m = Some m"
| "set_fields ((k, v) # d) m =
     (case set_field k v m of None \<Rightarrow> None | Some m' \<Rightarrow> set_fields d m')"

definition from_dict :: "string \<Rightarrow> real \<Rightarrow> payload \<Rightarrow> message option" where
  "from_dict fid now d =
     set_fields (filter (\<lambda>(k, v). k \<in> set MESSAGE_FIELDS) d) (default_message fid now)"

lemma from_dict_to_dict: "from_dict fid now (to_dict m) = Some m"
  by (simp add: from_dict_def to_dict_def MESSAGE_FIELDS_def set_field_def jopt_str_def
      jopt_float_def jopt_int_def default_message_def split: option.splits)

lemma from_dict_unknown_key:
  "k \<notin> set MESSAGE_FIELDS \<Longrightarrow> from_dict fid now (xs @ (k, v) # ys) = from_dict fid now (xs @ ys)"
  by (simp add: from_dict_def)

section \<open>Reserved message types\<close>

definition SYSTEM_MESSAGE_TYPES :: "string list" where
  "SYSTEM_MESSAGE_TYPES =
     [''_agency.heartbeat'', ''_agency.heartbeat_ack'', ''_agency.health_probe'',
      ''_agency.health_ack'', ''_agency.shutdown'', ''_agency.restart'',
      ''_agency.register'', ''_agency.deregister'', ''_agency.suspend'',
      ''_agency.resume'', ''_agency.force_restart'', ''_agency.child_crashed'']"

definition STREAM_MESSAGE_TYPES :: "string list" where
  "STREAM_MESSAGE_TYPES =
     [''civitas.stream.chunk'', ''civitas.stream.end'', ''civitas.stream.error'',
      ''civitas.stream.cancel'', ''civitas.stream.credit'']"

section \<open>Time-sortable identifiers\<close>

fun from_bytes_big :: "int \<Rightarrow> int list \<Rightarrow> int" where
  "from_bytes_big acc [] = acc"
| "from_bytes_big acc (b # bs) = from_bytes_big (acc * 256 + b) bs"

definition uuid7_int :: "int \<Rightarrow> int list \<Rightarrow> int" where
  "uuid7_int timestamp_ms rand_bytes =
     (let u = timestamp_ms AND (push_bit 48 1 - 1);
          u = push_bit 4 u;
          u = u OR 7;
          u = push_bit 12 u;
          u = u OR (from_bytes_big 0 (take 2 rand_bytes) AND 4095);
          u = push_bit 2 u;
          u = u OR 2;
          u = push_bit 62 u
      in u OR (from_bytes_big 0 (drop 2 rand_bytes) AND (push_bit 62 1 - 1)))"

definition hexdigit :: "int \<Rightarrow> char" where
  "hexdigit d = ''0123456789abcdef'' ! nat d"

text \<open>\<^verbatim>\<open>f"{n:0wx}"\<close> for \<open>0 \<le> n < 16 ^ w\<close>.\<close>

fun hex_fixed :: "nat \<Rightarrow> int \<Rightarrow> string" where
  "hex_fixed 0 n = []"
| "hex_fixed (Suc w) n = hex_fixed w (n div 16) @ [hexdigit (n mod 16)]"

definition uuid7 :: "int \<Rightarrow> int list \<Rightarrow> string" where
  "uuid7 timestamp_ms rand_bytes =
     (let h = hex_fixed 32 (uuid7_int timestamp_ms rand_bytes)
      in take 8 h @ ''-'' @ take 4 (drop 8 h) @ ''-'' @ take 4 (drop 12 h) @ ''-''
         @ take 4 (drop 16 h) @ ''-'' @ drop 20 h)"


subsection \<open>The bit layout\<close>

lemma push_bit_or_eq_add:
  fixes l y :: int
  assumes "0 \<le> y" and "y < 2 ^ n"
  shows "push_bit n l OR y = l * 2 ^ n + y"
proof -
  have y: "take_bit n y = y"
    using assms by (simp add: take_bit_int_eq_self)
  have "push_bit n l OR y = concat_bit n y l"
    by (simp add: concat_bit_def y or.commute)
  also have "\<dots> = l * 2 ^ n + y"
    by (simp add: concat_bit_eq y push_bit_eq_mult)
  finally show ?thesis .
qed

lemma and_mask_bounds:
  fixes x :: int
  shows "0 \<le> x AND (2 ^ n - 1)" and "x AND (2 ^ n - 1) < 2 ^ n"
proof -
  have "x AND (2 ^ n - 1) = take_bit n x"
    by (simp add: take_bit_eq_mask mask_eq_exp_minus_1)
  then show "0 \<le> x AND (2 ^ n - 1)" and "x AND (2 ^ n - 1) < 2 ^ n"
    by simp_all
qed

text \<open>48 bits of timestamp, the version, 12 random bits, the variant and 62 random bits.\<close>

lemma uuid7_int_layout:
  "\<exists>a b. 0 \<le> a \<and> a < 2 ^ 12 \<and> 0 \<le> b \<and> b < 2 ^ 62 \<and>
     uuid7_int ts rnd = ((((ts mod 2 ^ 48) * 2 ^ 4 + 7) * 2 ^ 12 + a) * 2 ^ 2 + 2) * 2 ^ 62 + b"
proof -
  let ?a = "from_bytes_big 0 (take 2 rnd) AND (2 ^ 12 - 1)"
  let ?b = "from_bytes_big 0 (drop 2 rnd) AND (2 ^ 62 - 1)"
  have t: "ts AND (push_bit 48 1 - 1) = ts mod 2 ^ 48"
    by (simp only: push_bit_eq_mult mult_1 mask_eq_exp_minus_1 [symmetric]
        take_bit_eq_mask [symmetric] take_bit_eq_mod)
  have a: "from_bytes_big 0 (take 2 rnd) AND 4095 = ?a" by simp
  have b: "from_bytes_big 0 (drop 2 rnd) AND (push_bit 62 1 - 1) = ?b"
    by (simp add: push_bit_eq_mult)
  have "uuid7_int ts rnd = ((((ts mod 2 ^ 48) * 2 ^ 4 + 7) * 2 ^ 12 + ?a) * 2 ^ 2 + 2) * 2 ^ 62 + ?b"
    unfolding uuid7_int_def Let_def t a b
    by (simp only: push_bit_or_eq_add and_mask_bounds) (simp add: push_bit_or_eq_add)
  then show ?thesis
    using and_mask_bounds [of "from_bytes_big 0 (take 2 rnd)" 12]
      and_mask_bounds [of "from_bytes_big 0 (drop 2 rnd)" 62]
    by blast
qed

subsection \<open>Fixed-width hexadecimal\<close>

lemma length_hex_fixed [simp]: "length (hex_fixed w n) = w"
  by (induction w arbitrary: n) simp_all

lemma hex_fixed_append: "hex_fixed (a + b) n = hex_fixed a (n div 16 ^ b) @ hex_fixed b n"
proof (induction b arbitrary: n)
  case 0
  show ?case by simp
next
  case (Suc b)
  have "n div 16 div 16 ^ b = n div 16 ^ Suc b"
    by (simp add: zdiv_zmult2_eq)
  with Suc show ?case by simp
qed

lemma hexdigit_less:
  assumes "0 \<le> c" and "c < d" and "d < 16"
  shows "hexdigit c < hexdigit d"
proof -
  have "c \<in> {0, 1, 2, 3, 4, 5, 6, 7, 8, 9, 10, 11, 12, 13, 14, 15}"
    and "d \<in> {0, 1, 2, 3, 4, 5, 6, 7, 8, 9, 10, 11, 12, 13, 14, 15}"
    using assms by (simp_all, presburger+)
  with assms(2) show ?thesis
    by (auto simp: hexdigit_def less_char_def)
qed

lemma string_less_append:
  fixes s t :: string
  shows "length s = length t \<Longrightarrow> s < t \<Longrightarrow> s @ x < t @ y"
  by (induction s t rule: list_induct2) auto

lemma string_append_less:
  fixes s :: string
  shows "x < y \<Longrightarrow> s @ x < s @ y"
  by (induction s) auto

lemma hex_fixed_less:
  assumes "0 \<le> m" and "m < n" and "n < 16 ^ w"
  shows "hex_fixed w m < hex_fixed w n"
  using assms
proof (induction w arbitrary: m n)
  case 0
  then show ?case by simp
next
  case (Suc w)
  have le: "m div 16 \<le> n div 16" using Suc.prems by (simp add: zdiv_mono1)
  show ?case
  proof (cases "m div 16 = n div 16")
    case True
    then have "m mod 16 < n mod 16"
      using Suc.prems(2) by (metis add_less_cancel_left mult_div_mod_eq)
    then have "hexdigit (m mod 16) < hexdigit (n mod 16)"
      by (intro hexdigit_less) simp_all
    then show ?thesis using True by (simp add: string_append_less)
  next
    case False
    have "n div 16 < 16 ^ w" using Suc.prems by auto
    then have "hex_fixed w (m div 16) < hex_fixed w (n div 16)"
      using False le Suc.prems by (intro Suc.IH) auto
    then show ?thesis by (simp add: string_less_append)
  qed
qed

lemma uuid7_prefix:
  assumes "0 \<le> ts" and "ts < 2 ^ 48"
  obtains rest where "uuid7 ts rnd = hex_fixed 8 (ts div 16 ^ 4) @ ''-'' @ hex_fixed 4 ts @ rest"
proof -
  obtain a b where ab: "0 \<le> a" "a < 2 ^ 12" "0 \<le> b" "b < (2 ^ 62 :: int)"
    and u: "uuid7_int ts rnd = ((((ts mod 2 ^ 48) * 2 ^ 4 + 7) * 2 ^ 12 + a) * 2 ^ 2 + 2) * 2 ^ 62 + b"
    using uuid7_int_layout by blast
  have top: "uuid7_int ts rnd div 16 ^ 20 = ts"
    using ab assms by (simp add: u)
  have h: "hex_fixed 32 (uuid7_int ts rnd) =
      (hex_fixed 8 (ts div 16 ^ 4) @ hex_fixed 4 ts) @ hex_fixed 20 (uuid7_int ts rnd)"
    using hex_fixed_append [of 12 20 "uuid7_int ts rnd", unfolded top] hex_fixed_append [of 8 4 ts]
    by simp
  show ?thesis
    by (rule that) (simp only: uuid7_def Let_def h, simp)
qed

section \<open>Properties\<close>

text \<open>An envelope survives its dictionary form: \<^verbatim>\<open>from_dict(to_dict(m))\<close> is \<open>m\<close>,
  whatever unknown keys a newer sender added anywhere in the dictionary.\<close>

theorem envelope_roundtrip:
  "from_dict fid now
     (filter (\<lambda>(k, v). k \<notin> set MESSAGE_FIELDS) junk1 @ to_dict m @
      filter (\<lambda>(k, v). k \<notin> set MESSAGE_FIELDS) junk2) = Some m"
proof -
  have "filter (\<lambda>(k, v). k \<in> set MESSAGE_FIELDS) (filter (\<lambda>(k, v). k \<notin> set MESSAGE_FIELDS) j) = []"
    for j :: payload
    by (induction j) auto
  then show ?thesis
    using from_dict_to_dict [of fid now m] by (simp add: from_dict_def)
qed

text \<open>Identifiers are time-sortable: as long as the millisecond clock fits its 48 bits, an
  identifier minted in an earlier millisecond is a smaller string, whatever the random bytes.\<close>

theorem uuid7_time_sortable:
  assumes "0 \<le> ts" and "ts < ts'" and "ts' < 2 ^ 48"
  shows "uuid7 ts rnd < uuid7 ts' rnd'"
proof -
  from assms have "0 \<le> ts'" and "ts < 2 ^ 48" by simp_all
  obtain r where u: "uuid7 ts rnd = hex_fixed 8 (ts div 16 ^ 4) @ ''-'' @ hex_fixed 4 ts @ r"
    using uuid7_prefix [OF assms(1) \<open>ts < 2 ^ 48\<close>] .
  obtain r' where u': "uuid7 ts' rnd' = hex_fixed 8 (ts' div 16 ^ 4) @ ''-'' @ hex_fixed 4 ts' @ r'"
    using uuid7_prefix [OF \<open>0 \<le> ts'\<close> assms(3)] .
  have "hex_fixed 12 ts < hex_fixed 12 ts'"
    using assms by (intro hex_fixed_less) simp_all
  then have lt: "hex_fixed 8 (ts div 16 ^ 4) @ hex_fixed 4 ts
      < hex_fixed 8 (ts' div 16 ^ 4) @ hex_fixed 4 ts'"
    using hex_fixed_append [of 8 4 ts] hex_fixed_append [of 8 4 ts'] by simp
  have dash: "p @ q < p' @ q' \<Longrightarrow> p @ ''-'' @ q @ r < p' @ ''-'' @ q' @ r'"
    if "length p = length p'" and "length q = length q'" for p p' q q' :: string
    using that by (induction p p' rule: list_induct2) (auto intro: string_less_append)
  show ?thesis
    unfolding u u' by (rule dash [OF _ _ lt]) simp_all
qed

theorem uuid7_time_sortable_witness:
  "uuid7 1 [255, 255, 255, 255, 255, 255, 255, 255, 255, 255] < uuid7 2 [0, 0, 0, 0, 0, 0, 0, 0, 0, 0]"
  by (rule uuid7_time_sortable) simp_all

end
