(* ===== verification/Mailbox.thy ===== *)
theory Mailbox
  imports Messages "HOL-Library.Multiset"
begin

text \<open>
  The class \<^verbatim>\<open>Mailbox\<close> of \<^verbatim>\<open>src/civitas/process.py\<close>: two bounded FIFO queues, one
  for control messages (priority above zero) and one for business messages, with expiry of
  messages whose time to live has elapsed. A \<^verbatim>\<open>put\<close> on a full queue waits, which is
  \<^const>\<open>None\<close>; a \<^verbatim>\<open>get\<close> on an empty mailbox waits, which is the first component
  \<^const>\<open>None\<close>. The clock is read once per call: no \<^verbatim>\<open>await\<close> separates the checks of
  one sweep.
\<close>

section \<open>State and operations\<close>

record mailbox =
  mb_queue :: "message list"
  mb_priority_queue :: "message list"
  mb_maxsize :: int
  mb_priority_maxsize :: int
  mb_notify :: bool

definition new_mailbox :: "int \<Rightarrow> int \<Rightarrow> mailbox" where
  "new_mailbox maxsize priority_maxsize =
     \<lparr>mb_queue = [], mb_priority_queue = [], mb_maxsize = maxsize,
      mb_priority_maxsize = priority_maxsize, mb_notify = False\<rparr>"

text \<open>\<^verbatim>\<open>asyncio.Queue.full()\<close>: a maximal size of zero or less means unbounded.\<close>

definition q_full :: "int \<Rightarrow> message list \<Rightarrow> bool" where
  "q_full ms q \<longleftrightarrow> 0 < ms \<and> ms \<le> int (length q)"

definition mb_put :: "message \<Rightarrow> mailbox \<Rightarrow> mailbox option" where
  "mb_put m mb =
     (if 0 < m_priority m then
        (if q_full (mb_priority_maxsize mb) (mb_priority_queue mb) then None
         else Some (mb\<lparr>mb_priority_queue := mb_priority_queue mb @ [m], mb_notify := True\<rparr>))
      else
        (if q_full (mb_maxsize mb) (mb_queue mb) then None
         else Some (mb\<lparr>mb_queue := mb_queue mb @ [m], mb_notify := True\<rparr>)))"

definition mb_put_nowait :: "message \<Rightarrow> mailbox \<Rightarrow> mailbox result" where
  "mb_put_nowait m mb =
     (if q_full (mb_priority_maxsize mb) (mb_priority_queue mb) then Inl QueueFull
      else Inr (mb\<lparr>mb_priority_queue := mb_priority_queue mb @ [m], mb_notify := True\<rparr>))"

definition drop_if_expired :: "real \<Rightarrow> message \<Rightarrow> bool" where
  "drop_if_expired now m =
     (case m_ttl m of None \<Rightarrow> False | Some ttl \<Rightarrow> m_timestamp m + ttl < now)"

function mb_get :: "real \<Rightarrow> mailbox \<Rightarrow> message option \<times> mailbox" where
  "mb_get now mb =
     (case mb_priority_queue mb of
        m # ps \<Rightarrow>
          (let mb' = mb\<lparr>mb_priority_queue := ps\<rparr>
           in if drop_if_expired now m then mb_get now mb' else (Some m, mb'))
      | [] \<Rightarrow>
          (case mb_queue mb of
             m # qs \<Rightarrow>
               (let mb' = mb\<lparr>mb_queue := qs\<rparr>
                in if drop_if_expired now m then mb_get now mb' else (Some m, mb'))
           | [] \<Rightarrow> (None, mb\<lparr>mb_notify := False\<rparr>)))"
  by pat_completeness auto
termination
  by (relation "measure (\<lambda>(now, mb). length (mb_priority_queue mb) + length (mb_queue mb))") auto

function mb_get_priority :: "real \<Rightarrow> mailbox \<Rightarrow> message option \<times> mailbox" where
  "mb_get_priority now mb =
     (case mb_priority_queue mb of
        m # ps \<Rightarrow>
          (let mb' = mb\<lparr>mb_priority_queue := ps\<rparr>
           in if drop_if_expired now m then mb_get_priority now mb' else (Some m, mb'))
      | [] \<Rightarrow> (None, mb\<lparr>mb_notify := False\<rparr>))"
  by pat_completeness auto
termination
  by (relation "measure (\<lambda>(now, mb). length (mb_priority_queue mb))") auto

declare mb_get.simps [simp del] mb_get_priority.simps [simp del]

definition mb_empty :: "mailbox \<Rightarrow> bool" where
  "mb_empty mb \<longleftrightarrow> mb_priority_queue mb = [] \<and> mb_queue mb = []"

definition mb_depth :: "mailbox \<Rightarrow> nat" where
  "mb_depth mb = length (mb_priority_queue mb) + length (mb_queue mb)"

definition mb_peek :: "mailbox \<Rightarrow> message list" where
  "mb_peek mb = mb_priority_queue mb @ mb_queue mb"

definition mb_drain :: "mailbox \<Rightarrow> message list \<times> mailbox" where
  "mb_drain mb =
     (mb_priority_queue mb @ mb_queue mb, mb\<lparr>mb_priority_queue := [], mb_queue := []\<rparr>)"

text \<open>The loop \<^verbatim>\<open>for message in ...: await put(message)\<close>; it stops at a put that waits.\<close>

fun mb_put_all :: "message list \<Rightarrow> mailbox \<Rightarrow> mailbox option" where
  "mb_put_all [] mb = Some mb"
| "mb_put_all (m # ms) mb = (case mb_put m mb of None \<Rightarrow> None | Some mb' \<Rightarrow> mb_put_all ms mb')"

text \<open>\<^verbatim>\<open>_transfer_mailbox\<close> of \<^verbatim>\<open>src/civitas/supervisor.py\<close>.\<close>

definition transfer_mailbox :: "mailbox \<Rightarrow> mailbox \<Rightarrow> (mailbox \<times> mailbox) option" where
  "transfer_mailbox old new =
     (case mb_drain old of (ms, old') \<Rightarrow>
        (case mb_put_all ms new of None \<Rightarrow> None | Some new' \<Rightarrow> Some (old', new')))"

section \<open>Invariant\<close>

text \<open>Each queue holds messages of its own class, within its bound.\<close>

definition mailbox_ok :: "mailbox \<Rightarrow> bool" where
  "mailbox_ok mb \<longleftrightarrow>
     (\<forall>m \<in> set (mb_priority_queue mb). 0 < m_priority m) \<and>
     (\<forall>m \<in> set (mb_queue mb). m_priority m \<le> 0) \<and>
     (0 < mb_priority_maxsize mb \<longrightarrow> int (length (mb_priority_queue mb)) \<le> mb_priority_maxsize mb) \<and>
     (0 < mb_maxsize mb \<longrightarrow> int (length (mb_queue mb)) \<le> mb_maxsize mb)"

lemma mailbox_ok_new: "mailbox_ok (new_mailbox a b)"
  by (simp add: mailbox_ok_def new_mailbox_def)

lemma mailbox_ok_put: "mailbox_ok mb \<Longrightarrow> mb_put m mb = Some mb' \<Longrightarrow> mailbox_ok mb'"
  by (auto simp: mailbox_ok_def mb_put_def q_full_def split: if_splits)

lemma mailbox_ok_put_nowait:
  "mailbox_ok mb \<Longrightarrow> 0 < m_priority m \<Longrightarrow> mb_put_nowait m mb = Inr mb' \<Longrightarrow> mailbox_ok mb'"
  by (auto simp: mailbox_ok_def mb_put_nowait_def q_full_def split: if_splits)

lemma mailbox_ok_drain: "mailbox_ok mb \<Longrightarrow> mailbox_ok (snd (mb_drain mb))"
  by (simp add: mailbox_ok_def mb_drain_def)

section \<open>What a sweep returns\<close>

lemma mb_get_eq:
  "mb_get now mb =
     (case dropWhile (drop_if_expired now) (mb_priority_queue mb) of
        m # ps \<Rightarrow> (Some m, mb\<lparr>mb_priority_queue := ps\<rparr>)
      | [] \<Rightarrow>
          (case dropWhile (drop_if_expired now) (mb_queue mb) of
             m # qs \<Rightarrow> (Some m, mb\<lparr>mb_priority_queue := [], mb_queue := qs\<rparr>)
           | [] \<Rightarrow> (None, mb\<lparr>mb_priority_queue := [], mb_queue := [], mb_notify := False\<rparr>)))"
proof (induction now mb rule: mb_get.induct)
  case (1 now mb)
  show ?case
  proof (cases "mb_priority_queue mb")
    case Nil
    then show ?thesis using 1
      by (cases "mb_queue mb")
         (auto simp: mb_get.simps [of now mb] Let_def simp del: dropWhile_eq_Nil_conv
           split: list.splits)
  next
    case (Cons m ps)
    then show ?thesis using 1
      by (auto simp: mb_get.simps [of now mb] Let_def simp del: dropWhile_eq_Nil_conv
           split: list.splits)
  qed
qed

lemma mb_get_priority_eq:
  "mb_get_priority now mb =
     (case dropWhile (drop_if_expired now) (mb_priority_queue mb) of
        m # ps \<Rightarrow> (Some m, mb\<lparr>mb_priority_queue := ps\<rparr>)
      | [] \<Rightarrow> (None, mb\<lparr>mb_priority_queue := [], mb_notify := False\<rparr>))"
proof (induction now mb rule: mb_get_priority.induct)
  case (1 now mb)
  then show ?case
    by (cases "mb_priority_queue mb")
       (auto simp: mb_get_priority.simps [of now mb] Let_def simp del: dropWhile_eq_Nil_conv
         split: list.splits)
qed

section \<open>The interface of a two-class buffer\<close>

text \<open>
  What restart code relies on when it carries messages from one mailbox to the next: puts
  append to the queue of the message's class, a buffer with room accepts, and a drain yields
  the high class before the low one.
\<close>

locale two_class_buffer =
  fixes put :: "'m \<Rightarrow> 'b \<Rightarrow> 'b option"
    and high :: "'m \<Rightarrow> bool"
    and highs :: "'b \<Rightarrow> 'm list"
    and lows :: "'b \<Rightarrow> 'm list"
    and ok :: "'b \<Rightarrow> bool"
    and room :: "'b \<Rightarrow> nat \<Rightarrow> nat \<Rightarrow> bool"
  assumes classes: "ok b \<Longrightarrow> (\<forall>m \<in> set (highs b). high m) \<and> (\<forall>m \<in> set (lows b). \<not> high m)"
    and put_ok: "ok b \<Longrightarrow> put m b = Some b' \<Longrightarrow> ok b'"
    and put_high: "ok b \<Longrightarrow> high m \<Longrightarrow> put m b = Some b' \<Longrightarrow>
      highs b' = highs b @ [m] \<and> lows b' = lows b"
    and put_low: "ok b \<Longrightarrow> \<not> high m \<Longrightarrow> put m b = Some b' \<Longrightarrow>
      highs b' = highs b \<and> lows b' = lows b @ [m]"
    and room_high: "ok b \<Longrightarrow> high m \<Longrightarrow> room b (Suc i) j \<Longrightarrow> \<exists>b'. put m b = Some b' \<and> room b' i j"
    and room_low: "ok b \<Longrightarrow> \<not> high m \<Longrightarrow> room b i (Suc j) \<Longrightarrow> \<exists>b'. put m b = Some b' \<and> room b' i j"
begin

fun put_all :: "'m list \<Rightarrow> 'b \<Rightarrow> 'b option" where
  "put_all [] b = Some b"
| "put_all (m # ms) b = (case put m b of None \<Rightarrow> None | Some b' \<Rightarrow> put_all ms b')"

lemma put_all_spec:
  assumes "ok b" and "room b (length (filter high ms)) (length (filter (\<lambda>m. \<not> high m) ms))"
  shows "\<exists>b'. put_all ms b = Some b' \<and> ok b' \<and> highs b' = highs b @ filter high ms
           \<and> lows b' = lows b @ filter (\<lambda>m. \<not> high m) ms"
  using assms
proof (induction ms arbitrary: b)
  case Nil
  then show ?case by simp
next
  case (Cons m ms)
  obtain b' where put: "put m b = Some b'"
    and room: "room b' (length (filter high ms)) (length (filter (\<lambda>m. \<not> high m) ms))"
    using Cons.prems room_high [of b m] room_low [of b m] by (cases "high m") fastforce+
  have "ok b'" using put_ok [OF Cons.prems(1) put] .
  with Cons.IH room obtain c where "put_all ms b' = Some c" "ok c"
    "highs c = highs b' @ filter high ms" "lows c = lows b' @ filter (\<lambda>m. \<not> high m) ms"
    by blast
  with put put_high [OF Cons.prems(1) _ put] put_low [OF Cons.prems(1) _ put]
  show ?case by (cases "high m") auto
qed

lemma transfer_spec:
  assumes "ok a" and "ok b" and "highs b = []" and "lows b = []"
    and "room b (length (highs a)) (length (lows a))"
  shows "\<exists>b'. put_all (highs a @ lows a) b = Some b' \<and> ok b' \<and> highs b' = highs a \<and> lows b' = lows a"
proof -
  from classes [OF assms(1)] have
    "filter high (highs a @ lows a) = highs a" and
    "filter (\<lambda>m. \<not> high m) (highs a @ lows a) = lows a"
    by (simp_all add: filter_id_conv filter_empty_conv)
  with put_all_spec [OF assms(2), of "highs a @ lows a"] assms(3-5) show ?thesis
    by (simp del: filter_append)
qed

end

definition mailbox_room :: "mailbox \<Rightarrow> nat \<Rightarrow> nat \<Rightarrow> bool" where
  "mailbox_room mb i j \<longleftrightarrow>
     (0 < mb_priority_maxsize mb \<longrightarrow>
        int (length (mb_priority_queue mb) + i) \<le> mb_priority_maxsize mb) \<and>
     (0 < mb_maxsize mb \<longrightarrow> int (length (mb_queue mb) + j) \<le> mb_maxsize mb)"

interpretation mbuf: two_class_buffer mb_put "\<lambda>m. 0 < m_priority m"
  mb_priority_queue mb_queue mailbox_ok mailbox_room
proof unfold_locales
  fix mb m mb'
  assume "mailbox_ok mb" "mb_put m mb = Some mb'"
  then show "mailbox_ok mb'" by (rule mailbox_ok_put)
qed (auto simp: mailbox_ok_def mb_put_def mailbox_room_def q_full_def split: if_splits)

lemma mb_put_all_eq: "mb_put_all ms mb = mbuf.put_all ms mb"
  by (induction ms arbitrary: mb) (auto split: option.splits)

lemma transfer_mailbox_spec:
  assumes "mailbox_ok old"
  shows "\<exists>old' new. transfer_mailbox old (new_mailbox (mb_maxsize old) (mb_priority_maxsize old))
             = Some (old', new)
           \<and> mb_empty old' \<and> mailbox_ok new
           \<and> mb_priority_queue new = mb_priority_queue old \<and> mb_queue new = mb_queue old"
proof -
  let ?new = "new_mailbox (mb_maxsize old) (mb_priority_maxsize old)"
  have "mailbox_room ?new (length (mb_priority_queue old)) (length (mb_queue old))"
    using assms by (simp add: mailbox_room_def mailbox_ok_def new_mailbox_def)
  then obtain new where
    "mbuf.put_all (mb_priority_queue old @ mb_queue old) ?new = Some new"
    "mailbox_ok new" "mb_priority_queue new = mb_priority_queue old" "mb_queue new = mb_queue old"
    using mbuf.transfer_spec [OF assms mailbox_ok_new] by (auto simp: new_mailbox_def)
  then show ?thesis
    by (simp add: transfer_mailbox_def mb_drain_def mb_put_all_eq mb_empty_def)
qed

section \<open>Properties\<close>

text \<open>\<^verbatim>\<open>get()\<close> serves the first live message in service order (every control message
  before every business message, each class in arrival order): it returns the first message of
  \<^verbatim>\<open>peek()\<close> that has not expired, discards exactly the expired ones before it, keeps all
  others in order, and waits only when nothing live is buffered.\<close>

theorem get_serves_first_live:
  "fst (mb_get now mb) = find (\<lambda>m. \<not> drop_if_expired now m) (mb_peek mb)
   \<and> mb_peek (snd (mb_get now mb)) = tl (dropWhile (drop_if_expired now) (mb_peek mb))"
  unfolding mb_get_eq mb_peek_def find_not_dropWhile dropWhile_append dropWhile_eq_Nil_conv [symmetric]
  by (auto simp del: dropWhile_eq_Nil_conv split: list.splits)

text \<open>While an agent is suspended it reads through \<^verbatim>\<open>get_priority()\<close>: the business
  queue is left exactly as it was, and the first live control message is served.\<close>

theorem suspended_get_keeps_business_queue:
  "mb_queue (snd (mb_get_priority now mb)) = mb_queue mb
   \<and> fst (mb_get_priority now mb) =
       find (\<lambda>m. \<not> drop_if_expired now m) (mb_priority_queue mb)
   \<and> mb_priority_queue (snd (mb_get_priority now mb)) =
       tl (dropWhile (drop_if_expired now) (mb_priority_queue mb))"
  unfolding mb_get_priority_eq find_not_dropWhile
  by (auto simp del: dropWhile_eq_Nil_conv split: list.splits)

text \<open>A restart carries the mailbox over completely: transferring a well-formed mailbox into
  the fresh, empty mailbox of the same capacities never waits, empties the old one, and leaves the
  new one with the same control messages and the same business messages in the same order.\<close>

theorem transfer_preserves_mailbox:
  assumes "mailbox_ok old"
  shows "\<exists>old' new. transfer_mailbox old (new_mailbox (mb_maxsize old) (mb_priority_maxsize old))
             = Some (old', new)
           \<and> mb_empty old' \<and> mailbox_ok new
           \<and> mb_priority_queue new = mb_priority_queue old \<and> mb_queue new = mb_queue old"
  by (rule transfer_mailbox_spec [OF assms])

theorem transfer_preserves_mailbox_witness:
  "\<exists>old' new.
     transfer_mailbox
       (new_mailbox 2 1\<lparr>mb_queue := [default_message ''a'' 0, default_message ''b'' 0],
          mb_priority_queue := [default_message ''c'' 0\<lparr>m_priority := 1\<rparr>]\<rparr>)
       (new_mailbox 2 1) = Some (old', new)
     \<and> mb_queue new = [default_message ''a'' 0, default_message ''b'' 0]"
  using transfer_preserves_mailbox
    [of "new_mailbox 2 1\<lparr>mb_queue := [default_message ''a'' 0, default_message ''b'' 0],
          mb_priority_queue := [default_message ''c'' 0\<lparr>m_priority := 1\<rparr>]\<rparr>"]
  by (auto simp: mailbox_ok_def new_mailbox_def default_message_def)

text \<open>Backpressure: a put is accepted exactly when the queue of the message's class is not at
  its bound, it then adds the message at the end of that queue, and no operation takes a
  well-formed mailbox past its bounds.\<close>

theorem put_backpressure:
  assumes "mailbox_ok mb"
  shows "(mb_put m mb = None \<longleftrightarrow>
            (if 0 < m_priority m
             then 0 < mb_priority_maxsize mb \<and> int (length (mb_priority_queue mb)) = mb_priority_maxsize mb
             else 0 < mb_maxsize mb \<and> int (length (mb_queue mb)) = mb_maxsize mb))
       \<and> (\<forall>mb'. mb_put m mb = Some mb' \<longrightarrow>
            mailbox_ok mb' \<and> mb_depth mb' = Suc (mb_depth mb)
            \<and> mset (mb_peek mb') = mset (mb_peek mb) + {#m#})
       \<and> mailbox_ok (snd (mb_get now mb)) \<and> mailbox_ok (snd (mb_get_priority now mb))"
proof (intro conjI allI impI)
  fix mb' assume put: "mb_put m mb = Some mb'"
  show "mailbox_ok mb'" using mailbox_ok_put [OF assms put] .
  show "mb_depth mb' = Suc (mb_depth mb)" "mset (mb_peek mb') = mset (mb_peek mb) + {#m#}"
    using put by (auto simp: mb_put_def mb_depth_def mb_peek_def split: if_splits)
next
  have tails: "set (tl (dropWhile P xs)) \<subseteq> set xs \<and> length (tl (dropWhile P xs)) \<le> length xs"
    for P and xs :: "message list"
    by (induction xs) auto
  have sub: "dropWhile P xs = y # ys \<Longrightarrow> set ys \<subseteq> set xs \<and> length ys \<le> length xs"
    for P y ys and xs :: "message list"
    using tails [of P xs] by simp
  show "mailbox_ok (snd (mb_get now mb))"
    using assms unfolding mb_get_eq mailbox_ok_def
    by (auto simp del: dropWhile_eq_Nil_conv split: list.splits dest!: sub)
  show "mailbox_ok (snd (mb_get_priority now mb))"
    using assms unfolding mb_get_priority_eq mailbox_ok_def
    by (auto simp del: dropWhile_eq_Nil_conv split: list.splits dest!: sub)
qed (use assms in \<open>auto simp: mb_put_def q_full_def mailbox_ok_def\<close>)

theorem put_backpressure_witness:
  "mb_put (default_message ''c'' 0) (new_mailbox 1 1\<lparr>mb_queue := [default_message ''a'' 0]\<rparr>) = None"
  using put_backpressure [of "new_mailbox 1 1\<lparr>mb_queue := [default_message ''a'' 0]\<rparr>"
      "default_message ''c'' 0"]
  by (simp add: mailbox_ok_def new_mailbox_def default_message_def)

end
