(* ===== verification/Registry.thy ===== *)
theory Registry
  imports Civitas_Prelude "HOL-Library.Char_ord"
begin

text \<open>
  \<^verbatim>\<open>src/civitas/registry.py\<close>: the routing table of one process. Local agents register by
  name; agents of other processes are announced with an owner, a public key and an incarnation
  epoch. Listeners are notified after every change; a notification is recorded in
  \<open>r_notified\<close> (listener, entry, event). \<open>r_loop\<close> says whether an event loop runs, which
  \<^verbatim>\<open>_fire_listeners\<close> asks. \<^verbatim>\<open>fnmatch\<close> of the standard library is modelled in full.
\<close>

section \<open>Glob patterns\<close>

datatype glob = GStar | GAny | GLit char | GClass bool "(char \<times> char) list"

text \<open>The ranges of a bracket expression; \<^verbatim>\<open>x-y\<close> is a range, any other character stands
  for itself.\<close>

fun class_ranges :: "string \<Rightarrow> (char \<times> char) list" where
  "class_ranges (a # h # b # r) =
     (if h = CHR ''-'' then (a, b) # class_ranges r else (a, a) # class_ranges (h # b # r))"
| "class_ranges (a # r) = (a, a) # class_ranges r"
| "class_ranges [] = []"

text \<open>Splits what follows an opening bracket into the negation flag, the body and the rest of
  the pattern; \<^const>\<open>None\<close> when no bracket closes it. A closing bracket in first position
  belongs to the body.\<close>

definition bracket :: "string \<Rightarrow> (bool \<times> string \<times> string) option" where
  "bracket s =
     (let (neg, r1) = (case s of [] \<Rightarrow> (False, []) | c # r \<Rightarrow> if c = CHR ''!'' then (True, r) else (False, s));
          (first, r2) = (case r1 of [] \<Rightarrow> ([], []) | c # r \<Rightarrow> if c = CHR '']'' then ([c], r) else ([], r1))
      in if CHR '']'' \<in> set r2
         then Some (neg, first @ takeWhile (\<lambda>c. c \<noteq> CHR '']'') r2,
                    tl (dropWhile (\<lambda>c. c \<noteq> CHR '']'') r2))
         else None)"

lemma bracket_shorter: "bracket s = Some (neg, body, rest) \<Longrightarrow> length rest \<le> length s"
proof -
  assume "bracket s = Some (neg, body, rest)"
  then obtain r2 where "rest = tl (dropWhile (\<lambda>c. c \<noteq> CHR '']'') r2)" "length r2 \<le> length s"
    by (auto simp: bracket_def Let_def split: list.splits if_splits)
  moreover have "length (dropWhile (\<lambda>c. c \<noteq> CHR '']'') r2) \<le> length r2"
    by (rule length_dropWhile_le)
  ultimately show ?thesis by simp
qed

function glob_parse :: "string \<Rightarrow> glob list" where
  "glob_parse [] = []"
| "glob_parse (c # p) =
     (if c = CHR ''*'' then GStar # glob_parse p
      else if c = CHR ''?'' then GAny # glob_parse p
      else if c = CHR ''['' then
        (case bracket p of
           None \<Rightarrow> GLit c # glob_parse p
         | Some (neg, body, rest) \<Rightarrow> GClass neg (class_ranges body) # glob_parse rest)
      else GLit c # glob_parse p)"
  by pat_completeness auto
termination
  by (relation "measure length") (auto dest: bracket_shorter)

fun glob_match :: "glob list \<Rightarrow> string \<Rightarrow> bool" where
  "glob_match [] s = (s = [])"
| "glob_match (GStar # g) [] = glob_match g []"
| "glob_match (GStar # g) (c # s) = (glob_match g (c # s) \<or> glob_match (GStar # g) s)"
| "glob_match (GAny # g) [] = False"
| "glob_match (GAny # g) (c # s) = glob_match g s"
| "glob_match (GLit a # g) [] = False"
| "glob_match (GLit a # g) (c # s) = (a = c \<and> glob_match g s)"
| "glob_match (GClass neg rs # g) [] = False"
| "glob_match (GClass neg rs # g) (c # s) =
     (list_ex (\<lambda>(lo, hi). lo \<le> c \<and> c \<le> hi) rs \<noteq> neg \<and> glob_match g s)"

definition fnmatch :: "string \<Rightarrow> string \<Rightarrow> bool" where
  "fnmatch name pat = glob_match (glob_parse pat) name"

section \<open>State\<close>

record routing_entry =
  e_name :: string
  e_address :: string
  e_is_local :: bool
  e_capabilities :: "string list"
  e_capability_metadata :: payload
  e_owner :: string
  e_pubkey :: string
  e_epoch :: int
  e_health_channel :: string

datatype registry_event = Register | Deregister

record registry =
  r_entries :: "(string, routing_entry) dict"
  r_listeners :: "nat list"
  r_remote_epochs :: "(string, int) dict"
  r_suspended :: "string set"
  r_loop :: bool
  r_notified :: "(nat \<times> routing_entry \<times> registry_event) list"

definition new_registry :: "bool \<Rightarrow> registry" where
  "new_registry loop =
     \<lparr>r_entries = [], r_listeners = [], r_remote_epochs = [], r_suspended = {},
      r_loop = loop, r_notified = []\<rparr>"

section \<open>Operations\<close>

definition fire_listeners :: "routing_entry \<Rightarrow> registry_event \<Rightarrow> registry \<Rightarrow> registry" where
  "fire_listeners e ev r =
     (if r_listeners r = [] then r
      else if \<not> r_loop r then r
      else r\<lparr>r_notified := r_notified r @ map (\<lambda>l. (l, e, ev)) (r_listeners r)\<rparr>)"

definition add_listener :: "nat \<Rightarrow> registry \<Rightarrow> registry" where
  "add_listener l r = r\<lparr>r_listeners := r_listeners r @ [l]\<rparr>"

definition remove_listener :: "nat \<Rightarrow> registry \<Rightarrow> registry" where
  "remove_listener l r = r\<lparr>r_listeners := filter (\<lambda>x. x \<noteq> l) (r_listeners r)\<rparr>"

definition set_suspended :: "string \<Rightarrow> bool \<Rightarrow> registry \<Rightarrow> registry" where
  "set_suspended name b r =
     (if b then r\<lparr>r_suspended := insert name (r_suspended r)\<rparr>
      else r\<lparr>r_suspended := r_suspended r - {name}\<rparr>)"

definition is_suspended :: "string \<Rightarrow> registry \<Rightarrow> bool" where
  "is_suspended name r \<longleftrightarrow> name \<in> r_suspended r"

definition register ::
  "string \<Rightarrow> string option \<Rightarrow> bool \<Rightarrow> string list \<Rightarrow> payload \<Rightarrow> registry \<Rightarrow> registry result" where
  "register name address is_local caps meta r =
     (if dget (r_entries r) name \<noteq> None then Inl ValueError
      else
        let entry = \<lparr>e_name = name, e_address = (case address of Some a \<Rightarrow> a | None \<Rightarrow> name),
                     e_is_local = is_local, e_capabilities = caps, e_capability_metadata = meta,
                     e_owner = '''', e_pubkey = '''', e_epoch = 0, e_health_channel = ''''\<rparr>
        in Inr (fire_listeners entry Register (r\<lparr>r_entries := dput name entry (r_entries r)\<rparr>)))"

definition deregister :: "string \<Rightarrow> registry \<Rightarrow> registry" where
  "deregister name r =
     (let r' = r\<lparr>r_entries := dpop name (r_entries r), r_suspended := r_suspended r - {name}\<rparr>
      in case dget (r_entries r) name of
           None \<Rightarrow> r'
         | Some entry \<Rightarrow> fire_listeners entry Deregister r')"

definition lookup :: "registry \<Rightarrow> string \<Rightarrow> routing_entry option" where
  "lookup r name = dget (r_entries r) name"

definition has :: "registry \<Rightarrow> string \<Rightarrow> bool" where
  "has r name \<longleftrightarrow> dget (r_entries r) name \<noteq> None"

definition all_names :: "registry \<Rightarrow> string list" where
  "all_names r = dkeys (r_entries r)"

definition lookup_all :: "registry \<Rightarrow> string \<Rightarrow> routing_entry list" where
  "lookup_all r pattern =
     (if startswith pattern ''_''
      then map snd (filter (\<lambda>(name, e). fnmatch name pattern) (r_entries r))
      else map snd (filter (\<lambda>(name, e). \<not> startswith name ''_'' \<and> fnmatch name pattern)
                           (r_entries r)))"

definition find_by_capability :: "registry \<Rightarrow> string \<Rightarrow> routing_entry list" where
  "find_by_capability r tag =
     filter (\<lambda>e. tag \<in> set (e_capabilities e)) (map snd (r_entries r))"

definition find_by_capabilities :: "registry \<Rightarrow> string list \<Rightarrow> string \<Rightarrow> routing_entry list" where
  "find_by_capabilities r tags match =
     (if match = ''all''
      then filter (\<lambda>e. set tags \<subseteq> set (e_capabilities e)) (map snd (r_entries r))
      else filter (\<lambda>e. set tags \<inter> set (e_capabilities e) \<noteq> {}) (map snd (r_entries r)))"

definition register_remote ::
  "string \<Rightarrow> string list \<Rightarrow> payload \<Rightarrow> string \<Rightarrow> string \<Rightarrow> int \<Rightarrow> string \<Rightarrow> registry \<Rightarrow> registry result" where
  "register_remote name caps meta owner pubkey epoch health r =
     (let last = dget (r_remote_epochs r) name;
          entry = \<lparr>e_name = name, e_address = name, e_is_local = False, e_capabilities = caps,
                   e_capability_metadata = meta, e_owner = owner, e_pubkey = pubkey,
                   e_epoch = epoch, e_health_channel = health\<rparr>;
          store = fire_listeners entry Register
            (r\<lparr>r_entries := dput name entry (r_entries r),
               r_remote_epochs := dput name (case last of None \<Rightarrow> epoch | Some l \<Rightarrow> max epoch l)
                                    (r_remote_epochs r)\<rparr>)
      in if (case last of None \<Rightarrow> False | Some l \<Rightarrow> epoch < l) then Inr r
         else case dget (r_entries r) name of
           Some existing \<Rightarrow>
             (if e_is_local existing then Inl ValueError
              else if e_owner existing \<noteq> owner then Inl ValueError
              else if e_pubkey existing \<noteq> '''' \<and> pubkey \<noteq> '''' \<and> e_pubkey existing \<noteq> pubkey
                      \<and> epoch \<le> e_epoch existing then Inl ValueError
              else if epoch \<le> e_epoch existing then Inr r
              else Inr store)
         | None \<Rightarrow>
             (if (case last of None \<Rightarrow> False | Some l \<Rightarrow> epoch \<le> l) then Inr r else Inr store))"

definition deregister_remote :: "string \<Rightarrow> int \<Rightarrow> registry \<Rightarrow> registry" where
  "deregister_remote name epoch r =
     (let last = dget (r_remote_epochs r) name
      in if (case last of None \<Rightarrow> False | Some l \<Rightarrow> epoch < l) then r
         else
           let r' = r\<lparr>r_remote_epochs := dput name (case last of None \<Rightarrow> epoch | Some l \<Rightarrow> max epoch l)
                                           (r_remote_epochs r)\<rparr>
           in case dget (r_entries r) name of
                Some existing \<Rightarrow>
                  (if e_is_local existing then r'
                   else fire_listeners existing Deregister
                          (r'\<lparr>r_entries := dpop name (r_entries r)\<rparr>))
              | None \<Rightarrow> r')"

definition reregister_preserving :: "registry \<Rightarrow> string \<Rightarrow> registry result" where
  "reregister_preserving r name =
     (case lookup r name of
        Some entry \<Rightarrow>
          register name (Some (e_address entry)) (e_is_local entry) (e_capabilities entry)
            (e_capability_metadata entry) (deregister name r)
      | None \<Rightarrow> register name None True [] [] (deregister name r))"

section \<open>Lookups after each operation\<close>

named_theorems registry_simps \<open>what each operation leaves in each field\<close>

lemma fire_listeners_fields [simp, registry_simps]:
  "r_entries (fire_listeners e ev r) = r_entries r"
  "r_listeners (fire_listeners e ev r) = r_listeners r"
  "r_remote_epochs (fire_listeners e ev r) = r_remote_epochs r"
  "r_suspended (fire_listeners e ev r) = r_suspended r"
  "r_loop (fire_listeners e ev r) = r_loop r"
  by (simp_all add: fire_listeners_def)

lemma lookup_fire_listeners [simp]: "lookup (fire_listeners e ev r) = lookup r"
  by (simp add: lookup_def fun_eq_iff)

definition local_entry :: "string \<Rightarrow> string option \<Rightarrow> bool \<Rightarrow> string list \<Rightarrow> payload \<Rightarrow> routing_entry" where
  "local_entry name address is_local caps meta =
     \<lparr>e_name = name, e_address = (case address of Some a \<Rightarrow> a | None \<Rightarrow> name),
      e_is_local = is_local, e_capabilities = caps, e_capability_metadata = meta,
      e_owner = '''', e_pubkey = '''', e_epoch = 0, e_health_channel = ''''\<rparr>"

lemma register_error_iff: "(register n a l c m r = Inl x) \<longleftrightarrow> lookup r n \<noteq> None \<and> x = ValueError"
  by (auto simp: register_def lookup_def Let_def)

lemma register_lookup:
  "register n a l c m r = Inr r' \<Longrightarrow> lookup r' = (lookup r)(n \<mapsto> local_entry n a l c m)"
  by (auto simp: register_def lookup_def local_entry_def Let_def fun_eq_iff dict_simps
      split: if_splits)

lemma deregister_lookup: "lookup (deregister n r) = (lookup r)(n := None)"
  by (auto simp: deregister_def lookup_def Let_def fun_eq_iff dict_simps split: option.splits)

lemma deregister_suspended: "is_suspended n (deregister m r) \<longleftrightarrow> n \<noteq> m \<and> is_suspended n r"
  by (auto simp: deregister_def is_suspended_def Let_def split: option.splits)

lemma set_suspended_lookup [simp]: "lookup (set_suspended n b r) = lookup r"
  by (simp add: set_suspended_def lookup_def fun_eq_iff)

lemma is_suspended_set_suspended [simp]:
  "is_suspended n (set_suspended m b r) \<longleftrightarrow> (if n = m then b else is_suspended n r)"
  by (simp add: set_suspended_def is_suspended_def)

subsection \<open>The well-formed registry\<close>

definition registry_ok :: "registry \<Rightarrow> bool" where
  "registry_ok r \<longleftrightarrow> dict_ok (r_entries r) \<and> dict_ok (r_remote_epochs r) \<and>
     (\<forall>n e. lookup r n = Some e \<longrightarrow> e_name e = n)"

lemma registry_ok_new [simp, intro]: "registry_ok (new_registry b)"
  by (simp add: registry_ok_def new_registry_def lookup_def)

lemma registry_ok_register: "registry_ok r \<Longrightarrow> register n a l c m r = Inr r' \<Longrightarrow> registry_ok r'"
  by (auto simp: registry_ok_def register_def lookup_def Let_def dict_simps split: if_splits)

lemma registry_ok_deregister: "registry_ok r \<Longrightarrow> registry_ok (deregister n r)"
  by (auto simp: registry_ok_def deregister_def lookup_def Let_def dict_simps split: option.splits)

lemma registry_ok_register_remote:
  "registry_ok r \<Longrightarrow> register_remote n c m w p e h r = Inr r' \<Longrightarrow> registry_ok r'"
  by (auto simp: registry_ok_def register_remote_def lookup_def Let_def dict_simps
      split: if_splits option.splits)

lemma registry_ok_deregister_remote: "registry_ok r \<Longrightarrow> registry_ok (deregister_remote n e r)"
  by (auto simp: registry_ok_def deregister_remote_def lookup_def Let_def dict_simps
      split: if_splits option.splits)

section \<open>The interface other components rely on\<close>

text \<open>
  The protocol \<^verbatim>\<open>Registry\<close>: a lookup sees what was registered last, registering an
  existing name fails, deregistering removes. Restart code and the message bus use nothing else.
\<close>

locale routing_table =
  fixes lkp :: "'r \<Rightarrow> string \<Rightarrow> routing_entry option"
    and reg :: "string \<Rightarrow> string option \<Rightarrow> bool \<Rightarrow> string list \<Rightarrow> payload \<Rightarrow> 'r \<Rightarrow> 'r result"
    and dereg :: "string \<Rightarrow> 'r \<Rightarrow> 'r"
  assumes reg_fails_iff: "reg n a l c m r = Inl x \<longleftrightarrow> lkp r n \<noteq> None \<and> x = ValueError"
    and reg_lookup: "reg n a l c m r = Inr r' \<Longrightarrow> lkp r' = (lkp r)(n \<mapsto> local_entry n a l c m)"
    and dereg_lookup: "lkp (dereg n r) = (lkp r)(n := None)"
begin

lemma reg_succeeds: "lkp r n = None \<Longrightarrow> \<exists>r'. reg n a l c m r = Inr r'"
  using reg_fails_iff [of n a l c m r] by (cases "reg n a l c m r") auto

lemma dereg_then_reg:
  "\<exists>r'. reg n a l c m (dereg n r) = Inr r' \<and> lkp r' = (lkp r)(n \<mapsto> local_entry n a l c m)"
proof -
  obtain r' where r': "reg n a l c m (dereg n r) = Inr r'"
    using reg_succeeds [of "dereg n r" n a l c m] by (auto simp: dereg_lookup)
  then show ?thesis
    using reg_lookup [OF r'] by (auto simp: dereg_lookup fun_eq_iff)
qed

end

interpretation local_registry: routing_table lookup register deregister
  by unfold_locales (auto simp: register_error_iff register_lookup deregister_lookup)

lemma reregister_preserving_lookup:
  "\<exists>r'. reregister_preserving r name = Inr r' \<and>
     lookup r' = (lookup r)(name \<mapsto>
       (case lookup r name of
          Some e \<Rightarrow> local_entry name (Some (e_address e)) (e_is_local e) (e_capabilities e)
                     (e_capability_metadata e)
        | None \<Rightarrow> local_entry name None True [] []))"
  by (cases "lookup r name")
     (auto simp: reregister_preserving_def local_registry.dereg_then_reg)

section \<open>Remote announcements\<close>

text \<open>An announcement about one name, as a peer process applies it: a rejected registration
  is logged and leaves the registry as it was.\<close>

datatype announcement =
    Announce "string list" payload string int string  \<comment> \<open>capabilities, metadata, key, epoch, health channel\<close>
  | Withdraw int

fun epoch_of :: "announcement \<Rightarrow> int" where
  "epoch_of (Announce c m p e h) = e"
| "epoch_of (Withdraw e) = e"

fun is_announce :: "announcement \<Rightarrow> bool" where
  "is_announce (Announce c m p e h) = True"
| "is_announce (Withdraw e) = False"

fun apply_announcement :: "string \<Rightarrow> string \<Rightarrow> announcement \<Rightarrow> registry \<Rightarrow> registry" where
  "apply_announcement owner name (Announce c m p e h) r =
     (case register_remote name c m owner p e h r of Inl x \<Rightarrow> r | Inr r' \<Rightarrow> r')"
| "apply_announcement owner name (Withdraw e) r = deregister_remote name e r"

fun apply_announcements :: "string \<Rightarrow> string \<Rightarrow> announcement list \<Rightarrow> registry \<Rightarrow> registry" where
  "apply_announcements owner name [] r = r"
| "apply_announcements owner name (a # as) r =
     apply_announcements owner name as (apply_announcement owner name a r)"

lemma apply_announcements_snoc:
  "apply_announcements w n (as @ [a]) r = apply_announcement w n a (apply_announcements w n as r)"
  by (induction as arbitrary: r) auto

lemma apply_announcement_other:
  "k \<noteq> n \<Longrightarrow> lookup (apply_announcement w n a r) k = lookup r k"
  by (cases a)
     (auto simp: lookup_def register_remote_def deregister_remote_def Let_def dict_simps
        split: sum.splits if_splits option.splits)

lemma apply_announcement_local:
  "lookup r n = Some e \<Longrightarrow> e_is_local e \<Longrightarrow> lookup (apply_announcement w n a r) n = Some e"
  by (cases a)
     (auto simp: lookup_def register_remote_def deregister_remote_def Let_def dict_simps
        split: sum.splits if_splits option.splits)

text \<open>What the announcements seen so far determine: the epoch floor is the largest epoch, and
  the name is routed exactly when that epoch was announced and not withdrawn.\<close>

definition floor_of :: "announcement list \<Rightarrow> int option" where
  "floor_of as = (if as = [] then None else Some (Max (epoch_of ` set as)))"

definition routed_by :: "announcement list \<Rightarrow> bool" where
  "routed_by as \<longleftrightarrow> as \<noteq> [] \<and>
     (\<exists>a \<in> set as. is_announce a \<and> epoch_of a = Max (epoch_of ` set as)) \<and>
     Withdraw (Max (epoch_of ` set as)) \<notin> set as"

text \<open>The first announcement of the largest epoch, and the entry that an announcement describes.\<close>

definition winner :: "announcement list \<Rightarrow> announcement option" where
  "winner as = find (\<lambda>a. Some (epoch_of a) = floor_of as) as"

fun announced_entry :: "string \<Rightarrow> string \<Rightarrow> announcement \<Rightarrow> routing_entry option" where
  "announced_entry owner name (Announce c m p e h) =
     Some \<lparr>e_name = name, e_address = name, e_is_local = False, e_capabilities = c, e_capability_metadata = m,
           e_owner = owner, e_pubkey = p, e_epoch = e, e_health_channel = h\<rparr>"
| "announced_entry owner name (Withdraw e) = None"

definition remote_state_ok :: "string \<Rightarrow> string \<Rightarrow> announcement list \<Rightarrow> registry \<Rightarrow> bool" where
  "remote_state_ok owner name as r \<longleftrightarrow>
     dget (r_remote_epochs r) name = floor_of as \<and>
     lookup r name = (if routed_by as then Option.bind (winner as) (announced_entry owner name) else None)"

lemma routed_by_iff: "routed_by as \<longleftrightarrow> as \<noteq> [] \<and> Withdraw (Max (epoch_of ` set as)) \<notin> set as"
proof (cases "as = []")
  case False
  then have "Max (epoch_of ` set as) \<in> epoch_of ` set as" by (intro Max_in) auto
  then obtain a where a: "a \<in> set as" "epoch_of a = Max (epoch_of ` set as)" by auto
  show ?thesis
  proof (cases a)
    case (Announce c m p e h)
    with a False show ?thesis unfolding routed_by_def by (metis is_announce.simps(1))
  next
    case (Withdraw e)
    with a False show ?thesis by (simp add: routed_by_def)
  qed
qed (simp add: routed_by_def)

lemma floor_of_snoc:
  "floor_of (as @ [a]) =
     Some (case floor_of as of None \<Rightarrow> epoch_of a | Some l \<Rightarrow> max (epoch_of a) l)"
  by (auto simp: floor_of_def)

lemma epoch_le_floor: "floor_of as = Some l \<Longrightarrow> a \<in> set as \<Longrightarrow> epoch_of a \<le> l"
  by (auto simp: floor_of_def split: if_splits)

lemma routed_by_floor: "routed_by as \<longleftrightarrow> (\<exists>l. floor_of as = Some l \<and> Withdraw l \<notin> set as)"
  by (auto simp: routed_by_iff floor_of_def)

lemma routed_by_snoc:
  "routed_by (as @ [a]) \<longleftrightarrow>
     (case floor_of as of
        None \<Rightarrow> is_announce a
      | Some l \<Rightarrow> if epoch_of a < l then routed_by as
                  else if l < epoch_of a then is_announce a
                  else is_announce a \<and> routed_by as)"
proof (cases "floor_of as")
  case None
  then have "as = []" by (simp add: floor_of_def split: if_splits)
  then show ?thesis using None by (cases a) (auto simp: routed_by_iff)
next
  case (Some l)
  have w: "Withdraw e \<in> set as \<Longrightarrow> e \<le> l" for e
    using epoch_le_floor [OF Some, of "Withdraw e"] by simp
  show ?thesis
    using Some by (cases a) (auto simp: routed_by_floor floor_of_snoc max_def dest: w)
qed

lemma floor_attained:
  assumes "floor_of as = Some l"
  shows "\<exists>x \<in> set as. epoch_of x = l"
proof -
  have "as \<noteq> []" and l: "l = Max (epoch_of ` set as)" using assms by (auto simp: floor_of_def split: if_splits)
  then have "Max (epoch_of ` set as) \<in> epoch_of ` set as" by (intro Max_in) simp_all
  then show ?thesis unfolding l by (auto elim: imageE)
qed

lemma winner_snoc:
  "winner (as @ [a]) = (case floor_of as of None \<Rightarrow> Some a | Some l \<Rightarrow> if l < epoch_of a then Some a else winner as)"
proof (cases "floor_of as")
  case None
  then have "as = []" by (simp add: floor_of_def split: if_splits)
  then show ?thesis by (simp add: winner_def floor_of_def)
next
  case (Some l)
  have le: "x \<in> set as \<Longrightarrow> epoch_of x \<le> l" for x using epoch_le_floor [OF Some] by simp
  have split: "find P (as @ [a]) = (case find P as of None \<Rightarrow> if P a then Some a else None | Some x \<Rightarrow> Some x)" for P
    by (induction as) auto
  show ?thesis
  proof (cases "l < epoch_of a")
    case True
    then have "find (\<lambda>x. epoch_of x = epoch_of a) as = None" using le by (force simp: find_None_iff)
    then show ?thesis using True Some by (simp add: winner_def floor_of_snoc split max_def)
  next
    case False
    have "find (\<lambda>x. epoch_of x = l) as \<noteq> None" using floor_attained [OF Some] by (auto simp: find_None_iff)
    then show ?thesis using False Some by (auto simp: winner_def floor_of_snoc split max_def)
  qed
qed

lemma routed_winner:
  assumes "routed_by as"
  obtains c m p e h where "winner as = Some (Announce c m p e h)" "floor_of as = Some e"
proof -
  obtain l where l: "floor_of as = Some l" "Withdraw l \<notin> set as" using assms by (auto simp: routed_by_floor)
  have "find (\<lambda>x. epoch_of x = l) as \<noteq> None" using floor_attained [OF l(1)] by (auto simp: find_None_iff)
  then obtain a where a: "find (\<lambda>x. epoch_of x = l) as = Some a" by blast
  then have "a \<in> set as" and e: "epoch_of a = l" by (auto simp: find_Some_iff)
  moreover have win: "winner as = Some a" using a by (simp add: winner_def l(1))
  show ?thesis
  proof (cases a)
    case (Announce c m p e h)
    then show ?thesis using that win l(1) e by simp
  qed (use calculation l(2) in simp)
qed

lemma remote_state_ok_step:
  assumes "remote_state_ok w n as r"
  shows "remote_state_ok w n (as @ [a]) (apply_announcement w n a r)"
proof (cases "routed_by as")
  case False
  with assms have "lookup r n = None" by (simp add: remote_state_ok_def)
  with assms False show ?thesis
    by (cases a)
       (auto simp: remote_state_ok_def floor_of_snoc routed_by_snoc winner_snoc register_remote_def
          deregister_remote_def lookup_def Let_def dict_simps max_def
          split: option.splits if_splits)
next
  case True
  obtain c m p e h where win: "winner as = Some (Announce c m p e h)" "floor_of as = Some e" by (rule routed_winner [OF True])
  from True win assms show ?thesis
    by (cases a)
       (auto simp: remote_state_ok_def floor_of_snoc routed_by_snoc winner_snoc register_remote_def
          deregister_remote_def lookup_def Let_def dict_simps max_def
          split: option.splits if_splits)
qed

lemma remote_state_ok_run:
  assumes "lookup r n = None" and "dget (r_remote_epochs r) n = None"
  shows "remote_state_ok w n as (apply_announcements w n as r)"
proof (induction as rule: rev_induct)
  case Nil
  with assms show ?case by (simp add: remote_state_ok_def floor_of_def routed_by_def)
next
  case (snoc a as)
  then show ?case by (simp add: apply_announcements_snoc remote_state_ok_step)
qed

lemma map_snd_filter_key:
  "(\<And>n e. (n, e) \<in> set d \<Longrightarrow> n = e_name e) \<Longrightarrow>
   map snd (filter (\<lambda>(n, e). P n) d) = filter (\<lambda>e. P (e_name e)) (map snd d)"
proof (induction d)
  case (Cons x d)
  have "fst x = e_name (snd x)" by (rule Cons.prems) simp
  moreover have "map snd (filter (\<lambda>(n, e). P n) d) = filter (\<lambda>e. P (e_name e)) (map snd d)"
    by (rule Cons.IH) (rule Cons.prems, simp)
  ultimately show ?case by (cases x) auto
qed simp

section \<open>Properties\<close>

text \<open>C24. Discovery converges whatever the network does to the announcements. After any sequence of announcements and
  withdrawals of one owner for an unknown name, in any order and with any duplicates, the name is routed exactly when
  its highest epoch was not withdrawn, and its entry then is exactly the one that the first announcement of this epoch
  described (capabilities, metadata, key, epoch, health channel). So two processes that saw the same announcements in
  any order have the same entry and the same epoch floor, provided the owner announces each epoch with one content;
  announcements of other owners are not considered.\<close>

theorem announcements_converge:
  assumes "lookup r n = None" and "dget (r_remote_epochs r) n = None"
  shows "lookup (apply_announcements w n as r) n =
          (if as \<noteq> [] \<and> Withdraw (Max (epoch_of ` set as)) \<notin> set as
           then Option.bind (find (\<lambda>a. epoch_of a = Max (epoch_of ` set as)) as) (announced_entry w n) else None)
       \<and> (as \<noteq> [] \<and> Withdraw (Max (epoch_of ` set as)) \<notin> set as \<longrightarrow> lookup (apply_announcements w n as r) n \<noteq> None)
       \<and> (set bs = set as \<and> (\<forall>a \<in> set as. \<forall>b \<in> set as. is_announce a \<and> is_announce b \<and> epoch_of a = epoch_of b \<longrightarrow> a = b) \<longrightarrow>
            lookup (apply_announcements w n bs r) n = lookup (apply_announcements w n as r) n
          \<and> dget (r_remote_epochs (apply_announcements w n bs r)) n =
            dget (r_remote_epochs (apply_announcements w n as r)) n)"
proof -
  have st: "remote_state_ok w n cs (apply_announcements w n cs r)" for cs
    by (rule remote_state_ok_run [OF assms])
  have entry: "lookup (apply_announcements w n cs r) n = (if routed_by cs then Option.bind (winner cs) (announced_entry w n) else None)" for cs
    using st [of cs] by (simp add: remote_state_ok_def)
  have floor: "dget (r_remote_epochs (apply_announcements w n cs r)) n = floor_of cs" for cs
    using st [of cs] by (simp add: remote_state_ok_def)
  have win: "winner cs = find (\<lambda>a. epoch_of a = Max (epoch_of ` set cs)) cs" if "routed_by cs" for cs
    using that by (simp add: winner_def floor_of_def routed_by_iff)
  have some: "\<exists>c m p e h. winner cs = Some (Announce c m p e h)" if "routed_by cs" for cs
    using routed_winner [OF that] by metis
  have same: "Option.bind (winner bs) (announced_entry w n) = Option.bind (winner as) (announced_entry w n)"
    if as: "routed_by as" and st: "set bs = set as" and one: "\<forall>a \<in> set as. \<forall>b \<in> set as. is_announce a \<and> is_announce b \<and> epoch_of a = epoch_of b \<longrightarrow> a = b"
  proof -
    have bs: "routed_by bs" using as st by (auto simp: routed_by_iff)
    obtain x y where xy: "winner as = Some x" "winner bs = Some y" "is_announce x" "is_announce y"
      using some [OF as] some [OF bs] by auto
    have "x \<in> set as" "y \<in> set bs" "epoch_of x = epoch_of y"
      using xy(1,2) win [OF as] win [OF bs] st by (auto simp: find_Some_iff)
    with st one xy show ?thesis by auto
  qed
  have "set bs = set as \<longrightarrow> routed_by bs = routed_by as \<and> floor_of bs = floor_of as"
    by (auto simp: routed_by_iff floor_of_def)
  with same have conv: "set bs = set as \<and> (\<forall>a \<in> set as. \<forall>b \<in> set as. is_announce a \<and> is_announce b \<and> epoch_of a = epoch_of b \<longrightarrow> a = b) \<longrightarrow>
        lookup (apply_announcements w n bs r) n = lookup (apply_announcements w n as r) n \<and> floor_of bs = floor_of as"
    by (auto simp: entry)
  show ?thesis
    using conv some [of as] win [of as] by (auto simp: entry [of as] floor routed_by_iff [symmetric])
qed

theorem announcements_converge_witness:
  "lookup (apply_announcements ''w'' ''n'' [Withdraw 1, Announce [''a''] [] ''j'' 1 ''g'', Announce [''b''] [] ''k'' 2 ''h''] (new_registry True)) ''n''
     = lookup (apply_announcements ''w'' ''n'' [Announce [''b''] [] ''k'' 2 ''h'', Announce [''a''] [] ''j'' 1 ''g'', Withdraw 1] (new_registry True)) ''n''
   \<and> lookup (apply_announcements ''w'' ''n'' [Withdraw 1, Announce [''a''] [] ''j'' 1 ''g'', Announce [''b''] [] ''k'' 2 ''h''] (new_registry True)) ''n''
     = announced_entry ''w'' ''n'' (Announce [''b''] [] ''k'' 2 ''h'')"
proof -
  have new: "lookup (new_registry True) ''n'' = None" "dget (r_remote_epochs (new_registry True)) ''n'' = None"
    by (simp_all add: new_registry_def lookup_def)
  have st: "set [Announce [''b''] [] ''k'' 2 ''h'', Announce [''a''] [] ''j'' 1 ''g'', Withdraw 1]
      = set [Withdraw 1, Announce [''a''] [] ''j'' 1 ''g'', Announce [''b''] [] ''k'' 2 ''h'']" by auto
  have ag: "\<forall>a \<in> set [Withdraw 1, Announce [''a''] [] ''j'' 1 ''g'', Announce [''b''] [] ''k'' 2 ''h''].
      \<forall>b \<in> set [Withdraw 1, Announce [''a''] [] ''j'' 1 ''g'', Announce [''b''] [] ''k'' 2 ''h'']. is_announce a \<and> is_announce b \<and> epoch_of a = epoch_of b \<longrightarrow> a = b"
    by simp
  note conv = announcements_converge [OF new, of "''w''" "[Withdraw 1, Announce [''a''] [] ''j'' 1 ''g'', Announce [''b''] [] ''k'' 2 ''h'']"
      "[Announce [''b''] [] ''k'' 2 ''h'', Announce [''a''] [] ''j'' 1 ''g'', Withdraw 1]"]
  have "lookup (apply_announcements ''w'' ''n'' [Withdraw 1, Announce [''a''] [] ''j'' 1 ''g'', Announce [''b''] [] ''k'' 2 ''h''] (new_registry True)) ''n''
     = announced_entry ''w'' ''n'' (Announce [''b''] [] ''k'' 2 ''h'')"
    using conv [THEN conjunct1] by simp
  moreover from conv [THEN conjunct2, THEN conjunct2, THEN mp, OF conjI [OF st ag]]
  have "lookup (apply_announcements ''w'' ''n'' [Announce [''b''] [] ''k'' 2 ''h'', Announce [''a''] [] ''j'' 1 ''g'', Withdraw 1] (new_registry True)) ''n''
     = lookup (apply_announcements ''w'' ''n'' [Withdraw 1, Announce [''a''] [] ''j'' 1 ''g'', Announce [''b''] [] ''k'' 2 ''h''] (new_registry True)) ''n''"
    by (rule conjunct1)
  ultimately show ?thesis by simp
qed

text \<open>No takeover: an announcement never changes a name registered by this process, nor any name
  other than its own, and a remote registration for a local name or for a name of another owner
  raises or is dropped as stale, leaving the entry as it was.\<close>

theorem remote_register_no_takeover:
  assumes "lookup r n = Some e" and "e_is_local e \<or> e_owner e \<noteq> w"
  shows "(register_remote n c m w p ep h r = Inl ValueError \<or> register_remote n c m w p ep h r = Inr r)
       \<and> lookup (apply_announcement w n (Announce c m p ep h) r) n = Some e
       \<and> (\<forall>k a. k \<noteq> n \<longrightarrow> lookup (apply_announcement w n a r) k = lookup r k)
       \<and> (e_is_local e \<longrightarrow> (\<forall>a. lookup (apply_announcement w n a r) n = Some e))"
proof -
  have "register_remote n c m w p ep h r = Inl ValueError \<or> register_remote n c m w p ep h r = Inr r"
    using assms by (auto simp: register_remote_def lookup_def Let_def split: option.splits)
  then show ?thesis
    using assms(1) by (auto simp: apply_announcement_other apply_announcement_local)
qed

theorem remote_register_no_takeover_witness:
  "\<exists>r. register ''db'' None True [] [] (new_registry True) = Inr r
     \<and> lookup (apply_announcement ''evil'' ''db'' (Announce [''x''] [] '''' 9 '''') r) ''db'' = lookup r ''db''"
proof -
  obtain r where r: "register ''db'' None True [] [] (new_registry True) = Inr r"
    using local_registry.reg_succeeds [of "new_registry True" "''db''" None True "[]" "[]"]
    by (auto simp: new_registry_def lookup_def)
  have "lookup r ''db'' = Some (local_entry ''db'' None True [] [])"
    using register_lookup [OF r] by simp
  with remote_register_no_takeover [of r "''db''" "local_entry ''db'' None True [] []" "''evil''"
      "[''x'']" "[]" "''''" 9 "''''"] r
  show ?thesis by (simp add: local_entry_def)
qed

text \<open>Broadcast patterns resolve to exactly the registered entries whose name the glob matches, in
  registration order, and a pattern that does not start with an underscore never reaches an
  internal endpoint.\<close>

theorem lookup_all_spec:
  assumes "registry_ok r"
  shows "lookup_all r pat =
           [e \<leftarrow> map snd (r_entries r).
              fnmatch (e_name e) pat \<and> (startswith pat ''_'' \<or> \<not> startswith (e_name e) ''_'')]
       \<and> (\<forall>e. e \<in> set (lookup_all r pat) \<longleftrightarrow>
             lookup r (e_name e) = Some e \<and> fnmatch (e_name e) pat
             \<and> (startswith pat ''_'' \<or> \<not> startswith (e_name e) ''_''))"
proof -
  have names: "n = e_name e" if "(n, e) \<in> set (r_entries r)" for n e
    using assms that by (auto simp: registry_ok_def lookup_def)
  have mem: "e \<in> snd ` set (r_entries r) \<longleftrightarrow> lookup r (e_name e) = Some e" for e
  proof
    assume "e \<in> snd ` set (r_entries r)"
    then obtain n where n: "(n, e) \<in> set (r_entries r)" by auto
    with names [OF n, symmetric] assms show "lookup r (e_name e) = Some e"
      by (simp add: registry_ok_def lookup_def)
  next
    assume "lookup r (e_name e) = Some e"
    then have "(e_name e, e) \<in> set (r_entries r)"
      unfolding lookup_def by (rule dget_in_set)
    from imageI [OF this, of snd] show "e \<in> snd ` set (r_entries r)" by simp
  qed
  have l: "lookup_all r pat =
           [e \<leftarrow> map snd (r_entries r).
              fnmatch (e_name e) pat \<and> (startswith pat ''_'' \<or> \<not> startswith (e_name e) ''_'')]"
    using map_snd_filter_key [where P = "\<lambda>n. fnmatch n pat", OF names]
      map_snd_filter_key [where P = "\<lambda>n. \<not> startswith n ''_'' \<and> fnmatch n pat", OF names]
    by (simp add: lookup_all_def conj_commute)
  show ?thesis by (intro conjI allI l) (auto simp: l mem)
qed

theorem lookup_all_spec_witness:
  "lookup_all (new_registry True\<lparr>r_entries :=
      [(''w1'', local_entry ''w1'' None True [] []), (''_sys'', local_entry ''_sys'' None True [] [])]\<rparr>) ''*''
   = [local_entry ''w1'' None True [] []]"
proof -
  let ?r = "new_registry True\<lparr>r_entries :=
      [(''w1'', local_entry ''w1'' None True [] []), (''_sys'', local_entry ''_sys'' None True [] [])]\<rparr>"
  have "registry_ok ?r"
    by (auto simp: registry_ok_def new_registry_def lookup_def local_entry_def)
  from lookup_all_spec [OF this, THEN conjunct1, of "''*''"] show ?thesis
    by (simp add: local_entry_def fnmatch_def)
qed

text \<open>Restart re-registration never fails, keeps the address, locality, capabilities and metadata
  of the old entry, touches no other name, and resets the fields of a remote announcement (owner,
  key, epoch, health channel) to their defaults.\<close>

theorem reregister_keeps_routing:
  "\<exists>r'. reregister_preserving r name = Inr r'
     \<and> (\<forall>k. k \<noteq> name \<longrightarrow> lookup r' k = lookup r k)
     \<and> (case lookup r name of
          Some e \<Rightarrow> lookup r' name =
            Some (e\<lparr>e_name := name, e_owner := '''', e_pubkey := '''', e_epoch := 0,
                    e_health_channel := ''''\<rparr>)
        | None \<Rightarrow> lookup r' name = Some (local_entry name None True [] []))"
  using reregister_preserving_lookup [of r name]
  by (auto simp: local_entry_def split: option.splits)

theorem reregister_keeps_routing_witness:
  "\<exists>r'. reregister_preserving (new_registry True) ''a'' = Inr r' \<and> lookup r' ''b'' = None"
  using reregister_keeps_routing [of "new_registry True" "''a''"]
  by (auto simp: new_registry_def lookup_def)

text \<open>Capability queries are exact: \<^verbatim>\<open>find_by_capability\<close> returns the entries that declare
  the tag, \<^verbatim>\<open>match="all"\<close> those that declare every tag and any other mode those that
  declare at least one, all in registration order; asking for all of one tag, for any of one tag
  and for that tag is the same query.\<close>

theorem capability_queries:
  "find_by_capabilities r tags ''all'' =
     [e \<leftarrow> map snd (r_entries r). list_all (\<lambda>t. e \<in> set (find_by_capability r t)) tags]
   \<and> find_by_capabilities r tags ''any'' =
     [e \<leftarrow> map snd (r_entries r). list_ex (\<lambda>t. e \<in> set (find_by_capability r t)) tags]
   \<and> find_by_capabilities r [t] ''all'' = find_by_capability r t
   \<and> find_by_capabilities r [t] ''any'' = find_by_capability r t"
  by (auto simp: find_by_capabilities_def find_by_capability_def list_all_iff list_ex_iff
      intro!: filter_cong)

end
