(* ===== verification/Streaming.thy ===== *)
theory Streaming
  imports Civitas_Prelude
begin

text \<open>
  \<^verbatim>\<open>src/civitas/streaming.py\<close>: the bounded buffer of one in-flight stream. Producers call
  \<^verbatim>\<open>push\<close>, \<^verbatim>\<open>end\<close> and \<^verbatim>\<open>fail\<close>; one consumer drains. The interleaving of the
  two sides is a sequence of operations (\<open>stream_op\<close>), the waiting of \<^verbatim>\<open>drain\<close> is a
  separate timed model (\<open>drain\<close>) whose clock readings are arguments: real numbers, without a
  delay of the scheduler.
\<close>

section \<open>The sink\<close>

datatype frame = Chunk payload | EndFrame | ErrFrame string

record stream_sink =
  ss_queue :: "frame list"
  ss_maxsize :: int
  ss_pending :: int
  ss_done :: bool
  ss_next_seq :: int

definition new_sink :: "int \<Rightarrow> stream_sink" where
  "new_sink maxsize =
     \<lparr>ss_queue = [], ss_maxsize = maxsize, ss_pending = 0, ss_done = False, ss_next_seq = 0\<rparr>"

definition ss_close :: "frame \<Rightarrow> stream_sink \<Rightarrow> stream_sink" where
  "ss_close f s = s\<lparr>ss_done := True, ss_queue := ss_queue s @ [f]\<rparr>"

definition ss_push :: "payload \<Rightarrow> int option \<Rightarrow> stream_sink \<Rightarrow> stream_sink" where
  "ss_push p seq s =
     (if ss_done s then s
      else if seq \<noteq> None \<and> seq \<noteq> Some (ss_next_seq s) then ss_close (ErrFrame ''out_of_order'') s
      else if ss_pending s \<ge> ss_maxsize s then ss_close (ErrFrame ''slow_consumer'') s
      else s\<lparr>ss_next_seq := (if seq \<noteq> None then ss_next_seq s + 1 else ss_next_seq s),
             ss_pending := ss_pending s + 1,
             ss_queue := ss_queue s @ [Chunk p]\<rparr>)"

definition ss_end :: "int option \<Rightarrow> stream_sink \<Rightarrow> stream_sink" where
  "ss_end tot s =
     (if ss_done s then s
      else if tot \<noteq> None \<and> tot \<noteq> Some (ss_next_seq s)
           then ss_close (ErrFrame ''truncated_stream'') s
      else ss_close EndFrame s)"

definition ss_fail :: "string \<Rightarrow> stream_sink \<Rightarrow> stream_sink" where
  "ss_fail err s = (if ss_done s then s else ss_close (ErrFrame err) s)"

section \<open>The drain loop\<close>

text \<open>What one iteration does with the frame it took.\<close>

datatype outcome = Running | Returned | Closed string

record consumer =
  c_sink :: stream_sink
  c_yielded :: "payload list"
  c_outcome :: outcome

definition start_consumer :: "int \<Rightarrow> consumer" where
  "start_consumer maxsize = \<lparr>c_sink = new_sink maxsize, c_yielded = [], c_outcome = Running\<rparr>"

definition drain_reason :: "string \<Rightarrow> string" where
  "drain_reason err = (if err = '''' then ''stream error'' else err)"

definition drain_take :: "consumer \<Rightarrow> consumer" where
  "drain_take c =
     (if c_outcome c \<noteq> Running then c
      else case ss_queue (c_sink c) of
        [] \<Rightarrow> c
      | f # q \<Rightarrow>
          (let s = (c_sink c)\<lparr>ss_queue := q\<rparr>
           in case f of
                EndFrame \<Rightarrow> c\<lparr>c_sink := s, c_outcome := Returned\<rparr>
              | ErrFrame e \<Rightarrow> c\<lparr>c_sink := s, c_outcome := Closed (drain_reason e)\<rparr>
              | Chunk p \<Rightarrow> c\<lparr>c_sink := s\<lparr>ss_pending := ss_pending s - 1\<rparr>,
                             c_yielded := c_yielded c @ [p]\<rparr>))"

text \<open>The interleavings of producer and consumer.\<close>

datatype stream_event = SPush payload "int option" | SEnd "int option" | SFail string | STake

fun stream_op :: "stream_event \<Rightarrow> consumer \<Rightarrow> consumer" where
  "stream_op (SPush p seq) c = c\<lparr>c_sink := ss_push p seq (c_sink c)\<rparr>"
| "stream_op (SEnd tot) c = c\<lparr>c_sink := ss_end tot (c_sink c)\<rparr>"
| "stream_op (SFail e) c = c\<lparr>c_sink := ss_fail e (c_sink c)\<rparr>"
| "stream_op STake c = drain_take c"

definition run_stream :: "int \<Rightarrow> stream_event list \<Rightarrow> consumer" where
  "run_stream maxsize ops = fold stream_op ops (start_consumer maxsize)"

subsection \<open>Waiting\<close>

text \<open>The bound of one wait: an error when the stream's whole duration is used up.\<close>

definition drain_wait ::
  "bool \<Rightarrow> real option \<Rightarrow> real option \<Rightarrow> real option \<Rightarrow> real \<Rightarrow> string + real option" where
  "drain_wait first first_timeout idle_timeout deadline now =
     (let wait = (if first \<and> first_timeout \<noteq> None then first_timeout else idle_timeout)
      in case deadline of
           None \<Rightarrow> Inr wait
         | Some d \<Rightarrow>
             (let remaining = d - now
              in if remaining \<le> 0 then Inl ''max_stream_duration exceeded''
                 else Inr (Some (case wait of None \<Rightarrow> remaining | Some w \<Rightarrow> min w remaining))))"

definition drain_timeout :: "real option \<Rightarrow> real \<Rightarrow> string" where
  "drain_timeout deadline now =
     (case deadline of
        Some d \<Rightarrow> if now \<ge> d then ''max_stream_duration exceeded'' else ''stream idle timeout''
      | None \<Rightarrow> ''stream idle timeout'')"

text \<open>
  A timed run of \<^verbatim>\<open>drain\<close>. Each arrival gives the time the frame is queued, the frame,
  and how long the consumer is busy with it before it asks for the next one. A frame that is
  already queued is taken without waiting. \<open>Blocked\<close> is a wait without a bound that no frame
  ends.
\<close>

datatype drain_end = DReturned real | DClosed string real | Blocked

type_synonym arrival = "real \<times> frame \<times> real"

fun drain ::
  "real option \<Rightarrow> real option \<Rightarrow> real option \<Rightarrow> bool \<Rightarrow> real \<Rightarrow> arrival list
     \<Rightarrow> (payload \<times> real) list \<times> drain_end" where
  "drain idle first_timeout deadline first now arrivals =
     (case drain_wait first first_timeout idle deadline now of
        Inl reason \<Rightarrow> ([], DClosed reason now)
      | Inr wait \<Rightarrow>
          (case arrivals of
             [] \<Rightarrow>
               (case wait of
                  None \<Rightarrow> ([], Blocked)
                | Some w \<Rightarrow> ([], DClosed (drain_timeout deadline (now + max 0 w)) (now + max 0 w)))
           | (t, f, busy) # rest \<Rightarrow>
               (if now < t \<and> (case wait of None \<Rightarrow> False | Some w \<Rightarrow> now + w < t)
                then (let w = (case wait of None \<Rightarrow> 0 | Some w \<Rightarrow> max 0 w)
                      in ([], DClosed (drain_timeout deadline (now + w)) (now + w)))
                else (let now' = max now t
                      in case f of
                           EndFrame \<Rightarrow> ([], DReturned now')
                         | ErrFrame e \<Rightarrow> ([], DClosed (drain_reason e) now')
                         | Chunk p \<Rightarrow>
                             (let (ys, r) = drain idle first_timeout deadline False (now' + busy) rest
                              in ((p, now') # ys, r))))))"

declare drain.simps [simp del]

section \<open>The invariant of the buffer\<close>

fun chunks :: "frame list \<Rightarrow> payload list" where
  "chunks [] = []"
| "chunks (Chunk p # fs) = p # chunks fs"
| "chunks (EndFrame # fs) = chunks fs"
| "chunks (ErrFrame e # fs) = chunks fs"

lemma chunks_append [simp]: "chunks (a @ b) = chunks a @ chunks b"
  by (induction a rule: chunks.induct) auto

definition is_chunk :: "frame \<Rightarrow> bool" where
  "is_chunk f = (case f of Chunk p \<Rightarrow> True | _ \<Rightarrow> False)"

lemma is_chunk_simps [simp]:
  "is_chunk (Chunk p)" "\<not> is_chunk EndFrame" "\<not> is_chunk (ErrFrame e)"
  by (simp_all add: is_chunk_def)

fun pushes :: "stream_event list \<Rightarrow> (int option \<times> payload) list" where
  "pushes [] = []"
| "pushes (SPush p s # ops) = (s, p) # pushes ops"
| "pushes (SEnd t # ops) = pushes ops"
| "pushes (SFail e # ops) = pushes ops"
| "pushes (STake # ops) = pushes ops"

lemma pushes_append [simp]: "pushes (a @ b) = pushes a @ pushes b"
  by (induction a rule: pushes.induct) auto

text \<open>
  \<open>stream_inv maxsize (ops, c)\<close>: the chunks handed out followed by those still queued are
  exactly the first pushes of the history (all of them while the stream is open), the counter
  counts the queued chunks and is bounded, the terminal frame is last and appears once.
\<close>

definition accepted :: "consumer \<Rightarrow> payload list" where
  "accepted c = c_yielded c @ chunks (ss_queue (c_sink c))"

definition stream_inv :: "int \<Rightarrow> stream_event list \<times> consumer \<Rightarrow> bool" where
  "stream_inv maxsize = (\<lambda>(ops, c).
     let s = c_sink c; n = length (accepted c) in
       ss_maxsize s = maxsize
     \<and> ss_pending s = int (length (chunks (ss_queue s)))
     \<and> int (length (chunks (ss_queue s))) \<le> max 0 maxsize
     \<and> accepted c = map snd (take n (pushes ops)) \<and> n \<le> length (pushes ops)
     \<and> (\<not> ss_done s \<longrightarrow> n = length (pushes ops) \<and> c_outcome c = Running
          \<and> list_all is_chunk (ss_queue s))
     \<and> (ss_done s \<and> c_outcome c = Running \<longrightarrow>
          (\<exists>q f. ss_queue s = q @ [f] \<and> list_all is_chunk q \<and> \<not> is_chunk f))
     \<and> (c_outcome c \<noteq> Running \<longrightarrow> ss_queue s = []))"

definition stream_step :: "stream_event list \<times> consumer \<Rightarrow> stream_event list \<times> consumer \<Rightarrow> bool" where
  "stream_step a b \<longleftrightarrow> (\<exists>op. b = (fst a @ [op], stream_op op (snd a)))"

text \<open>The same for sequence numbers: when every push carries one, the accepted chunks are
  numbered from zero without a gap, and a clean end was announced with their number.\<close>

definition sequenced :: "stream_event list \<Rightarrow> bool" where
  "sequenced ops \<longleftrightarrow> (\<forall>sp \<in> set (pushes ops). fst sp \<noteq> None)"

definition seq_inv :: "stream_event list \<times> consumer \<Rightarrow> bool" where
  "seq_inv = (\<lambda>(ops, c).
     let s = c_sink c; n = length (accepted c) in
       (sequenced ops \<longrightarrow>
          ss_next_seq s = int n \<and>
          (\<forall>i < n. fst (pushes ops ! i) = Some (int i)))
     \<and> (EndFrame \<in> set (ss_queue s) \<or> c_outcome c = Returned \<longrightarrow>
          (\<exists>t. SEnd t \<in> set ops \<and> (t = None \<or> t = Some (ss_next_seq s)))))"

lemma list_all_is_chunk_EndFrame [simp]: "list_all is_chunk q \<Longrightarrow> EndFrame \<notin> set q"
  by (induction q) auto

lemma accepted_push_new:
  "\<not> ss_done s \<Longrightarrow> seq = None \<or> seq = Some (ss_next_seq s) \<Longrightarrow> ss_pending s < ss_maxsize s \<Longrightarrow>
   ss_push p seq s = s\<lparr>ss_next_seq := (if seq \<noteq> None then ss_next_seq s + 1 else ss_next_seq s),
      ss_pending := ss_pending s + 1, ss_queue := ss_queue s @ [Chunk p]\<rparr>"
  by (auto simp: ss_push_def)

lemma ss_push_cases:
  obtains (ignored) "ss_done s" "ss_push p seq s = s"
  | (closed) e where "\<not> ss_done s" "ss_push p seq s = ss_close (ErrFrame e) s"
  | (stored) "\<not> ss_done s" "seq = None \<or> seq = Some (ss_next_seq s)" "ss_pending s < ss_maxsize s"
      "ss_push p seq s = s\<lparr>ss_next_seq := (if seq \<noteq> None then ss_next_seq s + 1 else ss_next_seq s),
         ss_pending := ss_pending s + 1, ss_queue := ss_queue s @ [Chunk p]\<rparr>"
proof -
  consider "ss_done s" | "\<not> ss_done s" "seq \<noteq> None" "seq \<noteq> Some (ss_next_seq s)"
    | "\<not> ss_done s" "seq = None \<or> seq = Some (ss_next_seq s)" "ss_pending s \<ge> ss_maxsize s"
    | "\<not> ss_done s" "seq = None \<or> seq = Some (ss_next_seq s)" "ss_pending s < ss_maxsize s"
    by fastforce
  then show thesis
  proof cases
    case 1 then show thesis by (intro ignored) (simp_all add: ss_push_def)
  next
    case 2 then show thesis by (intro closed) (simp_all add: ss_push_def)
  next
    case 3 then show thesis by (intro closed [of "''slow_consumer''"]) (auto simp: ss_push_def)
  next
    case 4 then show thesis by (intro stored accepted_push_new) auto
  qed
qed

text \<open>Closing the stream keeps the chunks; a chunk is stored only in an open stream.\<close>

lemma stream_inv_close:
  assumes "stream_inv m (ops, c)" "\<not> ss_done (c_sink c)" "\<not> is_chunk f"
  shows "stream_inv m (ops @ [op], c\<lparr>c_sink := ss_close f (c_sink c)\<rparr>)"
proof -
  have [simp]: "chunks [f] = []" using assms(3) by (cases f) auto
  show ?thesis
    using assms(1,2,3)
    by (auto simp: stream_inv_def ss_close_def Let_def accepted_def)
qed

lemma stream_inv_ignored:
  "stream_inv m (ops, c) \<Longrightarrow> ss_done (c_sink c) \<Longrightarrow> stream_inv m (ops @ [op], c)"
  by (auto simp: stream_inv_def Let_def)

lemma stream_inv_take: "stream_inv m (ops, c) \<Longrightarrow> stream_inv m (ops @ [STake], drain_take c)"
proof (cases "c_outcome c = Running")
  case False
  then show "stream_inv m (ops, c) \<Longrightarrow> ?thesis"
    by (cases "ss_done (c_sink c)") (auto simp: drain_take_def stream_inv_def Let_def)
next
  case run: True
  assume inv: "stream_inv m (ops, c)"
  show ?thesis
  proof (cases "ss_queue (c_sink c)")
    case Nil
    with run inv show ?thesis by (auto simp: drain_take_def stream_inv_def Let_def)
  next
    case (Cons f q)
    show ?thesis
    proof (cases f)
      case (Chunk p)
      with run inv Cons show ?thesis
        by (auto simp: drain_take_def stream_inv_def Let_def accepted_def Cons_eq_append_conv)
    qed (use run inv Cons in \<open>auto simp: drain_take_def stream_inv_def Let_def accepted_def
            Cons_eq_append_conv list_all_iff\<close>)
  qed
qed

lemma stream_inv_push: "stream_inv m (ops, c) \<Longrightarrow> stream_inv m (ops @ [SPush p seq], stream_op (SPush p seq) c)"
proof (cases rule: ss_push_cases [of "c_sink c" p seq])
  case ignored
  then show "stream_inv m (ops, c) \<Longrightarrow> ?thesis" by (simp add: stream_inv_ignored)
next
  case (closed e)
  then show "stream_inv m (ops, c) \<Longrightarrow> ?thesis" by (simp add: stream_inv_close)
next
  case stored
  assume "stream_inv m (ops, c)"
  with stored show ?thesis
    by (auto simp: stream_inv_def Let_def accepted_def)
qed

lemma stream_inv_step: "stream_inv m (ops, c) \<Longrightarrow> stream_inv m (ops @ [op], stream_op op c)"
proof (cases op)
  case (SEnd t)
  assume "stream_inv m (ops, c)"
  with SEnd show ?thesis
    by (auto simp: ss_end_def stream_inv_ignored stream_inv_close)
next
  case (SFail e)
  assume "stream_inv m (ops, c)"
  with SFail show ?thesis
    by (auto simp: ss_fail_def stream_inv_ignored stream_inv_close)
qed (auto simp: stream_inv_take stream_inv_push simp del: stream_op.simps(1))

lemma sequenced_snoc [simp]:
  "sequenced (ops @ [op]) \<longleftrightarrow> sequenced ops \<and> (\<forall>sp \<in> set (pushes [op]). fst sp \<noteq> None)"
  by (auto simp: sequenced_def)

lemma ss_close_fields [simp]:
  "ss_next_seq (ss_close f s) = ss_next_seq s" "ss_queue (ss_close f s) = ss_queue s @ [f]"
  "ss_done (ss_close f s)"
  by (simp_all add: ss_close_def)

text \<open>Neither an ignored operation nor a closing one moves the sequence counter.\<close>

lemma seq_inv_close:
  assumes "stream_inv m (ops, c)" "seq_inv (ops, c)" "\<not> ss_done (c_sink c)" "\<not> is_chunk f"
    and "f = EndFrame \<Longrightarrow> \<exists>t. op = SEnd t \<and> (t = None \<or> t = Some (ss_next_seq (c_sink c)))"
  shows "seq_inv (ops @ [op], c\<lparr>c_sink := ss_close f (c_sink c)\<rparr>)"
proof -
  have [simp]: "chunks [f] = []" using assms(4) by (cases f) auto
  have open_inv: "c_outcome c = Running" "EndFrame \<notin> set (ss_queue (c_sink c))"
    "length (accepted c) = length (pushes ops)"
    using assms(1,3) by (auto simp: stream_inv_def Let_def)
  then show ?thesis
    using assms(2,4,5)
    by (cases f) (auto simp: seq_inv_def Let_def accepted_def nth_append)
qed

lemma seq_inv_close_err:
  "stream_inv m (ops, c) \<Longrightarrow> seq_inv (ops, c) \<Longrightarrow> \<not> ss_done (c_sink c) \<Longrightarrow>
   seq_inv (ops @ [op], c\<lparr>c_sink := ss_close (ErrFrame e) (c_sink c)\<rparr>)"
  by (rule seq_inv_close) auto

lemma seq_inv_ignored:
  "stream_inv m (ops, c) \<Longrightarrow> seq_inv (ops, c) \<Longrightarrow> seq_inv (ops @ [op], c)"
  by (auto simp: seq_inv_def stream_inv_def Let_def nth_append)

lemma seq_inv_take:
  assumes "stream_inv m (ops, c)" "seq_inv (ops, c)"
  shows "seq_inv (ops @ [STake], drain_take c)"
proof (cases "c_outcome c = Running \<and> ss_queue (c_sink c) \<noteq> []")
  case True
  then obtain f q where "ss_queue (c_sink c) = f # q" by (auto simp: neq_Nil_conv)
  with True assms show ?thesis
    by (cases f) (auto simp: drain_take_def seq_inv_def stream_inv_def Let_def accepted_def)
next
  case False
  with assms show ?thesis
    by (auto simp: drain_take_def seq_inv_ignored split: list.splits)
qed

lemma seq_inv_push:
  assumes "stream_inv m (ops, c)" "seq_inv (ops, c)"
  shows "seq_inv (ops @ [SPush p seq], stream_op (SPush p seq) c)"
proof (cases rule: ss_push_cases [of "c_sink c" p seq])
  case ignored
  then show ?thesis using seq_inv_ignored [OF assms] by simp
next
  case (closed e)
  then show ?thesis using seq_inv_close_err [OF assms] by simp
next
  case stored
  from assms stored(1) have n: "length (accepted c) = length (pushes ops)"
    "EndFrame \<notin> set (ss_queue (c_sink c))" "c_outcome c = Running"
    by (auto simp: stream_inv_def Let_def)
  with assms(2) stored show ?thesis
    by (auto simp: seq_inv_def Let_def accepted_def nth_append less_Suc_eq split: if_splits)
qed

lemma seq_inv_step:
  assumes "stream_inv m (ops, c)" "seq_inv (ops, c)"
  shows "seq_inv (ops @ [op], stream_op op c)"
proof (cases op)
  case (SEnd t)
  then show ?thesis
    using seq_inv_ignored [OF assms, of op] seq_inv_close_err [OF assms, of op]
      seq_inv_close [OF assms, of EndFrame op]
    by (auto simp: ss_end_def)
next
  case (SFail e)
  then show ?thesis
    using seq_inv_ignored [OF assms, of op] seq_inv_close_err [OF assms, of op]
    by (auto simp: ss_fail_def)
next
  case STake
  then show ?thesis using seq_inv_take [OF assms] by simp
next
  case (SPush p s)
  then show ?thesis using seq_inv_push [OF assms] by simp
qed

interpretation stream_machine:
  invariant_machine "\<lambda>st. st = ([], start_consumer m)" stream_step
    "\<lambda>st. stream_inv m st \<and> seq_inv st" for m
proof
  fix s :: "stream_event list \<times> consumer"
  assume "s = ([], start_consumer m)"
  then show "stream_inv m s \<and> seq_inv s"
    by (simp add: stream_inv_def seq_inv_def start_consumer_def new_sink_def Let_def accepted_def
        sequenced_def)
next
  fix s t :: "stream_event list \<times> consumer"
  assume "stream_inv m s \<and> seq_inv s" "stream_step s t"
  then show "stream_inv m t \<and> seq_inv t"
    by (cases s) (auto simp: stream_step_def intro: stream_inv_step seq_inv_step
        simp del: stream_op.simps)
qed

lemma run_stream_reachable:
  "stream_step\<^sup>*\<^sup>* ([], start_consumer m) (ops, run_stream m ops)"
proof (induction ops rule: rev_induct)
  case Nil
  show ?case by (simp add: run_stream_def)
next
  case (snoc op ops)
  have "stream_step (ops, run_stream m ops) (ops @ [op], run_stream m (ops @ [op]))"
    by (auto simp: stream_step_def run_stream_def simp del: stream_op.simps)
  with snoc.IH show ?case by (rule rtranclp.rtrancl_into_rtrancl)
qed

lemmas run_stream_inv =
  stream_machine.reachable_inv [OF refl run_stream_reachable, THEN conjunct1]
  stream_machine.reachable_inv [OF refl run_stream_reachable, THEN conjunct2]

section \<open>Properties\<close>

text \<open>Under every interleaving of producer and consumer the buffer never holds more than
  \<open>maxsize\<close> chunks, the pending counter counts them, and what was delivered together with what
  is still buffered is an initial part of what was pushed, in order and without loss. While the
  stream is open nothing has been dropped; after it closed, nothing is buffered behind its terminal
  frame.\<close>

theorem stream_buffer_bounded_and_ordered:
  "let c = run_stream maxsize ops; s = c_sink c; n = length (accepted c) in
     ss_pending s = int (length (chunks (ss_queue s)))
   \<and> ss_pending s \<le> max 0 maxsize
   \<and> accepted c = map snd (take n (pushes ops))
   \<and> (ss_done s \<or> accepted c = map snd (pushes ops))
   \<and> (c_outcome c = Running \<or> ss_queue s = [])"
  using run_stream_inv(1) [of maxsize ops]
  by (auto simp: stream_inv_def Let_def)

text \<open>C22. End-to-end integrity of a sequenced stream: when the consumer returns normally, the
  chunks it received are the first \<open>n\<close> pushes, they were numbered \<open>0, ..., n - 1\<close>, and the
  producer ended the stream either without a total or with the total \<open>n\<close>. So a gap, a
  duplicate, a reordering or a truncation is never reported as a clean end.\<close>

theorem clean_end_is_complete:
  assumes "sequenced ops" and "c_outcome (run_stream maxsize ops) = Returned"
  shows "\<exists>n \<le> length (pushes ops).
           c_yielded (run_stream maxsize ops) = map snd (take n (pushes ops))
         \<and> (\<forall>i < n. fst (pushes ops ! i) = Some (int i))
         \<and> (SEnd None \<in> set ops \<or> SEnd (Some (int n)) \<in> set ops)"
proof -
  let ?c = "run_stream maxsize ops" and ?n = "length (accepted (run_stream maxsize ops))"
  have q: "ss_queue (c_sink ?c) = []" and n: "?n \<le> length (pushes ops)"
    and y: "accepted ?c = map snd (take ?n (pushes ops))"
    using run_stream_inv(1) [of maxsize ops] assms(2) by (auto simp: stream_inv_def Let_def)
  from q have acc: "accepted ?c = c_yielded ?c" by (simp add: accepted_def)
  have "\<forall>i < ?n. fst (pushes ops ! i) = Some (int i)"
    "SEnd None \<in> set ops \<or> SEnd (Some (int ?n)) \<in> set ops"
    using run_stream_inv(2) [of ops maxsize] assms by (auto simp: seq_inv_def Let_def)
  with n y acc show ?thesis by (metis)
qed

theorem clean_end_is_complete_witness:
  "c_outcome (run_stream 4 [SPush [(''t'', JStr ''a'')] (Some 0), STake,
      SPush [] (Some 1), SEnd (Some 2), STake, STake]) = Returned
   \<and> (\<exists>n \<le> 2. c_yielded (run_stream 4 [SPush [(''t'', JStr ''a'')] (Some 0), STake,
      SPush [] (Some 1), SEnd (Some 2), STake, STake]) =
        map snd (take n [(Some (0::int), [(''t'', JStr ''a'')]), (Some 1, [])]))"
proof -
  let ?ops = "[SPush [(''t'', JStr ''a'')] (Some 0), STake, SPush [] (Some 1), SEnd (Some 2), STake, STake]"
  have r: "c_outcome (run_stream 4 ?ops) = Returned" and s: "sequenced ?ops"
    by (simp_all add: run_stream_def start_consumer_def new_sink_def ss_push_def ss_end_def
        ss_close_def drain_take_def Let_def sequenced_def)
  from clean_end_is_complete [OF s r] show ?thesis
    using r by auto
qed

lemma drain_wait_bounded: "drain_wait first ft idle (Some d) now = Inr (Some w) \<Longrightarrow> now + w \<le> d \<and> now < d"
  by (auto simp: drain_wait_def Let_def split: if_splits option.splits)

lemma drain_wait_some:
  "drain_wait first ft idle deadline now = Inr wait \<Longrightarrow> deadline \<noteq> None \<or> idle \<noteq> None \<Longrightarrow> wait \<noteq> None"
  by (auto simp: drain_wait_def Let_def split: if_splits option.splits)

text \<open>The branches of one iteration under a bounded wait.\<close>

lemma drain_expired:
  "drain_wait first ft idle deadline now = Inl reason \<Longrightarrow>
   drain idle ft deadline first now arrivals = ([], DClosed reason now)"
  by (simp add: drain.simps [of idle ft deadline first now])

lemma drain_nothing:
  "drain_wait first ft idle deadline now = Inr (Some w) \<Longrightarrow>
   drain idle ft deadline first now [] =
     ([], DClosed (drain_timeout deadline (now + max 0 w)) (now + max 0 w))"
  by (simp add: drain.simps [of idle ft deadline first now])

lemma drain_late:
  "drain_wait first ft idle deadline now = Inr (Some w) \<Longrightarrow> now < t \<Longrightarrow> now + w < t \<Longrightarrow>
   drain idle ft deadline first now ((t, f, busy) # rest) =
     ([], DClosed (drain_timeout deadline (now + max 0 w)) (now + max 0 w))"
  by (simp add: drain.simps [of idle ft deadline first now] Let_def)

lemma drain_in_time:
  "drain_wait first ft idle deadline now = Inr (Some w) \<Longrightarrow> \<not> (now < t \<and> now + w < t) \<Longrightarrow>
   drain idle ft deadline first now ((t, f, busy) # rest) =
     (case f of
        EndFrame \<Rightarrow> ([], DReturned (max now t))
      | ErrFrame e \<Rightarrow> ([], DClosed (drain_reason e) (max now t))
      | Chunk p \<Rightarrow>
          ((p, max now t) # fst (drain idle ft deadline False (max now t + busy) rest),
           snd (drain idle ft deadline False (max now t + busy) rest)))"
  by (auto simp: drain.simps [of idle ft deadline first now] Let_def split: frame.splits prod.splits)

text \<open>C25. A drain with a maximal duration or an idle timeout never waits for ever, whatever
  arrives and however slowly the consumer works; no chunk is handed out after the deadline; and
  the chunks handed out are an initial part of those that arrived, in order.\<close>

theorem drain_terminates_by_deadline:
  assumes "deadline \<noteq> None \<or> idle \<noteq> None"
  shows "snd (drain idle first_timeout deadline first now arrivals) \<noteq> Blocked
       \<and> (case deadline of None \<Rightarrow> True | Some d \<Rightarrow>
            list_all (\<lambda>(p, t). t \<le> d) (fst (drain idle first_timeout deadline first now arrivals)))
       \<and> prefix (map fst (fst (drain idle first_timeout deadline first now arrivals)))
               (chunks (map (fst \<circ> snd) arrivals))"
proof (induction arrivals arbitrary: first now)
  case Nil
  show ?case
  proof (cases "drain_wait first first_timeout idle deadline now")
    case (Inr wait)
    with drain_wait_some [OF Inr assms] show ?thesis
      by (auto simp: drain_nothing split: option.split)
  qed (auto simp: drain_expired split: option.splits)
next
  case (Cons a rest)
  obtain t f busy where a: "a = (t, f, busy)" by (cases a) auto
  show ?case
  proof (cases "drain_wait first first_timeout idle deadline now")
    case (Inr wait)
    with drain_wait_some [OF Inr assms] obtain w
      where w: "drain_wait first first_timeout idle deadline now = Inr (Some w)" by auto
    show ?thesis
    proof (cases "now < t \<and> now + w < t")
      case True
      with w a show ?thesis by (auto simp: drain_late split: option.splits)
    next
      case False
      have "case deadline of None \<Rightarrow> True | Some d \<Rightarrow> max now t \<le> d"
        using w False
        by (cases deadline) (auto dest: drain_wait_bounded)
      then show ?thesis
        using Cons.IH [of False "max now t + busy"]
        unfolding a drain_in_time [OF w False]
        by (cases f) (auto split: option.splits)
    qed
  qed (auto simp: drain_expired split: option.splits)
qed

theorem drain_terminates_by_deadline_witness:
  "snd (drain None None (Some 5) True 0 [(1, Chunk [], 1), (7, EndFrame, 0)]) \<noteq> Blocked
   \<and> prefix (map fst (fst (drain None None (Some 5) True 0 [(1, Chunk [], 1), (7, EndFrame, 0)]))) [[]]"
  using drain_terminates_by_deadline
    [of "Some 5" None None True 0 "[(1, Chunk [], 1), (7, EndFrame, 0)]"]
  by simp

end
