(* ===== verification/Agent_State.thy ===== *)
theory Agent_State
  imports Mailbox Registry Streaming
begin

text \<open>
  \<^verbatim>\<open>AgentProcess\<close> of \<^verbatim>\<open>src/civitas/process.py\<close>, first part: the state of one
  agent, its status transitions, durable suspension, and the producer and consumer sides of
  streams. The message loop is in \<^verbatim>\<open>Agent_Loop\<close>.

  What the class gets from outside is the record \<open>agent_env\<close>: attributes fixed at
  construction and wiring (\<open>c_*\<close>), and the code it calls but does not own (\<open>e_*\<close>): the
  overridable hooks, the state store, the bus, and the sources of fresh identifiers. A hook is any
  function on the agent, so it may call \<^verbatim>\<open>suspend\<close>, emit chunks and so on; an \<^verbatim>\<open>await\<close>
  is a call of such a function. What the code does to the outside is appended to
  \<open>a_events\<close>; an audit sink is taken not to raise.
\<close>

section \<open>State\<close>

datatype process_status = INITIALIZING | RUNNING | SUSPENDED | STOPPING | STOPPED | CRASHED

datatype suspend_category = HITL_APPROVAL | GOVERNANCE_PAUSE | OTHER

fun category_value :: "suspend_category \<Rightarrow> string" where
  "category_value HITL_APPROVAL = ''hitl_approval''"
| "category_value GOVERNANCE_PAUSE = ''governance_pause''"
| "category_value OTHER = ''other''"

text \<open>\<^verbatim>\<open>SuspendCategory(value)\<close>, with \<^verbatim>\<open>ValueError\<close> as \<^const>\<open>None\<close>.\<close>

definition category_of :: "string \<Rightarrow> suspend_category option" where
  "category_of v =
     find (\<lambda>c. category_value c = v) [HITL_APPROVAL, GOVERNANCE_PAUSE, OTHER]"

record out_stream =
  os_started_at :: real
  os_recipient :: string
  os_max_frames :: "int option"
  os_max_duration :: "real option"
  os_seq :: int
  os_frames :: int
  os_cancelled :: bool

datatype agent_event =
    EvHook string
  | EvRoute message
  | EvAudit string payload
  | EvMetric string
  | EvSpan string

record agent =
  a_state :: payload
  a_status :: process_status
  a_mailbox :: mailbox
  a_registry :: "registry option"
  a_store :: "payload option"
  a_current_message :: "message option"
  a_running_event :: bool
  a_reached_loop :: bool
  a_start_phase :: string
  a_suspend_requested :: bool
  a_suspend_reason :: string
  a_suspend_category :: suspend_category
  a_suspend_initiated_by :: string
  a_pending_streams :: "(string, stream_sink) dict"
  a_stream_producers :: "(string, string) dict"
  a_out_streams :: "(string, out_stream) dict"
  a_now :: real
  a_uid :: nat
  a_events :: "agent_event list"

type_synonym 'a call = "agent \<Rightarrow> 'a result \<times> agent"

record agent_env =
  c_name :: string
  c_mailbox_size :: int
  c_max_retries :: int
  c_handle_timeout :: "real option"
  c_suspend_allowed :: bool
  c_has_bus :: bool
  c_has_store :: bool
  c_has_tracer :: bool
  c_has_audit :: bool
  c_has_metrics :: bool
  e_on_start :: "unit call"
  e_handle :: "message \<Rightarrow> agent \<Rightarrow> real \<times> message option result \<times> agent"
  e_on_error :: "exn \<Rightarrow> message \<Rightarrow> error_action call"
  e_on_stop :: "unit call"
  e_on_suspend :: "string \<Rightarrow> unit call"
  e_on_resume :: "string \<Rightarrow> unit call"
  e_on_correction :: "message \<Rightarrow> unit call"
  e_on_child_terminated :: "string \<Rightarrow> string \<Rightarrow> unit call"
  e_store_get :: "payload option call"
  e_store_set :: "payload \<Rightarrow> unit call"
  e_route :: "message \<Rightarrow> unit call"
  e_uuid :: "nat \<Rightarrow> string"
  e_span_id :: "nat \<Rightarrow> string"
  e_str :: "exn \<Rightarrow> string"

fun status_value :: "process_status \<Rightarrow> string" where
  "status_value INITIALIZING = ''INITIALIZING''"
| "status_value RUNNING = ''RUNNING''"
| "status_value SUSPENDED = ''SUSPENDED''"
| "status_value STOPPING = ''STOPPING''"
| "status_value STOPPED = ''STOPPED''"
| "status_value CRASHED = ''CRASHED''"

text \<open>\<^verbatim>\<open>AgentProcess.__init__\<close>.\<close>

definition new_agent :: "agent_env \<Rightarrow> registry option \<Rightarrow> payload option \<Rightarrow> real \<Rightarrow> agent" where
  "new_agent env reg store now =
     \<lparr>a_state = [], a_status = INITIALIZING, a_mailbox = new_mailbox (c_mailbox_size env) 100,
      a_registry = reg, a_store = store, a_current_message = None, a_running_event = False,
      a_reached_loop = False, a_start_phase = ''restore'', a_suspend_requested = False,
      a_suspend_reason = '''', a_suspend_category = OTHER, a_suspend_initiated_by = '''',
      a_pending_streams = [], a_stream_producers = [], a_out_streams = [],
      a_now = now, a_uid = 0, a_events = []\<rparr>"

definition log_event :: "agent_event \<Rightarrow> agent \<Rightarrow> agent" where
  "log_event ev a = a\<lparr>a_events := a_events a @ [ev]\<rparr>"

text \<open>An exception that \<^verbatim>\<open>except Exception\<close> catches: \<^verbatim>\<open>CancelledError\<close> derives
  from \<^verbatim>\<open>BaseException\<close>.\<close>

definition is_Exception :: "exn \<Rightarrow> bool" where
  "is_Exception e \<longleftrightarrow> e \<noteq> CancelledError"

text \<open>\<^verbatim>\<open>try: await call except Exception: log\<close>; a cancellation passes through.\<close>

definition contained :: "unit call \<Rightarrow> unit call" where
  "contained f a =
     (case f a of
        (Inr u, a') \<Rightarrow> (Inr (), a')
      | (Inl e, a') \<Rightarrow> if is_Exception e then (Inr (), a') else (Inl e, a'))"

text \<open>Sequencing of two calls, the second skipped when the first raises.\<close>

definition andThen :: "unit call \<Rightarrow> 'a call \<Rightarrow> 'a call" where
  "andThen f g a = (case f a of (Inl e, a') \<Rightarrow> (Inl e, a') | (Inr u, a') \<Rightarrow> g a')"

definition lift :: "(agent \<Rightarrow> agent) \<Rightarrow> unit call" where
  "lift f a = (Inr (), f a)"

definition set_status :: "agent_env \<Rightarrow> process_status \<Rightarrow> agent \<Rightarrow> agent" where
  "set_status env st a =
     (let a' = a\<lparr>a_status := st\<rparr>
      in case a_registry a' of
           None \<Rightarrow> a'
         | Some r \<Rightarrow> a'\<lparr>a_registry := Some (set_suspended (c_name env) (st = SUSPENDED) r)\<rparr>)"

definition emit_audit :: "agent_env \<Rightarrow> string \<Rightarrow> payload \<Rightarrow> agent \<Rightarrow> agent" where
  "emit_audit env event details a = (if c_has_audit env then log_event (EvAudit event details) a else a)"

definition emit_lifecycle_span :: "agent_env \<Rightarrow> string \<Rightarrow> agent \<Rightarrow> agent" where
  "emit_lifecycle_span env name a = (if c_has_tracer env then log_event (EvSpan name) a else a)"

section \<open>Checkpoints\<close>

definition checkpoint :: "agent_env \<Rightarrow> unit call" where
  "checkpoint env a = (if c_has_store env then e_store_set env (a_state a) a else (Inr (), a))"

definition restore_state :: "agent_env \<Rightarrow> unit call" where
  "restore_state env a =
     (if c_has_store env then
        (case e_store_get env a of
           (Inl e, a') \<Rightarrow> (Inl e, a')
         | (Inr None, a') \<Rightarrow> (Inr (), a')
         | (Inr (Some saved), a') \<Rightarrow> (Inr (), a'\<lparr>a_state := saved\<rparr>))
      else (Inr (), a))"

section \<open>Durable suspension\<close>

abbreviation SUSPEND_STATE_KEY :: string where
  "SUSPEND_STATE_KEY \<equiv> ''_civitas.suspended''"

definition suspend :: "string \<Rightarrow> suspend_category \<Rightarrow> agent \<Rightarrow> agent" where
  "suspend reason category a =
     a\<lparr>a_suspend_requested := True, a_suspend_reason := reason, a_suspend_category := category\<rparr>"

definition suspend_for_approval :: "string \<Rightarrow> agent \<Rightarrow> agent" where
  "suspend_for_approval reason a = suspend reason HITL_APPROVAL a"

definition resume :: "agent_env \<Rightarrow> string \<Rightarrow> unit call" where
  "resume env approver a =
     (if approver = '''' then (Inl ValueError, a)
      else
        let a1 = a\<lparr>a_suspend_requested := False\<rparr>
        in if a_status a1 \<noteq> SUSPENDED then (Inr (), a1)
           else
             let a2 = set_status env RUNNING (a1\<lparr>a_state := dpop SUSPEND_STATE_KEY (a_state a1)\<rparr>)
             in andThen (contained (checkpoint env))
                  (andThen (contained (\<lambda>x. e_on_resume env approver (log_event (EvHook ''on_resume'') x)))
                    (lift (\<lambda>x. emit_audit env ''agent.resume'' [(''approver'', JStr approver)]
                       (emit_lifecycle_span env ''civitas.agent.resume'' x)))) a2)"

definition suspend_marker :: "string \<Rightarrow> real \<Rightarrow> suspend_category \<Rightarrow> json" where
  "suspend_marker reason since category =
     JDict [(''reason'', JStr reason), (''since'', JFloat since), (''approver'', JNull),
            (''category'', JStr (category_value category))]"

definition enter_suspended :: "agent_env \<Rightarrow> string \<Rightarrow> unit call" where
  "enter_suspended env reason a =
     (let a1 = set_status env SUSPENDED a;
          a2 = a1\<lparr>a_state := dput SUSPEND_STATE_KEY
                   (suspend_marker reason (a_now a1) (a_suspend_category a1)) (a_state a1)\<rparr>
      in andThen (contained (\<lambda>x. e_on_suspend env reason (log_event (EvHook ''on_suspend'') x)))
           (andThen (contained (checkpoint env))
             (lift (\<lambda>x. emit_audit env ''agent.suspend''
                [(''reason'', JStr reason), (''category'', JStr (category_value (a_suspend_category x))),
                 (''initiated_by'', JStr (a_suspend_initiated_by x))]
                (emit_lifecycle_span env ''civitas.agent.suspend'' x)))) a2)"

definition update_suspend_reason :: "agent_env \<Rightarrow> string \<Rightarrow> suspend_category option \<Rightarrow> unit call" where
  "update_suspend_reason env reason category a =
     (case dget (a_state a) SUSPEND_STATE_KEY of
        Some (JDict marker) \<Rightarrow>
          (let marker1 = dput ''reason'' (JStr reason) marker;
               marker2 = (case category of
                            None \<Rightarrow> marker1
                          | Some c \<Rightarrow> dput ''category'' (JStr (category_value c)) marker1)
           in contained (checkpoint env)
                (a\<lparr>a_state := dput SUSPEND_STATE_KEY (JDict marker2) (a_state a)\<rparr>))
      | _ \<Rightarrow> (Inr (), a))"

definition suspend_category_property :: "agent \<Rightarrow> string" where
  "suspend_category_property a =
     (case dget (a_state a) SUSPEND_STATE_KEY of
        Some (JDict marker) \<Rightarrow> get_str marker ''category'' (category_value OTHER)
      | _ \<Rightarrow> category_value OTHER)"

definition clear_suspend_marker :: "agent_env \<Rightarrow> unit call" where
  "clear_suspend_marker env a =
     (if dget (a_state a) SUSPEND_STATE_KEY \<noteq> None
      then contained (checkpoint env) (a\<lparr>a_state := dpop SUSPEND_STATE_KEY (a_state a)\<rparr>)
      else (Inr (), a))"

section \<open>Messages the agent builds\<close>

text \<open>A fresh envelope: identifier and clock, with the counter advanced.\<close>

definition fresh_message :: "agent_env \<Rightarrow> agent \<Rightarrow> message" where
  "fresh_message env a = default_message (e_uuid env (a_uid a)) (a_now a)"

definition tick_uid :: "agent \<Rightarrow> agent" where
  "tick_uid a = a\<lparr>a_uid := Suc (a_uid a)\<rparr>"

definition route :: "agent_env \<Rightarrow> message \<Rightarrow> unit call" where
  "route env m a = e_route env m (log_event (EvRoute m) (tick_uid a))"

definition reply_to_message :: "agent_env \<Rightarrow> message \<Rightarrow> payload \<Rightarrow> agent \<Rightarrow> message" where
  "reply_to_message env original p a =
     (fresh_message env a)
       \<lparr>m_type := get_str p ''type'' ''reply'', m_sender := c_name env,
        m_recipient := reply_address original, m_payload := p,
        m_correlation_id := m_correlation_id original, m_trace_id := m_trace_id original,
        m_span_id := e_span_id env (a_uid a), m_parent_span_id := Some (m_span_id original)\<rparr>"

definition reply :: "agent_env \<Rightarrow> payload \<Rightarrow> agent \<Rightarrow> message result" where
  "reply env p a =
     (case a_current_message a of
        None \<Rightarrow> Inl RuntimeError
      | Some original \<Rightarrow> Inr (reply_to_message env original p a))"

definition reject_reserved_type :: "string \<Rightarrow> unit result" where
  "reject_reserved_type t =
     (if startswith t ''_agency.'' \<or> startswith t ''civitas.stream.''
      then Inl MessageValidationError else Inr ())"

text \<open>Trace context: the trace and span of the message being handled.\<close>

definition with_trace :: "agent \<Rightarrow> message \<Rightarrow> message" where
  "with_trace a m =
     (case a_current_message a of
        None \<Rightarrow> m\<lparr>m_trace_id := '''', m_parent_span_id := None\<rparr>
      | Some c \<Rightarrow> m\<lparr>m_trace_id := m_trace_id c, m_parent_span_id := Some (m_span_id c)\<rparr>)"

definition metric :: "agent_env \<Rightarrow> string \<Rightarrow> agent \<Rightarrow> agent" where
  "metric env name a = (if c_has_metrics env then log_event (EvMetric name) a else a)"

definition send :: "agent_env \<Rightarrow> string \<Rightarrow> payload \<Rightarrow> string \<Rightarrow> unit call" where
  "send env recipient p message_type a =
     (case reject_reserved_type message_type of
        Inl e \<Rightarrow> (Inl e, a)
      | Inr u \<Rightarrow>
          if \<not> c_has_bus env then (Inl RuntimeError, a)
          else
            let m = with_trace a ((fresh_message env a)
                      \<lparr>m_type := message_type, m_sender := c_name env, m_recipient := recipient,
                       m_payload := p, m_span_id := e_span_id env (a_uid a)\<rparr>)
            in andThen (route env m) (lift (metric env ''message_sent'')) a)"

text \<open>\<^verbatim>\<open>ask\<close> up to the call of the bus: the request it hands to \<^verbatim>\<open>MessageBus.request\<close>.\<close>

definition ask_message :: "agent_env \<Rightarrow> string \<Rightarrow> payload \<Rightarrow> string \<Rightarrow> agent \<Rightarrow> message result \<times> agent" where
  "ask_message env recipient p message_type a =
     (case reject_reserved_type message_type of
        Inl e \<Rightarrow> (Inl e, a)
      | Inr u \<Rightarrow>
          if \<not> c_has_bus env then (Inl RuntimeError, a)
          else
            let a1 = tick_uid a;
                m = with_trace a ((fresh_message env a1)
                      \<lparr>m_type := message_type, m_sender := c_name env, m_recipient := recipient,
                       m_payload := p, m_correlation_id := Some (e_uuid env (a_uid a)),
                       m_span_id := e_span_id env (a_uid a1)\<rparr>)
            in (Inr m, metric env ''message_sent'' (tick_uid a1)))"

text \<open>\<open>pick\<close> is \<^verbatim>\<open>random.choice\<close>.\<close>

definition send_capable ::
  "agent_env \<Rightarrow> (routing_entry list \<Rightarrow> routing_entry) \<Rightarrow> string \<Rightarrow> payload \<Rightarrow> string \<Rightarrow> unit call" where
  "send_capable env pick capability p message_type a =
     (case reject_reserved_type message_type of
        Inl e \<Rightarrow> (Inl e, a)
      | Inr u \<Rightarrow>
          (case a_registry a of
             None \<Rightarrow> (Inl RuntimeError, a)
           | Some r \<Rightarrow>
               (case find_by_capability r capability of
                  [] \<Rightarrow> (Inl (CapabilityNotFoundError capability), a)
                | candidates \<Rightarrow> send env (e_address (pick candidates)) p message_type a)))"

fun send_each :: "agent_env \<Rightarrow> string list \<Rightarrow> payload \<Rightarrow> unit call" where
  "send_each env [] p a = (Inr (), a)"
| "send_each env (n # ns) p a = andThen (send env n p ''message'') (send_each env ns p) a"

text \<open>\<open>r\<close> is the registry of the bus.\<close>

definition broadcast :: "agent_env \<Rightarrow> registry \<Rightarrow> string \<Rightarrow> payload \<Rightarrow> unit call" where
  "broadcast env r pattern p a =
     (if \<not> c_has_bus env then (Inl RuntimeError, a)
      else send_each env (map e_name (lookup_all r pattern)) p a)"

section \<open>Producing a stream\<close>

abbreviation STREAM_CHUNK :: string where "STREAM_CHUNK \<equiv> ''civitas.stream.chunk''"
abbreviation STREAM_END :: string where "STREAM_END \<equiv> ''civitas.stream.end''"
abbreviation STREAM_ERROR :: string where "STREAM_ERROR \<equiv> ''civitas.stream.error''"
abbreviation STREAM_CANCEL :: string where "STREAM_CANCEL \<equiv> ''civitas.stream.cancel''"

definition new_out_stream :: "real \<Rightarrow> string \<Rightarrow> out_stream" where
  "new_out_stream now recipient =
     \<lparr>os_started_at = now, os_recipient = recipient, os_max_frames = None, os_max_duration = None,
      os_seq = 0, os_frames = 0, os_cancelled = False\<rparr>"

text \<open>The bookkeeping of \<^verbatim>\<open>_emit_stream\<close> before the frame is routed: the stream's state
  and the sequence number the frame carries.\<close>

definition emit_prepare :: "message \<Rightarrow> string \<Rightarrow> agent \<Rightarrow> int option \<times> agent" where
  "emit_prepare message stream_type a =
     (case m_correlation_id message of
        None \<Rightarrow> (None, a)
      | Some cid \<Rightarrow>
          if stream_type = STREAM_CHUNK then
            (let os = (case dget (a_out_streams a) cid of
                         Some os \<Rightarrow> os
                       | None \<Rightarrow> new_out_stream (a_now a) (reply_address message))
             in (Some (os_seq os),
                 a\<lparr>a_out_streams := dput cid (os\<lparr>os_seq := os_seq os + 1, os_frames := os_frames os + 1\<rparr>)
                                     (a_out_streams a)\<rparr>))
          else (map_option os_seq (dget (a_out_streams a) cid), a))"

definition stream_frame :: "agent_env \<Rightarrow> message \<Rightarrow> payload \<Rightarrow> string \<Rightarrow> int option \<Rightarrow> agent \<Rightarrow> message" where
  "stream_frame env message p stream_type seq a =
     (fresh_message env a)
       \<lparr>m_type := stream_type, m_sender := c_name env, m_recipient := reply_address message,
        m_payload := p, m_correlation_id := m_correlation_id message, m_seq := seq,
        m_trace_id := m_trace_id message, m_span_id := e_span_id env (a_uid a),
        m_parent_span_id := Some (m_span_id message)\<rparr>"

definition emit_stream :: "agent_env \<Rightarrow> message \<Rightarrow> payload \<Rightarrow> string \<Rightarrow> unit call" where
  "emit_stream env message p stream_type a =
     (if \<not> c_has_bus env then (Inl RuntimeError, a)
      else
        let (seq, a1) = emit_prepare message stream_type a
        in andThen (route env (stream_frame env message p stream_type seq a1))
             (lift (\<lambda>x.
                let x' = metric env ''message_sent'' x
                in case m_correlation_id message of
                     None \<Rightarrow> x'
                   | Some cid \<Rightarrow>
                       if stream_type = STREAM_END \<or> stream_type = STREAM_ERROR
                       then x'\<lparr>a_out_streams := dpop cid (a_out_streams x')\<rparr> else x')) a1)"

definition emit :: "agent_env \<Rightarrow> payload \<Rightarrow> unit call" where
  "emit env p a =
     (case a_current_message a of
        None \<Rightarrow> (Inl RuntimeError, a)
      | Some message \<Rightarrow>
          (if (case m_correlation_id message of
                 None \<Rightarrow> False
               | Some cid \<Rightarrow> (case dget (a_out_streams a) cid of
                                None \<Rightarrow> False | Some os \<Rightarrow> os_cancelled os))
           then (Inr (), a)
           else emit_stream env message p STREAM_CHUNK a))"

definition end_stream :: "agent_env \<Rightarrow> unit call" where
  "end_stream env a =
     (case a_current_message a of
        None \<Rightarrow> (Inl RuntimeError, a)
      | Some message \<Rightarrow> emit_stream env message [] STREAM_END a)"

text \<open>\<^verbatim>\<open>_raise_if_stream_stopped\<close>: whether the producer must stop.\<close>

definition stream_stopped :: "string option \<Rightarrow> agent \<Rightarrow> bool" where
  "stream_stopped cid a =
     (case cid of
        None \<Rightarrow> False
      | Some c \<Rightarrow>
          (case dget (a_out_streams a) c of
             None \<Rightarrow> False
           | Some os \<Rightarrow>
               os_cancelled os
             \<or> (case os_max_frames os of None \<Rightarrow> False | Some n \<Rightarrow> os_frames os \<ge> n)
             \<or> (case os_max_duration os of None \<Rightarrow> False | Some d \<Rightarrow> a_now a - os_started_at os \<ge> d)))"

text \<open>\<^verbatim>\<open>StreamReply.send\<close>.\<close>

definition stream_reply_send :: "agent_env \<Rightarrow> message \<Rightarrow> payload \<Rightarrow> unit call" where
  "stream_reply_send env message p a =
     (if stream_stopped (m_correlation_id message) a then (Inl StreamStop, a)
      else emit_stream env message p STREAM_CHUNK a)"

definition pop_out_stream :: "string option \<Rightarrow> agent \<Rightarrow> agent" where
  "pop_out_stream cid a =
     (case cid of None \<Rightarrow> a | Some c \<Rightarrow> a\<lparr>a_out_streams := dpop c (a_out_streams a)\<rparr>)"

text \<open>\<^verbatim>\<open>async with self.stream_reply() as stream: body\<close>.\<close>

definition stream_reply ::
  "agent_env \<Rightarrow> int option \<Rightarrow> real option \<Rightarrow> (message \<Rightarrow> unit call) \<Rightarrow> unit call" where
  "stream_reply env max_frames max_duration body a =
     (case a_current_message a of
        None \<Rightarrow> (Inl RuntimeError, a)
      | Some message \<Rightarrow>
          (let cid = m_correlation_id message;
               a1 = (case cid of
                       None \<Rightarrow> a
                     | Some c \<Rightarrow> a\<lparr>a_out_streams :=
                         dput c ((new_out_stream (a_now a) '''')\<lparr>os_max_frames := max_frames,
                                   os_max_duration := max_duration\<rparr>) (a_out_streams a)\<rparr>);
               (r, a2) = (case body message a1 of
                   (Inr u, x) \<Rightarrow> emit_stream env message [] STREAM_END x
                 | (Inl e, x) \<Rightarrow>
                     if e = StreamStop then emit_stream env message [] STREAM_END x
                     else if is_Exception e
                     then andThen (emit_stream env message [(''error'', JStr (e_str env e))] STREAM_ERROR)
                            (\<lambda>y. (Inl e, y)) x
                     else (Inl e, x))
           in (r, pop_out_stream cid a2)))"

section \<open>Consuming a stream\<close>

text \<open>\<^verbatim>\<open>stream()\<close> up to the drain loop: the sink is registered before the request leaves.
  The result is the correlation identifier.\<close>

definition stream_open :: "agent_env \<Rightarrow> string \<Rightarrow> payload \<Rightarrow> string \<Rightarrow> int \<Rightarrow> string call" where
  "stream_open env recipient p message_type maxsize a =
     (case reject_reserved_type message_type of
        Inl e \<Rightarrow> (Inl e, a)
      | Inr u \<Rightarrow>
          if \<not> c_has_bus env then (Inl RuntimeError, a)
          else
            let cid = e_uuid env (a_uid a);
                a1 = (tick_uid a)\<lparr>a_pending_streams := dput cid (new_sink maxsize) (a_pending_streams a),
                                  a_stream_producers := dput cid recipient (a_stream_producers a)\<rparr>;
                m = with_trace a1 ((fresh_message env a1)
                      \<lparr>m_type := message_type, m_sender := c_name env, m_recipient := recipient,
                       m_payload := p, m_correlation_id := Some cid, m_reply_to := Some (c_name env),
                       m_span_id := e_span_id env (a_uid a1)\<rparr>)
            in (case route env m a1 of
                  (Inl e, x) \<Rightarrow>
                    (Inl e, x\<lparr>a_pending_streams := dpop cid (a_pending_streams x),
                              a_stream_producers := dpop cid (a_stream_producers x)\<rparr>)
                | (Inr v, x) \<Rightarrow> (Inr cid, metric env ''message_sent'' x)))"

definition emit_cancel :: "agent_env \<Rightarrow> string \<Rightarrow> string \<Rightarrow> unit call" where
  "emit_cancel env recipient cid a =
     (if \<not> c_has_bus env then (Inr (), a)
      else
        let m = (fresh_message env a)
                  \<lparr>m_type := STREAM_CANCEL, m_sender := c_name env, m_recipient := recipient,
                   m_correlation_id := Some cid, m_span_id := e_span_id env (a_uid a)\<rparr>
        in case route env m a of
             (Inr u, x) \<Rightarrow> (Inr (), x)
           | (Inl e, x) \<Rightarrow> if e = MessageRoutingError then (Inr (), x) else (Inl e, x))"

text \<open>The \<^verbatim>\<open>finally\<close> block of \<^verbatim>\<open>stream()\<close> after the request was sent.\<close>

definition stream_close :: "agent_env \<Rightarrow> string \<Rightarrow> string \<Rightarrow> unit call" where
  "stream_close env recipient cid a =
     emit_cancel env recipient cid
       (a\<lparr>a_pending_streams := dpop cid (a_pending_streams a),
          a_stream_producers := dpop cid (a_stream_producers a)\<rparr>)"

definition stream_error :: "string \<Rightarrow> exn" where
  "stream_error reason =
     (if reason = ''slow_consumer'' then SlowConsumerError reason
      else if reason \<in> set [''stream idle timeout'', ''max_stream_duration exceeded'']
           then StreamTimeout reason
      else if reason \<in> set [''agent_stopped'', ''producer_stopped''] then StreamInterrupted reason
      else StreamError reason)"

text \<open>\<^verbatim>\<open>str(message.payload.get("error") or "stream error")\<close>; \<open>py_str\<close> is \<^verbatim>\<open>str\<close>
  on values that are not strings.\<close>

definition stream_error_text :: "(json \<Rightarrow> string) \<Rightarrow> payload \<Rightarrow> string" where
  "stream_error_text py_str p =
     (case dget p ''error'' of
        None \<Rightarrow> ''stream error''
      | Some v \<Rightarrow> if truthy v then (case v of JStr s \<Rightarrow> s | _ \<Rightarrow> py_str v) else ''stream error'')"

text \<open>What a frame from the expected producer does to the sink.\<close>

definition feed_sink :: "(json \<Rightarrow> string) \<Rightarrow> message \<Rightarrow> stream_sink \<Rightarrow> stream_sink" where
  "feed_sink py_str m s =
     (if m_type m = STREAM_CHUNK then ss_push (m_payload m) (m_seq m) s
      else if m_type m = STREAM_END then ss_end (m_seq m) s
      else if m_type m = STREAM_ERROR then ss_fail (stream_error_text py_str (m_payload m)) s
      else ss_end None (ss_push (m_payload m) None s))"

definition consume_stream_frame :: "(json \<Rightarrow> string) \<Rightarrow> message \<Rightarrow> agent \<Rightarrow> bool \<times> agent" where
  "consume_stream_frame py_str m a =
     (case m_correlation_id m of
        None \<Rightarrow> (False, a)
      | Some cid \<Rightarrow>
          if m_type m = STREAM_CANCEL then
            (case dget (a_out_streams a) cid of
               Some os \<Rightarrow> (True, a\<lparr>a_out_streams := dput cid (os\<lparr>os_cancelled := True\<rparr>) (a_out_streams a)\<rparr>)
             | None \<Rightarrow> (False, a))
          else
            (case dget (a_pending_streams a) cid of
               None \<Rightarrow> (False, a)
             | Some sink \<Rightarrow>
                 if dget (a_stream_producers a) cid \<noteq> Some (m_sender m) then (True, a)
                 else (True, a\<lparr>a_pending_streams :=
                                 dput cid (feed_sink py_str m sink) (a_pending_streams a)\<rparr>)))"

text \<open>\<^verbatim>\<open>receive\<close>; a put that waits on a full mailbox is \<^const>\<open>None\<close>.\<close>

definition receive :: "(json \<Rightarrow> string) \<Rightarrow> message \<Rightarrow> agent \<Rightarrow> agent option" where
  "receive py_str m a =
     (case consume_stream_frame py_str m a of
        (True, a') \<Rightarrow> Some a'
      | (False, a') \<Rightarrow> map_option (\<lambda>mb. a'\<lparr>a_mailbox := mb\<rparr>) (mb_put m (a_mailbox a')))"

section \<open>Teardown of streams\<close>

definition fail_local_streams :: "string \<Rightarrow> agent \<Rightarrow> agent" where
  "fail_local_streams reason a =
     a\<lparr>a_pending_streams := map (\<lambda>(cid, s). (cid, ss_fail reason s)) (a_pending_streams a)\<rparr>"

definition interrupt_frame :: "agent_env \<Rightarrow> string \<Rightarrow> out_stream \<Rightarrow> agent \<Rightarrow> message" where
  "interrupt_frame env cid os a =
     (fresh_message env a)
       \<lparr>m_type := STREAM_ERROR, m_sender := c_name env, m_recipient := os_recipient os,
        m_payload := [(''error'', JStr ''producer_stopped'')], m_correlation_id := Some cid,
        m_seq := Some (os_seq os), m_span_id := e_span_id env (a_uid a)\<rparr>"

fun interrupt_each :: "agent_env \<Rightarrow> (string \<times> out_stream) list \<Rightarrow> unit call" where
  "interrupt_each env [] a = (Inr (), a)"
| "interrupt_each env ((cid, os) # rest) a =
     (if os_recipient os = '''' then interrupt_each env rest a
      else andThen (contained (route env (interrupt_frame env cid os a))) (interrupt_each env rest) a)"

definition interrupt_out_streams :: "agent_env \<Rightarrow> unit call" where
  "interrupt_out_streams env a =
     (if \<not> c_has_bus env then (Inr (), a)
      else andThen (interrupt_each env (a_out_streams a)) (lift (\<lambda>x. x\<lparr>a_out_streams := []\<rparr>)) a)"

section \<open>Lemmas on calls\<close>

lemma andThen_Inr: "f a = (Inr (), a') \<Longrightarrow> andThen f g a = g a'"
  by (simp add: andThen_def)

lemma andThen_Inl: "f a = (Inl e, a') \<Longrightarrow> andThen f g a = (Inl e, a')"
  by (simp add: andThen_def)

lemma contained_result: "fst (contained f a) = Inr () \<or> fst (contained f a) = Inl CancelledError"
  by (auto simp: contained_def is_Exception_def split: sum.splits prod.splits)

fun routed :: "agent_event list \<Rightarrow> message list" where
  "routed [] = []"
| "routed (EvRoute m # es) = m # routed es"
| "routed (EvHook h # es) = routed es"
| "routed (EvAudit x d # es) = routed es"
| "routed (EvMetric x # es) = routed es"
| "routed (EvSpan x # es) = routed es"

lemma routed_append [simp]: "routed (xs @ ys) = routed xs @ routed ys"
  by (induction xs rule: routed.induct) auto

section \<open>A stream from end to end\<close>

text \<open>The producer sends the payloads one by one inside \<^verbatim>\<open>stream_reply\<close>.\<close>

fun send_all :: "agent_env \<Rightarrow> payload list \<Rightarrow> message \<Rightarrow> unit call" where
  "send_all env [] message a = (Inr (), a)"
| "send_all env (p # ps) message a =
     andThen (stream_reply_send env message p) (send_all env ps message) a"

text \<open>A bus that accepts every message and gives it to somebody else.\<close>

definition accepting_bus :: "agent_env \<Rightarrow> bool" where
  "accepting_bus env \<longleftrightarrow> c_has_bus env \<and> (\<forall>m a. e_route env m a = (Inr (), a))"

definition is_frame :: "agent_env \<Rightarrow> message \<Rightarrow> string \<Rightarrow> int \<Rightarrow> payload \<Rightarrow> message \<Rightarrow> bool" where
  "is_frame env request t n p m \<longleftrightarrow>
     m_type m = t \<and> m_seq m = Some n \<and> m_payload m = p \<and> m_sender m = c_name env
   \<and> m_recipient m = reply_address request \<and> m_correlation_id m = m_correlation_id request"

lemma is_frame_stream_frame [simp]:
  "is_frame env request t n p (stream_frame env request p t (Some n) a)"
  by (simp add: is_frame_def stream_frame_def)

text \<open>An open stream of the request that nobody cancelled and that has no cap.\<close>

definition stream_at :: "string \<Rightarrow> int \<Rightarrow> agent \<Rightarrow> bool" where
  "stream_at cid n a \<longleftrightarrow>
     (\<exists>os. dget (a_out_streams a) cid = Some os \<and> os_seq os = n \<and> \<not> os_cancelled os
         \<and> os_max_frames os = None \<and> os_max_duration os = None)"

lemma emit_chunk_step:
  assumes "accepting_bus env" "m_correlation_id request = Some cid" "stream_at cid n a"
  shows "\<exists>a' m. stream_reply_send env request p a = (Inr (), a') \<and> stream_at cid (n + 1) a'
           \<and> routed (a_events a') = routed (a_events a) @ [m] \<and> is_frame env request STREAM_CHUNK n p m"
proof -
  obtain os where os: "dget (a_out_streams a) cid = Some os" "os_seq os = n" "\<not> os_cancelled os"
    "os_max_frames os = None" "os_max_duration os = None"
    using assms(3) by (auto simp: stream_at_def)
  let ?a1 = "a\<lparr>a_out_streams := dput cid (os\<lparr>os_seq := n + 1, os_frames := os_frames os + 1\<rparr>) (a_out_streams a)\<rparr>"
  let ?m = "stream_frame env request p STREAM_CHUNK (Some n) ?a1"
  have "stream_reply_send env request p a =
      (Inr (), metric env ''message_sent'' (log_event (EvRoute ?m) (tick_uid ?a1)))"
    using os assms(1,2)
    by (simp add: stream_reply_send_def stream_stopped_def emit_stream_def emit_prepare_def
        accepting_bus_def andThen_def route_def lift_def Let_def)
  then show ?thesis
    using os by (auto simp: metric_def log_event_def tick_uid_def stream_at_def dict_simps)
qed

lemma send_all_frames:
  assumes "accepting_bus env" "m_correlation_id request = Some cid" "stream_at cid n a"
  shows "\<exists>a' ms. send_all env ps request a = (Inr (), a') \<and> stream_at cid (n + int (length ps)) a'
           \<and> routed (a_events a') = routed (a_events a) @ ms \<and> length ms = length ps
           \<and> (\<forall>i < length ps. is_frame env request STREAM_CHUNK (n + int i) (ps ! i) (ms ! i))"
  using assms(3)
proof (induction ps arbitrary: a n)
  case Nil
  then show ?case by simp
next
  case (Cons p ps)
  obtain a1 m where a1: "stream_reply_send env request p a = (Inr (), a1)" "stream_at cid (n + 1) a1"
    "routed (a_events a1) = routed (a_events a) @ [m]" "is_frame env request STREAM_CHUNK n p m"
    using emit_chunk_step [OF assms(1,2) Cons.prems] by blast
  obtain a2 ms where a2: "send_all env ps request a1 = (Inr (), a2)"
    "stream_at cid (n + 1 + int (length ps)) a2" "routed (a_events a2) = routed (a_events a1) @ ms"
    "length ms = length ps"
    "\<forall>i < length ps. is_frame env request STREAM_CHUNK (n + 1 + int i) (ps ! i) (ms ! i)"
    using Cons.IH [OF a1(2)] by blast
  have "\<forall>i < length (p # ps). is_frame env request STREAM_CHUNK (n + int i) ((p # ps) ! i) ((m # ms) ! i)"
    using a1(4) a2(5) by (auto simp: less_Suc_eq_0_disj algebra_simps)
  with a1 a2 show ?case
    by (intro exI [of _ a2] exI [of _ "m # ms"]) (simp add: andThen_Inr algebra_simps)
qed

lemma stream_reply_frames:
  assumes "accepting_bus env" "a_current_message a = Some request" "m_correlation_id request = Some cid"
  shows "\<exists>a' ms e. stream_reply env None None (send_all env ps) a = (Inr (), a')
           \<and> routed (a_events a') = routed (a_events a) @ ms @ [e] \<and> length ms = length ps
           \<and> (\<forall>i < length ps. is_frame env request STREAM_CHUNK (int i) (ps ! i) (ms ! i))
           \<and> is_frame env request STREAM_END (int (length ps)) [] e
           \<and> dget (a_out_streams a') cid = None"
proof -
  let ?a1 = "a\<lparr>a_out_streams := dput cid (new_out_stream (a_now a) '''') (a_out_streams a)\<rparr>"
  have open1: "stream_at cid 0 ?a1"
    by (simp add: stream_at_def dict_simps new_out_stream_def)
  obtain a2 ms where a2: "send_all env ps request ?a1 = (Inr (), a2)"
    "stream_at cid (int (length ps)) a2" "routed (a_events a2) = routed (a_events a) @ ms"
    "length ms = length ps"
    "\<forall>i < length ps. is_frame env request STREAM_CHUNK (int i) (ps ! i) (ms ! i)"
    using send_all_frames [OF assms(1,3) open1, of ps] by auto
  let ?e = "stream_frame env request [] STREAM_END (Some (int (length ps))) a2"
  let ?a3 = "pop_out_stream (Some cid) (metric env ''message_sent'' (log_event (EvRoute ?e) (tick_uid a2)))"
  have "emit_stream env request [] STREAM_END a2 = (Inr (), ?a3)"
    using a2(2) assms(1,3)
    by (auto simp: emit_stream_def emit_prepare_def stream_at_def accepting_bus_def andThen_def
        route_def lift_def Let_def pop_out_stream_def)
  then have "stream_reply env None None (send_all env ps) a = (Inr (), pop_out_stream (Some cid) ?a3)"
    using a2(1) assms(2,3) by (simp add: stream_reply_def Let_def new_out_stream_def)
  moreover have "routed (a_events (pop_out_stream (Some cid) ?a3)) = routed (a_events a) @ ms @ [?e]"
    using a2(3) by (simp add: pop_out_stream_def metric_def log_event_def tick_uid_def)
  moreover have "dget (a_out_streams (pop_out_stream (Some cid) ?a3)) cid = None"
    by (simp add: pop_out_stream_def dict_simps)
  ultimately show ?thesis using a2(4,5) is_frame_stream_frame by blast
qed

text \<open>The consumer's sink, fed with numbered frames it has room for.\<close>

lemma feed_chunks:
  assumes "\<forall>i < length ps. is_frame env request STREAM_CHUNK (n + int i) (ps ! i) (ms ! i)"
    and "length ms = length ps" and "\<not> ss_done s" "ss_next_seq s = n"
    and "ss_pending s + int (length ps) \<le> ss_maxsize s"
  shows "fold (feed_sink py_str) ms s =
           s\<lparr>ss_queue := ss_queue s @ map Chunk ps, ss_pending := ss_pending s + int (length ps),
             ss_next_seq := n + int (length ps)\<rparr>"
  using assms
proof (induction ps arbitrary: ms s n)
  case Nil
  then show ?case by simp
next
  case (Cons p ps)
  from Cons.prems(2) obtain m ms' where ms: "ms = m # ms'" by (cases ms) auto
  have m: "is_frame env request STREAM_CHUNK n p m" using Cons.prems(1) ms by fastforce
  let ?s = "s\<lparr>ss_next_seq := n + 1, ss_pending := ss_pending s + 1, ss_queue := ss_queue s @ [Chunk p]\<rparr>"
  have step: "feed_sink py_str m s = ?s"
    using m Cons.prems(3,4,5) by (simp add: feed_sink_def is_frame_def ss_push_def)
  have "\<forall>i < length ps. is_frame env request STREAM_CHUNK (n + 1 + int i) (ps ! i) (ms' ! i)"
  proof (intro allI impI)
    fix i assume "i < length ps"
    then show "is_frame env request STREAM_CHUNK (n + 1 + int i) (ps ! i) (ms' ! i)"
      using Cons.prems(1) [rule_format, of "Suc i"] ms by (simp add: algebra_simps)
  qed
  from Cons.IH [OF this, of ?s] Cons.prems ms step show ?case
    by (simp add: algebra_simps)
qed

lemma drain_chunks:
  "c_outcome c = Running \<Longrightarrow> ss_queue (c_sink c) = map Chunk ps @ q \<Longrightarrow>
   (drain_take ^^ length ps) c =
     c\<lparr>c_sink := (c_sink c)\<lparr>ss_queue := q, ss_pending := ss_pending (c_sink c) - int (length ps)\<rparr>,
       c_yielded := c_yielded c @ ps\<rparr>"
proof (induction ps arbitrary: c)
  case Nil
  then show ?case by simp
next
  case (Cons p ps)
  let ?c = "drain_take c"
  have c: "?c = c\<lparr>c_sink := (c_sink c)\<lparr>ss_queue := map Chunk ps @ q, ss_pending := ss_pending (c_sink c) - 1\<rparr>,
               c_yielded := c_yielded c @ [p]\<rparr>"
    using Cons.prems by (simp add: drain_take_def Let_def)
  have "(drain_take ^^ length (p # ps)) c = (drain_take ^^ length ps) ?c"
    by (simp only: length_Cons funpow_Suc_right o_apply)
  also have "\<dots> = ?c\<lparr>c_sink := (c_sink ?c)\<lparr>ss_queue := q, ss_pending := ss_pending (c_sink ?c) - int (length ps)\<rparr>,
       c_yielded := c_yielded ?c @ ps\<rparr>"
    by (rule Cons.IH) (use Cons.prems in \<open>simp_all add: c\<close>)
  finally show ?case by (simp add: c)
qed

text \<open>C23. End to end over a bus that delivers in order: what a producer sends inside
  \<^verbatim>\<open>stream_reply\<close> is exactly what the consumer's drain loop yields, and the drain returns
  normally, whenever the consumer's buffer has room for the chunks. The producer's stream state is
  gone afterwards.\<close>

theorem stream_end_to_end:
  assumes "accepting_bus env" and "a_current_message a = Some request"
    and "m_correlation_id request = Some cid" and "int (length ps) \<le> maxsize"
  shows "\<exists>a' frames. stream_reply env None None (send_all env ps) a = (Inr (), a')
      \<and> routed (a_events a') = routed (a_events a) @ frames
      \<and> dget (a_out_streams a') cid = None
      \<and> (let c = (drain_take ^^ Suc (length ps))
                   \<lparr>c_sink = fold (feed_sink py_str) frames (new_sink maxsize), c_yielded = [],
                    c_outcome = Running\<rparr>
         in c_yielded c = ps \<and> c_outcome c = Returned)"
proof -
  obtain a' ms e where run: "stream_reply env None None (send_all env ps) a = (Inr (), a')"
    "routed (a_events a') = routed (a_events a) @ ms @ [e]" "length ms = length ps"
    "\<forall>i < length ps. is_frame env request STREAM_CHUNK (0 + int i) (ps ! i) (ms ! i)"
    "is_frame env request STREAM_END (int (length ps)) [] e" "dget (a_out_streams a') cid = None"
    using stream_reply_frames [OF assms(1-3), of ps] by auto
  let ?s = "fold (feed_sink py_str) ms (new_sink maxsize)"
  have fed: "?s = (new_sink maxsize)\<lparr>ss_queue := map Chunk ps, ss_pending := int (length ps),
      ss_next_seq := int (length ps)\<rparr>"
    using feed_chunks [OF run(4,3), of "new_sink maxsize" py_str] assms(4) by (simp add: new_sink_def)
  have "fold (feed_sink py_str) (ms @ [e]) (new_sink maxsize) = feed_sink py_str e ?s"
    by simp
  also have "\<dots> = (new_sink maxsize)\<lparr>ss_queue := map Chunk ps @ [EndFrame],
      ss_pending := int (length ps), ss_next_seq := int (length ps), ss_done := True\<rparr>"
    unfolding fed using run(5)
    by (simp add: feed_sink_def is_frame_def ss_end_def new_sink_def ss_close_def)
  finally have sink: "fold (feed_sink py_str) (ms @ [e]) (new_sink maxsize) =
      (new_sink maxsize)\<lparr>ss_queue := map Chunk ps @ [EndFrame],
        ss_pending := int (length ps), ss_next_seq := int (length ps), ss_done := True\<rparr>" .
  let ?c = "\<lparr>c_sink = fold (feed_sink py_str) (ms @ [e]) (new_sink maxsize), c_yielded = [],
      c_outcome = Running\<rparr>"
  have "(drain_take ^^ Suc (length ps)) ?c = drain_take ((drain_take ^^ length ps) ?c)"
    by simp
  also have "\<dots> = drain_take (?c\<lparr>c_sink := (c_sink ?c)\<lparr>ss_queue := [EndFrame],
      ss_pending := ss_pending (c_sink ?c) - int (length ps)\<rparr>, c_yielded := c_yielded ?c @ ps\<rparr>)"
    by (subst drain_chunks [of _ ps "[EndFrame]"]) (simp_all add: sink del: fold_append)
  finally have "c_yielded ((drain_take ^^ Suc (length ps)) ?c) = ps"
    "c_outcome ((drain_take ^^ Suc (length ps)) ?c) = Returned"
    by (simp_all add: drain_take_def Let_def)
  with run(1,2,6) show ?thesis
    by (intro exI [of _ a'] exI [of _ "ms @ [e]"]) (simp only: Let_def append_assoc simp_thms)
qed

text \<open>The base class with its default hooks and constructor arguments, wired to a bus that accepts
  every message and to a store that keeps one checkpoint.\<close>

definition base_env :: "string \<Rightarrow> agent_env" where
  "base_env name =
     \<lparr>c_name = name, c_mailbox_size = 1000, c_max_retries = 3, c_handle_timeout = None,
      c_suspend_allowed = True, c_has_bus = True, c_has_store = True, c_has_tracer = False,
      c_has_audit = True, c_has_metrics = False,
      e_on_start = \<lambda>a. (Inr (), a), e_handle = \<lambda>m a. (0, Inr None, a),
      e_on_error = \<lambda>e m a. (Inr ESCALATE, a), e_on_stop = \<lambda>a. (Inr (), a),
      e_on_suspend = \<lambda>r a. (Inr (), a), e_on_resume = \<lambda>r a. (Inr (), a),
      e_on_correction = \<lambda>m a. (Inr (), a), e_on_child_terminated = \<lambda>n r a. (Inr (), a),
      e_store_get = \<lambda>a. (Inr (a_store a), a), e_store_set = \<lambda>st a. (Inr (), a\<lparr>a_store := Some st\<rparr>),
      e_route = \<lambda>m a. (Inr (), a), e_uuid = \<lambda>n. replicate n (CHR ''u''),
      e_span_id = \<lambda>n. replicate n (CHR ''s''), e_str = \<lambda>e. ''error''\<rparr>"

theorem stream_end_to_end_witness:
  "\<exists>a' frames. stream_reply (base_env ''p'') None None (send_all (base_env ''p'') [[(''t'', JInt 1)], []])
        ((new_agent (base_env ''p'') None None 0)
          \<lparr>a_current_message := Some ((default_message ''m'' 0)\<lparr>m_correlation_id := Some ''c''\<rparr>)\<rparr>)
        = (Inr (), a')
      \<and> routed (a_events a') = frames
      \<and> c_yielded ((drain_take ^^ 3) \<lparr>c_sink = fold (feed_sink (\<lambda>v. [])) frames (new_sink 8),
            c_yielded = [], c_outcome = Running\<rparr>) = [[(''t'', JInt 1)], []]"
proof -
  let ?a = "(new_agent (base_env ''p'') None None 0)
          \<lparr>a_current_message := Some ((default_message ''m'' 0)\<lparr>m_correlation_id := Some ''c''\<rparr>)\<rparr>"
  have "accepting_bus (base_env ''p'')" by (simp add: accepting_bus_def base_env_def)
  from stream_end_to_end [OF this, of ?a "(default_message ''m'' 0)\<lparr>m_correlation_id := Some ''c''\<rparr>"
      "''c''" "[[(''t'', JInt 1)], []]" 8 "\<lambda>v. []"]
  show ?thesis
    by (auto simp: new_agent_def Let_def eval_nat_numeral simp del: funpow.simps)
qed

section \<open>Isolation of streams\<close>

text \<open>Stream isolation: a frame changes at most the sink of its own correlation identifier, and
  only when its sender is the producer the consumer asked; a frame from anybody else is swallowed
  without effect. A cancel only marks the producer's own stream of that identifier, and no frame
  touches the mailbox, the status or the stored state.\<close>

theorem stream_frame_isolation:
  "let (taken, a') = consume_stream_frame py_str m a in
     (\<forall>cid. dget (a_pending_streams a') cid \<noteq> dget (a_pending_streams a) cid \<longrightarrow>
        taken \<and> m_correlation_id m = Some cid \<and> m_type m \<noteq> STREAM_CANCEL
        \<and> dget (a_stream_producers a) cid = Some (m_sender m))
   \<and> (\<forall>cid. dget (a_out_streams a') cid \<noteq> dget (a_out_streams a) cid \<longrightarrow>
        taken \<and> m_correlation_id m = Some cid \<and> m_type m = STREAM_CANCEL)
   \<and> a_mailbox a' = a_mailbox a \<and> a_status a' = a_status a \<and> a_state a' = a_state a
   \<and> (taken \<or> a' = a)"
  by (auto simp: consume_stream_frame_def Let_def dict_simps split: option.splits if_splits)

theorem stream_frame_isolation_witness:
  "consume_stream_frame (\<lambda>v. [])
     ((default_message ''m'' 0)\<lparr>m_correlation_id := Some ''c'', m_type := STREAM_CHUNK, m_sender := ''evil''\<rparr>)
     ((new_agent (base_env ''n'') None None 0)
        \<lparr>a_pending_streams := [(''c'', new_sink 4)], a_stream_producers := [(''c'', ''p'')]\<rparr>)
   = (True, (new_agent (base_env ''n'') None None 0)
        \<lparr>a_pending_streams := [(''c'', new_sink 4)], a_stream_producers := [(''c'', ''p'')]\<rparr>)
   \<and> dget [(''c'', new_sink 4)] ''d'' = None"
  using stream_frame_isolation [of "\<lambda>v. []"
     "(default_message ''m'' 0)\<lparr>m_correlation_id := Some ''c'', m_type := STREAM_CHUNK, m_sender := ''evil''\<rparr>"
     "(new_agent (base_env ''n'') None None 0)
        \<lparr>a_pending_streams := [(''c'', new_sink 4)], a_stream_producers := [(''c'', ''p'')]\<rparr>"]
  by (simp add: consume_stream_frame_def)

end
