(* ===== verification/Message_Bus.thy ===== *)
theory Message_Bus
  imports Agent_State
begin

text \<open>
  \<^verbatim>\<open>src/civitas/serializer.py\<close>, \<^verbatim>\<open>src/civitas/transport/inprocess.py\<close> and
  \<^verbatim>\<open>src/civitas/bus.py\<close>: encoding of envelopes, the in-process transport with its
  temporary reply addresses, and the bus that routes by name. The codec (msgpack, json or orjson)
  and the tracer are parameters. A call that waits on a full queue is \<^const>\<open>None\<close>, as is an
  envelope whose fields do not have their declared types. The law of the codec is for all payloads: the
  range of MessagePack integers and repeated keys are left out.
\<close>

section \<open>Serializers\<close>

text \<open>The two functions of a codec: \<^verbatim>\<open>packb\<close> and \<^verbatim>\<open>unpackb\<close>, or
  \<^verbatim>\<open>dumps\<close> and \<^verbatim>\<open>loads\<close>. Decoding can fail and may give any JSON value.\<close>

record 'd codec =
  pack :: "payload \<Rightarrow> 'd"
  unpack :: "'d \<Rightarrow> json result"

definition serialize :: "'d codec \<Rightarrow> message \<Rightarrow> 'd" where
  "serialize cd m = pack cd (to_dict m)"

text \<open>Both \<^verbatim>\<open>deserialize\<close> methods catch every exception: a codec error and a value that is
  not a dictionary become \<^verbatim>\<open>DeserializationError\<close>. \<open>fid\<close> and \<open>now\<close> fill fields the
  dictionary does not have. \<^const>\<open>None\<close> is an envelope with a value of an undeclared type
  (see \<^const>\<open>from_dict\<close>), which the model does not follow.\<close>

definition deserialize :: "'d codec \<Rightarrow> string \<Rightarrow> real \<Rightarrow> 'd \<Rightarrow> message result option" where
  "deserialize cd fid now data =
     (case unpack cd data of
        Inl e \<Rightarrow> Some (Inl DeserializationError)
      | Inr (JDict d) \<Rightarrow> map_option Inr (from_dict fid now d)
      | Inr _ \<Rightarrow> Some (Inl DeserializationError))"

section \<open>In-process transport\<close>

text \<open>A handler is the closure of \<^verbatim>\<open>setup_agent\<close>: it stands for the agent it
  delivers to. A reply queue has room for one answer.\<close>

record 'd transport =
  t_handlers :: "(string, string) dict"
  t_reply_queues :: "(string, 'd list) dict"
  t_started :: bool

definition new_transport :: "'d transport" where
  "new_transport = \<lparr>t_handlers = [], t_reply_queues = [], t_started = False\<rparr>"

definition t_start :: "'d transport \<Rightarrow> 'd transport" where
  "t_start t = (if t_started t then t else t\<lparr>t_started := True\<rparr>)"

definition t_stop :: "'d transport \<Rightarrow> 'd transport" where
  "t_stop t = t\<lparr>t_started := False, t_handlers := [], t_reply_queues := []\<rparr>"

definition subscribe :: "string \<Rightarrow> string \<Rightarrow> 'd transport \<Rightarrow> 'd transport" where
  "subscribe address h t = t\<lparr>t_handlers := dput address h (t_handlers t)\<rparr>"

definition unsubscribe :: "string \<Rightarrow> 'd transport \<Rightarrow> 'd transport" where
  "unsubscribe address t = t\<lparr>t_handlers := dpop address (t_handlers t)\<rparr>"

definition has_reply_address :: "string \<Rightarrow> 'd transport \<Rightarrow> bool" where
  "has_reply_address address t \<longleftrightarrow> dget (t_reply_queues t) address \<noteq> None"

section \<open>The bus\<close>

record 'd bus =
  b_registry :: registry
  b_transport :: "'d transport"
  b_local_agents :: "(string, agent) dict"
  b_audit :: "(string \<times> string \<times> string \<times> string \<times> string) list"

record 'd bus_env =
  be_codec :: "'d codec"
  be_trace :: "message \<Rightarrow> string \<times> string"
  be_has_audit :: bool
  be_py_str :: "json \<Rightarrow> string"
  be_fid :: string
  be_now :: real

definition be_deserialize :: "'d bus_env \<Rightarrow> 'd \<Rightarrow> message result option" where
  "be_deserialize env data = deserialize (be_codec env) (be_fid env) (be_now env) data"

text \<open>\<^verbatim>\<open>_on_message_received\<close>: decode and hand to the agent; \<^const>\<open>None\<close> when the
  agent's mailbox is full.\<close>

definition run_handler :: "'d bus_env \<Rightarrow> string \<Rightarrow> 'd \<Rightarrow> 'd bus \<Rightarrow> (unit result \<times> 'd bus) option" where
  "run_handler env name data b =
     (case be_deserialize env data of
        None \<Rightarrow> None
      | Some (Inl e) \<Rightarrow> Some (Inl e, b)
      | Some (Inr m) \<Rightarrow>
          (case dget (b_local_agents b) name of
             None \<Rightarrow> Some (Inr (), b)
           | Some a \<Rightarrow>
               map_option (\<lambda>a'. (Inr (), b\<lparr>b_local_agents := dput name a' (b_local_agents b)\<rparr>))
                 (receive (be_py_str env) m a)))"

definition publish :: "'d bus_env \<Rightarrow> string \<Rightarrow> 'd \<Rightarrow> 'd bus \<Rightarrow> (unit result \<times> 'd bus) option" where
  "publish env address data b =
     (case dget (t_reply_queues (b_transport b)) address of
        Some q \<Rightarrow>
          (if q \<noteq> [] then None
           else Some (Inr (), b\<lparr>b_transport := (b_transport b)
                  \<lparr>t_reply_queues := dput address (q @ [data]) (t_reply_queues (b_transport b))\<rparr>\<rparr>))
      | None \<Rightarrow>
          (case dget (t_handlers (b_transport b)) address of
             Some h \<Rightarrow> run_handler env h data b
           | None \<Rightarrow> Some (Inr (), b)))"

definition setup_agent :: "string \<Rightarrow> agent \<Rightarrow> 'd bus \<Rightarrow> 'd bus" where
  "setup_agent name a b =
     b\<lparr>b_local_agents := dput name a (b_local_agents b),
       b_transport := subscribe name name (b_transport b)\<rparr>"

definition validate_message_type :: "message \<Rightarrow> unit result" where
  "validate_message_type m =
     (if startswith (m_type m) ''_agency.'' \<and> m_type m \<notin> set SYSTEM_MESSAGE_TYPES
      then Inl MessageValidationError else Inr ())"

definition bus_lookup_all :: "'d bus \<Rightarrow> string \<Rightarrow> routing_entry list" where
  "bus_lookup_all b pattern = lookup_all (b_registry b) pattern"

text \<open>The three rules that give a message its address.\<close>

definition route_address :: "message \<Rightarrow> 'd bus \<Rightarrow> string result" where
  "route_address m b =
     (case lookup (b_registry b) (m_recipient m) of
        Some entry \<Rightarrow> Inr (e_address entry)
      | None \<Rightarrow>
          if has_reply_address (m_recipient m) (b_transport b) then Inr (m_recipient m)
          else if startswith (m_recipient m) ''_reply.'' then Inr (m_recipient m)
          else Inl MessageRoutingError)"

definition stamp :: "'d bus_env \<Rightarrow> message \<Rightarrow> message" where
  "stamp env m = m\<lparr>m_trace_id := fst (be_trace env m), m_span_id := snd (be_trace env m)\<rparr>"

definition audit_route :: "'d bus_env \<Rightarrow> message \<Rightarrow> 'd bus \<Rightarrow> 'd bus" where
  "audit_route env m b =
     (if be_has_audit env
      then b\<lparr>b_audit := b_audit b @ [(m_sender m, m_recipient m, m_type m,
               (case m_correlation_id m of None \<Rightarrow> '''' | Some c \<Rightarrow> c), m_id m)]\<rparr>
      else b)"

definition bus_route :: "'d bus_env \<Rightarrow> message \<Rightarrow> 'd bus \<Rightarrow> (unit result \<times> 'd bus) option" where
  "bus_route env m b =
     (case validate_message_type m of
        Inl e \<Rightarrow> Some (Inl e, b)
      | Inr u \<Rightarrow>
          (case route_address m b of
             Inl e \<Rightarrow> Some (Inl e, b)
           | Inr address \<Rightarrow>
               (let m' = stamp env m
                in case publish env address (serialize (be_codec env) m') b of
                     None \<Rightarrow> None
                   | Some (Inl e, b') \<Rightarrow> Some (Inl e, b')
                   | Some (Inr v, b') \<Rightarrow> Some (Inr (), audit_route env m' b'))))"

text \<open>\<^verbatim>\<open>timeout <= 0\<close> means no timeout.\<close>

definition normalize_timeout :: "real option \<Rightarrow> real option" where
  "normalize_timeout timeout = (case timeout of None \<Rightarrow> None | Some t \<Rightarrow> if t \<le> 0 then None else Some t)"

text \<open>
  \<^verbatim>\<open>request\<close> of the bus and of the transport up to the wait for the answer: the reply
  queue is open under the fresh address \<open>raddr\<close> and the request carries it.
\<close>

definition request_send ::
  "'d bus_env \<Rightarrow> string \<Rightarrow> bool \<Rightarrow> message \<Rightarrow> 'd bus \<Rightarrow> (unit result \<times> 'd bus) option" where
  "request_send env raddr fail_if_suspended m b =
     (case validate_message_type m of
        Inl e \<Rightarrow> Some (Inl e, b)
      | Inr u \<Rightarrow>
          if fail_if_suspended \<and> is_suspended (m_recipient m) (b_registry b)
          then Some (Inl AgentSuspendedError, b)
          else
            (case lookup (b_registry b) (m_recipient m) of
               None \<Rightarrow> Some (Inl MessageRoutingError, b)
             | Some entry \<Rightarrow>
                 (let data = serialize (be_codec env) (stamp env m);
                      open_q = (\<lambda>x. x\<lparr>b_transport := (b_transport x)
                         \<lparr>t_reply_queues := dput raddr [] (t_reply_queues (b_transport x))\<rparr>\<rparr>);
                      close_q = (\<lambda>x. x\<lparr>b_transport := (b_transport x)
                         \<lparr>t_reply_queues := dpop raddr (t_reply_queues (b_transport x))\<rparr>\<rparr>)
                  in case be_deserialize env data of
                       None \<Rightarrow> None
                     | Some (Inl e) \<Rightarrow> Some (Inl e, close_q (open_q b))
                     | Some (Inr msg) \<Rightarrow>
                         (case dget (t_handlers (b_transport b)) (e_address entry) of
                            None \<Rightarrow> Some (Inl RuntimeError, close_q (open_q b))
                          | Some h \<Rightarrow>
                              (case run_handler env h
                                      (serialize (be_codec env) (msg\<lparr>m_reply_to := Some raddr\<rparr>)) (open_q b) of
                                 None \<Rightarrow> None
                               | Some (Inl e, b') \<Rightarrow> Some (Inl e, close_q b')
                               | Some (Inr v, b') \<Rightarrow> Some (Inr (), b'))))))"

text \<open>The wait: the answer in the queue, or \<^verbatim>\<open>TimeoutError\<close> when the timer ended it.\<close>

definition request_finish :: "'d bus_env \<Rightarrow> string \<Rightarrow> 'd bus \<Rightarrow> (message result \<times> 'd bus) option" where
  "request_finish env raddr b =
     (let b' = b\<lparr>b_transport := (b_transport b)
                  \<lparr>t_reply_queues := dpop raddr (t_reply_queues (b_transport b))\<rparr>\<rparr>
      in case dget (t_reply_queues (b_transport b)) raddr of
           Some (d # q) \<Rightarrow> map_option (\<lambda>r. (r, b')) (be_deserialize env d)
         | _ \<Rightarrow> Some (Inl TimeoutError, b'))"

section \<open>Teardown of an agent\<close>

definition teardown_reply :: "string \<Rightarrow> (message \<Rightarrow> string \<times> string \<times> real) \<Rightarrow> string \<Rightarrow> message \<Rightarrow> message" where
  "teardown_reply name fresh text m =
     (case fresh m of (fid, sid, now) \<Rightarrow>
        (default_message fid now)
          \<lparr>m_type := ''reply'', m_sender := name, m_recipient := reply_address m,
           m_payload := [(''status'', JStr ''error''), (''error'', JStr text)],
           m_correlation_id := m_correlation_id m, m_trace_id := m_trace_id m,
           m_span_id := sid, m_parent_span_id := Some (m_span_id m)\<rparr>)"

definition wants_reply :: "message \<Rightarrow> bool" where
  "wants_reply m \<longleftrightarrow> m_correlation_id m \<noteq> None \<and> reply_address m \<noteq> ''''"

text \<open>The loop over the drained messages; a routing error is logged, any other exception ends
  the loop.\<close>

fun teardown_each ::
  "'d bus_env \<Rightarrow> string \<Rightarrow> (message \<Rightarrow> string \<times> string \<times> real) \<Rightarrow> string \<Rightarrow> message list
     \<Rightarrow> 'd bus \<Rightarrow> (unit result \<times> 'd bus) option" where
  "teardown_each env name fresh text [] b = Some (Inr (), b)"
| "teardown_each env name fresh text (m # ms) b =
     (if wants_reply m then
        (case bus_route env (teardown_reply name fresh text m) b of
           None \<Rightarrow> None
         | Some (Inl e, b') \<Rightarrow>
             if e = MessageRoutingError then teardown_each env name fresh text ms b' else Some (Inl e, b')
         | Some (Inr u, b') \<Rightarrow> teardown_each env name fresh text ms b')
      else teardown_each env name fresh text ms b)"

definition teardown_text :: "string \<Rightarrow> string" where
  "teardown_text name = ''agent '' @ [CHR 0x27] @ name @ [CHR 0x27] @ '' was terminated''"

definition teardown_agent ::
  "'d bus_env \<Rightarrow> (message \<Rightarrow> string \<times> string \<times> real) \<Rightarrow> string \<Rightarrow> 'd bus \<Rightarrow> (unit result \<times> 'd bus) option" where
  "teardown_agent env fresh name b =
     (let b1 = b\<lparr>b_transport := unsubscribe name (b_transport b)\<rparr>
      in case dget (b_local_agents b1) name of
           None \<Rightarrow> Some (Inr (), b1)
         | Some a \<Rightarrow>
             teardown_each env name fresh (teardown_text name) (fst (mb_drain (a_mailbox a)))
               (b1\<lparr>b_local_agents := dpop name (b_local_agents b1)\<rparr>))"

section \<open>The interface of a serializer\<close>

text \<open>
  What the bus relies on, the protocol \<^verbatim>\<open>Serializer\<close>: an envelope that was encoded is
  decoded unchanged. Every codec that restores dictionaries of JSON values provides it.
\<close>

locale message_codec =
  fixes ser :: "message \<Rightarrow> 'd" and deser :: "'d \<Rightarrow> message result option"
  assumes decode_encode: "deser (ser m) = Some (Inr m)"
begin

lemma encode_inj: "ser m = ser m' \<Longrightarrow> m = m'"
  by (metis decode_encode option.inject sum.inject(2))

lemma re_encode: "deser (ser m) = Some (Inr m') \<Longrightarrow> deser (ser (f m')) = Some (Inr (f m))"
  by (simp add: decode_encode)

end

definition codec_ok :: "'d codec \<Rightarrow> bool" where
  "codec_ok cd \<longleftrightarrow> (\<forall>d. unpack cd (pack cd d) = Inr (JDict d))"

lemma deserialize_serialize: "codec_ok cd \<Longrightarrow> deserialize cd fid now (serialize cd m) = Some (Inr m)"
  by (simp add: codec_ok_def deserialize_def serialize_def from_dict_to_dict)

lemma message_codecI: "codec_ok cd \<Longrightarrow> message_codec (serialize cd) (deserialize cd fid now)"
  by unfold_locales (rule deserialize_serialize)

text \<open>A codec on the JSON values themselves, the identity encoding.\<close>

definition json_codec :: "json codec" where
  "json_codec = \<lparr>pack = JDict, unpack = Inr\<rparr>"

lemma json_codec_ok [simp]: "codec_ok json_codec"
  by (simp add: codec_ok_def json_codec_def)

interpretation json_serializer:
  message_codec "serialize json_codec" "deserialize json_codec fid now" for fid now
  by (rule message_codecI) simp

text \<open>Every serializer over a codec that restores JSON dictionaries round-trips envelopes and is
  injective on them; bytes the codec rejects, and bytes that decode to something other than a
  dictionary, give \<^verbatim>\<open>DeserializationError\<close> and nothing else.\<close>

theorem serializer_roundtrip:
  assumes "codec_ok cd"
  shows "deserialize cd fid now (serialize cd m) = Some (Inr m)
    \<and> (serialize cd m = serialize cd m' \<longrightarrow> m = m')
    \<and> ((\<exists>e. unpack cd data = Inl e) \<or> (\<exists>v. unpack cd data = Inr v \<and> (\<forall>d. v \<noteq> JDict d)) \<longrightarrow>
         deserialize cd fid now data = Some (Inl DeserializationError))"
proof (intro conjI impI)
  show "deserialize cd fid now (serialize cd m) = Some (Inr m)"
    by (rule deserialize_serialize [OF assms])
  show "m = m'" if "serialize cd m = serialize cd m'"
    using message_codec.encode_inj [OF message_codecI [OF assms]] that by blast
  show "deserialize cd fid now data = Some (Inl DeserializationError)"
    if "(\<exists>e. unpack cd data = Inl e) \<or> (\<exists>v. unpack cd data = Inr v \<and> (\<forall>d. v \<noteq> JDict d))"
    using that by (auto simp: deserialize_def split: json.splits)
qed

theorem serializer_roundtrip_witness:
  "deserialize json_codec ''f'' 0 (serialize json_codec (default_message ''m'' 1)) =
     Some (Inr (default_message ''m'' 1))
   \<and> deserialize json_codec ''f'' 0 (JStr ''x'') = Some (Inl DeserializationError)"
  using serializer_roundtrip [OF json_codec_ok, of "''f''" 0 "default_message ''m'' 1"
      "default_message ''m'' 1" "JStr ''x''"]
  by (simp add: json_codec_def)

section \<open>Routing\<close>

lemma be_decode: "codec_ok (be_codec env) \<Longrightarrow> be_deserialize env (serialize (be_codec env) m) = Some (Inr m)"
  by (simp add: be_deserialize_def deserialize_serialize)

lemma run_handler_delivers:
  "codec_ok (be_codec env) \<Longrightarrow> dget (b_local_agents b) h = Some a \<Longrightarrow>
   receive (be_py_str env) m a = Some a' \<Longrightarrow>
   run_handler env h (serialize (be_codec env) m) b =
     Some (Inr (), b\<lparr>b_local_agents := dput h a' (b_local_agents b)\<rparr>)"
  by (simp add: run_handler_def be_decode)

lemma publish_to_reply_queue:
  "dget (t_reply_queues (b_transport b)) raddr = Some [] \<Longrightarrow>
   publish env raddr data b = Some (Inr (), b\<lparr>b_transport := (b_transport b)
      \<lparr>t_reply_queues := dput raddr [data] (t_reply_queues (b_transport b))\<rparr>\<rparr>)"
  by (simp add: publish_def)

lemma audit_route_fields [simp]:
  "b_local_agents (audit_route env m b) = b_local_agents b"
  "b_transport (audit_route env m b) = b_transport b" "b_registry (audit_route env m b) = b_registry b"
  by (simp_all add: audit_route_def)

lemma route_to_reply_queue:
  assumes "validate_message_type r = Inr ()" "lookup (b_registry b) (m_recipient r) = None"
    and "dget (t_reply_queues (b_transport b)) (m_recipient r) = Some []"
  shows "bus_route env r b = Some (Inr (), audit_route env (stamp env r)
      (b\<lparr>b_transport := (b_transport b)\<lparr>t_reply_queues :=
          dput (m_recipient r) [serialize (be_codec env) (stamp env r)] (t_reply_queues (b_transport b))\<rparr>\<rparr>))"
  using assms publish_to_reply_queue [OF assms(3)]
  by (simp add: bus_route_def route_address_def has_reply_address_def Let_def)

text \<open>Routing delivers: a message of a valid type to a registered name whose handler is an
  agent of this process reaches that agent's \<^verbatim>\<open>receive\<close> unchanged except for the trace
  identifiers the tracer stamps, reaches nobody else, and is audited once when auditing is on. A type
  with the reserved prefix that is not a system type, and a recipient that is neither registered nor
  a reply address, are refused without any effect.\<close>

theorem route_delivers_or_refuses:
  assumes "codec_ok (be_codec env)"
  shows "(validate_message_type m = Inr () \<and> lookup (b_registry b) (m_recipient m) = Some entry
          \<and> dget (t_reply_queues (b_transport b)) (e_address entry) = None
          \<and> dget (t_handlers (b_transport b)) (e_address entry) = Some h
          \<and> dget (b_local_agents b) h = Some a
          \<and> receive (be_py_str env) (stamp env m) a = Some a' \<longrightarrow>
            bus_route env m b = Some (Inr (), audit_route env (stamp env m)
              (b\<lparr>b_local_agents := dput h a' (b_local_agents b)\<rparr>)))
       \<and> (startswith (m_type m) ''_agency.'' \<and> m_type m \<notin> set SYSTEM_MESSAGE_TYPES \<longrightarrow>
            bus_route env m b = Some (Inl MessageValidationError, b))
       \<and> (validate_message_type m = Inr () \<and> lookup (b_registry b) (m_recipient m) = None
          \<and> \<not> has_reply_address (m_recipient m) (b_transport b)
          \<and> \<not> startswith (m_recipient m) ''_reply.'' \<longrightarrow>
            bus_route env m b = Some (Inl MessageRoutingError, b))"
  using run_handler_delivers [OF assms]
  by (auto simp: bus_route_def route_address_def publish_def Let_def validate_message_type_def)

definition plain_bus_env :: "json bus_env" where
  "plain_bus_env = \<lparr>be_codec = json_codec, be_trace = \<lambda>m. (m_trace_id m, m_span_id m),
     be_has_audit = False, be_py_str = \<lambda>v. [], be_fid = ''f'', be_now = 0\<rparr>"

definition sample_bus :: "json bus" where
  "sample_bus = setup_agent ''w'' (new_agent (base_env ''w'') None None 0)
     \<lparr>b_registry = (new_registry True)\<lparr>r_entries := [(''w'', local_entry ''w'' None True [] [])]\<rparr>,
      b_transport = new_transport, b_local_agents = [], b_audit = []\<rparr>"

theorem route_delivers_or_refuses_witness:
  "bus_route plain_bus_env ((default_message ''m'' 0)\<lparr>m_recipient := ''nobody''\<rparr>) sample_bus
     = Some (Inl MessageRoutingError, sample_bus)
   \<and> (\<exists>b'. bus_route plain_bus_env ((default_message ''m'' 0)\<lparr>m_recipient := ''w''\<rparr>) sample_bus
        = Some (Inr (), b') \<and> b_local_agents b' \<noteq> b_local_agents sample_bus)"
proof -
  have ok: "codec_ok (be_codec plain_bus_env)" by (simp add: plain_bus_env_def)
  let ?m = "(default_message ''m'' 0)\<lparr>m_recipient := ''w''\<rparr>"
  let ?a = "new_agent (base_env ''w'') None None 0"
  have rc: "\<exists>a'. receive (be_py_str plain_bus_env) (stamp plain_bus_env ?m) ?a = Some a' \<and> a' \<noteq> ?a"
    by (simp add: receive_def consume_stream_frame_def stamp_def plain_bus_env_def default_message_def
        mb_put_def q_full_def new_agent_def new_mailbox_def base_env_def)
  then obtain a' where a': "receive (be_py_str plain_bus_env) (stamp plain_bus_env ?m) ?a = Some a'" "a' \<noteq> ?a"
    by blast
  have "bus_route plain_bus_env ?m sample_bus = Some (Inr (), audit_route plain_bus_env (stamp plain_bus_env ?m)
              (sample_bus\<lparr>b_local_agents := dput ''w'' a' (b_local_agents sample_bus)\<rparr>))"
    using route_delivers_or_refuses [OF ok, of ?m sample_bus "local_entry ''w'' None True [] []" "''w''" ?a a'] a'(1)
    by (simp add: sample_bus_def setup_agent_def subscribe_def new_transport_def lookup_def
        local_entry_def validate_message_type_def default_message_def)
  moreover have "dput ''w'' a' (b_local_agents sample_bus) \<noteq> b_local_agents sample_bus"
    using a'(2) by (simp add: sample_bus_def setup_agent_def)
  moreover have "bus_route plain_bus_env ((default_message ''m'' 0)\<lparr>m_recipient := ''nobody''\<rparr>) sample_bus
     = Some (Inl MessageRoutingError, sample_bus)"
    using route_delivers_or_refuses [OF ok, of "(default_message ''m'' 0)\<lparr>m_recipient := ''nobody''\<rparr>"
        sample_bus undefined "''w''" ?a a']
    by (simp add: sample_bus_def setup_agent_def subscribe_def new_transport_def lookup_def
        has_reply_address_def validate_message_type_def default_message_def)
  ultimately show ?thesis by auto
qed

section \<open>Request and reply\<close>

text \<open>C5. Request and reply: an \<^verbatim>\<open>ask\<close> to a registered agent of this process puts the
  request, with the temporary reply address in it, before that agent; the reply the agent builds
  with \<^verbatim>\<open>reply_to\<close> is routed into the caller's reply queue and touches no mailbox; the caller
  gets exactly that reply, and the temporary address is gone.\<close>

theorem ask_roundtrip:
  assumes "codec_ok (be_codec env)" and "validate_message_type m = Inr ()"
    and "\<not> (fail_if_suspended \<and> is_suspended (m_recipient m) (b_registry b))"
    and "lookup (b_registry b) (m_recipient m) = Some entry"
    and "dget (t_handlers (b_transport b)) (e_address entry) = Some h"
    and "dget (b_local_agents b) h = Some a"
    and "receive (be_py_str env) ((stamp env m)\<lparr>m_reply_to := Some raddr\<rparr>) a = Some a'"
    and "raddr \<noteq> ''''" and "lookup (b_registry b) raddr = None"
    and r: "r = reply_to_message aenv ((stamp env m)\<lparr>m_reply_to := Some raddr\<rparr>) p x"
    and "validate_message_type r = Inr ()"
  shows "\<exists>b1 b2 b3. request_send env raddr fail_if_suspended m b = Some (Inr (), b1)
      \<and> b_local_agents b1 = dput h a' (b_local_agents b)
      \<and> bus_route env r b1 = Some (Inr (), b2) \<and> b_local_agents b2 = b_local_agents b1
      \<and> request_finish env raddr b2 = Some (Inr (stamp env r), b3)
      \<and> b_local_agents b3 = b_local_agents b1
      \<and> \<not> has_reply_address raddr (b_transport b3)"
proof -
  let ?open = "b\<lparr>b_transport := (b_transport b)\<lparr>t_reply_queues := dput raddr [] (t_reply_queues (b_transport b))\<rparr>\<rparr>"
  let ?b1 = "?open\<lparr>b_local_agents := dput h a' (b_local_agents b)\<rparr>"
  have "run_handler env h (serialize (be_codec env) ((stamp env m)\<lparr>m_reply_to := Some raddr\<rparr>)) ?open = Some (Inr (), ?b1)"
    using run_handler_delivers [OF assms(1), of ?open h a] assms(6,7) by simp
  then have send: "request_send env raddr fail_if_suspended m b = Some (Inr (), ?b1)"
    using assms(1-5) by (simp add: request_send_def Let_def be_decode)
  have rcp: "m_recipient r = raddr"
    using assms(8) by (simp add: r reply_to_message_def reply_address_def)
  let ?b2 = "audit_route env (stamp env r) (?b1\<lparr>b_transport := (b_transport ?b1)\<lparr>t_reply_queues :=
      dput raddr [serialize (be_codec env) (stamp env r)] (t_reply_queues (b_transport ?b1))\<rparr>\<rparr>)"
  have "bus_route env r ?b1 = Some (Inr (), ?b2)"
    using route_to_reply_queue [of r ?b1 env] assms(9,11) rcp by (simp add: dict_simps)
  moreover have "request_finish env raddr ?b2 = Some (Inr (stamp env r), ?b2\<lparr>b_transport := (b_transport ?b2)
      \<lparr>t_reply_queues := dpop raddr (t_reply_queues (b_transport ?b2))\<rparr>\<rparr>)"
    by (simp add: request_finish_def Let_def dict_simps be_decode [OF assms(1)])
  ultimately show ?thesis
    using send by (auto simp: has_reply_address_def dict_simps)
qed

theorem ask_roundtrip_witness:
  "\<exists>b1 b2 b3 r. request_send plain_bus_env ''_reply.1'' True
        ((default_message ''q'' 0)\<lparr>m_recipient := ''w'', m_correlation_id := Some ''c''\<rparr>) sample_bus = Some (Inr (), b1)
      \<and> bus_route plain_bus_env r b1 = Some (Inr (), b2)
      \<and> request_finish plain_bus_env ''_reply.1'' b2 = Some (Inr r, b3) \<and> m_payload r = [(''n'', JInt 7)]"
proof -
  let ?m = "(default_message ''q'' 0)\<lparr>m_recipient := ''w'', m_correlation_id := Some ''c''\<rparr>"
  let ?a = "new_agent (base_env ''w'') None None 0"
  let ?rq = "(stamp plain_bus_env ?m)\<lparr>m_reply_to := Some ''_reply.1''\<rparr>"
  let ?r = "reply_to_message (base_env ''w'') ?rq [(''n'', JInt 7)] ?a"
  have "\<exists>a'. receive (be_py_str plain_bus_env) ?rq ?a = Some a'"
    by (simp add: receive_def consume_stream_frame_def stamp_def plain_bus_env_def default_message_def
        mb_put_def q_full_def new_agent_def new_mailbox_def base_env_def)
  then obtain a' where a': "receive (be_py_str plain_bus_env) ?rq ?a = Some a'" by blast
  have "\<exists>b1 b2 b3. request_send plain_bus_env ''_reply.1'' True ?m sample_bus = Some (Inr (), b1)
      \<and> b_local_agents b1 = dput ''w'' a' (b_local_agents sample_bus)
      \<and> bus_route plain_bus_env ?r b1 = Some (Inr (), b2) \<and> b_local_agents b2 = b_local_agents b1
      \<and> request_finish plain_bus_env ''_reply.1'' b2 = Some (Inr (stamp plain_bus_env ?r), b3)
      \<and> b_local_agents b3 = b_local_agents b1
      \<and> \<not> has_reply_address ''_reply.1'' (b_transport b3)"
    by (rule ask_roundtrip [where a = ?a and entry = "local_entry ''w'' None True [] []"
          and aenv = "base_env ''w''" and p = "[(''n'', JInt 7)]" and x = ?a])
       (use a' in \<open>simp_all add: plain_bus_env_def sample_bus_def setup_agent_def subscribe_def new_transport_def
          lookup_def local_entry_def validate_message_type_def default_message_def is_suspended_def
          new_registry_def reply_to_message_def get_str_def fresh_message_def\<close>)
  moreover have "stamp plain_bus_env ?r = ?r" "m_payload ?r = [(''n'', JInt 7)]"
    by (simp_all add: stamp_def plain_bus_env_def reply_to_message_def)
  ultimately show ?thesis by (metis (no_types, lifting))
qed

text \<open>A request fails fast without any effect on the bus: an unknown system type is refused with
  \<^verbatim>\<open>MessageValidationError\<close>, a suspended recipient with \<^verbatim>\<open>AgentSuspendedError\<close> when the
  caller asked for it, an unregistered recipient with \<^verbatim>\<open>MessageRoutingError\<close>, in this
  order; without \<^verbatim>\<open>fail_if_suspended\<close> the suspension of the recipient is never
  consulted.\<close>

theorem request_fails_fast:
  "(startswith (m_type m) ''_agency.'' \<and> m_type m \<notin> set SYSTEM_MESSAGE_TYPES \<longrightarrow>
      request_send env raddr fis m b = Some (Inl MessageValidationError, b))
 \<and> (validate_message_type m = Inr () \<and> is_suspended (m_recipient m) (b_registry b) \<longrightarrow>
      request_send env raddr True m b = Some (Inl AgentSuspendedError, b))
 \<and> (validate_message_type m = Inr () \<and> lookup (b_registry b) (m_recipient m) = None
      \<and> \<not> is_suspended (m_recipient m) (b_registry b) \<longrightarrow>
      request_send env raddr fis m b = Some (Inl MessageRoutingError, b))
 \<and> (b_registry b' = set_suspended (m_recipient m) s (b_registry b)
      \<and> b_transport b' = b_transport b \<and> b_local_agents b' = b_local_agents b \<and> b_audit b' = b_audit b \<longrightarrow>
      map_option fst (request_send env raddr False m b') = map_option fst (request_send env raddr False m b))"
  (is "?A \<and> ?B \<and> ?C \<and> ?D")
proof (intro conjI)
  show ?D
  proof
    assume b': "b_registry b' = set_suspended (m_recipient m) s (b_registry b)
      \<and> b_transport b' = b_transport b \<and> b_local_agents b' = b_local_agents b \<and> b_audit b' = b_audit b"
    have rh: "map_option fst (run_handler env h d x) = map_option fst (run_handler env h d y)"
      if "b_local_agents x = b_local_agents y" for h d and x y :: "'a bus"
      using that by (auto simp: run_handler_def option.map_comp comp_def split: option.splits sum.splits)
    have rs: "map_option fst (case run_handler env h d x of None \<Rightarrow> None
          | Some (Inl e, z) \<Rightarrow> Some (Inl e, f z) | Some (Inr v, z) \<Rightarrow> Some (Inr (), z)) =
        map_option fst (run_handler env h d x)" for h d and x :: "'a bus" and f
      by (auto split: option.splits prod.splits sum.splits)
    show "map_option fst (request_send env raddr False m b') = map_option fst (request_send env raddr False m b)"
      using b'
      by (auto simp: request_send_def Let_def rs intro!: rh split: sum.splits option.splits)
  qed
qed (auto simp: request_send_def validate_message_type_def)

theorem request_fails_fast_witness:
  "request_send plain_bus_env ''_reply.1'' False
     ((default_message ''q'' 0)\<lparr>m_recipient := ''nobody''\<rparr>) sample_bus = Some (Inl MessageRoutingError, sample_bus)"
  using request_fails_fast [of "(default_message ''q'' 0)\<lparr>m_recipient := ''nobody''\<rparr>" plain_bus_env "''_reply.1''" False sample_bus sample_bus False]
  by (simp add: sample_bus_def setup_agent_def lookup_def is_suspended_def new_registry_def
      validate_message_type_def default_message_def)

section \<open>Teardown\<close>

text \<open>A buffered request whose caller still waits, and the state in which the theorem below holds:
  no reply address is the name of an agent; the callers that still wait have an empty reply queue each
  and no two of them the same; the others are gone: their address has no queue and no handler any
  more.\<close>

definition caller_waits :: "'d bus \<Rightarrow> message \<Rightarrow> bool" where
  "caller_waits b m \<longleftrightarrow> wants_reply m \<and> has_reply_address (reply_address m) (b_transport b)"

definition callers_ready :: "message list \<Rightarrow> 'd bus \<Rightarrow> bool" where
  "callers_ready ms b \<longleftrightarrow>
     distinct (map reply_address (filter (caller_waits b) ms))
   \<and> (\<forall>m \<in> set (filter wants_reply ms).
        lookup (b_registry b) (reply_address m) = None
      \<and> (if has_reply_address (reply_address m) (b_transport b)
         then dget (t_reply_queues (b_transport b)) (reply_address m) = Some []
         else dget (t_handlers (b_transport b)) (reply_address m) = None))"

lemma teardown_reply_fields [simp]:
  "m_recipient (teardown_reply n fr tx m) = reply_address m"
  "m_type (teardown_reply n fr tx m) = ''reply''"
  "m_correlation_id (teardown_reply n fr tx m) = m_correlation_id m"
  "m_payload (teardown_reply n fr tx m) = [(''status'', JStr ''error''), (''error'', JStr tx)]"
  by (simp_all add: teardown_reply_def split: prod.split)

text \<open>A reply to a caller that is gone either raises \<^verbatim>\<open>MessageRoutingError\<close> or is published
  to nobody; neither touches a queue.\<close>

lemma route_to_gone_caller:
  assumes "validate_message_type r = Inr ()" "lookup (b_registry b) (m_recipient r) = None"
    and "\<not> has_reply_address (m_recipient r) (b_transport b)"
    and "dget (t_handlers (b_transport b)) (m_recipient r) = None"
  shows "bus_route env r b = Some (Inl MessageRoutingError, b)
       \<or> bus_route env r b = Some (Inr (), audit_route env (stamp env r) b)"
  using assms
  by (simp add: bus_route_def route_address_def has_reply_address_def publish_def Let_def)

lemma caller_waits_audit [simp]: "caller_waits (audit_route env m b) x = caller_waits b x"
  by (simp add: caller_waits_def)

lemma callers_ready_audit [simp]: "callers_ready ms (audit_route env m b) = callers_ready ms b"
proof -
  have "caller_waits (audit_route env m b) = caller_waits b" by (rule ext) simp
  then show ?thesis by (simp add: callers_ready_def)
qed

lemma teardown_step_gone:
  assumes "wants_reply m" "\<not> caller_waits b m" "callers_ready (m # ms) b"
  shows "\<exists>b1. teardown_each env n fr tx (m # ms) b = teardown_each env n fr tx ms b1
      \<and> (b1 = b \<or> b1 = audit_route env (stamp env (teardown_reply n fr tx m)) b)"
proof -
  have "\<not> has_reply_address (reply_address m) (b_transport b)"
    using assms(1,2) by (simp add: caller_waits_def)
  then show ?thesis
    using route_to_gone_caller [of "teardown_reply n fr tx m" b env] assms(1,3)
    by (auto simp: callers_ready_def validate_message_type_def)
qed

lemma teardown_step_waiting:
  assumes "caller_waits b m" "callers_ready (m # ms) b"
  shows "\<exists>b1. teardown_each env n fr tx (m # ms) b = teardown_each env n fr tx ms b1
      \<and> b_local_agents b1 = b_local_agents b \<and> b_registry b1 = b_registry b
      \<and> t_handlers (b_transport b1) = t_handlers (b_transport b)
      \<and> t_reply_queues (b_transport b1) = dput (reply_address m)
           [serialize (be_codec env) (stamp env (teardown_reply n fr tx m))] (t_reply_queues (b_transport b))"
proof -
  have "wants_reply m" "lookup (b_registry b) (reply_address m) = None"
    "dget (t_reply_queues (b_transport b)) (reply_address m) = Some []"
    using assms by (auto simp: caller_waits_def callers_ready_def)
  then show ?thesis
    using route_to_reply_queue [of "teardown_reply n fr tx m" b env]
    by (intro exI [of _ "audit_route env (stamp env (teardown_reply n fr tx m))
          (b\<lparr>b_transport := (b_transport b)\<lparr>t_reply_queues := dput (reply_address m)
             [serialize (be_codec env) (stamp env (teardown_reply n fr tx m))] (t_reply_queues (b_transport b))\<rparr>\<rparr>)"])
       (simp add: validate_message_type_def)
qed

lemma callers_ready_tail:
  assumes "callers_ready (m # ms) b" "caller_waits b m" "b_registry b1 = b_registry b"
    and "t_handlers (b_transport b1) = t_handlers (b_transport b)"
    and "t_reply_queues (b_transport b1) = dput (reply_address m) [d] (t_reply_queues (b_transport b))"
  shows "callers_ready ms b1" "caller_waits b1 = caller_waits b"
    "x \<in> set ms \<Longrightarrow> caller_waits b x \<Longrightarrow> reply_address x \<noteq> reply_address m"
proof -
  have has: "has_reply_address k (b_transport b1) = has_reply_address k (b_transport b)" for k
    using assms(2,5) by (cases "k = reply_address m") (simp_all add: has_reply_address_def caller_waits_def dict_simps)
  then show waits: "caller_waits b1 = caller_waits b" by (auto simp: caller_waits_def)
  have "reply_address m \<notin> reply_address ` {x \<in> set ms. caller_waits b x}"
    using assms(1,2) by (simp add: callers_ready_def)
  then show fresh: "x \<in> set ms \<Longrightarrow> caller_waits b x \<Longrightarrow> reply_address x \<noteq> reply_address m" for x
    by (metis (mono_tags, lifting) imageI mem_Collect_eq)
  show "callers_ready ms b1"
    using assms fresh unfolding callers_ready_def waits has
    by (auto simp: caller_waits_def dict_simps)
qed

lemma teardown_each_answers:
  assumes "callers_ready ms b"
  shows "\<exists>b'. teardown_each env n fr tx ms b = Some (Inr (), b')
      \<and> b_local_agents b' = b_local_agents b \<and> b_registry b' = b_registry b
      \<and> t_handlers (b_transport b') = t_handlers (b_transport b)
      \<and> (\<forall>k. dget (t_reply_queues (b_transport b')) k =
            (case find (\<lambda>m. caller_waits b m \<and> reply_address m = k) ms of
               Some m \<Rightarrow> Some [serialize (be_codec env) (stamp env (teardown_reply n fr tx m))]
             | None \<Rightarrow> dget (t_reply_queues (b_transport b)) k))"
  using assms
proof (induction ms arbitrary: b)
  case Nil
  show ?case by simp
next
  case (Cons m ms)
  have tl: "callers_ready ms b" if "\<not> caller_waits b m"
    using Cons.prems that by (auto simp: callers_ready_def)
  consider "\<not> wants_reply m" | "wants_reply m" "\<not> caller_waits b m" | "caller_waits b m" by blast
  then show ?case
  proof cases
    case 1
    then have "\<not> caller_waits b m" by (simp add: caller_waits_def)
    with Cons.IH [OF tl] 1 show ?thesis by simp
  next
    case 2
    obtain b1 where b1: "teardown_each env n fr tx (m # ms) b = teardown_each env n fr tx ms b1"
      "b1 = b \<or> b1 = audit_route env (stamp env (teardown_reply n fr tx m)) b"
      using teardown_step_gone [OF 2 Cons.prems] by blast
    have ready: "callers_ready ms b1" and eq: "caller_waits b1 = caller_waits b" "b_local_agents b1 = b_local_agents b"
      "b_registry b1 = b_registry b" "b_transport b1 = b_transport b"
      using b1(2) tl [OF 2(2)] by auto
    show ?thesis using Cons.IH [OF ready] 2(2) unfolding b1(1) eq by (simp del: teardown_each.simps)
  next
    case 3
    let ?d = "serialize (be_codec env) (stamp env (teardown_reply n fr tx m))"
    obtain b1 where b1: "teardown_each env n fr tx (m # ms) b = teardown_each env n fr tx ms b1"
      "b_local_agents b1 = b_local_agents b" "b_registry b1 = b_registry b"
      "t_handlers (b_transport b1) = t_handlers (b_transport b)"
      "t_reply_queues (b_transport b1) = dput (reply_address m) [?d] (t_reply_queues (b_transport b))"
      using teardown_step_waiting [OF 3 Cons.prems] by blast
    note tail = callers_ready_tail [OF Cons.prems 3 b1(3-5)]
    have none: "find (\<lambda>x. caller_waits b x \<and> reply_address x = reply_address m) ms = None"
      using tail(3) by (auto simp: find_None_iff)
    from Cons.IH [OF tail(1)] obtain b' where b': "teardown_each env n fr tx ms b1 = Some (Inr (), b')"
      "b_local_agents b' = b_local_agents b" "b_registry b' = b_registry b"
      "t_handlers (b_transport b') = t_handlers (b_transport b)"
      and q: "\<And>k. dget (t_reply_queues (b_transport b')) k =
            (case find (\<lambda>m. caller_waits b m \<and> reply_address m = k) ms of
               Some m \<Rightarrow> Some [serialize (be_codec env) (stamp env (teardown_reply n fr tx m))]
             | None \<Rightarrow> dget (t_reply_queues (b_transport b1)) k)"
      using b1(2-4) tail(2) by auto
    have "dget (t_reply_queues (b_transport b')) k =
            (case find (\<lambda>m. caller_waits b m \<and> reply_address m = k) (m # ms) of
               Some m \<Rightarrow> Some [serialize (be_codec env) (stamp env (teardown_reply n fr tx m))]
             | None \<Rightarrow> dget (t_reply_queues (b_transport b)) k)" for k
      unfolding q using 3 none b1(5) by (cases "k = reply_address m") (auto simp: dict_simps split: option.splits)
    with b' b1(1) show ?thesis by (intro exI [of _ b']) simp
  qed
qed

lemma find_unique_address:
  assumes "distinct (map reply_address (filter P ms))" "m \<in> set ms" "P m"
  shows "find (\<lambda>x. P x \<and> reply_address x = reply_address m) ms = Some m"
  using assms
proof (induction ms)
  case Nil
  then show ?case by simp
next
  case (Cons x xs)
  then show ?case by (cases "x = m") (auto split: if_splits)
qed

text \<open>C29. Tearing down an agent strands no caller: every buffered request whose caller still waits
  on its reply address gets exactly one error reply, with its own correlation identifier, in its own
  reply queue, also when other callers are gone and cannot be answered; every other reply queue is as
  before, the handler and the agent are gone, the registry and the other agents are as before, and
  doing it again changes nothing. The reply addresses are those of requests, not names of agents, and
  no two waiting callers share one.\<close>

theorem teardown_answers_callers:
  assumes "dget (b_local_agents b) name = Some a" and "callers_ready (fst (mb_drain (a_mailbox a))) b"
  shows "\<exists>b'. teardown_agent env fresh name b = Some (Inr (), b')
      \<and> (\<forall>m \<in> set (fst (mb_drain (a_mailbox a))). caller_waits b m \<longrightarrow>
           (\<exists>r. dget (t_reply_queues (b_transport b')) (reply_address m) = Some [serialize (be_codec env) r]
              \<and> m_correlation_id r = m_correlation_id m \<and> m_recipient r = reply_address m
              \<and> get_str (m_payload r) ''status'' '''' = ''error''))
      \<and> (\<forall>k. (\<forall>m \<in> set (fst (mb_drain (a_mailbox a))). caller_waits b m \<longrightarrow> reply_address m \<noteq> k) \<longrightarrow>
           dget (t_reply_queues (b_transport b')) k = dget (t_reply_queues (b_transport b)) k)
      \<and> dget (t_handlers (b_transport b')) name = None
      \<and> b_local_agents b' = dpop name (b_local_agents b) \<and> b_registry b' = b_registry b
      \<and> teardown_agent env fresh name b' = Some (Inr (), b')"
proof -
  let ?ms = "fst (mb_drain (a_mailbox a))" and ?tx = "teardown_text name"
  let ?b1 = "b\<lparr>b_transport := unsubscribe name (b_transport b), b_local_agents := dpop name (b_local_agents b)\<rparr>"
  have w: "caller_waits ?b1 = caller_waits b"
    by (auto simp: caller_waits_def has_reply_address_def unsubscribe_def)
  have tq: "t_reply_queues (b_transport ?b1) = t_reply_queues (b_transport b)"
    by (simp add: unsubscribe_def)
  have cw: "callers_ready ?ms ?b1"
    using assms(2) unfolding callers_ready_def w
    by (auto simp: has_reply_address_def unsubscribe_def dict_simps)
  obtain b' where b': "teardown_each env name fresh ?tx ?ms ?b1 = Some (Inr (), b')"
    "b_local_agents b' = dpop name (b_local_agents b)"
    "t_handlers (b_transport b') = dpop name (t_handlers (b_transport b))"
    "b_registry b' = b_registry b"
    "\<And>k. dget (t_reply_queues (b_transport b')) k =
            (case find (\<lambda>m. caller_waits b m \<and> reply_address m = k) ?ms of
               Some m \<Rightarrow> Some [serialize (be_codec env) (stamp env (teardown_reply name fresh ?tx m))]
             | None \<Rightarrow> dget (t_reply_queues (b_transport b)) k)"
    using teardown_each_answers [OF cw, of env name fresh ?tx, unfolded w tq] by (auto simp: unsubscribe_def)
  have ans: "\<exists>r. dget (t_reply_queues (b_transport b')) (reply_address m) = Some [serialize (be_codec env) r]
              \<and> m_correlation_id r = m_correlation_id m \<and> m_recipient r = reply_address m
              \<and> get_str (m_payload r) ''status'' '''' = ''error''"
    if m: "m \<in> set ?ms" "caller_waits b m" for m
  proof -
    have "find (\<lambda>x. caller_waits b x \<and> reply_address x = reply_address m) ?ms = Some m"
      by (rule find_unique_address [where P = "caller_waits b", OF _ m]) (use assms(2) in \<open>simp add: callers_ready_def\<close>)
    then show ?thesis
      by (intro exI [of _ "stamp env (teardown_reply name fresh ?tx m)"])
         (simp add: b'(5) stamp_def get_str_def)
  qed
  have other: "dget (t_reply_queues (b_transport b')) k = dget (t_reply_queues (b_transport b)) k"
    if "\<forall>m \<in> set ?ms. caller_waits b m \<longrightarrow> reply_address m \<noteq> k" for k
  proof -
    have "find (\<lambda>m. caller_waits b m \<and> reply_address m = k) ?ms = None"
      using that by (auto simp: find_None_iff)
    then show ?thesis by (simp add: b'(5))
  qed
  have "teardown_agent env fresh name b = Some (Inr (), b')"
    using assms(1) b'(1) by (simp add: teardown_agent_def Let_def)
  moreover have "b'\<lparr>b_transport := unsubscribe name (b_transport b')\<rparr> = b'"
    using b'(3) by (simp add: unsubscribe_def AList.delete_idem)
  then have "teardown_agent env fresh name b' = Some (Inr (), b')"
    using b'(2) by (simp add: teardown_agent_def Let_def dict_simps)
  ultimately show ?thesis using ans other b'(2-4) by (auto simp: dict_simps)
qed

text \<open>Two buffered requests, the first one's sender gone, the second one's caller waiting.\<close>

theorem teardown_answers_callers_witness:
  "\<exists>b' r. teardown_agent plain_bus_env (\<lambda>m. (''f'', ''s'', 0)) ''w''
      (sample_bus\<lparr>b_local_agents := [(''w'', (new_agent (base_env ''w'') None None 0)\<lparr>a_mailbox := (new_mailbox 5 5)
           \<lparr>mb_queue := [(default_message ''q'' 0)\<lparr>m_correlation_id := Some ''d'', m_reply_to := Some ''dead''\<rparr>,
              (default_message ''q'' 0)\<lparr>m_correlation_id := Some ''c'', m_reply_to := Some ''_reply.1''\<rparr>]\<rparr>\<rparr>)],
        b_transport := new_transport\<lparr>t_reply_queues := [(''_reply.1'', []), (''_reply.2'', [])]\<rparr>\<rparr>) = Some (Inr (), b')
    \<and> dget (t_reply_queues (b_transport b')) ''_reply.1'' = Some [serialize json_codec r]
    \<and> m_correlation_id r = Some ''c''
    \<and> dget (t_reply_queues (b_transport b')) ''_reply.2'' = Some []"
proof -
  let ?p = "(default_message ''q'' 0)\<lparr>m_correlation_id := Some ''d'', m_reply_to := Some ''dead''\<rparr>"
  let ?q = "(default_message ''q'' 0)\<lparr>m_correlation_id := Some ''c'', m_reply_to := Some ''_reply.1''\<rparr>"
  let ?a = "(new_agent (base_env ''w'') None None 0)\<lparr>a_mailbox := (new_mailbox 5 5)\<lparr>mb_queue := [?p, ?q]\<rparr>\<rparr>"
  let ?b = "sample_bus\<lparr>b_local_agents := [(''w'', ?a)],
        b_transport := new_transport\<lparr>t_reply_queues := [(''_reply.1'', []), (''_reply.2'', [])]\<rparr>\<rparr>"
  have drained: "fst (mb_drain (a_mailbox ?a)) = [?p, ?q]"
    by (simp add: mb_drain_def new_mailbox_def)
  have w: "wants_reply ?q" "reply_address ?q = ''_reply.1''" "wants_reply ?p" "reply_address ?p = ''dead''"
    by (simp_all add: wants_reply_def reply_address_def)
  have cq: "caller_waits ?b ?q" "\<not> caller_waits ?b ?p"
    using w by (simp_all add: caller_waits_def has_reply_address_def new_transport_def)
  have "callers_ready (fst (mb_drain (a_mailbox ?a))) ?b"
    unfolding drained callers_ready_def using w cq
    by (simp add: sample_bus_def setup_agent_def lookup_def has_reply_address_def new_transport_def)
  from teardown_answers_callers [OF _ this, of "''w''" plain_bus_env "\<lambda>m. (''f'', ''s'', 0)"]
  obtain b' where "teardown_agent plain_bus_env (\<lambda>m. (''f'', ''s'', 0)) ''w'' ?b = Some (Inr (), b')"
    and ans: "\<forall>m \<in> set [?p, ?q]. caller_waits ?b m \<longrightarrow>
       (\<exists>r. dget (t_reply_queues (b_transport b')) (reply_address m) = Some [serialize (be_codec plain_bus_env) r]
          \<and> m_correlation_id r = m_correlation_id m)"
    and oth: "\<forall>k. (\<forall>m \<in> set [?p, ?q]. caller_waits ?b m \<longrightarrow> reply_address m \<noteq> k) \<longrightarrow>
           dget (t_reply_queues (b_transport b')) k = dget (t_reply_queues (b_transport ?b)) k"
    unfolding drained by auto
  moreover obtain r where "dget (t_reply_queues (b_transport b')) ''_reply.1'' = Some [serialize json_codec r]"
    "m_correlation_id r = Some ''c''"
    using ans cq(1) w(2) by (auto simp: plain_bus_env_def)
  moreover have "dget (t_reply_queues (b_transport b')) ''_reply.2'' = Some []"
    using spec [OF oth, of "''_reply.2''"] w(2) cq(2) by simp
  ultimately show ?thesis by blast
qed

end
