(* ===== verification/Agent_Loop.thy ===== *)
theory Agent_Loop
  imports Agent_State
begin

text \<open>
  \<^verbatim>\<open>AgentProcess\<close> of \<^verbatim>\<open>src/civitas/process.py\<close>, second part: start, message loop,
  dispatch with in-place retry, and teardown. The agent's task is a state machine: its control
  point (\<open>task_pc\<close>) is the loop head, a wait for any message, a wait for a control message, or
  the end with the exception the task ends with. A wait keeps its kind while other code changes the
  agent, as the coroutine does. Clients of MCP servers belong to the package fabrica and are
  left out. The task is cancelled by nobody: a cancellation shows in how the supervisor's stop of an
  agent ends. Nobody but the agent takes its name out of the registry.
\<close>

section \<open>Dispatch\<close>

definition apply_error_action :: "agent_env \<Rightarrow> error_action \<Rightarrow> exn \<Rightarrow> unit call" where
  "apply_error_action env action e a =
     (case action of
        SKIP \<Rightarrow> (Inr (), a)
      | STOP \<Rightarrow> (Inr (), set_status env STOPPING a)
      | ESCALATE \<Rightarrow> (Inl e, set_status env CRASHED a)
      | RETRY \<Rightarrow> (Inr (), a))"

text \<open>One attempt: the hook, under the per-message timeout, and the routing of its reply.\<close>

definition attempt :: "agent_env \<Rightarrow> message \<Rightarrow> unit call" where
  "attempt env m a =
     (if m_type m = ''civitas.eval.correction''
      then e_on_correction env m (log_event (EvHook ''on_correction'') a)
      else
        let (duration, r, a1) = e_handle env m (log_event (EvHook ''handle'') a);
            r' = (case c_handle_timeout env of
                    None \<Rightarrow> r
                  | Some t \<Rightarrow> if t < duration then Inl TimeoutError else r)
        in case r' of
             Inl e \<Rightarrow> (Inl e, a1)
           | Inr res \<Rightarrow>
               (case res of
                  None \<Rightarrow> (Inr (), a1)
                | Some out \<Rightarrow>
                    if m_correlation_id m \<noteq> None \<and> m_correlation_id m \<noteq> Some '''' \<and> c_has_bus env
                    then route env out a1 else (Inr (), a1)))"

function dispatch_loop :: "agent_env \<Rightarrow> message \<Rightarrow> unit call" where
  "dispatch_loop env m a =
     (case attempt env m a of
        (Inr u, a1) \<Rightarrow> (Inr (), a1)
      | (Inl e, a1) \<Rightarrow>
          if \<not> is_Exception e then (Inl e, a1)
          else
            (case e_on_error env e m (log_event (EvHook ''on_error'') (metric env ''agent_error'' a1)) of
               (Inl e', a2) \<Rightarrow> (Inl e', a2)
             | (Inr action, a2) \<Rightarrow>
                 if action \<noteq> RETRY then apply_error_action env action e a2
                 else
                   let m' = m\<lparr>m_attempt := m_attempt m + 1\<rparr>;
                       a3 = a2\<lparr>a_current_message := Some m'\<rparr>
                   in if m_attempt m' > c_max_retries env then (Inl e, set_status env CRASHED a3)
                      else if a_status a3 \<noteq> RUNNING then (Inr (), a3)
                      else dispatch_loop env m'
                             (if c_has_tracer env then log_event (EvSpan ''civitas.agent.retry'') a3
                              else a3)))"
  by pat_completeness auto
termination
  by (relation "measure (\<lambda>(env, m, a). nat (c_max_retries env + 1 - m_attempt m))") auto

declare dispatch_loop.simps [simp del]

definition dispatch :: "agent_env \<Rightarrow> message \<Rightarrow> unit call" where
  "dispatch env m a =
     (case dispatch_loop env m a of (r, a') \<Rightarrow> (r, metric env ''message_handled'' a'))"

section \<open>The message loop\<close>

datatype loop_result = Continue | Break | Raise exn

definition heartbeat_ack :: "agent_env \<Rightarrow> message \<Rightarrow> agent \<Rightarrow> message" where
  "heartbeat_ack env m a =
     (fresh_message env a)
       \<lparr>m_type := ''_agency.heartbeat_ack'', m_sender := c_name env, m_recipient := reply_address m,
        m_correlation_id := m_correlation_id m, m_trace_id := m_trace_id m\<rparr>"

definition as_loop :: "unit result \<times> agent \<Rightarrow> loop_result \<times> agent" where
  "as_loop x = (case x of (Inr u, a) \<Rightarrow> (Continue, a) | (Inl e, a) \<Rightarrow> (Raise e, a))"

text \<open>The body of the loop after a message was taken. Payload fields of a control message are
  read at type \<^verbatim>\<open>str\<close>.\<close>

definition loop_message :: "agent_env \<Rightarrow> message \<Rightarrow> agent \<Rightarrow> loop_result \<times> agent" where
  "loop_message env m a =
     (if m_type m \<in> set [''_agency.shutdown'', ''civitas.eval.halt''] then (Break, a)
      else if m_type m = ''_agency.heartbeat'' then
        (if c_has_bus env then as_loop (route env (heartbeat_ack env m a) a) else (Continue, a))
      else if m_type m = ''_agency.suspend'' then
        (if \<not> c_suspend_allowed env then (Continue, a)
         else
           let reason = get_str (m_payload m) ''reason'' '''';
               category = (case category_of (get_str (m_payload m) ''category'' (category_value OTHER)) of
                             Some c \<Rightarrow> c | None \<Rightarrow> OTHER);
               initiated_by = get_str (m_payload m) ''initiated_by'' ''''
           in if a_status a = SUSPENDED then as_loop (update_suspend_reason env reason (Some category) a)
              else (Continue, a\<lparr>a_suspend_requested := True, a_suspend_reason := reason,
                                 a_suspend_category := category, a_suspend_initiated_by := initiated_by\<rparr>))
      else if m_type m = ''_agency.resume'' then
        (let approver = get_str (m_payload m) ''approver'' ''''
         in if approver \<noteq> '''' then as_loop (resume env approver a) else (Continue, a))
      else if m_type m = ''_agency.force_restart'' then
        (if \<not> c_suspend_allowed env then (Continue, a)
         else (Raise ForcedRestart,
               emit_audit env ''agent.force_restart''
                 [(''reason'', JStr (get_str (m_payload m) ''reason'' '''')),
                  (''initiated_by'', JStr (get_str (m_payload m) ''initiated_by'' ''''))]
                 (set_status env CRASHED a)))
      else if m_type m = ''civitas.dynamic.terminated'' then
        as_loop (e_on_child_terminated env (get_str (m_payload m) ''child_name'' '''')
          (get_str (m_payload m) ''reason'' '''') (log_event (EvHook ''on_child_terminated'') a))
      else
        (case dispatch env m (a\<lparr>a_current_message := Some m\<rparr>) of
           (Inl e, a') \<Rightarrow> (Raise e, a')
         | (Inr u, a') \<Rightarrow> (Continue, a'\<lparr>a_current_message := None\<rparr>)))"

text \<open>The \<^verbatim>\<open>finally\<close> block. Its result is the exception that replaces the one in flight.\<close>

definition loop_teardown_stop :: "agent_env \<Rightarrow> unit call" where
  "loop_teardown_stop env x =
     (let crashed = (a_status x = CRASHED);
          x1 = (if crashed then x else set_status env STOPPING x);
          x2 = (if c_has_tracer env then log_event (EvSpan ''civitas.agent.stop'') x1 else x1)
      in andThen (contained (\<lambda>y. e_on_stop env (log_event (EvHook ''on_stop'') y)))
           (lift (\<lambda>y. if crashed then y else set_status env STOPPED y)) x2)"

definition loop_teardown :: "agent_env \<Rightarrow> unit call" where
  "loop_teardown env a =
     andThen (interrupt_out_streams env) (loop_teardown_stop env)
       (fail_local_streams ''agent_stopped'' (a\<lparr>a_current_message := None\<rparr>))"

datatype task_pc = LoopTop | WaitAny | WaitPriority | Done "exn option"

type_synonym task = "task_pc \<times> agent"

definition loop_exit :: "agent_env \<Rightarrow> exn option \<Rightarrow> agent \<Rightarrow> task" where
  "loop_exit env e a =
     (case loop_teardown env a of
        (Inr u, a') \<Rightarrow> (Done e, a')
      | (Inl e', a') \<Rightarrow> (Done (Some e'), a'))"

text \<open>The loop head: the status test and the boundary at which a requested suspension takes
  effect.\<close>

definition loop_top :: "agent_env \<Rightarrow> agent \<Rightarrow> task" where
  "loop_top env a =
     (if a_status a \<noteq> RUNNING \<and> a_status a \<noteq> SUSPENDED then loop_exit env None a
      else
        case (if a_suspend_requested a \<and> a_status a = RUNNING
              then enter_suspended env (a_suspend_reason a) a else (Inr (), a)) of
          (Inl e, a1) \<Rightarrow> loop_exit env (Some e) a1
        | (Inr u, a1) \<Rightarrow>
            let a2 = a1\<lparr>a_suspend_requested := False\<rparr>
            in (if a_status a2 = SUSPENDED then WaitPriority else WaitAny, a2))"

definition loop_get :: "agent_env \<Rightarrow> task_pc \<Rightarrow> agent \<Rightarrow> message option \<times> agent" where
  "loop_get env pc a =
     (case (if pc = WaitPriority then mb_get_priority (a_now a) (a_mailbox a)
            else mb_get (a_now a) (a_mailbox a)) of
        (m, mb) \<Rightarrow> (m, a\<lparr>a_mailbox := mb\<rparr>))"

definition loop_continue :: "agent_env \<Rightarrow> loop_result \<times> agent \<Rightarrow> task" where
  "loop_continue env x =
     (case x of
        (Continue, a) \<Rightarrow> (LoopTop, a)
      | (Break, a) \<Rightarrow> loop_exit env None a
      | (Raise e, a) \<Rightarrow> loop_exit env (Some e) a)"

text \<open>One step of the task; a wait with nothing to take stays where it is.\<close>

fun task_step :: "agent_env \<Rightarrow> task \<Rightarrow> task" where
  "task_step env (LoopTop, a) = loop_top env a"
| "task_step env (Done e, a) = (Done e, a)"
| "task_step env (pc, a) =
     (case loop_get env pc a of
        (None, a') \<Rightarrow> (pc, a')
      | (Some m, a') \<Rightarrow> loop_continue env (loop_message env m a'))"

section \<open>Start and stop\<close>

definition start_nowait :: "agent_env \<Rightarrow> agent \<Rightarrow> agent" where
  "start_nowait env a =
     (set_status env INITIALIZING a)\<lparr>a_running_event := False, a_reached_loop := False,
        a_start_phase := ''restore''\<rparr>"

definition message_loop_start :: "agent_env \<Rightarrow> agent \<Rightarrow> agent" where
  "message_loop_start env a =
     (set_status env (if dget (a_state a) SUSPEND_STATE_KEY \<noteq> None then SUSPENDED else RUNNING) a)
       \<lparr>a_reached_loop := True, a_start_phase := ''running'', a_running_event := True\<rparr>"

definition run :: "agent_env \<Rightarrow> agent \<Rightarrow> task" where
  "run env a =
     (case restore_state env (a\<lparr>a_state := []\<rparr>) of
        (Inl e, a1) \<Rightarrow> (Done (Some e), a1)
      | (Inr u, a1) \<Rightarrow>
          (case e_on_start env (log_event (EvHook ''on_start'')
                  (emit_lifecycle_span env ''civitas.agent.start'' (a1\<lparr>a_start_phase := ''on_start''\<rparr>))) of
             (Inl e, a2) \<Rightarrow>
               if \<not> is_Exception e then (Done (Some e), a2)
               else
                 (case contained (\<lambda>y. e_on_stop env (log_event (EvHook ''on_stop'') y))
                         (set_status env CRASHED a2) of
                    (Inr v, a3) \<Rightarrow> (Done (Some e), a3)
                  | (Inl e', a3) \<Rightarrow> (Done (Some e'), a3))
           | (Inr v, a2) \<Rightarrow> (LoopTop, message_loop_start env a2)))"

text \<open>\<^verbatim>\<open>_stop\<close> up to waiting for the task; \<^const>\<open>None\<close> when the put waits.\<close>

definition stop_request :: "agent_env \<Rightarrow> agent \<Rightarrow> agent option" where
  "stop_request env a =
     (if a_status a \<notin> {RUNNING, INITIALIZING, SUSPENDED} then Some a
      else
        let m = (fresh_message env a)\<lparr>m_type := ''_agency.shutdown'', m_sender := ''_agency'',
                  m_recipient := c_name env, m_priority := 1\<rparr>
        in map_option (\<lambda>mb. (tick_uid a)\<lparr>a_mailbox := mb\<rparr>) (mb_put m (a_mailbox a)))"

section \<open>Dispatch: bounded retry and escalation\<close>

definition handle_calls :: "agent \<Rightarrow> nat" where
  "handle_calls a = length (filter (\<lambda>ev. ev = EvHook ''handle'') (a_events a))"

lemma handle_calls_simps [simp]:
  "handle_calls (log_event ev a) = (if ev = EvHook ''handle'' then Suc (handle_calls a) else handle_calls a)"
  "handle_calls (metric env x a) = handle_calls a"
  "handle_calls (set_status env st a) = handle_calls a"
  "handle_calls (a\<lparr>a_current_message := cm\<rparr>) = handle_calls a"
  by (auto simp: handle_calls_def log_event_def metric_def set_status_def Let_def split: option.split)

lemma status_simps [simp]:
  "a_status (log_event ev a) = a_status a" "a_status (metric env x a) = a_status a"
  "a_status (set_status env st a) = st"
  by (simp_all add: log_event_def metric_def set_status_def Let_def split: option.split)

text \<open>A handler that fails with \<open>e\<close> on its first attempts and succeeds from attempt
  \<open>ok_at\<close> on, under an \<^verbatim>\<open>on_error\<close> that asks for a retry.\<close>

definition flaky :: "agent_env \<Rightarrow> exn \<Rightarrow> int \<Rightarrow> bool" where
  "flaky env e ok_at \<longleftrightarrow>
     is_Exception e \<and> c_handle_timeout env = None
   \<and> (\<forall>m a. e_handle env m a = (0, if m_attempt m < ok_at then Inl e else Inr None, a))
   \<and> (\<forall>x m a. e_on_error env x m a = (Inr RETRY, a))"

lemma flaky_attempt:
  "flaky env e k \<Longrightarrow> m_type m \<noteq> ''civitas.eval.correction'' \<Longrightarrow>
   attempt env m a = (if m_attempt m < k then Inl e else Inr (), log_event (EvHook ''handle'') a)"
  by (simp add: flaky_def attempt_def)

lemma flaky_dispatch:
  assumes "flaky env e k" "m_type m \<noteq> ''civitas.eval.correction''" "a_status a = RUNNING"
    and "m_attempt m \<le> k" "m_attempt m \<le> c_max_retries env" "nat (k - m_attempt m) = n"
  shows "\<exists>a'. dispatch_loop env m a = (if k \<le> c_max_retries env then Inr () else Inl e, a')
      \<and> a_status a' = (if k \<le> c_max_retries env then RUNNING else CRASHED)
      \<and> int (handle_calls a') = int (handle_calls a) + (min k (c_max_retries env) - m_attempt m) + 1"
  using assms(2-)
proof (induction n arbitrary: m a)
  case 0
  then show ?case
    by (subst dispatch_loop.simps) (auto simp: flaky_attempt [OF assms(1)])
next
  case (Suc n)
  let ?m = "m\<lparr>m_attempt := m_attempt m + 1\<rparr>"
  let ?a = "(metric env ''agent_error'' (log_event (EvHook ''handle'') a))"
  let ?a3 = "(log_event (EvHook ''on_error'') ?a)\<lparr>a_current_message := Some ?m\<rparr>"
  let ?a4 = "if c_has_tracer env then log_event (EvSpan ''civitas.agent.retry'') ?a3 else ?a3"
  from Suc.prems have lt: "m_attempt m < k" by simp
  have e: "is_Exception e" and oe: "e_on_error env x y z = (Inr RETRY, z)" for x y z
    using assms(1) by (auto simp: flaky_def)
  have step: "dispatch_loop env m a =
     (if m_attempt m + 1 > c_max_retries env then (Inl e, set_status env CRASHED ?a3)
      else dispatch_loop env ?m ?a4)"
    using Suc.prems lt e
    by (subst dispatch_loop.simps) (simp add: flaky_attempt [OF assms(1)] oe Let_def)
  show ?case
  proof (cases "m_attempt m + 1 > c_max_retries env")
    case True
    with step Suc.prems lt show ?thesis by (auto simp: min_def)
  next
    case False
    have "\<exists>a'. dispatch_loop env ?m ?a4 = (if k \<le> c_max_retries env then Inr () else Inl e, a')
      \<and> a_status a' = (if k \<le> c_max_retries env then RUNNING else CRASHED)
      \<and> int (handle_calls a') = int (handle_calls ?a4) + (min k (c_max_retries env) - m_attempt ?m) + 1"
      by (rule Suc.IH) (use Suc.prems lt False in auto)
    with step False show ?thesis by auto
  qed
qed

text \<open>C9. Bounded in-place retry: when the handler keeps failing with an exception and
  \<^verbatim>\<open>on_error\<close> answers \<^verbatim>\<open>RETRY\<close>, the delivery succeeds exactly when the handler recovers
  within \<open>max_retries\<close> attempts; otherwise it ends with the handler's own exception and status
  \<^verbatim>\<open>CRASHED\<close>. Either way the number of calls of \<^verbatim>\<open>handle()\<close> is exact: at most
  \<open>max_retries + 1\<close> for a message that arrives with attempt 0.\<close>

theorem dispatch_retry_bounded:
  assumes "flaky env e ok_at" and "m_type m \<noteq> ''civitas.eval.correction''" and "a_status a = RUNNING"
    and "m_attempt m \<le> ok_at" and "m_attempt m \<le> c_max_retries env"
  shows "\<exists>a'. dispatch env m a = (if ok_at \<le> c_max_retries env then Inr () else Inl e, a')
      \<and> a_status a' = (if ok_at \<le> c_max_retries env then RUNNING else CRASHED)
      \<and> int (handle_calls a') =
          int (handle_calls a) + (min ok_at (c_max_retries env) - m_attempt m) + 1"
  using flaky_dispatch [OF assms refl] by (auto simp: dispatch_def)

theorem dispatch_retry_bounded_witness:
  "\<exists>a'. dispatch ((base_env ''w'')\<lparr>e_handle := \<lambda>m a. (0, if m_attempt m < 9 then Inl TypeError else Inr None, a),
           e_on_error := \<lambda>x m a. (Inr RETRY, a)\<rparr>) (default_message ''m'' 0)
           ((new_agent (base_env ''w'') None None 0)\<lparr>a_status := RUNNING\<rparr>) = (Inl TypeError, a')
      \<and> handle_calls a' = 4"
proof -
  let ?env = "(base_env ''w'')\<lparr>e_handle := \<lambda>m a. (0, if m_attempt m < 9 then Inl TypeError else Inr None, a),
           e_on_error := \<lambda>x m a. (Inr RETRY, a)\<rparr>"
  have "flaky ?env TypeError 9" by (simp add: flaky_def base_env_def is_Exception_def)
  from dispatch_retry_bounded [OF this, of "default_message ''m'' 0"
      "(new_agent (base_env ''w'') None None 0)\<lparr>a_status := RUNNING\<rparr>"]
  show ?thesis by (auto simp: default_message_def base_env_def new_agent_def handle_calls_def)
qed

text \<open>An exception leaves a dispatch only as a visible crash: when \<^verbatim>\<open>on_error\<close> itself
  does not raise, a dispatch that raises anything but a cancellation has set the status to
  \<^verbatim>\<open>CRASHED\<close>. Skipped and stopped deliveries return normally.\<close>

theorem dispatch_raise_is_crash:
  assumes "\<And>x m b. \<exists>action b'. e_on_error env x m b = (Inr action, b')"
    and "dispatch env m a = (Inl e, a')" and "e \<noteq> CancelledError"
  shows "a_status a' = CRASHED"
proof -
  have "dispatch_loop env m a = (Inl e, b) \<Longrightarrow> a_status b = CRASHED" for b
    using assms(1,3)
  proof (induction env m a rule: dispatch_loop.induct)
    case (1 env m a)
    obtain r a1 where at: "attempt env m a = (r, a1)" by fastforce
    show ?case
    proof (cases r)
      case (Inr u)
      with 1(2) at show ?thesis by (simp add: dispatch_loop.simps [of env m a])
    next
      case (Inl x)
      show ?thesis
      proof (cases "is_Exception x")
        case False
        with 1(2,4) at Inl show ?thesis
          by (simp add: dispatch_loop.simps [of env m a] is_Exception_def)
      next
        case True
        obtain act a2 where oe: "e_on_error env x m
            (log_event (EvHook ''on_error'') (metric env ''agent_error'' a1)) = (Inr act, a2)"
          using 1(3) by blast
        show ?thesis
          using 1 at Inl True oe
          by (cases act) (auto simp: dispatch_loop.simps [of env m a] apply_error_action_def Let_def
              split: if_splits)
      qed
    qed
  qed
  with assms(2) show ?thesis by (auto simp: dispatch_def split: prod.splits)
qed

theorem dispatch_raise_is_crash_witness:
  "a_status (snd (dispatch ((base_env ''w'')\<lparr>e_handle := \<lambda>m a. (0, Inl ValueError, a)\<rparr>)
      (default_message ''m'' 0) (new_agent (base_env ''w'') None None 0))) = CRASHED"
proof -
  let ?env = "(base_env ''w'')\<lparr>e_handle := \<lambda>m a. (0, Inl ValueError, a)\<rparr>"
  let ?r = "dispatch ?env (default_message ''m'' 0) (new_agent (base_env ''w'') None None 0)"
  have oe: "\<exists>action b'. e_on_error ?env x m b = (Inr action, b')" for x m b
    by (simp add: base_env_def)
  have "fst ?r = Inl ValueError"
    unfolding dispatch_def
    by (subst dispatch_loop.simps) (simp add: attempt_def default_message_def
        base_env_def is_Exception_def apply_error_action_def)
  then have "?r = (Inl ValueError, snd ?r)" by (metis prod.collapse)
  from dispatch_raise_is_crash [OF oe this] show ?thesis by simp
qed

section \<open>Durable suspension\<close>

text \<open>A store that keeps the last checkpoint, and hooks that leave the framework's own fields
  and the agent's saved state alone.\<close>

definition reliable_store :: "agent_env \<Rightarrow> bool" where
  "reliable_store env \<longleftrightarrow> c_has_store env
     \<and> (\<forall>st a. e_store_set env st a = (Inr (), a\<lparr>a_store := Some st\<rparr>))
     \<and> (\<forall>a. e_store_get env a = (Inr (a_store a), a))"

definition same_core :: "agent \<Rightarrow> agent \<Rightarrow> bool" where
  "same_core a b \<longleftrightarrow> a_state b = a_state a \<and> a_status b = a_status a \<and> a_store b = a_store a
     \<and> a_suspend_requested b = a_suspend_requested a \<and> a_suspend_category b = a_suspend_category a"

definition plain_hooks :: "agent_env \<Rightarrow> bool" where
  "plain_hooks env \<longleftrightarrow>
     (\<forall>r a. \<exists>x b. e_on_suspend env r a = (x, b) \<and> same_core a b \<and> x \<noteq> Inl CancelledError)
   \<and> (\<forall>r a. \<exists>x b. e_on_resume env r a = (x, b) \<and> same_core a b \<and> x \<noteq> Inl CancelledError)
   \<and> (\<forall>a. \<exists>b. e_on_start env a = (Inr (), b) \<and> same_core a b)"

lemma same_core_refl [simp]: "same_core a a"
  by (simp add: same_core_def)

lemma same_core_trans: "same_core a b \<Longrightarrow> same_core b c \<Longrightarrow> same_core a c"
  by (simp add: same_core_def)

lemma same_core_log [simp]:
  "same_core a (log_event ev a)" "same_core a (emit_audit env x d a)"
  "same_core a (emit_lifecycle_span env x a)" "same_core a (a\<lparr>a_start_phase := p\<rparr>)"
  by (simp_all add: same_core_def log_event_def emit_audit_def emit_lifecycle_span_def)

lemma contained_same_core:
  assumes "\<exists>x b. f a = (x, b) \<and> same_core a0 b \<and> x \<noteq> Inl CancelledError"
  obtains b where "contained f a = (Inr (), b)" "same_core a0 b"
proof -
  obtain x b where xb: "f a = (x, b)" "same_core a0 b" "x \<noteq> Inl CancelledError"
    using assms by blast
  then have "contained f a = (Inr (), b)"
    by (cases x) (auto simp: contained_def is_Exception_def)
  then show thesis using xb(2) that by blast
qed

lemma hook_suspend:
  assumes "plain_hooks env"
  obtains b where "contained (\<lambda>x. e_on_suspend env r (log_event ev x)) a = (Inr (), b)" "same_core a b"
proof (rule contained_same_core [of "\<lambda>x. e_on_suspend env r (log_event ev x)" a a])
  show "\<exists>x b. e_on_suspend env r (log_event ev a) = (x, b) \<and> same_core a b \<and> x \<noteq> Inl CancelledError"
    using assms same_core_trans [OF same_core_log(1)] unfolding plain_hooks_def by blast
qed (rule that)

lemma hook_resume:
  assumes "plain_hooks env"
  obtains b where "contained (\<lambda>x. e_on_resume env r (log_event ev x)) a = (Inr (), b)" "same_core a b"
proof (rule contained_same_core [of "\<lambda>x. e_on_resume env r (log_event ev x)" a a])
  show "\<exists>x b. e_on_resume env r (log_event ev a) = (x, b) \<and> same_core a b \<and> x \<noteq> Inl CancelledError"
    using assms same_core_trans [OF same_core_log(1)] unfolding plain_hooks_def by blast
qed (rule that)

lemma checkpoint_saves:
  "reliable_store env \<Longrightarrow> contained (checkpoint env) a = (Inr (), a\<lparr>a_store := Some (a_state a)\<rparr>)"
  by (simp add: reliable_store_def checkpoint_def contained_def)

lemma enter_suspended_saves:
  assumes "reliable_store env" "plain_hooks env"
  shows "\<exists>a'. enter_suspended env reason a = (Inr (), a') \<and> a_status a' = SUSPENDED
      \<and> a_store a' = Some (dput SUSPEND_STATE_KEY
            (suspend_marker reason (a_now a) (a_suspend_category a)) (a_state a))"
proof -
  let ?a2 = "(set_status env SUSPENDED a)\<lparr>a_state := dput SUSPEND_STATE_KEY
       (suspend_marker reason (a_now a) (a_suspend_category a)) (a_state a)\<rparr>"
  obtain b where b: "contained (\<lambda>x. e_on_suspend env reason (log_event (EvHook ''on_suspend'') x)) ?a2 = (Inr (), b)"
    "same_core ?a2 b" by (rule hook_suspend [OF assms(2)])
  have eq: "a_now (set_status env SUSPENDED a) = a_now a"
    "a_suspend_category (set_status env SUSPENDED a) = a_suspend_category a"
    "a_state (set_status env SUSPENDED a) = a_state a"
    by (simp_all add: set_status_def Let_def split: option.split)
  obtain f where f: "enter_suspended env reason a = (Inr (), f (b\<lparr>a_store := Some (a_state b)\<rparr>))"
      "\<And>x. same_core x (f x)"
  proof
    let ?f = "\<lambda>x. emit_audit env ''agent.suspend''
                [(''reason'', JStr reason), (''category'', JStr (category_value (a_suspend_category x))),
                 (''initiated_by'', JStr (a_suspend_initiated_by x))]
                (emit_lifecycle_span env ''civitas.agent.suspend'' x)"
    show "enter_suspended env reason a = (Inr (), ?f (b\<lparr>a_store := Some (a_state b)\<rparr>))"
      using b(1) by (simp add: enter_suspended_def Let_def eq andThen_def checkpoint_saves [OF assms(1)] lift_def)
    show "same_core x (?f x)" for x
      by (rule same_core_trans [OF same_core_log(3) same_core_log(2)])
  qed
  with f(2) [of "b\<lparr>a_store := Some (a_state b)\<rparr>"] b(2) show ?thesis
    by (auto simp: same_core_def)
qed

lemma resume_saves:
  assumes "reliable_store env" "plain_hooks env" "approver \<noteq> ''''" "a_status a = SUSPENDED"
  shows "\<exists>a'. resume env approver a = (Inr (), a') \<and> a_status a' = RUNNING
      \<and> a_store a' = Some (dpop SUSPEND_STATE_KEY (a_state a)) \<and> \<not> a_suspend_requested a'"
proof -
  let ?a2 = "set_status env RUNNING (a\<lparr>a_suspend_requested := False, a_state := dpop SUSPEND_STATE_KEY (a_state a)\<rparr>)"
  let ?a3 = "?a2\<lparr>a_store := Some (a_state ?a2)\<rparr>"
  obtain b where b: "contained (\<lambda>x. e_on_resume env approver (log_event (EvHook ''on_resume'') x)) ?a3 = (Inr (), b)"
    "same_core ?a3 b" by (rule hook_resume [OF assms(2)])
  have st: "a_state ?a2 = dpop SUSPEND_STATE_KEY (a_state a)" "\<not> a_suspend_requested ?a2"
    by (simp_all add: set_status_def Let_def split: option.split)
  let ?a' = "emit_audit env ''agent.resume'' [(''approver'', JStr approver)]
     (emit_lifecycle_span env ''civitas.agent.resume'' b)"
  have "resume env approver a = (Inr (), ?a')"
    using assms(3,4) b(1)
    by (simp add: resume_def Let_def andThen_def checkpoint_saves [OF assms(1)] lift_def)
  moreover have "same_core b ?a'"
    by (rule same_core_trans [OF same_core_log(3) same_core_log(2)])
  ultimately show ?thesis using b(2) st by (auto simp: same_core_def)
qed

text \<open>A fresh incarnation of the agent on the same store.\<close>

lemma run_restores:
  assumes "reliable_store env" "plain_hooks env" "a_store a = Some saved"
  shows "\<exists>a'. run env a = (LoopTop, a') \<and> a_state a' = saved
      \<and> a_status a' = (if dget saved SUSPEND_STATE_KEY \<noteq> None then SUSPENDED else RUNNING)
      \<and> a_suspend_requested a' = a_suspend_requested a"
proof -
  let ?a1 = "a\<lparr>a_state := saved\<rparr>"
  let ?a2 = "log_event (EvHook ''on_start'') (emit_lifecycle_span env ''civitas.agent.start''
     (?a1\<lparr>a_start_phase := ''on_start''\<rparr>))"
  obtain b where b: "e_on_start env ?a2 = (Inr (), b)" "same_core ?a2 b"
    using assms(2) unfolding plain_hooks_def by blast
  have core: "same_core ?a1 b"
    using same_core_trans [OF same_core_log(4) same_core_trans [OF same_core_log(3)
        same_core_trans [OF same_core_log(1) b(2)]]] .
  have "restore_state env (a\<lparr>a_state := []\<rparr>) = (Inr (), ?a1)"
    using assms(1,3) by (simp add: restore_state_def reliable_store_def)
  then have "run env a = (LoopTop, message_loop_start env b)"
    using b(1) by (simp add: run_def)
  moreover have "a_suspend_requested (message_loop_start env b) = a_suspend_requested b"
    "a_state (message_loop_start env b) = a_state b"
    "a_status (message_loop_start env b) =
       (if dget (a_state b) SUSPEND_STATE_KEY \<noteq> None then SUSPENDED else RUNNING)"
    by (simp_all add: message_loop_start_def set_status_def Let_def split: option.split)
  ultimately show ?thesis using core by (auto simp: same_core_def)
qed

text \<open>C10. Durable suspension: on a store that keeps checkpoints, an agent whose suspension was
  requested is suspended at the next loop boundary, takes control messages only, and stays
  suspended across a restart: a fresh incarnation on the same store comes up \<^verbatim>\<open>SUSPENDED\<close>
  with the category that was requested, and waits for control messages only. Once
  an approver has resumed it, the next incarnation comes up \<^verbatim>\<open>RUNNING\<close>.\<close>

theorem suspension_survives_restart:
  assumes "reliable_store env" and "plain_hooks env"
    and "a_status a = RUNNING" and "a_suspend_requested a" and "approver \<noteq> ''''"
    and fresh: "\<And>store. \<not> a_suspend_requested (fresh store) \<and> a_store (fresh store) = store"
  shows "\<exists>a1 a2 a3 a4.
      loop_top env a = (WaitPriority, a1)
    \<and> run env (fresh (a_store a1)) = (LoopTop, a2) \<and> a_status a2 = SUSPENDED
    \<and> suspend_category_property a2 = category_value (a_suspend_category a)
    \<and> loop_top env a2 = (WaitPriority, a2)
    \<and> resume env approver a2 = (Inr (), a3) \<and> a_status a3 = RUNNING
    \<and> run env (fresh (a_store a3)) = (LoopTop, a4) \<and> a_status a4 = RUNNING"
proof -
  let ?saved = "dput SUSPEND_STATE_KEY
            (suspend_marker (a_suspend_reason a) (a_now a) (a_suspend_category a)) (a_state a)"
  obtain a0 where a0: "enter_suspended env (a_suspend_reason a) a = (Inr (), a0)"
    "a_status a0 = SUSPENDED" "a_store a0 = Some ?saved"
    using enter_suspended_saves [OF assms(1,2), of "a_suspend_reason a" a] by auto
  let ?a1 = "a0\<lparr>a_suspend_requested := False\<rparr>"
  have top: "loop_top env a = (WaitPriority, ?a1)"
    using assms(3,4) a0 by (simp add: loop_top_def Let_def)
  have s1: "a_store (fresh (a_store ?a1)) = Some ?saved" using fresh a0(3) by simp
  obtain a2 where a2: "run env (fresh (a_store ?a1)) = (LoopTop, a2)" "a_state a2 = ?saved"
    "a_status a2 = SUSPENDED" "\<not> a_suspend_requested a2"
    using run_restores [OF assms(1,2) s1] fresh by (auto simp: dict_simps)
  have "a2\<lparr>a_suspend_requested := False\<rparr> = a2" using a2(4) by simp
  then have top2: "loop_top env a2 = (WaitPriority, a2)"
    using a2 by (simp add: loop_top_def Let_def)
  have cat: "suspend_category_property a2 = category_value (a_suspend_category a)"
    using a2(2) by (simp add: suspend_category_property_def dict_simps suspend_marker_def get_str_def)
  obtain a3 where a3: "resume env approver a2 = (Inr (), a3)" "a_status a3 = RUNNING"
    "a_store a3 = Some (dpop SUSPEND_STATE_KEY ?saved)"
    using resume_saves [OF assms(1,2,5) a2(3)] a2(2) by auto
  have s3: "a_store (fresh (a_store a3)) = Some (dpop SUSPEND_STATE_KEY ?saved)" using fresh a3(3) by simp
  obtain a4 where "run env (fresh (a_store a3)) = (LoopTop, a4)" "a_status a4 = RUNNING"
    using run_restores [OF assms(1,2) s3] by (auto simp: dict_simps)
  with top a2 top2 cat a3 show ?thesis by blast
qed

theorem suspension_survives_restart_witness:
  "\<exists>a1 a2. loop_top (base_env ''w'') (suspend_for_approval ''cost''
        ((new_agent (base_env ''w'') None None 0)\<lparr>a_status := RUNNING\<rparr>)) = (WaitPriority, a1)
    \<and> run (base_env ''w'') (new_agent (base_env ''w'') None (a_store a1) 1) = (LoopTop, a2)
    \<and> a_status a2 = SUSPENDED \<and> suspend_category_property a2 = ''hitl_approval''"
proof -
  let ?a = "suspend_for_approval ''cost'' ((new_agent (base_env ''w'') None None 0)\<lparr>a_status := RUNNING\<rparr>)"
  have "reliable_store (base_env ''w'')" "plain_hooks (base_env ''w'')"
    by (simp_all add: reliable_store_def plain_hooks_def base_env_def)
  moreover have "a_status ?a = RUNNING" "a_suspend_requested ?a"
    "category_value (a_suspend_category ?a) = ''hitl_approval''"
    by (simp_all add: suspend_for_approval_def suspend_def)
  ultimately show ?thesis
    using suspension_survives_restart [of "base_env ''w''" ?a "''ops''"
        "\<lambda>store. new_agent (base_env ''w'') None store 1"]
    by (fastforce simp: new_agent_def)
qed

section \<open>Status and the registry's suspension flag\<close>

text \<open>\<open>flag_ok\<close>: the registry reports the agent as suspended exactly when its status is
  \<^verbatim>\<open>SUSPENDED\<close>. Hooks are assumed to keep it (they may use every public method).\<close>

definition flag_ok :: "agent_env \<Rightarrow> agent \<Rightarrow> bool" where
  "flag_ok env a \<longleftrightarrow>
     (case a_registry a of
        None \<Rightarrow> True
      | Some r \<Rightarrow> is_suspended (c_name env) r \<longleftrightarrow> a_status a = SUSPENDED)"

definition keeps :: "(agent \<Rightarrow> bool) \<Rightarrow> 'a call \<Rightarrow> bool" where
  "keeps P f \<longleftrightarrow> (\<forall>a. P a \<longrightarrow> P (snd (f a)))"

definition hooks_keep :: "(agent \<Rightarrow> bool) \<Rightarrow> agent_env \<Rightarrow> bool" where
  "hooks_keep P env \<longleftrightarrow>
     keeps P (e_on_start env) \<and> keeps P (e_on_stop env)
   \<and> (\<forall>m a. P a \<longrightarrow> P (snd (snd (e_handle env m a))))
   \<and> (\<forall>e m. keeps P (e_on_error env e m)) \<and> (\<forall>r. keeps P (e_on_suspend env r))
   \<and> (\<forall>r. keeps P (e_on_resume env r)) \<and> (\<forall>m. keeps P (e_on_correction env m))
   \<and> (\<forall>n r. keeps P (e_on_child_terminated env n r)) \<and> (\<forall>m. keeps P (e_route env m))
   \<and> keeps P (e_store_get env) \<and> (\<forall>st. keeps P (e_store_set env st))"

named_theorems flag_intros \<open>framework code keeps the suspension flag\<close>

lemma flag_ok_set_status [simp]: "flag_ok env (set_status env st a)"
  by (simp add: flag_ok_def set_status_def Let_def split: option.split)

lemma flag_ok_updates [simp]:
  "flag_ok env (a\<lparr>a_state := s\<rparr>) = flag_ok env a" "flag_ok env (a\<lparr>a_current_message := c\<rparr>) = flag_ok env a"
  "flag_ok env (a\<lparr>a_suspend_requested := b\<rparr>) = flag_ok env a" "flag_ok env (a\<lparr>a_mailbox := mb\<rparr>) = flag_ok env a"
  "flag_ok env (a\<lparr>a_pending_streams := ps\<rparr>) = flag_ok env a" "flag_ok env (a\<lparr>a_out_streams := os\<rparr>) = flag_ok env a"
  "flag_ok env (a\<lparr>a_start_phase := p\<rparr>) = flag_ok env a" "flag_ok env (a\<lparr>a_reached_loop := b\<rparr>) = flag_ok env a"
  "flag_ok env (a\<lparr>a_running_event := b\<rparr>) = flag_ok env a" "flag_ok env (a\<lparr>a_suspend_reason := s'\<rparr>) = flag_ok env a"
  "flag_ok env (a\<lparr>a_suspend_category := sc\<rparr>) = flag_ok env a" "flag_ok env (a\<lparr>a_suspend_initiated_by := s'\<rparr>) = flag_ok env a"
  "flag_ok env (a\<lparr>a_store := st\<rparr>) = flag_ok env a"
  "flag_ok env (a\<lparr>a_uid := u\<rparr>) = flag_ok env a" "flag_ok env (a\<lparr>a_now := t\<rparr>) = flag_ok env a"
  "flag_ok env (log_event ev a) = flag_ok env a" "flag_ok env (metric env' x a) = flag_ok env a"
  "flag_ok env (emit_audit env' x d a) = flag_ok env a" "flag_ok env (emit_lifecycle_span env' x a) = flag_ok env a"
  "flag_ok env (tick_uid a) = flag_ok env a" "flag_ok env (fail_local_streams r a) = flag_ok env a"
  by (simp_all add: flag_ok_def log_event_def metric_def emit_audit_def emit_lifecycle_span_def
      tick_uid_def fail_local_streams_def split: option.split)

lemma keepsD: "keeps P f \<Longrightarrow> P a \<Longrightarrow> P (snd (f a))"
  by (simp add: keeps_def)

lemma keeps_eq: "keeps P f \<Longrightarrow> P a \<Longrightarrow> f a = (r, a') \<Longrightarrow> P a'"
  by (metis keepsD snd_conv)

lemma keeps_andThen: "keeps P f \<Longrightarrow> keeps P g \<Longrightarrow> keeps P (andThen f g)"
  by (auto simp: keeps_def andThen_def split: prod.splits sum.splits)

lemma keeps_contained: "keeps P f \<Longrightarrow> keeps P (contained f)"
  by (auto simp: keeps_def contained_def split: prod.splits sum.splits)

lemma keeps_lift: "(\<And>a. P a \<Longrightarrow> P (f a)) \<Longrightarrow> keeps P (lift f)"
  by (simp add: keeps_def lift_def)

lemmas keeps_intros = keeps_andThen keeps_contained keeps_lift

text \<open>The contract of the hooks, and what the framework's own code makes of it.\<close>

locale flag_keeping_hooks =
  fixes env :: agent_env
  assumes hooks: "hooks_keep (flag_ok env) env"
begin

lemma route_keeps: "keeps (flag_ok env) (route env m)"
  using hooks by (auto simp: keeps_def route_def hooks_keep_def)

lemma checkpoint_keeps: "keeps (flag_ok env) (checkpoint env)"
  using hooks by (auto simp: keeps_def checkpoint_def hooks_keep_def)

lemma hook_keeps:
  "keeps (flag_ok env) (\<lambda>x. e_on_suspend env r (log_event ev x))"
  "keeps (flag_ok env) (\<lambda>x. e_on_resume env r (log_event ev x))"
  "keeps (flag_ok env) (\<lambda>x. e_on_stop env (log_event ev x))"
  using hooks by (auto simp: keeps_def hooks_keep_def)

lemma resume_keeps: "keeps (flag_ok env) (resume env approver)"
proof -
  have "keeps (flag_ok env) (andThen (contained (checkpoint env))
     (andThen (contained (\<lambda>x. e_on_resume env approver (log_event (EvHook ''on_resume'') x)))
       (lift (\<lambda>x. emit_audit env ''agent.resume'' [(''approver'', JStr approver)]
          (emit_lifecycle_span env ''civitas.agent.resume'' x)))))"
    by (intro keeps_intros checkpoint_keeps hook_keeps) simp
  then show ?thesis by (auto simp: keeps_def resume_def Let_def)
qed

lemma enter_suspended_keeps: "keeps (flag_ok env) (enter_suspended env reason)"
proof -
  have "keeps (flag_ok env) (andThen (contained (\<lambda>x. e_on_suspend env reason (log_event (EvHook ''on_suspend'') x)))
           (andThen (contained (checkpoint env))
             (lift (\<lambda>x. emit_audit env ''agent.suspend''
                [(''reason'', JStr reason), (''category'', JStr (category_value (a_suspend_category x))),
                 (''initiated_by'', JStr (a_suspend_initiated_by x))]
                (emit_lifecycle_span env ''civitas.agent.suspend'' x)))))"
    by (intro keeps_intros checkpoint_keeps hook_keeps) simp
  then show ?thesis by (auto simp: keeps_def enter_suspended_def Let_def)
qed

lemma update_suspend_reason_keeps: "keeps (flag_ok env) (update_suspend_reason env reason c)"
  unfolding keeps_def update_suspend_reason_def
  by (auto simp: Let_def intro!: keepsD [OF keeps_contained [OF checkpoint_keeps]]
      split: option.splits json.splits)

lemma attempt_keeps:
  assumes "flag_ok env a" "attempt env m a = (r, a')"
  shows "flag_ok env a'"
proof (cases "m_type m = ''civitas.eval.correction''")
  case True
  have "keeps (flag_ok env) (e_on_correction env m)" using hooks by (simp add: hooks_keep_def)
  from keeps_eq [OF this, of "log_event (EvHook ''on_correction'') a" r a'] True assms
  show ?thesis by (simp add: attempt_def)
next
  case False
  obtain d x a1 where h: "e_handle env m (log_event (EvHook ''handle'') a) = (d, x, a1)"
    by (rule prod_cases3)
  have "flag_ok env (snd (snd (e_handle env m (log_event (EvHook ''handle'') a))))"
    using hooks assms(1) by (simp add: hooks_keep_def)
  then have a1: "flag_ok env a1" by (simp add: h)
  have "a' = a1 \<or> (\<exists>out. route env out a1 = (r, a'))"
    using assms(2) False h
    by (auto simp: attempt_def Let_def split: sum.splits option.splits if_splits)
  with a1 show ?thesis using keeps_eq [OF route_keeps a1] by auto
qed

lemma dispatch_loop_keeps: "flag_ok env a \<Longrightarrow> flag_ok env (snd (dispatch_loop env m a))"
proof (induction "nat (c_max_retries env + 1 - m_attempt m)" arbitrary: m a rule: less_induct)
  case less
  obtain r a1 where at: "attempt env m a = (r, a1)" by fastforce
  from attempt_keeps [OF less.prems at] have a1: "flag_ok env a1" .
  show ?case
  proof (cases r)
    case (Inr u)
    with at a1 show ?thesis by (simp add: dispatch_loop.simps [of env m])
  next
    case (Inl e)
    obtain s a2 where oe: "e_on_error env e m
        (log_event (EvHook ''on_error'') (metric env ''agent_error'' a1)) = (s, a2)" by fastforce
    have "keeps (flag_ok env) (e_on_error env e m)" using hooks by (simp add: hooks_keep_def)
    from keeps_eq [OF this _ oe] a1 have a2: "flag_ok env a2" by simp
    let ?m = "m\<lparr>m_attempt := m_attempt m + 1\<rparr>" and ?a3 = "a2\<lparr>a_current_message := Some (m\<lparr>m_attempt := m_attempt m + 1\<rparr>)\<rparr>"
    have IH: "m_attempt m + 1 \<le> c_max_retries env \<Longrightarrow> flag_ok env b \<Longrightarrow>
        flag_ok env (snd (dispatch_loop env ?m b))" for b
      by (rule less.hyps) auto
    show ?thesis
      using at Inl oe a1 a2 IH [of ?a3] IH [of "log_event (EvSpan ''civitas.agent.retry'') ?a3"]
      by (cases s) (auto simp: dispatch_loop.simps [of env m] apply_error_action_def Let_def
          split: error_action.split)
  qed
qed

lemma dispatch_keeps: "keeps (flag_ok env) (dispatch env m)"
  using dispatch_loop_keeps by (auto simp: keeps_def dispatch_def split: prod.splits) (metis snd_conv)

lemma as_loop_keeps: "flag_ok env (snd x) \<Longrightarrow> flag_ok env (snd (as_loop x))"
  by (auto simp: as_loop_def split: prod.splits sum.splits)

lemma loop_message_keeps: "flag_ok env a \<Longrightarrow> flag_ok env (snd (loop_message env m a))"
proof -
  assume a: "flag_ok env a"
  have t: "flag_ok env (snd (e_on_child_terminated env n r (log_event ev a)))" for n r ev
    using hooks a by (auto simp: hooks_keep_def keeps_def)
  obtain r b where d: "dispatch env m (a\<lparr>a_current_message := Some m\<rparr>) = (r, b)" by fastforce
  have b: "flag_ok env b"
    by (rule keeps_eq [OF dispatch_keeps _ d]) (simp add: a)
  show ?thesis
    unfolding loop_message_def d
    using a b t keepsD [OF route_keeps a] keepsD [OF resume_keeps a] keepsD [OF update_suspend_reason_keeps a]
    by (auto simp: as_loop_keeps Let_def split: sum.splits)
qed

lemma interrupt_each_keeps: "keeps (flag_ok env) (interrupt_each env xs)"
proof (induction xs)
  case Nil
  show ?case by (simp add: keeps_def)
next
  case (Cons x xs)
  obtain cid os where x: "x = (cid, os)" by (cases x) auto
  have "keeps (flag_ok env) (andThen (contained (route env m)) (interrupt_each env xs))" for m
    by (intro keeps_intros route_keeps Cons.IH)
  with Cons.IH x show ?case by (auto simp: keeps_def)
qed

lemma interrupt_out_streams_keeps: "keeps (flag_ok env) (interrupt_out_streams env)"
  using keepsD [OF keeps_andThen [OF interrupt_each_keeps keeps_lift]]
  by (auto simp: keeps_def interrupt_out_streams_def)

lemma loop_teardown_stop_keeps: "keeps (flag_ok env) (loop_teardown_stop env)"
proof -
  have "keeps (flag_ok env) (andThen (contained (\<lambda>y. e_on_stop env (log_event (EvHook ''on_stop'') y)))
             (lift (\<lambda>y. if c then y else set_status env STOPPED y)))" for c
    by (intro keeps_intros hook_keeps) simp
  from keepsD [OF this] show ?thesis by (auto simp: keeps_def loop_teardown_stop_def Let_def)
qed

lemma loop_teardown_keeps: "keeps (flag_ok env) (loop_teardown env)"
  using keepsD [OF keeps_andThen [OF interrupt_out_streams_keeps loop_teardown_stop_keeps]]
  by (simp add: keeps_def loop_teardown_def)

lemma loop_exit_keeps: "flag_ok env a \<Longrightarrow> flag_ok env (snd (loop_exit env e a))"
  using keepsD [OF loop_teardown_keeps] by (auto simp: loop_exit_def split: prod.splits sum.splits) (metis snd_conv)+


lemma loop_top_keeps: "flag_ok env a \<Longrightarrow> flag_ok env (snd (loop_top env a))"
proof -
  assume a: "flag_ok env a"
  obtain r b where e: "enter_suspended env (a_suspend_reason a) a = (r, b)" by fastforce
  from keeps_eq [OF enter_suspended_keeps a e] have b: "flag_ok env b" .
  show ?thesis
    using a b by (auto simp: loop_top_def e loop_exit_keeps Let_def split: sum.splits)
qed

lemma loop_continue_keeps: "flag_ok env (snd x) \<Longrightarrow> flag_ok env (snd (loop_continue env x))"
  by (auto simp: loop_continue_def loop_exit_keeps split: prod.splits loop_result.splits)

lemma task_step_keeps: "flag_ok env (snd t) \<Longrightarrow> flag_ok env (snd (task_step env t))"
proof (cases t)
  case (Pair pc a)
  assume "flag_ok env (snd t)"
  with Pair have a: "flag_ok env a" by simp
  obtain m b where g: "loop_get env pc a = (m, b)" by fastforce
  with a have b: "flag_ok env b" by (auto simp: loop_get_def split: prod.splits)
  then have "flag_ok env (snd (loop_continue env (loop_message env x b)))" for x
    by (intro loop_continue_keeps loop_message_keeps)
  with a b g Pair show ?thesis
    by (cases pc) (auto simp: loop_top_keeps split: option.splits)
qed

end

text \<open>The base class satisfies the contract.\<close>

interpretation base_hooks: flag_keeping_hooks "base_env name" for name
  by unfold_locales (simp add: hooks_keep_def base_env_def keeps_def)

text \<open>
  The agent as other code sees it: its own task advances, messages arrive, somebody calls
  \<^verbatim>\<open>suspend\<close> or \<^verbatim>\<open>resume\<close>, time passes, and a task that ended is started again.
\<close>

inductive agent_step :: "(json \<Rightarrow> string) \<Rightarrow> agent_env \<Rightarrow> task \<Rightarrow> task \<Rightarrow> bool"
  for py_str :: "json \<Rightarrow> string" and env :: agent_env
where
  Advance: "agent_step py_str env t (task_step env t)"
| Receive: "receive py_str m a = Some a' \<Longrightarrow> agent_step py_str env (pc, a) (pc, a')"
| Suspend: "agent_step py_str env (pc, a) (pc, suspend reason category a)"
| Resume: "agent_step py_str env (pc, a) (pc, snd (resume env approver a))"
| Stop: "stop_request env a = Some a' \<Longrightarrow> agent_step py_str env (pc, a) (pc, a')"
| Tick: "0 \<le> d \<Longrightarrow> agent_step py_str env (pc, a) (pc, a\<lparr>a_now := a_now a + d\<rparr>)"
| Start: "agent_step py_str env (Done e, a) (run env (start_nowait env a))"

inductive_cases agent_stepE: "agent_step py_str env t t'"

lemma receive_keeps: "receive py_str m a = Some a' \<Longrightarrow> flag_ok env a \<Longrightarrow> flag_ok env a'"
  by (auto simp: receive_def consume_stream_frame_def split: option.splits prod.splits if_splits)

lemma start_keeps:
  assumes "hooks_keep (flag_ok env) env"
  shows "flag_ok env (snd (run env (start_nowait env a)))"
proof -
  let ?a0 = "(start_nowait env a)\<lparr>a_state := []\<rparr>"
  have a0: "flag_ok env ?a0" by (simp add: start_nowait_def)
  have sg: "keeps (flag_ok env) (e_store_get env)" and os: "keeps (flag_ok env) (e_on_start env)"
    and op: "keeps (flag_ok env) (\<lambda>y. e_on_stop env (log_event (EvHook ''on_stop'') y))"
    using assms by (simp_all add: hooks_keep_def keeps_def)
  obtain r a1 where r: "restore_state env ?a0 = (r, a1)" by fastforce
  have a1: "flag_ok env a1"
    using r a0 keepsD [OF sg a0]
    by (auto simp: restore_state_def split: if_splits prod.splits sum.splits option.splits)
  let ?a1 = "log_event (EvHook ''on_start'')
     (emit_lifecycle_span env ''civitas.agent.start'' (a1\<lparr>a_start_phase := ''on_start''\<rparr>))"
  obtain x a2 where x: "e_on_start env ?a1 = (x, a2)" by fastforce
  have a2: "flag_ok env a2" by (rule keeps_eq [OF os _ x]) (simp add: a1)
  have a3: "flag_ok env (snd (contained (\<lambda>y. e_on_stop env (log_event (EvHook ''on_stop'') y))
      (set_status env CRASHED a2)))"
    by (rule keepsD [OF keeps_contained [OF op]]) simp
  show ?thesis
    using a1 a2 a3 unfolding run_def r
    by (auto simp: x message_loop_start_def split: sum.splits prod.splits)
qed

lemma agent_step_keeps:
  assumes "hooks_keep (flag_ok env) env" "agent_step py_str env t t'" "flag_ok env (snd t)"
  shows "flag_ok env (snd t')"
proof -
  have hooks: "flag_keeping_hooks env" using assms(1) by unfold_locales
  show ?thesis
    using assms(2,3)
  proof cases
    case Advance
    then show ?thesis using flag_keeping_hooks.task_step_keeps [OF hooks] assms(3) by simp
  next
    case (Receive m a a' pc)
    then show ?thesis using receive_keeps assms(3) by simp
  next
    case (Resume a approver pc)
    then show ?thesis
      using keepsD [OF flag_keeping_hooks.resume_keeps [OF hooks]] assms(3) by auto
  next
    case (Start e a)
    then show ?thesis using start_keeps [OF assms(1)] by simp
  qed (use assms(3) in \<open>auto simp: suspend_def stop_request_def Let_def split: if_splits\<close>)
qed

interpretation agent_machine:
  invariant_machine "\<lambda>t. hooks_keep (flag_ok env) env \<and> flag_ok env (snd t)"
    "\<lambda>t t'. hooks_keep (flag_ok env) env \<and> agent_step py_str env t t'" "\<lambda>t. flag_ok env (snd t)"
  for env py_str
  by unfold_locales (auto intro: agent_step_keeps)

lemma reachable_flag_ok:
  assumes "hooks_keep (flag_ok env) env" "(agent_step py_str env)\<^sup>*\<^sup>* t t'" "flag_ok env (snd t)"
  shows "flag_ok env (snd t')"
proof -
  have "(\<lambda>t t'. hooks_keep (flag_ok env) env \<and> agent_step py_str env t t') = agent_step py_str env"
    using assms(1) by (simp add: fun_eq_iff)
  with agent_machine.reachable_inv [of env t py_str t'] assms show ?thesis by simp
qed

text \<open>C17. The registry's suspension flag is exact: in every state an agent can reach from its first
  start, by any interleaving of its own task, arriving messages, suspend, resume and stop calls,
  passing time and restarts, the registry reports the agent's name as suspended if and only if its
  status is \<^verbatim>\<open>SUSPENDED\<close>; so an \<^verbatim>\<open>ask\<close> with \<^verbatim>\<open>fail_if_suspended\<close> decides
  on the actual status.\<close>

theorem suspension_flag_exact:
  assumes "hooks_keep (flag_ok env) env"
    and "(agent_step py_str env)\<^sup>*\<^sup>* (run env (start_nowait env a)) (pc, b)" and "a_registry b = Some r"
  shows "is_suspended (c_name env) r \<longleftrightarrow> a_status b = SUSPENDED"
  using reachable_flag_ok [OF assms(1,2) start_keeps [OF assms(1)]] assms(3)
  by (simp add: flag_ok_def)

theorem suspension_flag_exact_witness:
  "\<exists>pc b r. run (base_env ''w'') (start_nowait (base_env ''w'')
        (new_agent (base_env ''w'') (Some (new_registry True)) (Some [(SUSPEND_STATE_KEY, JDict [])]) 0))
      = (pc, b) \<and> a_registry b = Some r \<and> is_suspended ''w'' r"
proof -
  let ?env = "base_env ''w''"
  let ?a = "new_agent ?env (Some (new_registry True)) (Some [(SUSPEND_STATE_KEY, JDict [])]) 0"
  obtain pc b where b: "run ?env (start_nowait ?env ?a) = (pc, b)" by fastforce
  then have st: "a_status b = SUSPENDED" and "\<exists>r. a_registry b = Some r"
    by (auto simp: run_def start_nowait_def new_agent_def base_env_def restore_state_def
        emit_lifecycle_span_def log_event_def message_loop_start_def set_status_def Let_def)
  then obtain r where r: "a_registry b = Some r" by blast
  have "(agent_step (\<lambda>v. []) ?env)\<^sup>*\<^sup>* (run ?env (start_nowait ?env ?a)) (pc, b)" by (simp add: b)
  from suspension_flag_exact [OF base_hooks.hooks this r] st b r show ?thesis
    by (auto simp: base_env_def)
qed

section \<open>Shutdown\<close>

text \<open>Hooks of the teardown phase that leave the status and the pending sinks alone; they may raise.\<close>

definition quiet_teardown :: "agent_env \<Rightarrow> bool" where
  "quiet_teardown env \<longleftrightarrow>
     (\<forall>a. \<exists>x b. e_on_stop env a = (x, b) \<and> x \<noteq> Inl CancelledError
            \<and> a_status b = a_status a \<and> a_pending_streams b = a_pending_streams a
            \<and> a_out_streams b = a_out_streams a)
   \<and> (\<forall>m a. \<exists>x b. e_route env m a = (x, b) \<and> x \<noteq> Inl CancelledError
            \<and> a_status b = a_status a \<and> a_pending_streams b = a_pending_streams a
            \<and> a_out_streams b = a_out_streams a)"

lemma set_status_fields [simp]:
  "a_pending_streams (set_status env st a) = a_pending_streams a"
  "a_out_streams (set_status env st a) = a_out_streams a"
  "a_mailbox (set_status env st a) = a_mailbox a"
  "a_state (set_status env st a) = a_state a"
  by (simp_all add: set_status_def Let_def split: option.split)

lemma contained_quiet:
  assumes "f a = (x, b)" "x \<noteq> Inl CancelledError"
  shows "contained f a = (Inr (), b)"
  using assms by (cases x) (auto simp: contained_def is_Exception_def)

lemma quiet_route:
  "quiet_teardown env \<Longrightarrow> \<exists>x b. e_route env m a = (x, b) \<and> x \<noteq> Inl CancelledError
      \<and> a_status b = a_status a \<and> a_pending_streams b = a_pending_streams a"
  unfolding quiet_teardown_def by blast

lemma quiet_stop:
  "quiet_teardown env \<Longrightarrow> \<exists>x b. e_on_stop env a = (x, b) \<and> x \<noteq> Inl CancelledError
      \<and> a_status b = a_status a \<and> a_pending_streams b = a_pending_streams a
      \<and> a_out_streams b = a_out_streams a"
  unfolding quiet_teardown_def by blast

lemma interrupt_each_quiet:
  assumes "quiet_teardown env"
  shows "\<exists>b. interrupt_each env xs a = (Inr (), b) \<and> a_status b = a_status a
           \<and> a_pending_streams b = a_pending_streams a"
proof (induction xs arbitrary: a)
  case Nil
  show ?case by simp
next
  case (Cons x xs)
  obtain cid os where x: "x = (cid, os)" by (cases x) auto
  let ?m = "interrupt_frame env cid os a"
  obtain y b where b: "e_route env ?m (log_event (EvRoute ?m) (tick_uid a)) = (y, b)" "y \<noteq> Inl CancelledError"
    "a_status b = a_status a" "a_pending_streams b = a_pending_streams a"
    using quiet_route [OF assms, of ?m "log_event (EvRoute ?m) (tick_uid a)"]
    by (auto simp: log_event_def tick_uid_def)
  then have "contained (route env ?m) a = (Inr (), b)"
    by (intro contained_quiet [of _ _ y]) (simp_all add: route_def)
  with Cons.IH [of b] Cons.IH [of a] b x show ?case by (auto simp: andThen_def)
qed

lemma interrupt_out_streams_quiet:
  assumes "quiet_teardown env" "c_has_bus env"
  shows "\<exists>b. interrupt_out_streams env a = (Inr (), b) \<and> a_status b = a_status a
           \<and> a_pending_streams b = a_pending_streams a \<and> a_out_streams b = []"
proof -
  obtain b where "interrupt_each env (a_out_streams a) a = (Inr (), b)" "a_status b = a_status a"
    "a_pending_streams b = a_pending_streams a"
    using interrupt_each_quiet [OF assms(1)] by blast
  with assms(2) show ?thesis
    by (intro exI [of _ "b\<lparr>a_out_streams := []\<rparr>"]) (simp add: interrupt_out_streams_def andThen_def lift_def)
qed

lemma loop_teardown_stop_quiet:
  assumes "quiet_teardown env"
  shows "\<exists>b. loop_teardown_stop env a = (Inr (), b)
           \<and> a_status b = (if a_status a = CRASHED then CRASHED else STOPPED)
           \<and> a_pending_streams b = a_pending_streams a \<and> a_out_streams b = a_out_streams a"
proof -
  let ?x1 = "if a_status a = CRASHED then a else set_status env STOPPING a"
  let ?x2 = "if c_has_tracer env then log_event (EvSpan ''civitas.agent.stop'') ?x1 else ?x1"
  let ?x3 = "log_event (EvHook ''on_stop'') ?x2"
  obtain y b where b: "e_on_stop env ?x3 = (y, b)" "y \<noteq> Inl CancelledError" "a_status b = a_status ?x3"
    "a_pending_streams b = a_pending_streams ?x3" "a_out_streams b = a_out_streams ?x3"
    using quiet_stop [OF assms] by blast
  have "contained (\<lambda>y. e_on_stop env (log_event (EvHook ''on_stop'') y)) ?x2 = (Inr (), b)"
    by (rule contained_quiet) (rule b(1), rule b(2))
  then have "loop_teardown_stop env a =
      (Inr (), if a_status a = CRASHED then b else set_status env STOPPED b)"
    unfolding loop_teardown_stop_def Let_def andThen_def lift_def by simp
  with b(3-5) show ?thesis by (auto simp: log_event_def)
qed

lemma ss_fail_done [simp]: "ss_done (ss_fail r s)"
  by (simp add: ss_fail_def)

lemma loop_exit_quiet:
  assumes "quiet_teardown env" and "c_has_bus env"
  shows "\<exists>b. loop_exit env e a = (Done e, b)
      \<and> a_status b = (if a_status a = CRASHED then CRASHED else STOPPED)
      \<and> (\<forall>(cid, s) \<in> set (a_pending_streams b). ss_done s)
      \<and> map fst (a_pending_streams b) = map fst (a_pending_streams a)
      \<and> a_out_streams b = []"
proof -
  let ?a = "fail_local_streams ''agent_stopped'' (a\<lparr>a_current_message := None\<rparr>)"
  obtain b where b: "interrupt_out_streams env ?a = (Inr (), b)" "a_status b = a_status a"
    "a_pending_streams b = a_pending_streams ?a" "a_out_streams b = []"
    using interrupt_out_streams_quiet [OF assms, of ?a] by (auto simp: fail_local_streams_def)
  obtain c where c: "loop_teardown_stop env b = (Inr (), c)"
    "a_status c = (if a_status b = CRASHED then CRASHED else STOPPED)"
    "a_pending_streams c = a_pending_streams b" "a_out_streams c = a_out_streams b"
    using loop_teardown_stop_quiet [OF assms(1), of b] by blast
  have "loop_exit env e a = (Done e, c)"
    using b(1) c(1) by (simp add: loop_exit_def loop_teardown_def andThen_def)
  moreover have "\<forall>(cid, s) \<in> set (a_pending_streams c). ss_done s"
    "map fst (a_pending_streams c) = map fst (a_pending_streams a)"
    using b(3) c(3) by (auto simp: fail_local_streams_def)
  ultimately show ?thesis using b c by auto
qed

text \<open>Teardown is complete: however the loop ends, its \<^verbatim>\<open>finally\<close> block leaves the
  agent \<^verbatim>\<open>CRASHED\<close> if it had crashed and \<^verbatim>\<open>STOPPED\<close> otherwise, an \<^verbatim>\<open>on_stop\<close> that
  raises included; every stream the agent was consuming is closed (so its drain ends), no
  outbound stream is left, and the task ends with the exception that ended the loop.\<close>

theorem teardown_complete:
  assumes "quiet_teardown env" and "c_has_bus env"
  shows "\<exists>b. loop_exit env e a = (Done e, b)
      \<and> a_status b = (if a_status a = CRASHED then CRASHED else STOPPED)
      \<and> (\<forall>(cid, s) \<in> set (a_pending_streams b). ss_done s)
      \<and> map fst (a_pending_streams b) = map fst (a_pending_streams a)
      \<and> a_out_streams b = []"
  by (rule loop_exit_quiet [OF assms])

theorem teardown_complete_witness:
  "\<exists>b. loop_exit ((base_env ''w'')\<lparr>e_on_stop := \<lambda>a. (Inl (UserError ''boom''), a)\<rparr>) None
        ((new_agent (base_env ''w'') None None 0)\<lparr>a_status := RUNNING,
           a_pending_streams := [(''c'', new_sink 4)]\<rparr>) = (Done None, b)
     \<and> a_status b = STOPPED \<and> map fst (a_pending_streams b) = [''c'']"
proof -
  have "quiet_teardown ((base_env ''w'')\<lparr>e_on_stop := \<lambda>a. (Inl (UserError ''boom''), a)\<rparr>)"
    "c_has_bus ((base_env ''w'')\<lparr>e_on_stop := \<lambda>a. (Inl (UserError ''boom''), a)\<rparr>)"
    by (simp_all add: quiet_teardown_def base_env_def)
  from teardown_complete [OF this, of None "(new_agent (base_env ''w'') None None 0)\<lparr>a_status := RUNNING,
           a_pending_streams := [(''c'', new_sink 4)]\<rparr>"]
  show ?thesis by auto
qed

text \<open>A stop request reaches a waiting agent whatever its business backlog and also while it is
  suspended: when no control message is queued before it, the very next step of the task takes the
  shutdown message, runs the teardown and ends the task without an exception in status
  \<^verbatim>\<open>STOPPED\<close>; the business queue is untouched.\<close>

theorem stop_reaches_waiting_agent:
  assumes "quiet_teardown env" and "c_has_bus env" and "pc \<in> {WaitAny, WaitPriority}"
    and "a_status a \<in> {RUNNING, SUSPENDED}" and "mb_priority_queue (a_mailbox a) = []"
  shows "\<exists>a1 b. stop_request env a = Some a1
      \<and> task_step env (pc, a1) = (Done None, b) \<and> a_status b = STOPPED
      \<and> loop_get env pc a1 = (Some ((fresh_message env a)\<lparr>m_type := ''_agency.shutdown'',
             m_sender := ''_agency'', m_recipient := c_name env, m_priority := 1\<rparr>),
           (tick_uid a)\<lparr>a_mailbox := (a_mailbox a)\<lparr>mb_notify := True\<rparr>\<rparr>)"
proof -
  let ?m = "(fresh_message env a)\<lparr>m_type := ''_agency.shutdown'', m_sender := ''_agency'',
             m_recipient := c_name env, m_priority := 1\<rparr>"
  let ?a1 = "(tick_uid a)\<lparr>a_mailbox := (a_mailbox a)\<lparr>mb_priority_queue := [?m], mb_notify := True\<rparr>\<rparr>"
  let ?a2 = "(tick_uid a)\<lparr>a_mailbox := (a_mailbox a)\<lparr>mb_notify := True\<rparr>\<rparr>"
  have req: "stop_request env a = Some ?a1"
    using assms(4,5) by (auto simp: stop_request_def Let_def mb_put_def q_full_def)
  have live: "\<not> drop_if_expired t ?m" for t
    by (simp add: drop_if_expired_def fresh_message_def default_message_def)
  have mbx: "(a_mailbox a)\<lparr>mb_notify := True, mb_priority_queue := []\<rparr> = (a_mailbox a)\<lparr>mb_notify := True\<rparr>"
    using assms(5) by simp
  have get: "loop_get env pc ?a1 = (Some ?m, ?a2)"
    using assms(3) mbx live
    by (auto simp: loop_get_def mb_get.simps [of _ "_\<lparr>mb_notify := True\<rparr>"]
        mb_get_priority.simps [of _ "_\<lparr>mb_notify := True\<rparr>"] Let_def tick_uid_def)
  have "loop_message env ?m ?a2 = (Break, ?a2)"
    by (simp add: loop_message_def)
  then have step: "task_step env (pc, ?a1) = loop_exit env None ?a2"
    using get assms(3) by (auto simp: loop_continue_def)
  obtain b where "loop_exit env None ?a2 = (Done None, b)" "a_status b = STOPPED"
    using loop_exit_quiet [OF assms(1,2), of None ?a2] assms(4) by (auto simp: tick_uid_def)
  with req get step show ?thesis by auto
qed

theorem stop_reaches_waiting_agent_witness:
  "\<exists>a1 b. stop_request (base_env ''w'') ((new_agent (base_env ''w'') None None 0)\<lparr>a_status := SUSPENDED,
        a_mailbox := (new_mailbox 10 100)\<lparr>mb_queue := [default_message ''x'' 0]\<rparr>\<rparr>) = Some a1
     \<and> task_step (base_env ''w'') (WaitPriority, a1) = (Done None, b) \<and> a_status b = STOPPED"
proof -
  have "quiet_teardown (base_env ''w'')" "c_has_bus (base_env ''w'')"
    by (simp_all add: quiet_teardown_def base_env_def)
  from stop_reaches_waiting_agent [OF this, of WaitPriority
      "(new_agent (base_env ''w'') None None 0)\<lparr>a_status := SUSPENDED,
        a_mailbox := (new_mailbox 10 100)\<lparr>mb_queue := [default_message ''x'' 0]\<rparr>\<rparr>"]
  show ?thesis by (auto simp: new_mailbox_def)
qed

text \<open>An agent at the loop head whose first control message ends the loop.\<close>

lemma stop_message_taken:
  assumes "quiet_teardown env" "c_has_bus env" "a_status a \<in> {RUNNING, SUSPENDED}" "\<not> a_suspend_requested a"
    and "loop_get env (if a_status a = SUSPENDED then WaitPriority else WaitAny) (a\<lparr>a_suspend_requested := False\<rparr>)
           = (Some m, a\<lparr>a_suspend_requested := False, a_mailbox := mb\<rparr>)"
    and "m_type m \<in> {''_agency.shutdown'', ''civitas.eval.halt''}"
  shows "\<exists>b. (task_step env ^^ 2) (LoopTop, a) = (Done None, b) \<and> a_status b = STOPPED"
proof -
  let ?pc = "if a_status a = SUSPENDED then WaitPriority else WaitAny"
  let ?b = "a\<lparr>a_suspend_requested := False, a_mailbox := mb\<rparr>"
  have top: "task_step env (LoopTop, a) = (?pc, a\<lparr>a_suspend_requested := False\<rparr>)"
    using assms(3,4) by (auto simp: loop_top_def Let_def)
  have "loop_message env m ?b = (Break, ?b)" using assms(6) by (auto simp: loop_message_def)
  then have step: "task_step env (?pc, a\<lparr>a_suspend_requested := False\<rparr>) = loop_exit env None ?b"
    using assms(5) by (auto simp: loop_continue_def)
  obtain b where "loop_exit env None ?b = (Done None, b)" "a_status b = STOPPED"
    using loop_exit_quiet [OF assms(1,2), of None ?b] assms(3) by auto
  with top step show ?thesis by (simp add: eval_nat_numeral)
qed

lemma stop_message_ends_loop:
  assumes "quiet_teardown env" "c_has_bus env" "a_status a \<in> {RUNNING, SUSPENDED}" "\<not> a_suspend_requested a"
    and "mb_priority_queue (a_mailbox a) = m # q" "m_type m \<in> {''_agency.shutdown'', ''civitas.eval.halt''}" "m_ttl m = None"
  shows "\<exists>b. (task_step env ^^ 2) (LoopTop, a) = (Done None, b) \<and> a_status b = STOPPED"
proof (rule stop_message_taken [OF assms(1-4) _ assms(6)])
  have live: "\<not> drop_if_expired t m" for t using assms(7) by (simp add: drop_if_expired_def)
  show "loop_get env (if a_status a = SUSPENDED then WaitPriority else WaitAny) (a\<lparr>a_suspend_requested := False\<rparr>)
      = (Some m, a\<lparr>a_suspend_requested := False, a_mailbox := (a_mailbox a)\<lparr>mb_priority_queue := q\<rparr>\<rparr>)"
    using live assms(5)
    by (simp add: loop_get_def mb_get.simps [of _ "a_mailbox a"] mb_get_priority.simps [of _ "a_mailbox a"] Let_def)
qed

text \<open>The type decides, not the priority: the same message ends the loop from the ordinary queue too.\<close>

lemma stop_message_as_business_message:
  assumes "quiet_teardown env" "c_has_bus env" "a_status a = RUNNING" "\<not> a_suspend_requested a"
    and "mb_priority_queue (a_mailbox a) = []" "mb_queue (a_mailbox a) = m # q"
    and "m_type m \<in> {''_agency.shutdown'', ''civitas.eval.halt''}" "m_ttl m = None"
  shows "\<exists>b. (task_step env ^^ 2) (LoopTop, a) = (Done None, b) \<and> a_status b = STOPPED"
proof (rule stop_message_taken [OF assms(1,2) _ assms(4) _ assms(7)])
  show "a_status a \<in> {RUNNING, SUSPENDED}" using assms(3) by simp
  have live: "\<not> drop_if_expired t m" for t using assms(8) by (simp add: drop_if_expired_def)
  show "loop_get env (if a_status a = SUSPENDED then WaitPriority else WaitAny) (a\<lparr>a_suspend_requested := False\<rparr>)
      = (Some m, a\<lparr>a_suspend_requested := False, a_mailbox := (a_mailbox a)\<lparr>mb_queue := q\<rparr>\<rparr>)"
    using live assms(3,5,6) by (simp add: loop_get_def mb_get.simps [of _ "a_mailbox a"] Let_def)
qed

section \<open>A suspend call during a wait\<close>

lemma mb_get_single:
  "mb_priority_queue mb = [] \<Longrightarrow> mb_queue mb = [m] \<Longrightarrow> \<not> drop_if_expired now m \<Longrightarrow>
   mb_get now mb = (Some m, mb\<lparr>mb_queue := []\<rparr>)"
  by (simp add: mb_get.simps [of now mb] Let_def)

text \<open>A direct \<^verbatim>\<open>suspend()\<close> call takes effect at the loop head only: when the loop is
  already waiting for a message, the next business message that arrives is still taken and given
  to the loop body, with the request pending; the agent suspends at the following loop head. So one
  business message passes between the request and the suspension.\<close>

theorem suspend_during_wait_passes_one:
  assumes "a_status a = RUNNING" and "mb_empty (a_mailbox a)" and "0 < mb_maxsize (a_mailbox a)"
    and "m_priority m \<le> 0" and "m_correlation_id m = None" and "m_ttl m = None"
  shows "\<exists>a1 a2. receive py_str m (suspend reason category a) = Some a1
      \<and> a_suspend_requested a2 \<and> mb_empty (a_mailbox a2) \<and> a_status a2 = RUNNING
      \<and> task_step env (WaitAny, a1) = loop_continue env (loop_message env m a2)"
proof -
  let ?a = "suspend reason category a"
  let ?mb = "(a_mailbox a)\<lparr>mb_queue := [m], mb_notify := True\<rparr>"
  have rc: "receive py_str m ?a = Some (?a\<lparr>a_mailbox := ?mb\<rparr>)"
    using assms by (simp add: receive_def consume_stream_frame_def mb_put_def q_full_def mb_empty_def suspend_def)
  have "mb_get t ?mb = (Some m, ?mb\<lparr>mb_queue := []\<rparr>)" for t
    by (rule mb_get_single) (use assms in \<open>simp_all add: mb_empty_def drop_if_expired_def\<close>)
  then have "task_step env (WaitAny, ?a\<lparr>a_mailbox := ?mb\<rparr>) =
      loop_continue env (loop_message env m (?a\<lparr>a_mailbox := ?mb\<lparr>mb_queue := []\<rparr>\<rparr>))"
    by (simp add: loop_get_def)
  with rc assms(1,2) show ?thesis
    by (intro exI [of _ "?a\<lparr>a_mailbox := ?mb\<rparr>"] exI [of _ "?a\<lparr>a_mailbox := ?mb\<lparr>mb_queue := []\<rparr>\<rparr>"])
       (simp add: suspend_def mb_empty_def)
qed

theorem suspend_during_wait_passes_one_witness:
  "\<exists>a1 a2. receive (\<lambda>v. []) (default_message ''m'' 0)
        (suspend ''r'' OTHER ((new_agent (base_env ''w'') None None 0)\<lparr>a_status := RUNNING\<rparr>)) = Some a1
      \<and> task_step (base_env ''w'') (WaitAny, a1) =
          loop_continue (base_env ''w'') (loop_message (base_env ''w'') (default_message ''m'' 0) a2)
      \<and> a_status a2 = RUNNING"
  using suspend_during_wait_passes_one [of "(new_agent (base_env ''w'') None None 0)\<lparr>a_status := RUNNING\<rparr>"
      "default_message ''m'' 0" "\<lambda>v. []" "''r''" OTHER "base_env ''w''"]
  by (auto simp: new_agent_def new_mailbox_def mb_empty_def default_message_def base_env_def)

end
