(* ===== verification/Restart_Engine.thy ===== *)
theory Restart_Engine
  imports Civitas_Prelude
begin

text \<open>
  \<^verbatim>\<open>src/civitas/supervision/engine.py\<close>: the restart budget of a supervisor. One engine
  keeps the crash timestamps of the last \<^verbatim>\<open>restart_window\<close> seconds and rules on each
  crash: restart after a backoff delay, or exhausted. The clock and the jitter of
  \<^verbatim>\<open>random.random()\<close> are arguments.
\<close>

section \<open>State and verdicts\<close>

datatype BackoffPolicy = CONSTANT | LINEAR | EXPONENTIAL

datatype restart_action = Restart | Exhausted

record RestartVerdict =
  v_action :: restart_action
  v_delay :: real
  v_crashes_in_window :: nat

record RestartEngine =
  re_max_restarts :: int
  re_restart_window :: real
  re_backoff :: "BackoffPolicy option"
  re_backoff_base :: real
  re_backoff_max :: real
  re_window :: "real list"

definition new_engine ::
  "int \<Rightarrow> real \<Rightarrow> BackoffPolicy option \<Rightarrow> real \<Rightarrow> real \<Rightarrow> RestartEngine" where
  "new_engine mr rw bo bb bm =
     \<lparr>re_max_restarts = mr, re_restart_window = rw, re_backoff = bo,
      re_backoff_base = bb, re_backoff_max = bm, re_window = []\<rparr>"

section \<open>Operations\<close>

text \<open>\<^verbatim>\<open>u\<close> is the value \<^verbatim>\<open>random.random()\<close> returns, in \<open>[0, 1)\<close>.\<close>

definition compute_backoff :: "RestartEngine \<Rightarrow> nat \<Rightarrow> real \<Rightarrow> real" where
  "compute_backoff e n u =
     (case re_backoff e of
        None \<Rightarrow> 0
      | Some p \<Rightarrow>
          let delay =
            (case p of
               CONSTANT \<Rightarrow> re_backoff_base e
             | LINEAR \<Rightarrow> re_backoff_base e * real n
             | EXPONENTIAL \<Rightarrow>
                 (let d = re_backoff_base e * 2 powi (int n - 1) in d + d * u * 0.25))
          in min delay (re_backoff_max e))"

text \<open>The loop \<^verbatim>\<open>while self.window and self.window[0] <= cutoff: popleft()\<close>.\<close>

fun pop_expired :: "real \<Rightarrow> real list \<Rightarrow> real list" where
  "pop_expired cutoff [] = []"
| "pop_expired cutoff (t # ts) = (if t \<le> cutoff then pop_expired cutoff ts else t # ts)"

definition record_crash :: "RestartEngine \<Rightarrow> real \<Rightarrow> real \<Rightarrow> RestartVerdict \<times> RestartEngine" where
  "record_crash e now u =
     (let cutoff = now - re_restart_window e;
          w = pop_expired cutoff (re_window e @ [now]);
          occupancy = length w;
          e' = e\<lparr>re_window := w\<rparr>
      in if int occupancy > re_max_restarts e
         then (\<lparr>v_action = Exhausted, v_delay = 0, v_crashes_in_window = occupancy\<rparr>, e')
         else (\<lparr>v_action = Restart, v_delay = compute_backoff e' occupancy u,
                v_crashes_in_window = occupancy\<rparr>, e'))"

definition exempt_verdict :: "RestartEngine \<Rightarrow> RestartVerdict" where
  "exempt_verdict e =
     \<lparr>v_action = Restart, v_delay = 0, v_crashes_in_window = length (re_window e)\<rparr>"

definition reset_engine :: "RestartEngine \<Rightarrow> RestartEngine" where
  "reset_engine e = e\<lparr>re_window := []\<rparr>"

text \<open>Recording a whole sequence of crashes, each with its own jitter.\<close>

fun record_all :: "RestartEngine \<Rightarrow> (real \<times> real) list \<Rightarrow> RestartEngine" where
  "record_all e [] = e"
| "record_all e ((now, u) # cs) = record_all (snd (record_crash e now u)) cs"

section \<open>The window\<close>

text \<open>For any window length the timestamps of the engine form a sliding window.\<close>

interpretation engine_window: sliding_window "\<lambda>now t. now - w < t" for w
  by unfold_locales simp

lemma pop_expired_filter: "sorted ts \<Longrightarrow> pop_expired c ts = filter (\<lambda>t. c < t) ts"
proof (induction ts)
  case Nil
  show ?case by simp
next
  case (Cons t ts)
  show ?case
  proof (cases "t \<le> c")
    case True
    with Cons show ?thesis by simp
  next
    case False
    with Cons.prems have "\<forall>x \<in> set (t # ts). c < x" by auto
    then show ?thesis using False by (simp add: filter_id_conv)
  qed
qed

lemma record_crash_config [simp]:
  "re_max_restarts (snd (record_crash e now u)) = re_max_restarts e"
  "re_restart_window (snd (record_crash e now u)) = re_restart_window e"
  "re_backoff (snd (record_crash e now u)) = re_backoff e"
  "re_backoff_base (snd (record_crash e now u)) = re_backoff_base e"
  "re_backoff_max (snd (record_crash e now u)) = re_backoff_max e"
  by (simp_all add: record_crash_def Let_def)

lemma record_crash_window:
  "re_window (snd (record_crash e now u)) =
     pop_expired (now - re_restart_window e) (re_window e @ [now])"
  by (simp add: record_crash_def Let_def)

lemma record_crash_occupancy:
  "v_crashes_in_window (fst (record_crash e now u)) = length (re_window (snd (record_crash e now u)))"
  by (simp add: record_crash_def Let_def)

lemma record_crash_action:
  "v_action (fst (record_crash e now u)) = Exhausted \<longleftrightarrow>
     re_max_restarts e < int (v_crashes_in_window (fst (record_crash e now u)))"
  by (simp add: record_crash_def Let_def)

lemma record_all_config [simp]:
  "re_max_restarts (record_all e cs) = re_max_restarts e"
  "re_restart_window (record_all e cs) = re_restart_window e"
  by (induction e cs rule: record_all.induct) simp_all

lemma record_all_append: "record_all e (cs @ ds) = record_all (record_all e cs) ds"
  by (induction e cs rule: record_all.induct) simp_all

text \<open>On a clock that never goes back, the deque is the sliding window of the interface.\<close>

lemma record_all_run:
  assumes "sorted (map fst cs)" and "sorted (re_window e)"
    and "\<forall>x \<in> set (re_window e). \<forall>c \<in> set cs. x \<le> fst c"
  shows "re_window (record_all e cs) =
           engine_window.run (re_restart_window e) (re_window e) (map fst cs)"
  using assms
proof (induction e cs rule: record_all.induct)
  case (1 e)
  show ?case by simp
next
  case (2 e now u cs)
  let ?e = "snd (record_crash e now u)"
  have srt: "sorted (re_window e @ [now])"
    using "2.prems" by (auto simp: sorted_append)
  have w: "re_window ?e = filter (\<lambda>t. now - re_restart_window e < t) (re_window e @ [now])"
    by (simp add: record_crash_window pop_expired_filter [OF srt])
  have "re_window (record_all ?e cs) =
          engine_window.run (re_restart_window ?e) (re_window ?e) (map fst cs)"
  proof (rule "2.IH")
    show "sorted (map fst cs)" using "2.prems"(1) by simp
    show "sorted (re_window ?e)" using srt by (simp only: w sorted_wrt_filter)
    show "\<forall>x \<in> set (re_window ?e). \<forall>c \<in> set cs. x \<le> fst c"
      using "2.prems" by (auto simp: w)
  qed
  then show ?case by (simp add: w)
qed

section \<open>Properties\<close>

text \<open>C1. The pruned deque decides as the full crash history would: on a clock that never goes
  back, after any sequence of crashes the verdict's occupancy is the number of crashes of the
  whole history inside the last \<^verbatim>\<open>restart_window\<close> seconds, and the verdict is
  exhausted exactly when that number exceeds \<^verbatim>\<open>max_restarts\<close>.\<close>

theorem restart_budget_counts_history:
  assumes "sorted (map fst cs @ [now])"
  shows "v_crashes_in_window (fst (record_crash (record_all (new_engine mr rw bo bb bm) cs) now u))
           = length (filter (\<lambda>t. now - rw < t) (map fst cs @ [now]))
       \<and> (v_action (fst (record_crash (record_all (new_engine mr rw bo bb bm) cs) now u)) = Exhausted
           \<longleftrightarrow> mr < int (length (filter (\<lambda>t. now - rw < t) (map fst cs @ [now]))))"
proof -
  let ?e = "new_engine mr rw bo bb bm"
  have e: "re_window ?e = []" "re_restart_window ?e = rw" "re_max_restarts ?e = mr"
    by (simp_all add: new_engine_def)
  have step: "record_all ?e (cs @ [(now, u)]) = snd (record_crash (record_all ?e cs) now u)"
    by (simp add: record_all_append)
  have "re_window (record_all ?e (cs @ [(now, u)])) =
          engine_window.run rw [] (map fst cs @ [now])"
    using record_all_run [of "cs @ [(now, u)]" ?e] assms by (simp add: e)
  then have w: "re_window (snd (record_crash (record_all ?e cs) now u)) =
          filter (\<lambda>t. now - rw < t) (map fst cs @ [now])"
    using engine_window.run_history [OF assms, of rw "[]"] by (simp add: step)
  show ?thesis
    by (simp only: record_crash_action record_crash_occupancy w record_all_config e)
qed

theorem restart_budget_counts_history_witness:
  "v_crashes_in_window (fst (record_crash
      (record_all (new_engine 1 60 None 1 60) [(0, 0), (100, 0)]) 130 0)) = 2
   \<and> v_action (fst (record_crash
      (record_all (new_engine 1 60 None 1 60) [(0, 0), (100, 0)]) 130 0)) = Exhausted"
  using restart_budget_counts_history [of "[(0, 0), (100, 0)]" 130 1 60 None 1 60 0] by simp

text \<open>The delay of every verdict is between zero and \<^verbatim>\<open>backoff_max\<close>, it is zero when the
  budget is exhausted, and under the exponential policy the \<open>n\<close>-th crash in the window waits
  at least \<^verbatim>\<open>base * 2 ** (n - 1)\<close> and at most a quarter more, both capped.\<close>

theorem backoff_delay_bounds:
  assumes "0 \<le> re_backoff_base e" and "0 \<le> re_backoff_max e" and "0 \<le> u" and "u < 1"
  shows "0 \<le> v_delay (fst (record_crash e now u))
       \<and> v_delay (fst (record_crash e now u)) \<le> re_backoff_max e
       \<and> (v_action (fst (record_crash e now u)) = Exhausted \<longrightarrow>
            v_delay (fst (record_crash e now u)) = 0)
       \<and> (re_backoff e = Some EXPONENTIAL \<longrightarrow>
            min (re_backoff_base e * 2 powi (int n - 1)) (re_backoff_max e) \<le> compute_backoff e n u
          \<and> compute_backoff e n u
              \<le> min (1.25 * (re_backoff_base e * 2 powi (int n - 1))) (re_backoff_max e))"
proof -
  have jit: "d \<le> d + d * u * 0.25 \<and> d + d * u * 0.25 \<le> 1.25 * d" if "0 \<le> d" for d :: real
    using that assms(3,4) mult_left_le [of u d] by (simp add: mult_nonneg_nonneg)
  have pos: "0 \<le> re_backoff_base e * 2 powi (int n - 1)" for n
    using assms(1) by simp
  have cb: "0 \<le> compute_backoff e' k u \<and> compute_backoff e' k u \<le> re_backoff_max e"
    if "re_backoff_base e' = re_backoff_base e" "re_backoff_max e' = re_backoff_max e" for e' k
    using that assms jit [OF pos [of k]]
    by (auto simp: compute_backoff_def Let_def split: option.splits BackoffPolicy.splits)
  have "re_backoff e = Some EXPONENTIAL \<longrightarrow>
            min (re_backoff_base e * 2 powi (int n - 1)) (re_backoff_max e) \<le> compute_backoff e n u
          \<and> compute_backoff e n u
              \<le> min (1.25 * (re_backoff_base e * 2 powi (int n - 1))) (re_backoff_max e)"
    using jit [OF pos [of n]] by (auto simp: compute_backoff_def Let_def min_def)
  moreover have "0 \<le> v_delay (fst (record_crash e now u))
       \<and> v_delay (fst (record_crash e now u)) \<le> re_backoff_max e"
    using cb assms(2) by (simp add: record_crash_def Let_def)
  moreover have "v_action (fst (record_crash e now u)) = Exhausted \<longrightarrow>
            v_delay (fst (record_crash e now u)) = 0"
    by (simp add: record_crash_def Let_def)
  ultimately show ?thesis by blast
qed

theorem backoff_delay_bounds_witness:
  "v_delay (fst (record_crash (new_engine 3 60 (Some EXPONENTIAL) 1 60) 10 0.5)) \<le> 60
   \<and> 4 \<le> compute_backoff (new_engine 3 60 (Some EXPONENTIAL) 1 60) 3 0.5"
  using backoff_delay_bounds [of "new_engine 3 60 (Some EXPONENTIAL) 1 60" "0.5" 10 3]
  by (simp add: new_engine_def power_int_def)

end
