(* ===== verification/Dynamic_Supervisor.thy ===== *)
theory Dynamic_Supervisor
  imports Agent_Loop Restart_Engine
begin

text \<open>
  \<^verbatim>\<open>DynamicSupervisor\<close> of \<^verbatim>\<open>src/civitas/supervisor.py\<close>: children are spawned, stopped
  and despawned at run time by messages, under admission limits; an exit of a child is followed by a
  restart or a removal.

  A spawn that waits for the child's start, and the announcement after a start, continue in
  background tasks: they are entries of \<open>ds_pending\<close>, run by \<open>finish_spawn\<close> and
  \<open>announce_after_start\<close> when the child is ready or its task has ended. The exit of a child's
  task queues an entry run by \<open>handle_child_exit\<close>. A child's task has an identity
  (\<open>ds_next_task\<close> numbers them), as the object the done callback gets. The agents' own
  progress between these steps is \<open>ds_children\<close> changing; what an agent checkpoints under its
  name outlives it in \<open>ds_stores\<close>. Importing a class, the constructor,
  the governance hook and key generation are parameters. A handler is one step; a fresh incarnation
  that cannot be set up is one whose constructor raises.
\<close>

section \<open>State\<close>

datatype restart_mode = PERMANENT | TRANSIENT | NEVER

abbreviation DYNAMIC_SUPERVISOR_CAPABILITY :: string where
  "DYNAMIC_SUPERVISOR_CAPABILITY \<equiv> ''_agency.dynamic_supervisor''"

text \<open>A class a spawn can name: its instances' environment by agent name, its
  class attributes, and what its constructor raises.\<close>

record agent_class =
  ac_env :: "string \<Rightarrow> agent_env"
  ac_ctor_raises :: "string \<Rightarrow> exn option"
  ac_is_dynamic_supervisor :: bool
  ac_capabilities :: "string list"
  ac_capability_metadata :: payload

record child_rec =
  cr_agent :: agent
  cr_class :: agent_class
  cr_task :: nat
  cr_acknowledged :: bool
  cr_spawn_id :: string
  cr_epoch :: int
  cr_announced :: bool

datatype spawn_reason =
    AlreadyRunning string
  | AlreadyRegistered string
  | MaxChildren int
  | MaxTotalSpawns int
  | MaxChildrenPerSpawner int string
  | MaxTotalSpawnsPerSpawner int string
  | InvalidClassPath string
  | CannotImport string
  | SpawnerNotAllowed string
  | DeniedByGovernance
  | NoDynamicAgent string

text \<open>The payloads of replies.\<close>

datatype ds_reply =
    ReplySpawned string bool process_status       \<comment> \<open>name, ready, state\<close>
  | ReplyOk
  | ReplyError spawn_reason
  | ReplyStartFailed string string "exn option"   \<comment> \<open>name, phase, error\<close>

datatype ds_event =
    DSAudit string string string bool             \<comment> \<open>spawner, child, class path, distributed\<close>
  | DSRegisterAnnounced string "string list" payload string int
  | DSDeregisterAnnounced string int
  | DSNotify string string string                 \<comment> \<open>spawner, child, reason\<close>
  | DSReply message ds_reply
  | DSTeardown string

datatype pending =
    PendReply message string nat bool "string list" payload string int
  | PendAnnounce string nat "string list" payload string int
  | PendExit string "exn option"

record dyn_sup =
  ds_children :: "(string, child_rec) dict"
  ds_child_tasks :: "(string, nat) dict"
  ds_spawner_names :: "(string, string) dict"
  ds_restart_counts :: "(string, int) dict"
  ds_engines :: "(string, RestartEngine) dict"
  ds_total_spawns :: int
  ds_spawner_total_counts :: "(string, int) dict"
  ds_spawn_epoch :: int
  ds_current_spawner :: "string option"
  ds_registry :: "registry option"
  ds_handlers :: "(string, nat) dict"
  ds_stores :: "(string, payload) dict"
  ds_pending :: "pending list"
  ds_next_task :: nat
  ds_now :: real
  ds_events :: "ds_event list"

record dyn_env =
  d_name :: string
  d_max_children :: "int option"
  d_max_total_spawns :: "int option"
  d_restart_mode :: restart_mode
  d_max_restarts :: int
  d_restart_window :: real
  d_spawner_allowlist :: "string set option"
  d_max_children_per_spawner :: "int option"
  d_max_total_spawns_per_spawner :: "int option"
  d_has_bus :: bool
  d_distributed :: bool
  d_import :: "string \<Rightarrow> string \<Rightarrow> agent_class result"
  d_on_spawn_requested :: "agent_class \<Rightarrow> string \<Rightarrow> payload \<Rightarrow> dyn_sup \<Rightarrow> bool result \<times> dyn_sup"
  d_identity :: "string \<Rightarrow> string"
  d_repr :: "exn \<Rightarrow> string"

definition new_dyn_sup :: "registry option \<Rightarrow> real \<Rightarrow> dyn_sup" where
  "new_dyn_sup reg now =
     \<lparr>ds_children = [], ds_child_tasks = [], ds_spawner_names = [], ds_restart_counts = [],
      ds_engines = [], ds_total_spawns = 0, ds_spawner_total_counts = [], ds_spawn_epoch = 0,
      ds_current_spawner = None, ds_registry = reg, ds_handlers = [], ds_stores = [], ds_pending = [],
      ds_next_task = 0, ds_now = now, ds_events = []\<rparr>"

definition ds_log :: "ds_event \<Rightarrow> dyn_sup \<Rightarrow> dyn_sup" where
  "ds_log ev s = s\<lparr>ds_events := ds_events s @ [ev]\<rparr>"

definition get_int :: "(string, int) dict \<Rightarrow> string \<Rightarrow> int" where
  "get_int d k = (case dget d k of Some n \<Rightarrow> n | None \<Rightarrow> 0)"

section \<open>Spawning\<close>

record spawn_request =
  sq_class_path :: string
  sq_name :: string
  sq_config :: payload
  sq_spawner :: string
  sq_wait :: bool
  sq_spawn_id :: string

text \<open>The fields read from the payload of the request.\<close>

definition parse_spawn :: "payload \<Rightarrow> spawn_request" where
  "parse_spawn p =
     \<lparr>sq_class_path = get_str p ''class_path'' '''', sq_name = get_str p ''name'' '''',
      sq_config = (case dget p ''config'' of Some (JDict d) \<Rightarrow> d | _ \<Rightarrow> []),
      sq_spawner = get_str p ''spawner'' '''',
      sq_wait = (case dget p ''wait'' of Some v \<Rightarrow> truthy v | None \<Rightarrow> True),
      sq_spawn_id = get_str p ''spawn_id'' ''''\<rparr>"

definition live_for_spawner :: "string \<Rightarrow> dyn_sup \<Rightarrow> int" where
  "live_for_spawner spawner s =
     int (length (filter (\<lambda>n. dget (ds_spawner_names s) n = Some spawner) (dkeys (ds_children s))))"

definition reached :: "int option \<Rightarrow> int \<Rightarrow> bool" where
  "reached cap n = (case cap of None \<Rightarrow> False | Some c \<Rightarrow> n \<ge> c)"

text \<open>The checks before the class is resolved, in the order of the code.\<close>

definition admission_error :: "dyn_env \<Rightarrow> spawn_request \<Rightarrow> dyn_sup \<Rightarrow> spawn_reason option" where
  "admission_error env q s =
     (if (case ds_registry s of None \<Rightarrow> False | Some r \<Rightarrow> lookup r (sq_name q) \<noteq> None)
        then Some (AlreadyRegistered (sq_name q))
      else if reached (d_max_children env) (int (length (ds_children s)))
        then Some (MaxChildren (the (d_max_children env)))
      else if reached (d_max_total_spawns env) (ds_total_spawns s)
        then Some (MaxTotalSpawns (the (d_max_total_spawns env)))
      else if reached (d_max_children_per_spawner env) (live_for_spawner (sq_spawner q) s)
        then Some (MaxChildrenPerSpawner (the (d_max_children_per_spawner env)) (sq_spawner q))
      else if reached (d_max_total_spawns_per_spawner env) (get_int (ds_spawner_total_counts s) (sq_spawner q))
        then Some (MaxTotalSpawnsPerSpawner (the (d_max_total_spawns_per_spawner env)) (sq_spawner q))
      else None)"

text \<open>\<^verbatim>\<open>class_path.rpartition(".")\<close> and the import.\<close>

definition resolve_class :: "dyn_env \<Rightarrow> string \<Rightarrow> spawn_reason + agent_class" where
  "resolve_class env class_path =
     (case py_rpartition (CHR ''.'') class_path of
        (module_path, class_name) \<Rightarrow>
          if module_path = '''' then Inl (InvalidClassPath class_path)
          else (case d_import env module_path class_name of
                  Inl e \<Rightarrow> Inl (CannotImport class_path)
                | Inr c \<Rightarrow> Inr c))"

definition announce_caps :: "agent_class \<Rightarrow> string list" where
  "announce_caps c =
     (if ac_is_dynamic_supervisor c \<and> DYNAMIC_SUPERVISOR_CAPABILITY \<notin> set (ac_capabilities c)
      then ac_capabilities c @ [DYNAMIC_SUPERVISOR_CAPABILITY] else ac_capabilities c)"

text \<open>Registration, wiring and the synchronous block that creates the child's task.\<close>

definition admit :: "dyn_env \<Rightarrow> message \<Rightarrow> spawn_request \<Rightarrow> agent_class \<Rightarrow> dyn_sup \<Rightarrow> ds_reply option \<times> dyn_sup" where
  "admit env msg q c s =
     (let name = sq_name q;
          caps = (if ac_is_dynamic_supervisor c then [DYNAMIC_SUPERVISOR_CAPABILITY] else []);
          registered = (case ds_registry s of
                          None \<Rightarrow> Inr None
                        | Some r \<Rightarrow> (case register name None True caps [] r of
                                       Inl e \<Rightarrow> Inl e | Inr r' \<Rightarrow> Inr (Some r')))
      in case registered of
           Inl e \<Rightarrow> (Some (ReplyError (AlreadyRegistered name)), s)
         | Inr reg \<Rightarrow>
             (let tid = ds_next_task s;
                  aenv = ac_env c name;
                  agent = start_nowait aenv (new_agent aenv reg (dget (ds_stores s) name) (ds_now s));
                  pubkey = (if d_distributed env then d_identity env name else '''');
                  epoch = ds_spawn_epoch s + 1;
                  rec = \<lparr>cr_agent = agent, cr_class = c, cr_task = tid, cr_acknowledged = \<not> sq_wait q,
                         cr_spawn_id = sq_spawn_id q, cr_epoch = epoch, cr_announced = False\<rparr>;
                  s1 = ds_log (DSAudit (sq_spawner q) name (sq_class_path q) (d_distributed env)) s;
                  s2 = s1\<lparr>ds_registry := reg,
                          ds_handlers := (if d_has_bus env then dput name tid (ds_handlers s) else ds_handlers s),
                          ds_total_spawns := ds_total_spawns s + 1,
                          ds_spawner_total_counts :=
                            dput (sq_spawner q) (get_int (ds_spawner_total_counts s) (sq_spawner q) + 1)
                              (ds_spawner_total_counts s),
                          ds_spawn_epoch := epoch,
                          ds_children := dput name rec (ds_children s),
                          ds_spawner_names := dput name (sq_spawner q) (ds_spawner_names s),
                          ds_child_tasks := dput name tid (ds_child_tasks s),
                          ds_next_task := Suc tid\<rparr>
              in if \<not> sq_wait q then
                   (Some (ReplySpawned name False (a_status agent)),
                    if d_distributed env
                    then s2\<lparr>ds_pending := ds_pending s2 @ [PendAnnounce name tid (announce_caps c)
                              (ac_capability_metadata c) pubkey epoch]\<rparr>
                    else s2)
                 else
                   (None, s2\<lparr>ds_pending := ds_pending s2 @ [PendReply msg name tid (d_distributed env)
                              (announce_caps c) (ac_capability_metadata c) pubkey epoch]\<rparr>)))"

definition handle_spawn :: "dyn_env \<Rightarrow> message \<Rightarrow> dyn_sup \<Rightarrow> ds_reply option result \<times> dyn_sup" where
  "handle_spawn env msg s =
     (let q = parse_spawn (m_payload msg)
      in case dget (ds_children s) (sq_name q) of
           Some existing \<Rightarrow>
             (if sq_spawn_id q \<noteq> '''' \<and> cr_spawn_id existing = sq_spawn_id q
              then (Inr (Some (ReplySpawned (sq_name q)
                      (a_status (cr_agent existing) \<in> {RUNNING, SUSPENDED}) (a_status (cr_agent existing)))), s)
              else (Inr (Some (ReplyError (AlreadyRunning (sq_name q)))), s))
         | None \<Rightarrow>
             (case admission_error env q s of
                Some reason \<Rightarrow> (Inr (Some (ReplyError reason)), s)
              | None \<Rightarrow>
                  (case resolve_class env (sq_class_path q) of
                     Inl reason \<Rightarrow> (Inr (Some (ReplyError reason)), s)
                   | Inr c \<Rightarrow>
                       if (case d_spawner_allowlist env of None \<Rightarrow> False | Some w \<Rightarrow> sq_spawner q \<notin> w)
                       then (Inr (Some (ReplyError (SpawnerNotAllowed (sq_spawner q)))), s)
                       else
                         (case d_on_spawn_requested env c (sq_name q) (sq_config q)
                                 (s\<lparr>ds_current_spawner := Some (sq_spawner q)\<rparr>) of
                            (Inl e, s1) \<Rightarrow> (Inl e, s1\<lparr>ds_current_spawner := None\<rparr>)
                          | (Inr False, s1) \<Rightarrow>
                              (Inr (Some (ReplyError DeniedByGovernance)), s1\<lparr>ds_current_spawner := None\<rparr>)
                          | (Inr True, s1) \<Rightarrow>
                              (let s2 = s1\<lparr>ds_current_spawner := None\<rparr>
                               in case ac_ctor_raises c (sq_name q) of
                                    Some e \<Rightarrow> (Inl e, s2)
                                  | None \<Rightarrow> (case admit env msg q c s2 of (r, s3) \<Rightarrow> (Inr r, s3)))))))"

section \<open>Removal and announcements\<close>

definition remove_child :: "string \<Rightarrow> dyn_sup \<Rightarrow> dyn_sup" where
  "remove_child name s =
     s\<lparr>ds_children := dpop name (ds_children s), ds_child_tasks := dpop name (ds_child_tasks s)\<rparr>"

definition announce_child ::
  "dyn_env \<Rightarrow> string \<Rightarrow> string list \<Rightarrow> payload \<Rightarrow> string \<Rightarrow> int \<Rightarrow> dyn_sup \<Rightarrow> dyn_sup" where
  "announce_child env name caps meta pubkey epoch s =
     (if d_has_bus env then ds_log (DSRegisterAnnounced name caps meta pubkey epoch) s else s)"

definition announce_deregister :: "dyn_env \<Rightarrow> string \<Rightarrow> int \<Rightarrow> dyn_sup \<Rightarrow> dyn_sup" where
  "announce_deregister env name epoch s =
     (if d_has_bus env then ds_log (DSDeregisterAnnounced name epoch) s else s)"

definition maybe_announce_deregister :: "dyn_env \<Rightarrow> string \<Rightarrow> child_rec option \<Rightarrow> dyn_sup \<Rightarrow> dyn_sup" where
  "maybe_announce_deregister env name rec s =
     (case rec of
        None \<Rightarrow> s
      | Some r \<Rightarrow> if cr_announced r \<and> d_distributed env then announce_deregister env name (cr_epoch r) s else s)"

definition ds_deregister :: "string \<Rightarrow> dyn_sup \<Rightarrow> dyn_sup" where
  "ds_deregister name s = s\<lparr>ds_registry := map_option (deregister name) (ds_registry s)\<rparr>"

text \<open>The checkpoint an agent leaves behind.\<close>

definition keep_store :: "string \<Rightarrow> agent \<Rightarrow> dyn_sup \<Rightarrow> dyn_sup" where
  "keep_store name a s =
     (case a_store a of None \<Rightarrow> s | Some p \<Rightarrow> s\<lparr>ds_stores := dput name p (ds_stores s)\<rparr>)"

definition clear_child_marker :: "string \<Rightarrow> dyn_sup \<Rightarrow> dyn_sup" where
  "clear_child_marker name s =
     (case dget (ds_children s) name of
        None \<Rightarrow> s
      | Some rec \<Rightarrow>
          (let a = snd (clear_suspend_marker (ac_env (cr_class rec) name) (cr_agent rec))
           in keep_store name a (s\<lparr>ds_children := dput name (rec\<lparr>cr_agent := a\<rparr>) (ds_children s)\<rparr>)))"

definition terminal_cleanup :: "dyn_env \<Rightarrow> string \<Rightarrow> dyn_sup \<Rightarrow> dyn_sup" where
  "terminal_cleanup env name s =
     (let rec = dget (ds_children s) name;
          s1 = ds_deregister name s;
          s2 = (if d_has_bus env
                then ds_log (DSTeardown name) (s1\<lparr>ds_handlers := dpop name (ds_handlers s1)\<rparr>) else s1)
      in maybe_announce_deregister env name rec (remove_child name s2))"

definition notify_spawner :: "dyn_env \<Rightarrow> string \<Rightarrow> string \<Rightarrow> dyn_sup \<Rightarrow> dyn_sup" where
  "notify_spawner env name reason s =
     (case dget (ds_spawner_names s) name of
        None \<Rightarrow> s
      | Some spawner \<Rightarrow>
          if spawner = '''' \<or> \<not> d_has_bus env then s else ds_log (DSNotify spawner name reason) s)"

section \<open>Continuations of a spawn\<close>

text \<open>The record of a spawn, found by its epoch: it survives restarts of its child.\<close>

definition update_rec :: "int \<Rightarrow> (child_rec \<Rightarrow> child_rec) \<Rightarrow> dyn_sup \<Rightarrow> dyn_sup" where
  "update_rec epoch f s =
     s\<lparr>ds_children := map (\<lambda>(n, r). (n, if cr_epoch r = epoch then f r else r)) (ds_children s)\<rparr>"

text \<open>\<^verbatim>\<open>_await_spawn_readiness_and_reply\<close> after its wait: \<open>ag\<close> is the agent object it
  holds, \<open>err\<close> the exception of its task.\<close>

definition finish_spawn ::
  "dyn_env \<Rightarrow> agent \<Rightarrow> exn option \<Rightarrow> message \<Rightarrow> string \<Rightarrow> bool \<Rightarrow> string list \<Rightarrow> payload \<Rightarrow> string \<Rightarrow> int
     \<Rightarrow> dyn_sup \<Rightarrow> dyn_sup" where
  "finish_spawn env ag err msg name distributed caps meta pubkey epoch s =
     (if a_status ag \<in> {RUNNING, SUSPENDED} then
        (let s1 = update_rec epoch (\<lambda>r. r\<lparr>cr_acknowledged := True\<rparr>) s;
             s2 = (if distributed
                   then update_rec epoch (\<lambda>r. r\<lparr>cr_announced := True\<rparr>)
                          (announce_child env name caps meta pubkey epoch s1)
                   else s1)
         in if d_has_bus env then ds_log (DSReply msg (ReplySpawned name True (a_status ag))) s2 else s2)
      else
        (let s1 = terminal_cleanup env name s
         in if d_has_bus env
            then ds_log (DSReply msg (ReplyStartFailed name (a_start_phase ag) err)) s1 else s1))"

definition announce_after_start ::
  "dyn_env \<Rightarrow> agent \<Rightarrow> string \<Rightarrow> string list \<Rightarrow> payload \<Rightarrow> string \<Rightarrow> int \<Rightarrow> dyn_sup \<Rightarrow> dyn_sup" where
  "announce_after_start env ag name caps meta pubkey epoch s =
     (if a_status ag \<notin> {RUNNING, SUSPENDED} then s
      else case dget (ds_children s) name of
             None \<Rightarrow> s
           | Some rec \<Rightarrow>
               (let s1 = announce_child env name caps meta pubkey epoch s
                in s1\<lparr>ds_children := dput name (rec\<lparr>cr_announced := True\<rparr>) (ds_children s1)\<rparr>))"

section \<open>Despawn and stop\<close>

text \<open>The child's task is cancelled or has ended by itself before the record is removed.\<close>

definition handle_despawn :: "dyn_env \<Rightarrow> string \<Rightarrow> dyn_sup \<Rightarrow> ds_reply \<times> dyn_sup" where
  "handle_despawn env name s =
     (case dget (ds_children s) name of
        None \<Rightarrow> (ReplyError (NoDynamicAgent name), s)
      | Some rec \<Rightarrow>
          (ReplyOk,
           maybe_announce_deregister env name (Some rec)
             (ds_deregister name (remove_child name (clear_child_marker name s)))))"

definition handle_stop :: "dyn_env \<Rightarrow> string \<Rightarrow> dyn_sup \<Rightarrow> ds_reply \<times> dyn_sup" where
  "handle_stop env name s =
     (case dget (ds_children s) name of
        None \<Rightarrow> (ReplyError (NoDynamicAgent name), s)
      | Some rec \<Rightarrow>
          (ReplyOk,
           maybe_announce_deregister env name (Some rec)
             (ds_deregister name (remove_child name (keep_store name (cr_agent rec) s)))))"

section \<open>Exit and restart of a child\<close>

definition on_child_done :: "string \<Rightarrow> exn option \<Rightarrow> dyn_sup \<Rightarrow> dyn_sup" where
  "on_child_done name exc s =
     (if exc = Some CancelledError then s
      else s\<lparr>ds_pending := ds_pending s @ [PendExit name exc]\<rparr>)"

definition remove_and_notify :: "dyn_env \<Rightarrow> string \<Rightarrow> child_rec \<Rightarrow> string \<Rightarrow> dyn_sup \<Rightarrow> dyn_sup" where
  "remove_and_notify env name rec reason s =
     notify_spawner env name reason
       (maybe_announce_deregister env name (Some rec) (remove_child name (clear_child_marker name s)))"

definition child_engine :: "dyn_env \<Rightarrow> string \<Rightarrow> dyn_sup \<Rightarrow> RestartEngine" where
  "child_engine env name s =
     (case dget (ds_engines s) name of
        Some e \<Rightarrow> e
      | None \<Rightarrow> new_engine (d_max_restarts env) (d_restart_window env) None 1 60)"

text \<open>The fresh incarnation: constructed, subscribed, given the mailbox, started. A start that
  fails raises out of this task after the record got the new agent and before it got the new
  task.\<close>

definition restart_child :: "dyn_env \<Rightarrow> string \<Rightarrow> child_rec \<Rightarrow> dyn_sup \<Rightarrow> dyn_sup option" where
  "restart_child env name rec s =
     (case ac_ctor_raises (cr_class rec) name of
        Some e \<Rightarrow>
          Some (notify_spawner env name ''restarts_exhausted''
            (terminal_cleanup env name (clear_child_marker name s)))
      | None \<Rightarrow>
          (let tid = ds_next_task s;
               aenv = ac_env (cr_class rec) name;
               fresh = new_agent aenv (ds_registry s) (a_store (cr_agent rec)) (ds_now s)
           in case transfer_mailbox (a_mailbox (cr_agent rec)) (a_mailbox fresh) of
                None \<Rightarrow> None
              | Some (old_mb, mb) \<Rightarrow>
                  (let s1 = s\<lparr>ds_handlers := (if d_has_bus env then dput name tid (ds_handlers s) else ds_handlers s),
                              ds_next_task := Suc tid\<rparr>
                   in case run aenv (start_nowait aenv (fresh\<lparr>a_mailbox := mb\<rparr>)) of
                        (Done (Some e), a) \<Rightarrow>
                          (if e \<noteq> CancelledError
                           then Some (s1\<lparr>ds_children := dput name (rec\<lparr>cr_agent := a\<rparr>) (ds_children s1)\<rparr>)
                           else Some (s1\<lparr>ds_children := dput name (rec\<lparr>cr_agent := a, cr_task := tid\<rparr>) (ds_children s1),
                                         ds_child_tasks := dput name tid (ds_child_tasks s1)\<rparr>))
                      | (pc, a) \<Rightarrow>
                          Some (s1\<lparr>ds_children := dput name (rec\<lparr>cr_agent := a, cr_task := tid\<rparr>) (ds_children s1),
                                   ds_child_tasks := dput name tid (ds_child_tasks s1)\<rparr>))))"

definition was_suspended :: "agent \<Rightarrow> bool" where
  "was_suspended a \<longleftrightarrow> dget (a_state a) SUSPEND_STATE_KEY \<noteq> None"

definition handle_child_exit :: "dyn_env \<Rightarrow> string \<Rightarrow> exn option \<Rightarrow> dyn_sup \<Rightarrow> dyn_sup option" where
  "handle_child_exit env name exc s =
     (case dget (ds_children s) name of
        None \<Rightarrow> Some s
      | Some rec \<Rightarrow>
          (let crashed = exc \<noteq> None
           in if crashed \<and> \<not> a_reached_loop (cr_agent rec) then
                (let s1 = terminal_cleanup env name s
                 in Some (if cr_acknowledged rec
                          then notify_spawner env name
                                 (a_start_phase (cr_agent rec) @ '': '' @ d_repr env (the exc)) s1
                          else s1))
              else if d_restart_mode env = NEVER then
                Some (remove_and_notify env name rec
                        (if crashed then ''restarts_exhausted'' else ''clean_exit'') s)
              else if d_restart_mode env = TRANSIENT \<and> \<not> crashed then
                Some (remove_and_notify env name rec ''clean_exit'' s)
              else
                (let engine = child_engine env name s;
                     (verdict, engine') =
                       (if was_suspended (cr_agent rec) then (exempt_verdict engine, engine)
                        else record_crash engine (ds_now s) 0);
                     s1 = s\<lparr>ds_restart_counts := dput name (get_int (ds_restart_counts s) name + 1) (ds_restart_counts s),
                            ds_engines := dput name engine' (ds_engines s)\<rparr>
                 in if v_action verdict = Exhausted
                    then Some (remove_and_notify env name rec ''restarts_exhausted'' s1)
                    else restart_child env name rec s1)))"

definition ds_on_stop :: "dyn_sup \<Rightarrow> dyn_sup" where
  "ds_on_stop s = s\<lparr>ds_pending := []\<rparr>"

definition all_dynamic_agents :: "dyn_sup \<Rightarrow> agent list" where
  "all_dynamic_agents s = map (cr_agent \<circ> snd) (ds_children s)"

section \<open>Admission limits\<close>

text \<open>
  The invariant: at most \<open>max_children\<close> children, at most \<open>max_total_spawns\<close> spawns ever,
  the same per spawner, and one epoch per spawn, so that no two live children share one.
\<close>

definition in_cap :: "int option \<Rightarrow> int \<Rightarrow> bool" where
  "in_cap cap n = (case cap of None \<Rightarrow> True | Some c \<Rightarrow> n \<le> max 0 c)"

definition epochs_ok :: "dyn_sup \<Rightarrow> bool" where
  "epochs_ok s \<longleftrightarrow> distinct (map (cr_epoch \<circ> snd) (ds_children s))
     \<and> (\<forall>r \<in> set (map snd (ds_children s)). cr_epoch r \<le> ds_spawn_epoch s)"

definition admission_ok :: "dyn_env \<Rightarrow> dyn_sup \<Rightarrow> bool" where
  "admission_ok env s \<longleftrightarrow>
     dict_ok (ds_children s)
   \<and> in_cap (d_max_children env) (int (length (ds_children s)))
   \<and> in_cap (d_max_total_spawns env) (ds_total_spawns s)
   \<and> (\<forall>sp. in_cap (d_max_children_per_spawner env) (live_for_spawner sp s))
   \<and> (\<forall>sp. in_cap (d_max_total_spawns_per_spawner env) (get_int (ds_spawner_total_counts s) sp))
   \<and> ds_total_spawns s = ds_spawn_epoch s \<and> epochs_ok s"

text \<open>Two states agree on what admission looks at, up to removed children.\<close>

definition admission_le :: "dyn_sup \<Rightarrow> dyn_sup \<Rightarrow> bool" where
  "admission_le s' s \<longleftrightarrow>
     (\<exists>P. map (\<lambda>(n, r). (n, cr_epoch r)) (ds_children s') =
           filter P (map (\<lambda>(n, r). (n, cr_epoch r)) (ds_children s)))
   \<and> ds_total_spawns s' = ds_total_spawns s \<and> ds_spawner_names s' = ds_spawner_names s
   \<and> ds_spawner_total_counts s' = ds_spawner_total_counts s \<and> ds_spawn_epoch s' = ds_spawn_epoch s"

lemma in_cap_mono: "in_cap cap n \<Longrightarrow> m \<le> n \<Longrightarrow> in_cap cap m"
  by (auto simp: in_cap_def split: option.splits)

lemma in_cap_step: "in_cap cap n \<Longrightarrow> \<not> reached cap n \<Longrightarrow> in_cap cap (n + 1)"
  by (auto simp: in_cap_def reached_def split: option.splits)

text \<open>The children's names and epochs, as one list.\<close>

definition name_epochs :: "dyn_sup \<Rightarrow> (string \<times> int) list" where
  "name_epochs s = map (\<lambda>(n, r). (n, cr_epoch r)) (ds_children s)"

lemma name_epochs_simps:
  "map fst (ds_children s) = map fst (name_epochs s)" "length (ds_children s) = length (name_epochs s)"
  "map (cr_epoch \<circ> snd) (ds_children s) = map snd (name_epochs s)"
  "(\<forall>r \<in> set (map snd (ds_children s)). cr_epoch r \<le> k) \<longleftrightarrow> (\<forall>e \<in> set (map snd (name_epochs s)). e \<le> k)"
  by (auto simp: name_epochs_def case_prod_beta comp_def)

lemma admission_ok_alt:
  "admission_ok env s \<longleftrightarrow>
     distinct (map fst (name_epochs s))
   \<and> in_cap (d_max_children env) (int (length (name_epochs s)))
   \<and> in_cap (d_max_total_spawns env) (ds_total_spawns s)
   \<and> (\<forall>sp. in_cap (d_max_children_per_spawner env)
        (int (length (filter (\<lambda>n. dget (ds_spawner_names s) n = Some sp) (map fst (name_epochs s))))))
   \<and> (\<forall>sp. in_cap (d_max_total_spawns_per_spawner env) (get_int (ds_spawner_total_counts s) sp))
   \<and> ds_total_spawns s = ds_spawn_epoch s \<and> distinct (map snd (name_epochs s))
   \<and> (\<forall>e \<in> set (map snd (name_epochs s)). e \<le> ds_spawn_epoch s)"
  unfolding admission_ok_def epochs_ok_def live_for_spawner_def name_epochs_simps ..

lemma distinct_map_filter_f: "distinct (map f xs) \<Longrightarrow> distinct (map f (filter P xs))"
  by (induction xs) auto

lemma length_filter_map_filter_le:
  "length (filter Q (map f (filter P xs))) \<le> length (filter Q (map f xs))"
  by (induction xs) auto

lemma admission_ok_le:
  assumes "admission_ok env s" "admission_le s' s"
  shows "admission_ok env s'"
proof -
  obtain P where ne: "name_epochs s' = filter P (name_epochs s)"
    and f: "ds_total_spawns s' = ds_total_spawns s" "ds_spawner_names s' = ds_spawner_names s"
      "ds_spawner_total_counts s' = ds_spawner_total_counts s" "ds_spawn_epoch s' = ds_spawn_epoch s"
    using assms(2) by (auto simp: admission_le_def name_epochs_def)
  have "in_cap c (int (length (filter P (name_epochs s))))" if "in_cap c (int (length (name_epochs s)))" for c
    using that by (rule in_cap_mono) simp
  moreover have "in_cap c (int (length (filter Q (map fst (filter P (name_epochs s))))))"
    if "in_cap c (int (length (filter Q (map fst (name_epochs s)))))" for c Q
    using that by (rule in_cap_mono) (simp only: of_nat_le_iff length_filter_map_filter_le)
  ultimately show ?thesis
    using assms(1) unfolding admission_ok_alt ne f
    by (auto simp: distinct_map_filter_f)
qed

lemma admission_le_refl [simp]: "admission_le s s"
  by (auto simp: admission_le_def intro: exI [of _ "\<lambda>x. True"])

lemma admission_le_trans: "admission_le a b \<Longrightarrow> admission_le b c \<Longrightarrow> admission_le a c"
  by (auto simp: admission_le_def filter_filter)

text \<open>Everything but a successful admission only shrinks what admission looks at.\<close>

named_theorems shrinks \<open>operations that add no child\<close>

lemma le_other_fields [shrinks]:
  "admission_le (ds_log ev s) s" "admission_le (s\<lparr>ds_pending := pend\<rparr>) s" "admission_le (s\<lparr>ds_now := t\<rparr>) s"
  "admission_le (s\<lparr>ds_current_spawner := cs\<rparr>) s" "admission_le (ds_deregister n s) s"
  "admission_le (keep_store n a s) s" "admission_le (announce_child env n c m p e s) s"
  "admission_le (announce_deregister env n e s) s" "admission_le (notify_spawner env n r s) s"
  "admission_le (maybe_announce_deregister env n rc s) s" "admission_le (on_child_done n x s) s"
  "admission_le (s\<lparr>ds_handlers := h\<rparr>) s"
  by (auto simp: admission_le_def ds_log_def ds_deregister_def keep_store_def announce_child_def
      announce_deregister_def notify_spawner_def maybe_announce_deregister_def on_child_done_def
      intro: exI [of _ "\<lambda>x. True"] split: option.splits)

lemma admission_leI:
  "map (\<lambda>(n, r). (n, cr_epoch r)) (ds_children s') = map (\<lambda>(n, r). (n, cr_epoch r)) (ds_children s) \<Longrightarrow>
   ds_total_spawns s' = ds_total_spawns s \<Longrightarrow> ds_spawner_names s' = ds_spawner_names s \<Longrightarrow>
   ds_spawner_total_counts s' = ds_spawner_total_counts s \<Longrightarrow> ds_spawn_epoch s' = ds_spawn_epoch s \<Longrightarrow>
   admission_le s' s"
  unfolding admission_le_def by (auto intro: exI [of _ "\<lambda>x. True"])

lemma map_dput_same_epoch:
  "dget d n = Some r \<Longrightarrow> cr_epoch r' = cr_epoch r \<Longrightarrow>
   map (\<lambda>(n, r). (n, cr_epoch r)) (dput n r' d) = map (\<lambda>(n, r). (n, cr_epoch r)) d"
  by (induction d) auto

lemma le_same_epoch [shrinks]:
  "dget (ds_children s) n = Some r \<Longrightarrow> cr_epoch r' = cr_epoch r \<Longrightarrow>
   admission_le (s\<lparr>ds_children := dput n r' (ds_children s)\<rparr>) s"
  by (auto simp: admission_le_def map_dput_same_epoch intro: exI [of _ "\<lambda>x. True"])

lemma le_remove_child [shrinks]: "admission_le (remove_child n s) s"
proof -
  have "map (\<lambda>(n, r). (n, cr_epoch r)) (dpop n d) =
        filter (\<lambda>(k, e). n \<noteq> k) (map (\<lambda>(n, r). (n, cr_epoch r)) d)" for d
    by (induction d) (auto simp: AList.delete_eq)
  then show ?thesis
    unfolding admission_le_def remove_child_def by auto
qed

lemma le_update_rec [shrinks]:
  "(\<And>r. cr_epoch (f r) = cr_epoch r) \<Longrightarrow> admission_le (update_rec e f s) s"
  by (auto simp: admission_le_def update_rec_def comp_def case_prod_beta intro: exI [of _ "\<lambda>x. True"])

lemma le_clear_child_marker [shrinks]: "admission_le (clear_child_marker n s) s"
  unfolding clear_child_marker_def
  by (auto simp: Let_def split: option.splits
      intro!: admission_le_trans [OF le_other_fields(6)] le_same_epoch)

lemma le_terminal_cleanup [shrinks]: "admission_le (terminal_cleanup env n s) s"
  unfolding terminal_cleanup_def Let_def
  by (rule admission_le_trans [OF le_other_fields(10)], rule admission_le_trans [OF le_remove_child])
     (auto intro: admission_le_trans [OF le_other_fields(1)] admission_le_trans [OF le_other_fields(12)] le_other_fields)

lemma le_remove_and_notify [shrinks]: "admission_le (remove_and_notify env n rc r s) s"
  unfolding remove_and_notify_def
  by (rule admission_le_trans [OF le_other_fields(9)], rule admission_le_trans [OF le_other_fields(10)],
      rule admission_le_trans [OF le_remove_child], rule le_clear_child_marker)

lemma le_finish_spawn [shrinks]:
  "admission_le (finish_spawn env ag err msg n d caps meta pk ep s) s"
proof -
  have "admission_le (update_rec ep (\<lambda>r. r\<lparr>cr_acknowledged := True\<rparr>) s) s"
    "admission_le (update_rec ep (\<lambda>r. r\<lparr>cr_announced := True\<rparr>) x) x" for x
    by (rule le_update_rec; simp)+
  then show ?thesis
    unfolding finish_spawn_def Let_def
    by (auto intro: admission_le_trans [OF le_other_fields(1)] admission_le_trans [OF le_other_fields(7)]
        le_terminal_cleanup admission_le_trans)
qed

lemma le_announce_after_start [shrinks]: "admission_le (announce_after_start env ag n caps meta pk ep s) s"
  unfolding announce_after_start_def Let_def
  by (auto simp: announce_child_def ds_log_def map_dput_same_epoch split: option.splits
      intro!: admission_leI)

lemma le_despawn [shrinks]: "admission_le (snd (handle_despawn env n s)) s"
  unfolding handle_despawn_def
  by (auto split: option.splits intro!: admission_le_trans [OF le_other_fields(10)]
      admission_le_trans [OF le_other_fields(5)] admission_le_trans [OF le_remove_child] le_clear_child_marker)

lemma le_stop [shrinks]: "admission_le (snd (handle_stop env n s)) s"
  unfolding handle_stop_def
  by (auto split: option.splits intro!: admission_le_trans [OF le_other_fields(10)]
      admission_le_trans [OF le_other_fields(5)] admission_le_trans [OF le_remove_child] le_other_fields)

lemma le_restart_child [shrinks]:
  "dget (ds_children s) n = Some rec \<Longrightarrow> restart_child env n rec s = Some s' \<Longrightarrow> admission_le s' s"
proof -
  assume rec: "dget (ds_children s) n = Some rec" and r: "restart_child env n rec s = Some s'"
  have fail: "admission_le (notify_spawner env n x (terminal_cleanup env n (clear_child_marker n s))) s" for x
    by (rule admission_le_trans [OF le_other_fields(9)], rule admission_le_trans [OF le_terminal_cleanup],
        rule le_clear_child_marker)
  show ?thesis
  proof (cases "ac_ctor_raises (cr_class rec) n")
    case (Some e)
    with r fail show ?thesis by (auto simp: restart_child_def)
  next
    case None
    with r show ?thesis
      unfolding restart_child_def
      by (auto simp: Let_def map_dput_same_epoch [OF rec] split: option.splits prod.splits task_pc.splits if_splits
          intro!: admission_leI)
  qed
qed

lemma le_child_exit [shrinks]:
  assumes "handle_child_exit env n exc s = Some s'"
  shows "admission_le s' s"
proof (cases "dget (ds_children s) n")
  case None
  with assms show ?thesis by (simp add: handle_child_exit_def)
next
  case (Some rec)
  have eng: "admission_le (s\<lparr>ds_restart_counts := c, ds_engines := e\<rparr>) s" for c e
    by (auto simp: admission_le_def intro: exI [of _ "\<lambda>x. True"])
  have "restart_child env n rec (s\<lparr>ds_restart_counts := c, ds_engines := e\<rparr>) = Some s' \<Longrightarrow> admission_le s' s" for c e
    by (rule admission_le_trans [OF le_restart_child eng]) (use Some in auto)
  moreover have "admission_le (remove_and_notify env n rec r (s\<lparr>ds_restart_counts := c, ds_engines := e\<rparr>)) s" for r c e
    by (rule admission_le_trans [OF le_remove_and_notify eng])
  moreover have "admission_le (notify_spawner env n r (terminal_cleanup env n s)) s" for r
    by (rule admission_le_trans [OF le_other_fields(9) le_terminal_cleanup])
  ultimately show ?thesis
    using assms Some le_remove_and_notify [of env n rec _ s] le_terminal_cleanup [of env n s]
    unfolding handle_child_exit_def
    by (auto simp: Let_def split: if_splits prod.splits)
qed

subsection \<open>Reachable states\<close>

text \<open>The governance hook may await, so other code may run meanwhile and the registry may change;
  no spawn of this supervisor can run, because it handles one message at a time.\<close>

definition hook_adds_nothing :: "dyn_env \<Rightarrow> bool" where
  "hook_adds_nothing env \<longleftrightarrow>
     (\<forall>c n cfg s. let s' = snd (d_on_spawn_requested env c n cfg s) in
        admission_le s' s \<and> dget (ds_children s') n = None
        \<or> dget (ds_children s) n \<noteq> None)"

lemma admit_ok:
  assumes "admission_ok env s" "dget (ds_children s) (sq_name q) = None"
    and "\<not> reached (d_max_children env) (int (length (ds_children s)))"
    and "\<not> reached (d_max_total_spawns env) (ds_total_spawns s)"
    and "\<not> reached (d_max_children_per_spawner env) (live_for_spawner (sq_spawner q) s)"
    and "\<not> reached (d_max_total_spawns_per_spawner env) (get_int (ds_spawner_total_counts s) (sq_spawner q))"
  shows "admission_ok env (snd (admit env msg q c s))"
proof (cases "case ds_registry s of None \<Rightarrow> Inr None
     | Some r \<Rightarrow> (case register (sq_name q) None True
          (if ac_is_dynamic_supervisor c then [DYNAMIC_SUPERVISOR_CAPABILITY] else []) [] r of
         Inl e \<Rightarrow> Inl e | Inr r' \<Rightarrow> Inr (Some r'))")
  case (Inl e)
  then show ?thesis using assms(1) by (simp add: admit_def Let_def)
next
  case (Inr reg)
  let ?s = "snd (admit env msg q c s)"
  let ?n = "sq_name q" and ?sp = "sq_spawner q"
  have dput_new: "map (\<lambda>(n, r). (n, cr_epoch r)) (dput ?n r d) = map (\<lambda>(n, r). (n, cr_epoch r)) d @ [(?n, cr_epoch r)]"
    if "dget d ?n = None" for r and d :: "(string, child_rec) dict"
    using that by (induction d) (auto split: if_splits)
  have f: "name_epochs ?s = name_epochs s @ [(?n, ds_spawn_epoch s + 1)]"
    "ds_total_spawns ?s = ds_total_spawns s + 1" "ds_spawn_epoch ?s = ds_spawn_epoch s + 1"
    "ds_spawner_names ?s = dput ?n ?sp (ds_spawner_names s)"
    "ds_spawner_total_counts ?s = dput ?sp (get_int (ds_spawner_total_counts s) ?sp + 1) (ds_spawner_total_counts s)"
    using Inr by (auto simp: admit_def Let_def ds_log_def name_epochs_def dput_new [OF assms(2)])
  have new: "?n \<notin> set (map fst (name_epochs s))"
    using assms(2) unfolding name_epochs_simps(1) [symmetric] by (simp add: map_of_eq_None_iff)
  then have live: "length (filter (\<lambda>n. dget (dput ?n ?sp (ds_spawner_names s)) n = Some sp) (map fst (name_epochs ?s)))
      = length (filter (\<lambda>n. dget (ds_spawner_names s) n = Some sp) (map fst (name_epochs s))) + (if sp = ?sp then 1 else 0)"
    for sp
    unfolding f
    by (auto simp: dict_simps intro!: arg_cong [where f = length] filter_cong) (metis fst_conv image_eqI)+
  have tot: "get_int (dput ?sp k d) sp = (if sp = ?sp then k else get_int d sp)" for k d sp
    by (simp add: get_int_def dict_simps)
  have caps: "in_cap (d_max_children env) (int (length (name_epochs s)) + 1)"
    "in_cap (d_max_total_spawns env) (ds_total_spawns s + 1)"
    "in_cap (d_max_children_per_spawner env) (live_for_spawner ?sp s + 1)"
    "in_cap (d_max_total_spawns_per_spawner env) (get_int (ds_spawner_total_counts s) ?sp + 1)"
    using assms by (auto simp: admission_ok_def name_epochs_simps(2) intro: in_cap_step)
  have spawner: "in_cap (d_max_children_per_spawner env) (int (length
      (filter (\<lambda>n. dget (ds_spawner_names ?s) n = Some sp) (map fst (name_epochs ?s)))))" for sp
    using caps(3) assms(1) unfolding f(4) live
    by (auto simp: admission_ok_alt live_for_spawner_def name_epochs_simps(1) add.commute)
  show ?thesis
    unfolding admission_ok_alt
    using assms(1) caps spawner new
    by (auto simp: admission_ok_alt f tot add.commute)
qed

lemma admission_error_None:
  "admission_error env q s = None \<Longrightarrow>
     \<not> reached (d_max_children env) (int (length (ds_children s)))
   \<and> \<not> reached (d_max_total_spawns env) (ds_total_spawns s)
   \<and> \<not> reached (d_max_children_per_spawner env) (live_for_spawner (sq_spawner q) s)
   \<and> \<not> reached (d_max_total_spawns_per_spawner env) (get_int (ds_spawner_total_counts s) (sq_spawner q))"
  by (auto simp: admission_error_def split: if_splits)

lemma admission_le_counts:
  assumes "admission_le s' s"
  shows "length (ds_children s') \<le> length (ds_children s)" "ds_total_spawns s' = ds_total_spawns s"
    "live_for_spawner sp s' \<le> live_for_spawner sp s" "ds_spawner_total_counts s' = ds_spawner_total_counts s"
proof -
  obtain P where ne: "name_epochs s' = filter P (name_epochs s)"
    and f: "ds_total_spawns s' = ds_total_spawns s" "ds_spawner_names s' = ds_spawner_names s"
      "ds_spawner_total_counts s' = ds_spawner_total_counts s"
    using assms by (auto simp: admission_le_def name_epochs_def)
  show "length (ds_children s') \<le> length (ds_children s)"
    unfolding name_epochs_simps ne by simp
  show "live_for_spawner sp s' \<le> live_for_spawner sp s"
    unfolding live_for_spawner_def name_epochs_simps ne f of_nat_le_iff
    by (rule length_filter_map_filter_le)
qed (use assms in \<open>auto simp: admission_le_def\<close>)

lemma handle_spawn_ok:
  assumes "admission_ok env s" "hook_adds_nothing env"
  shows "admission_ok env (snd (handle_spawn env msg s))"
proof -
  let ?q = "parse_spawn (m_payload msg)"
  have goal: "admission_ok env (snd (admit env msg ?q c (s1\<lparr>ds_current_spawner := None\<rparr>)))
      \<and> admission_ok env (s1\<lparr>ds_current_spawner := None\<rparr>)"
    if new: "dget (ds_children s) (sq_name ?q) = None" and adm: "admission_error env ?q s = None"
      and hook: "d_on_spawn_requested env c (sq_name ?q) cfg (s\<lparr>ds_current_spawner := Some (sq_spawner ?q)\<rparr>) = (r, s1)"
    for c cfg r s1
  proof -
    let ?s0 = "s\<lparr>ds_current_spawner := Some (sq_spawner ?q)\<rparr>"
    let ?s2 = "s1\<lparr>ds_current_spawner := None\<rparr>"
    from hook have s1: "s1 = snd (d_on_spawn_requested env c (sq_name ?q) cfg ?s0)" by simp
    have h: "admission_le s1 ?s0" "dget (ds_children s1) (sq_name ?q) = None"
      using assms(2) new unfolding hook_adds_nothing_def Let_def s1 by force+
    have le: "admission_le ?s2 s"
      by (rule admission_le_trans [OF le_other_fields(4) admission_le_trans [OF h(1) le_other_fields(4)]])
    have ok: "admission_ok env ?s2" by (rule admission_ok_le [OF assms(1) le])
    have "\<not> reached (d_max_children env) (int (length (ds_children ?s2)))"
      "\<not> reached (d_max_total_spawns env) (ds_total_spawns ?s2)"
      "\<not> reached (d_max_children_per_spawner env) (live_for_spawner (sq_spawner ?q) ?s2)"
      "\<not> reached (d_max_total_spawns_per_spawner env) (get_int (ds_spawner_total_counts ?s2) (sq_spawner ?q))"
      using admission_error_None [OF adm] admission_le_counts(1,2,4) [OF le]
        admission_le_counts(3) [OF le, of "sq_spawner ?q"]
      by (auto simp: reached_def split: option.splits)
    with admit_ok [OF ok] h(2) ok show ?thesis by simp
  qed
  show ?thesis
    using assms(1) goal
    by (auto simp: handle_spawn_def Let_def split: option.splits sum.splits prod.splits bool.splits)
       (metis snd_conv)+
qed

text \<open>The steps of the supervisor: it handles a message, a background task of it runs, a child's
  agent advances, a child's task ends, time passes.\<close>

inductive ds_step :: "dyn_env \<Rightarrow> dyn_sup \<Rightarrow> dyn_sup \<Rightarrow> bool" for env :: dyn_env where
  Spawn: "ds_step env s (snd (handle_spawn env msg s))"
| Despawn: "ds_step env s (snd (handle_despawn env name s))"
| StopChild: "ds_step env s (snd (handle_stop env name s))"
| ChildRuns: "dget (ds_children s) name = Some rec \<Longrightarrow>
    ds_step env s (s\<lparr>ds_children := dput name (rec\<lparr>cr_agent := a\<rparr>) (ds_children s)\<rparr>)"
| ChildDone: "ds_step env s (on_child_done name exc s)"
| FinishSpawn: "ds_pending s = ps @ PendReply msg name tid d caps meta pk ep # qs \<Longrightarrow>
    ds_step env s (finish_spawn env ag err msg name d caps meta pk ep (s\<lparr>ds_pending := ps @ qs\<rparr>))"
| AnnounceAfterStart: "ds_pending s = ps @ PendAnnounce name tid caps meta pk ep # qs \<Longrightarrow>
    ds_step env s (announce_after_start env ag name caps meta pk ep (s\<lparr>ds_pending := ps @ qs\<rparr>))"
| ChildExit: "ds_pending s = ps @ PendExit name exc # qs \<Longrightarrow>
    handle_child_exit env name exc (s\<lparr>ds_pending := ps @ qs\<rparr>) = Some s' \<Longrightarrow> ds_step env s s'"
| Tick: "0 \<le> d \<Longrightarrow> ds_step env s (s\<lparr>ds_now := ds_now s + d\<rparr>)"
| OnStop: "ds_step env s (ds_on_stop s)"

lemma ds_step_ok:
  assumes "hook_adds_nothing env" "admission_ok env s" "ds_step env s s'"
  shows "admission_ok env s'"
proof (cases "\<exists>msg. s' = snd (handle_spawn env msg s)")
  case True
  with handle_spawn_ok [OF assms(2,1)] show ?thesis by auto
next
  case False
  with assms(3) have "admission_le s' s"
  proof cases
    case (FinishSpawn ps msg name tid d caps meta pk ep qs ag err)
    then show ?thesis by (auto intro: admission_le_trans [OF le_finish_spawn le_other_fields(2)])
  next
    case (AnnounceAfterStart ps name tid caps meta pk ep qs ag)
    then show ?thesis by (auto intro: admission_le_trans [OF le_announce_after_start le_other_fields(2)])
  next
    case (ChildExit ps name exc qs)
    then show ?thesis by (auto intro: admission_le_trans [OF le_child_exit le_other_fields(2)])
  qed (auto simp: ds_on_stop_def intro: le_despawn le_stop le_same_epoch le_other_fields)
  with assms(2) show ?thesis by (rule admission_ok_le)
qed

interpretation dyn_machine:
  invariant_machine "\<lambda>s. \<exists>reg now. s = new_dyn_sup reg now"
    "\<lambda>s s'. hook_adds_nothing env \<and> ds_step env s s'" "admission_ok env" for env
proof
  fix s assume "\<exists>reg now. s = new_dyn_sup reg now"
  then show "admission_ok env s"
    by (auto simp: admission_ok_def new_dyn_sup_def epochs_ok_def in_cap_def live_for_spawner_def
        get_int_def split: option.splits)
qed (auto intro: ds_step_ok)

text \<open>C3. Admission limits hold in every reachable state, under every interleaving of spawns,
  despawns, stops, child exits, restarts, deferred replies and announcements: the number of live
  children, the number of spawns ever admitted, and both counted per spawner, never exceed their
  configured caps; the epoch counter counts admissions, and live children have distinct epochs.\<close>

theorem admission_limits_hold:
  assumes "hook_adds_nothing env" and "(ds_step env)\<^sup>*\<^sup>* (new_dyn_sup reg now) s"
  shows "in_cap (d_max_children env) (int (length (ds_children s)))
    \<and> in_cap (d_max_total_spawns env) (ds_total_spawns s)
    \<and> (\<forall>sp. in_cap (d_max_children_per_spawner env) (live_for_spawner sp s)
          \<and> in_cap (d_max_total_spawns_per_spawner env) (get_int (ds_spawner_total_counts s) sp))
    \<and> ds_total_spawns s = ds_spawn_epoch s
    \<and> distinct (map (cr_epoch \<circ> snd) (ds_children s))"
proof -
  have "(\<lambda>s s'. hook_adds_nothing env \<and> ds_step env s s') = ds_step env"
    using assms(1) by (simp add: fun_eq_iff)
  with dyn_machine.reachable_inv [of "new_dyn_sup reg now" env s] assms(2)
  have "admission_ok env s" by auto
  then show ?thesis by (auto simp: admission_ok_def epochs_ok_def)
qed

text \<open>A supervisor without limits whose only importable class is the base class.\<close>

definition base_class :: agent_class where
  "base_class = \<lparr>ac_env = base_env, ac_ctor_raises = \<lambda>n. None, ac_is_dynamic_supervisor = False,
     ac_capabilities = [], ac_capability_metadata = []\<rparr>"

definition open_dyn_env :: "restart_mode \<Rightarrow> dyn_env" where
  "open_dyn_env mode =
     \<lparr>d_name = ''dyn'', d_max_children = None, d_max_total_spawns = None, d_restart_mode = mode,
      d_max_restarts = 3, d_restart_window = 60, d_spawner_allowlist = None,
      d_max_children_per_spawner = None, d_max_total_spawns_per_spawner = None, d_has_bus = True,
      d_distributed = False, d_import = \<lambda>m c. Inr base_class,
      d_on_spawn_requested = \<lambda>c n cfg s. (Inr True, s), d_identity = \<lambda>n. '''', d_repr = \<lambda>e. ''error''\<rparr>"

definition spawn_message :: "string \<Rightarrow> string \<Rightarrow> message" where
  "spawn_message name spawn_id = (default_message ''m'' 0)
     \<lparr>m_type := ''civitas.dynamic.spawn'', m_payload :=
        [(''class_path'', JStr ''pkg.Agent''), (''name'', JStr name), (''config'', JDict []),
         (''spawner'', JStr ''boss''), (''wait'', JBool False), (''spawn_id'', JStr spawn_id)]\<rparr>"

lemma hook_adds_nothing_open: "hook_adds_nothing (open_dyn_env mode\<lparr>d_max_children := mc\<rparr>)"
  by (auto simp: hook_adds_nothing_def open_dyn_env_def)

lemma open_dyn_env_fields [simp]:
  "d_spawner_allowlist (open_dyn_env mode) = None" "d_has_bus (open_dyn_env mode)"
  "\<not> d_distributed (open_dyn_env mode)" "d_on_spawn_requested (open_dyn_env mode) c n cfg s = (Inr True, s)"
  "d_restart_mode (open_dyn_env mode) = mode" "d_import (open_dyn_env mode) m k = Inr base_class"
  "ac_ctor_raises base_class n = None" "\<not> ac_is_dynamic_supervisor base_class" "ac_env base_class = base_env"
  by (simp_all add: open_dyn_env_def base_class_def)

theorem admission_limits_hold_witness:
  "length (ds_children (snd (handle_spawn (open_dyn_env TRANSIENT\<lparr>d_max_children := Some 1\<rparr>)
      (spawn_message ''b'' ''2'') (snd (handle_spawn (open_dyn_env TRANSIENT\<lparr>d_max_children := Some 1\<rparr>)
        (spawn_message ''a'' ''1'') (new_dyn_sup (Some (new_registry True)) 0)))))) \<le> 1"
proof -
  let ?env = "open_dyn_env TRANSIENT\<lparr>d_max_children := Some 1\<rparr>"
  let ?s0 = "new_dyn_sup (Some (new_registry True)) 0"
  let ?s1 = "snd (handle_spawn ?env (spawn_message ''a'' ''1'') ?s0)"
  let ?s2 = "snd (handle_spawn ?env (spawn_message ''b'' ''2'') ?s1)"
  have "(ds_step ?env)\<^sup>*\<^sup>* ?s0 ?s2"
    by (rule rtranclp.rtrancl_into_rtrancl [OF r_into_rtranclp]) (rule ds_step.Spawn)+
  from admission_limits_hold [OF hook_adds_nothing_open this, THEN conjunct1] show ?thesis
    by (simp add: in_cap_def)
qed

section \<open>Idempotent spawn\<close>

text \<open>A spawn request that is delivered again never spawns twice: while the child of the first
  delivery is in the table, a request with the same name and the same non-empty spawn identifier is
  answered with the child's current state, one with another identifier is refused, and neither
  changes the supervisor.\<close>

theorem spawn_idempotent:
  assumes "dget (ds_children s) (sq_name (parse_spawn (m_payload msg))) = Some rec"
  shows "handle_spawn env msg s =
     (Inr (Some (if sq_spawn_id (parse_spawn (m_payload msg)) \<noteq> ''''
                    \<and> sq_spawn_id (parse_spawn (m_payload msg)) = cr_spawn_id rec
                 then ReplySpawned (sq_name (parse_spawn (m_payload msg)))
                        (a_status (cr_agent rec) \<in> {RUNNING, SUSPENDED}) (a_status (cr_agent rec))
                 else ReplyError (AlreadyRunning (sq_name (parse_spawn (m_payload msg)))))), s)"
  using assms by (simp add: handle_spawn_def Let_def)

lemma parse_spawn_message [simp]:
  "parse_spawn (m_payload (spawn_message name sid)) =
     \<lparr>sq_class_path = ''pkg.Agent'', sq_name = name, sq_config = [], sq_spawner = ''boss'',
      sq_wait = False, sq_spawn_id = sid\<rparr>"
  by (simp add: parse_spawn_def spawn_message_def get_str_def)

lemma resolve_sample [simp]: "resolve_class (open_dyn_env mode) ''pkg.Agent'' = Inr base_class"
  by (simp add: resolve_class_def py_rpartition_def Let_def)

text \<open>What the open supervisor does with a spawn of a name that is free.\<close>

lemma open_spawn:
  assumes "dget (ds_children s) name = None" "ds_registry s = Some r" "lookup r name = None"
  shows "\<exists>s' rec. handle_spawn (open_dyn_env mode) (spawn_message name sid) s =
        (Inr (Some (ReplySpawned name False INITIALIZING)), s')
      \<and> dget (ds_children s') name = Some rec \<and> cr_spawn_id rec = sid \<and> cr_class rec = base_class
      \<and> a_status (cr_agent rec) = INITIALIZING
      \<and> (\<exists>r'. ds_registry s' = Some r' \<and> lookup r' name \<noteq> None)"
proof -
  obtain r' where r': "register name None True [] [] r = Inr r'" "lookup r' name \<noteq> None"
    using local_registry.reg_succeeds [OF assms(3), of None True "[]" "[]"] register_lookup by fastforce
  have adm: "admission_error (open_dyn_env mode) (parse_spawn (m_payload (spawn_message name sid))) s = None"
    using assms(2,3) by (simp add: admission_error_def open_dyn_env_def reached_def)
  have st: "a_status (start_nowait e x) = INITIALIZING" for e x
    by (simp add: start_nowait_def)
  show ?thesis
    using assms(1,2) adm r'
    by (auto simp: handle_spawn_def Let_def admit_def ds_log_def dict_simps st)
qed

theorem spawn_idempotent_witness:
  "\<exists>s' rec. handle_spawn (open_dyn_env TRANSIENT) (spawn_message ''a'' ''1'') (new_dyn_sup (Some (new_registry True)) 0)
      = (Inr (Some (ReplySpawned ''a'' False INITIALIZING)), s') \<and> dget (ds_children s') ''a'' = Some rec
    \<and> handle_spawn (open_dyn_env TRANSIENT) (spawn_message ''a'' ''1'') s'
      = (Inr (Some (ReplySpawned ''a'' False INITIALIZING)), s')"
proof -
  let ?s = "new_dyn_sup (Some (new_registry True)) 0"
  have "dget (ds_children ?s) ''a'' = None" "ds_registry ?s = Some (new_registry True)"
    "lookup (new_registry True) ''a'' = None"
    by (simp_all add: new_dyn_sup_def new_registry_def lookup_def)
  from open_spawn [OF this, of TRANSIENT "''1''"] obtain s' rec where s':
    "handle_spawn (open_dyn_env TRANSIENT) (spawn_message ''a'' ''1'') ?s =
        (Inr (Some (ReplySpawned ''a'' False INITIALIZING)), s')"
    "dget (ds_children s') ''a'' = Some rec" "cr_spawn_id rec = ''1''" "a_status (cr_agent rec) = INITIALIZING"
    by blast
  have "dget (ds_children s') (sq_name (parse_spawn (m_payload (spawn_message ''a'' ''1'')))) = Some rec"
    using s'(2) by simp
  from spawn_idempotent [OF this, of "open_dyn_env TRANSIENT"] s' show ?thesis by auto
qed

section \<open>Removal\<close>

lemma maybe_announce_fields [simp]:
  "ds_registry (maybe_announce_deregister env n rc s) = ds_registry s"
  "ds_children (maybe_announce_deregister env n rc s) = ds_children s"
  "ds_stores (maybe_announce_deregister env n rc s) = ds_stores s"
  by (simp_all add: maybe_announce_deregister_def announce_deregister_def ds_log_def split: option.split)

lemma notify_fields [simp]:
  "ds_registry (notify_spawner env n x s) = ds_registry s" "ds_children (notify_spawner env n x s) = ds_children s"
  by (simp_all add: notify_spawner_def ds_log_def split: option.split)

lemma remove_child_fields [simp]:
  "ds_registry (remove_child n s) = ds_registry s" "ds_children (remove_child n s) = dpop n (ds_children s)"
  "ds_stores (remove_child n s) = ds_stores s"
  by (simp_all add: remove_child_def)

lemma clear_marker_fields [simp]:
  "ds_registry (clear_child_marker n s) = ds_registry s"
  "dpop n (ds_children (clear_child_marker n s)) = dpop n (ds_children s)"
  by (auto simp: clear_child_marker_def keep_store_def Let_def AList.delete_update_same split: option.split)

lemma ds_deregister_fields [simp]:
  "ds_registry (ds_deregister n s) = map_option (deregister n) (ds_registry s)"
  "ds_children (ds_deregister n s) = ds_children s" "ds_stores (ds_deregister n s) = ds_stores s"
  by (simp_all add: ds_deregister_def)

text \<open>The ways a child leaves differ in what they free. Despawning or stopping a child removes its
  record and its registration. Removal after the child's own exit (clean exit, restart mode
  \<^verbatim>\<open>NEVER\<close>, budget exhausted) removes the record but keeps the registration: a later spawn
  of the same name is refused as already registered, although no child of that name is left.\<close>

theorem exit_keeps_name_registered:
  assumes "dget (ds_children s) name = Some rec" and "ds_registry s = Some r" and "lookup r name \<noteq> None"
    and "a_reached_loop (cr_agent rec)" and "d_restart_mode env \<noteq> PERMANENT"
  shows "(\<exists>s'. handle_child_exit env name None s = Some s' \<and> dget (ds_children s') name = None
            \<and> (\<forall>msg. sq_name (parse_spawn (m_payload msg)) = name \<longrightarrow>
                 handle_spawn env msg s' = (Inr (Some (ReplyError (AlreadyRegistered name))), s')))
       \<and> (\<exists>s' r'. handle_despawn env name s = (ReplyOk, s') \<and> dget (ds_children s') name = None
            \<and> ds_registry s' = Some r' \<and> lookup r' name = None)
       \<and> (\<exists>s' r'. handle_stop env name s = (ReplyOk, s') \<and> dget (ds_children s') name = None
            \<and> ds_registry s' = Some r' \<and> lookup r' name = None)"
proof (intro conjI)
  let ?s' = "remove_and_notify env name rec ''clean_exit'' s"
  have ex: "handle_child_exit env name None s = Some ?s'"
    using assms by (cases "d_restart_mode env") (simp_all add: handle_child_exit_def Let_def)
  have gone: "dget (ds_children ?s') name = None" and reg: "ds_registry ?s' = Some r"
    using assms(2) by (simp_all add: remove_and_notify_def dict_simps)
  have "handle_spawn env msg ?s' = (Inr (Some (ReplyError (AlreadyRegistered name))), ?s')"
    if "sq_name (parse_spawn (m_payload msg)) = name" for msg
    using that gone reg assms(3) by (auto simp: handle_spawn_def Let_def admission_error_def)
  with ex gone show "\<exists>s'. handle_child_exit env name None s = Some s' \<and> dget (ds_children s') name = None
            \<and> (\<forall>msg. sq_name (parse_spawn (m_payload msg)) = name \<longrightarrow>
                 handle_spawn env msg s' = (Inr (Some (ReplyError (AlreadyRegistered name))), s'))"
    by blast
  show "\<exists>s' r'. handle_despawn env name s = (ReplyOk, s') \<and> dget (ds_children s') name = None
            \<and> ds_registry s' = Some r' \<and> lookup r' name = None"
    using assms(1,2) by (simp add: handle_despawn_def dict_simps deregister_lookup)
  have ks: "ds_registry (keep_store n a x) = ds_registry x" for n a x
    by (simp add: keep_store_def split: option.split)
  show "\<exists>s' r'. handle_stop env name s = (ReplyOk, s') \<and> dget (ds_children s') name = None
            \<and> ds_registry s' = Some r' \<and> lookup r' name = None"
    using assms(1,2) by (simp add: handle_stop_def dict_simps deregister_lookup ks)
qed

theorem exit_keeps_name_registered_witness:
  "\<exists>s s'. handle_child_exit (open_dyn_env TRANSIENT) ''a'' None s = Some s'
     \<and> dget (ds_children s') ''a'' = None
     \<and> handle_spawn (open_dyn_env TRANSIENT) (spawn_message ''a'' ''2'') s'
         = (Inr (Some (ReplyError (AlreadyRegistered ''a''))), s')"
proof -
  let ?rec = "\<lparr>cr_agent = (new_agent (base_env ''a'') None None 0)\<lparr>a_reached_loop := True\<rparr>, cr_class = base_class,
     cr_task = 0, cr_acknowledged = True, cr_spawn_id = ''1'', cr_epoch = 1, cr_announced = False\<rparr>"
  let ?r = "(new_registry True)\<lparr>r_entries := [(''a'', local_entry ''a'' None True [] [])]\<rparr>"
  let ?s = "(new_dyn_sup (Some ?r) 0)\<lparr>ds_children := [(''a'', ?rec)]\<rparr>"
  have "dget (ds_children ?s) ''a'' = Some ?rec" "ds_registry ?s = Some ?r" "lookup ?r ''a'' \<noteq> None"
    "a_reached_loop (cr_agent ?rec)" "d_restart_mode (open_dyn_env TRANSIENT) \<noteq> PERMANENT"
    by (simp_all add: new_dyn_sup_def lookup_def)
  from exit_keeps_name_registered [OF this, THEN conjunct1] obtain s' where
    "handle_child_exit (open_dyn_env TRANSIENT) ''a'' None ?s = Some s'" "dget (ds_children s') ''a'' = None"
    "\<forall>msg. sq_name (parse_spawn (m_payload msg)) = ''a'' \<longrightarrow>
       handle_spawn (open_dyn_env TRANSIENT) msg s' = (Inr (Some (ReplyError (AlreadyRegistered ''a''))), s')"
    by blast
  moreover have "sq_name (parse_spawn (m_payload (spawn_message ''a'' ''2''))) = ''a''" by simp
  ultimately show ?thesis by blast
qed

section \<open>Restart\<close>

text \<open>The child's mailbox has the capacities its class gives it.\<close>

definition child_mailbox_ok :: "string \<Rightarrow> child_rec \<Rightarrow> bool" where
  "child_mailbox_ok name rec \<longleftrightarrow>
     mailbox_ok (a_mailbox (cr_agent rec))
   \<and> mb_maxsize (a_mailbox (cr_agent rec)) = c_mailbox_size (ac_env (cr_class rec) name)
   \<and> mb_priority_maxsize (a_mailbox (cr_agent rec)) = 100"

text \<open>The agent object a restart starts.\<close>

definition incarnation :: "string \<Rightarrow> child_rec \<Rightarrow> mailbox \<Rightarrow> dyn_sup \<Rightarrow> agent" where
  "incarnation name rec mb s =
     start_nowait (ac_env (cr_class rec) name)
       ((new_agent (ac_env (cr_class rec) name) (ds_registry s) (a_store (cr_agent rec)) (ds_now s))\<lparr>a_mailbox := mb\<rparr>)"

lemma restart_transfer:
  assumes "child_mailbox_ok name rec"
  obtains old' mb where
    "transfer_mailbox (a_mailbox (cr_agent rec)) (a_mailbox (new_agent (ac_env (cr_class rec) name) reg st t)) = Some (old', mb)"
    "mb_priority_queue mb = mb_priority_queue (a_mailbox (cr_agent rec))"
    "mb_queue mb = mb_queue (a_mailbox (cr_agent rec))"
  using transfer_mailbox_spec [of "a_mailbox (cr_agent rec)"] assms
  by (auto simp: child_mailbox_ok_def new_agent_def)

text \<open>The verdict on a crash: an established suspension costs no budget.\<close>

definition crash_verdict :: "dyn_env \<Rightarrow> string \<Rightarrow> child_rec \<Rightarrow> dyn_sup \<Rightarrow> RestartVerdict \<times> RestartEngine" where
  "crash_verdict env name rec s =
     (let engine = child_engine env name s
      in if was_suspended (cr_agent rec) then (exempt_verdict engine, engine)
         else record_crash engine (ds_now s) 0)"

lemma exit_restarts:
  assumes "dget (ds_children s) name = Some rec" "a_reached_loop (cr_agent rec)"
    and "d_restart_mode env \<noteq> NEVER" "v_action (fst (crash_verdict env name rec s)) = Restart"
  shows "handle_child_exit env name (Some e) s =
     restart_child env name rec (s\<lparr>ds_restart_counts := dput name (get_int (ds_restart_counts s) name + 1) (ds_restart_counts s),
        ds_engines := dput name (snd (crash_verdict env name rec s)) (ds_engines s)\<rparr>)"
proof -
  obtain v en where v: "crash_verdict env name rec s = (v, en)" by fastforce
  with assms(4) have "v_action v = Restart" by simp
  moreover have "(if was_suspended (cr_agent rec) then (exempt_verdict (child_engine env name s), child_engine env name s)
      else record_crash (child_engine env name s) (ds_now s) 0) = (v, en)"
    using v by (simp add: crash_verdict_def Let_def)
  ultimately show ?thesis
    using assms(1-3) v by (simp add: handle_child_exit_def Let_def)
qed

text \<open>C16. A crash within budget restarts the child as a fresh incarnation that loses nothing: it
  starts with the old incarnation's queued messages, control and business, in order, keeps its record
  (epoch, spawn identifier, acknowledgement) and registration, and is tracked under a new task. A
  child that crashed while suspended is restarted without charging its budget.\<close>

theorem crash_restart_keeps_messages:
  assumes "dget (ds_children s) name = Some rec" and "a_reached_loop (cr_agent rec)"
    and "d_restart_mode env \<noteq> NEVER" and "v_action (fst (crash_verdict env name rec s)) = Restart"
    and "ac_ctor_raises (cr_class rec) name = None" and "child_mailbox_ok name rec"
  shows "\<exists>mb. mb_priority_queue mb = mb_priority_queue (a_mailbox (cr_agent rec))
      \<and> mb_queue mb = mb_queue (a_mailbox (cr_agent rec))
      \<and> (\<forall>a. run (ac_env (cr_class rec) name) (incarnation name rec mb s) = (LoopTop, a) \<longrightarrow>
           (\<exists>s'. handle_child_exit env name (Some e) s = Some s'
             \<and> dget (ds_children s') name = Some (rec\<lparr>cr_agent := a, cr_task := ds_next_task s\<rparr>)
             \<and> dget (ds_child_tasks s') name = Some (ds_next_task s)
             \<and> ds_registry s' = ds_registry s
             \<and> (was_suspended (cr_agent rec) \<longrightarrow>
                  child_engine env name s' = child_engine env name s)))"
proof -
  obtain old' mb where mb:
    "transfer_mailbox (a_mailbox (cr_agent rec)) (a_mailbox (new_agent (ac_env (cr_class rec) name)
        (ds_registry s) (a_store (cr_agent rec)) (ds_now s))) = Some (old', mb)"
    "mb_priority_queue mb = mb_priority_queue (a_mailbox (cr_agent rec))"
    "mb_queue mb = mb_queue (a_mailbox (cr_agent rec))"
    by (rule restart_transfer [OF assms(6)])
  have "\<exists>s'. handle_child_exit env name (Some e) s = Some s'
             \<and> dget (ds_children s') name = Some (rec\<lparr>cr_agent := a, cr_task := ds_next_task s\<rparr>)
             \<and> dget (ds_child_tasks s') name = Some (ds_next_task s)
             \<and> ds_registry s' = ds_registry s
             \<and> (was_suspended (cr_agent rec) \<longrightarrow>
                  child_engine env name s' = child_engine env name s)"
    if "run (ac_env (cr_class rec) name) (incarnation name rec mb s) = (LoopTop, a)" for a
    unfolding exit_restarts [OF assms(1-4)]
    using that mb(1) assms(5)
    by (simp add: restart_child_def Let_def incarnation_def dict_simps child_engine_def crash_verdict_def)
  with mb(2,3) show ?thesis by blast
qed

definition sample_rec :: "agent_class \<Rightarrow> child_rec" where
  "sample_rec c = \<lparr>cr_agent = (new_agent (base_env ''a'') None None 0)\<lparr>a_reached_loop := True,
        a_mailbox := (new_mailbox 1000 100)\<lparr>mb_queue := [default_message ''x'' 0]\<rparr>\<rparr>,
     cr_class = c, cr_task = 0, cr_acknowledged = True, cr_spawn_id = ''1'', cr_epoch = 1, cr_announced = False\<rparr>"

definition sample_sup :: "agent_class \<Rightarrow> dyn_sup" where
  "sample_sup c = (new_dyn_sup None 0)\<lparr>ds_children := [(''a'', sample_rec c)],
     ds_child_tasks := [(''a'', 0)], ds_next_task := 1\<rparr>"

lemma sample_sup_facts:
  "dget (ds_children (sample_sup c)) ''a'' = Some (sample_rec c)" "a_reached_loop (cr_agent (sample_rec c))"
  "d_restart_mode (open_dyn_env TRANSIENT) \<noteq> NEVER"
  "v_action (fst (crash_verdict (open_dyn_env TRANSIENT) ''a'' (sample_rec c) (sample_sup c))) = Restart"
  "cr_class (sample_rec c) = c"
  by (simp_all add: sample_sup_def sample_rec_def crash_verdict_def was_suspended_def new_agent_def
      child_engine_def new_dyn_sup_def record_crash_def new_engine_def open_dyn_env_def Let_def)

theorem crash_restart_keeps_messages_witness:
  "\<exists>s' rec'. handle_child_exit (open_dyn_env TRANSIENT) ''a'' (Some ValueError) (sample_sup base_class) = Some s'
     \<and> dget (ds_children s') ''a'' = Some rec' \<and> cr_task rec' = 1"
proof -
  have mbx: "child_mailbox_ok ''a'' (sample_rec base_class)"
    by (simp add: child_mailbox_ok_def sample_rec_def new_mailbox_def mailbox_ok_def default_message_def base_env_def)
  have ctor: "ac_ctor_raises (cr_class (sample_rec base_class)) ''a'' = None" by (simp add: sample_rec_def)
  obtain mb where mb: "\<forall>a. run (ac_env (cr_class (sample_rec base_class)) ''a'') (incarnation ''a'' (sample_rec base_class) mb (sample_sup base_class))
        = (LoopTop, a) \<longrightarrow>
      (\<exists>s'. handle_child_exit (open_dyn_env TRANSIENT) ''a'' (Some ValueError) (sample_sup base_class) = Some s'
             \<and> dget (ds_children s') ''a'' = Some ((sample_rec base_class)\<lparr>cr_agent := a, cr_task := ds_next_task (sample_sup base_class)\<rparr>))"
    using crash_restart_keeps_messages [OF sample_sup_facts(1-4) ctor mbx, of ValueError] by blast
  have "\<exists>a. run (ac_env (cr_class (sample_rec base_class)) ''a'') (incarnation ''a'' (sample_rec base_class) mb (sample_sup base_class)) = (LoopTop, a)"
    by (simp add: run_def sample_rec_def incarnation_def restore_state_def base_env_def split: option.split)
  with mb show ?thesis by (auto simp: sample_sup_def)
qed

text \<open>A restart whose start fails strands the child: when the fresh incarnation's start raises,
  the exception leaves the exit handler after the record got the new, crashed agent and before the new
  task is tracked. The child stays in the table under its finished task with no exit handler
  left to run for it, nobody is told, and a spawn of that name is answered as if it were running.\<close>

theorem failed_restart_strands_child:
  assumes "dget (ds_children s) name = Some rec" and "a_reached_loop (cr_agent rec)"
    and "d_restart_mode env \<noteq> NEVER" and "v_action (fst (crash_verdict env name rec s)) = Restart"
    and "ac_ctor_raises (cr_class rec) name = None" and "child_mailbox_ok name rec"
    and fails: "\<And>mb. \<exists>a. run (ac_env (cr_class rec) name) (incarnation name rec mb s) = (Done (Some x), a)"
    and "x \<noteq> CancelledError"
  shows "\<exists>s' a. handle_child_exit env name (Some e) s = Some s'
      \<and> dget (ds_children s') name = Some (rec\<lparr>cr_agent := a\<rparr>)
      \<and> ds_child_tasks s' = ds_child_tasks s \<and> ds_pending s' = ds_pending s \<and> ds_events s' = ds_events s
      \<and> (\<forall>msg. sq_name (parse_spawn (m_payload msg)) = name \<and> sq_spawn_id (parse_spawn (m_payload msg)) \<noteq> cr_spawn_id rec \<longrightarrow>
           handle_spawn env msg s' = (Inr (Some (ReplyError (AlreadyRunning name))), s'))"
proof -
  obtain old' mb where mb:
    "transfer_mailbox (a_mailbox (cr_agent rec)) (a_mailbox (new_agent (ac_env (cr_class rec) name)
        (ds_registry s) (a_store (cr_agent rec)) (ds_now s))) = Some (old', mb)"
    by (rule restart_transfer [OF assms(6)])
  obtain a where a: "run (ac_env (cr_class rec) name) (incarnation name rec mb s) = (Done (Some x), a)"
    using fails by blast
  let ?s1 = "s\<lparr>ds_restart_counts := dput name (get_int (ds_restart_counts s) name + 1) (ds_restart_counts s),
        ds_engines := dput name (snd (crash_verdict env name rec s)) (ds_engines s)\<rparr>"
  let ?s' = "?s1\<lparr>ds_handlers := (if d_has_bus env then dput name (ds_next_task s) (ds_handlers s) else ds_handlers s),
        ds_next_task := Suc (ds_next_task s),
        ds_children := dput name (rec\<lparr>cr_agent := a\<rparr>) (ds_children s)\<rparr>"
  have "handle_child_exit env name (Some e) s = Some ?s'"
    unfolding exit_restarts [OF assms(1-4)]
    using a mb assms(5,8) by (simp add: restart_child_def Let_def incarnation_def)
  then show ?thesis
    by (intro exI [of _ ?s'] exI [of _ a]) (simp add: dict_simps handle_spawn_def Let_def)
qed

theorem failed_restart_strands_child_witness:
  "\<exists>s' a. handle_child_exit (open_dyn_env TRANSIENT) ''a'' (Some ValueError)
        (sample_sup (base_class\<lparr>ac_env := \<lambda>n. (base_env n)\<lparr>e_on_start := \<lambda>a. (Inl RuntimeError, a)\<rparr>\<rparr>)) = Some s'
     \<and> ds_events s' = []
     \<and> dget (ds_children s') ''a'' = Some ((sample_rec (base_class\<lparr>ac_env :=
            \<lambda>n. (base_env n)\<lparr>e_on_start := \<lambda>a. (Inl RuntimeError, a)\<rparr>\<rparr>))\<lparr>cr_agent := a\<rparr>)"
proof -
  let ?c = "base_class\<lparr>ac_env := \<lambda>n. (base_env n)\<lparr>e_on_start := \<lambda>a. (Inl RuntimeError, a)\<rparr>\<rparr>"
  have mbx: "child_mailbox_ok ''a'' (sample_rec ?c)"
    by (simp add: child_mailbox_ok_def sample_rec_def new_mailbox_def mailbox_ok_def default_message_def base_env_def)
  have ctor: "ac_ctor_raises (cr_class (sample_rec ?c)) ''a'' = None" by (simp add: sample_rec_def)
  have f: "\<exists>a. run (ac_env (cr_class (sample_rec ?c)) ''a'') (incarnation ''a'' (sample_rec ?c) mb (sample_sup ?c))
      = (Done (Some RuntimeError), a)" for mb
    by (simp add: run_def sample_rec_def incarnation_def restore_state_def base_env_def contained_def
        is_Exception_def split: option.split)
  from failed_restart_strands_child [OF sample_sup_facts(1-4) ctor mbx f, of ValueError]
  obtain s' a where "handle_child_exit (open_dyn_env TRANSIENT) ''a'' (Some ValueError) (sample_sup ?c) = Some s'"
    "dget (ds_children s') ''a'' = Some ((sample_rec ?c)\<lparr>cr_agent := a\<rparr>)" "ds_events s' = ds_events (sample_sup ?c)"
    by auto
  moreover have "ds_events (sample_sup ?c) = []" by (simp add: sample_sup_def new_dyn_sup_def)
  ultimately show ?thesis by auto
qed

end
