(* ===== verification/Supervisor.thy ===== *)
theory Supervisor
  imports Agent_Loop Restart_Engine
begin

text \<open>
  \<^verbatim>\<open>Supervisor\<close> of \<^verbatim>\<open>src/civitas/supervisor.py\<close>: a tree of agents and supervisors. A
  crash of a child is recorded in a side table under an event identifier, the supervisor's own
  mailbox carries the identifier, and its loop handles one event at a time: skip it when the child
  was replaced meanwhile, else charge the restart budget and restart children by the strategy, or
  hand the crash to the parent.

  A node of the tree is an agent or a supervisor with its children. What all nodes share (registry,
  task identities, clock, a trace of what happened) is the \<open>world\<close>. The class of an agent is
  its environment \<open>se_env name\<close>. How the task of an agent that was asked to stop ends (at the
  shutdown message, with an exception, or cancelled at the timeout) is \<open>se_ends\<close>; whether a
  supervisor's own loop had to be cancelled is \<open>se_loop_cancelled\<close>. \<^const>\<open>None\<close> is a call
  that waits on a full mailbox. The names of the children of a supervisor are taken to be distinct, as
  the registry enforces, so the dictionary of children by name is a search of the list. The wiring of a
  fresh incarnation to the bus, the callbacks on its replacement and the way of an escalation over the
  bus are taken to succeed: the event is put into the parent's queue.
\<close>

section \<open>State\<close>

datatype restart_strategy = ONE_FOR_ONE | ONE_FOR_ALL | REST_FOR_ONE

text \<open>The priority queue of a supervisor's mailbox: triggers of crash events and the shutdown
  request. It is unbounded.\<close>

datatype sup_msg = ChildCrashed nat | Shutdown

record sup_state =
  su_strategy :: restart_strategy
  su_engine :: RestartEngine
  su_restart_counts :: "(string, int) dict"
  su_child_tasks :: "(string, nat) dict"
  su_pending_crash_events :: "(nat, string \<times> exn \<times> nat option) dict"
  su_inbox :: "sup_msg list"
  su_running :: bool
  su_loop :: bool                        \<comment> \<open>the supervisor's own task is in its loop\<close>
  su_remote_children :: "string list"
  su_missed_heartbeats :: "(string, int) dict"
  su_remote_child_config :: "(string, real \<times> real \<times> int) dict"  \<comment> \<open>interval, timeout, threshold\<close>
  su_next_event :: nat

datatype node = NAgent string agent | NSup string sup_state "node list"

fun node_name :: "node \<Rightarrow> string" where
  "node_name (NAgent n a) = n"
| "node_name (NSup n s cs) = n"

datatype sup_event =
    TStarted string nat
  | TStopped string
  | TSleep real
  | TCallback string exn
  | TRestartRemote string
  | TDown string string                  \<comment> \<open>supervisor, child: permanently down\<close>

record world =
  w_registry :: "registry option"
  w_next_task :: nat
  w_now :: real
  w_trace :: "sup_event list"

record sup_env =
  se_env :: "string \<Rightarrow> agent_env"
  se_ctor_raises :: "string \<Rightarrow> exn option"
  se_ends :: "string \<Rightarrow> agent \<Rightarrow> exn option \<times> agent"
  se_loop_cancelled :: "string \<Rightarrow> bool"
  se_has_bus :: bool
  se_callbacks :: nat
  se_jitter :: real

definition new_sup :: "restart_strategy \<Rightarrow> int \<Rightarrow> real \<Rightarrow> BackoffPolicy \<Rightarrow> real \<Rightarrow> real \<Rightarrow> sup_state" where
  "new_sup strategy max_restarts window backoff base bmax =
     \<lparr>su_strategy = strategy, su_engine = new_engine max_restarts window (Some backoff) base bmax,
      su_restart_counts = [], su_child_tasks = [], su_pending_crash_events = [], su_inbox = [],
      su_running = False, su_loop = False, su_remote_children = [], su_missed_heartbeats = [],
      su_remote_child_config = [], su_next_event = 0\<rparr>"

definition sup_trace :: "sup_event \<Rightarrow> world \<Rightarrow> world" where
  "sup_trace ev w = w\<lparr>w_trace := w_trace w @ [ev]\<rparr>"

section \<open>Starting and stopping a subtree\<close>

text \<open>\<^verbatim>\<open>_start_child\<close>: the task's identity is recorded once the start succeeded; a start
  that fails raises.\<close>

definition start_child :: "sup_env \<Rightarrow> string \<Rightarrow> agent \<Rightarrow> sup_state \<Rightarrow> world \<Rightarrow> exn option \<times> agent \<times> sup_state \<times> world" where
  "start_child env name a s w =
     (let tid = w_next_task w;
          w1 = w\<lparr>w_next_task := Suc tid\<rparr>;
          ok = (\<lambda>a'. (None, a', s\<lparr>su_child_tasks := dput name tid (su_child_tasks s)\<rparr>, sup_trace (TStarted name tid) w1))
      in case run (se_env env name) (start_nowait (se_env env name) a) of
           (Done (Some e), a') \<Rightarrow> if e \<noteq> CancelledError then (Some e, a', s, w1) else ok a'
         | (pc, a') \<Rightarrow> ok a')"

text \<open>\<^verbatim>\<open>start\<close>: the own loop first, then the children in order; a failure stops there.\<close>

fun start_node :: "sup_env \<Rightarrow> node \<Rightarrow> sup_state \<Rightarrow> world \<Rightarrow> exn option \<times> node \<times> sup_state \<times> world"
and start_nodes :: "sup_env \<Rightarrow> node list \<Rightarrow> sup_state \<Rightarrow> world \<Rightarrow> exn option \<times> node list \<times> sup_state \<times> world" where
  "start_node env (NAgent n a) s w =
     (case start_child env n a s w of (e, a', s', w') \<Rightarrow> (e, NAgent n a', s', w'))"
| "start_node env (NSup n t cs) s w =
     (case start_nodes env cs (t\<lparr>su_running := True, su_loop := True\<rparr>) w of
        (e, cs', t', w') \<Rightarrow> (e, NSup n t' cs', s, w'))"
| "start_nodes env [] s w = (None, [], s, w)"
| "start_nodes env (c # cs) s w =
     (case start_node env c s w of
        (Some e, c', s', w') \<Rightarrow> (Some e, c' # cs, s', w')
      | (None, c', s', w') \<Rightarrow>
          (case start_nodes env cs s' w' of (e, cs', s'', w'') \<Rightarrow> (e, c' # cs', s'', w'')))"

text \<open>\<^verbatim>\<open>_stop\<close> of an agent: a no-op unless it is running, starting or suspended. The
  shutdown message is put, then the task is awaited; its exception is raised by the await.\<close>

definition stop_agent :: "sup_env \<Rightarrow> string \<Rightarrow> agent \<Rightarrow> world \<Rightarrow> (exn option \<times> agent \<times> world) option" where
  "stop_agent env n a w =
     (if a_status a \<notin> {RUNNING, INITIALIZING, SUSPENDED} then Some (None, a, w)
      else
        (case stop_request (se_env env n) a of
           None \<Rightarrow> None
         | Some a1 \<Rightarrow>
             (case se_ends env n a1 of
                (e, a2) \<Rightarrow> Some (if e \<in> {Some CancelledError, Some TimeoutError} then None else e, a2, sup_trace (TStopped n) w))))"

text \<open>
  \<^verbatim>\<open>_stop\<close> of a supervisor's own loop. The loop that is not cancelled takes the messages up
  to the shutdown message: as \<^verbatim>\<open>_running\<close> is already false, their crash events are
  discarded. The loop that is cancelled leaves its queue, with the shutdown message, as it is.
\<close>

definition drop_event :: "sup_msg \<Rightarrow> (nat, string \<times> exn \<times> nat option) dict \<Rightarrow> (nat, string \<times> exn \<times> nat option) dict" where
  "drop_event m evs = (case m of ChildCrashed i \<Rightarrow> dpop i evs | Shutdown \<Rightarrow> evs)"

definition stop_loop :: "bool \<Rightarrow> sup_state \<Rightarrow> sup_state" where
  "stop_loop cancelled s =
     (if \<not> su_loop s then s
      else
        let q = su_inbox s @ [Shutdown]
        in if cancelled then s\<lparr>su_inbox := q, su_loop := False\<rparr>
           else s\<lparr>su_inbox := tl (dropWhile (\<lambda>m. m \<noteq> Shutdown) q), su_loop := False,
                  su_pending_crash_events :=
                    fold drop_event (takeWhile (\<lambda>m. m \<noteq> Shutdown) q) (su_pending_crash_events s)\<rparr>)"

fun stop_node :: "sup_env \<Rightarrow> node \<Rightarrow> world \<Rightarrow> (exn option \<times> node \<times> world) option"
and stop_nodes_rev :: "sup_env \<Rightarrow> node list \<Rightarrow> world \<Rightarrow> (exn option \<times> node list \<times> world) option" where
  "stop_node env (NAgent n a) w =
     (case stop_agent env n a w of None \<Rightarrow> None | Some (e, a', w') \<Rightarrow> Some (e, NAgent n a', w'))"
| "stop_node env (NSup n t cs) w =
     (case stop_nodes_rev env cs w of
        None \<Rightarrow> None
      | Some (e, cs', w') \<Rightarrow>
          Some (e, NSup n (stop_loop (se_loop_cancelled env n) (t\<lparr>su_running := False\<rparr>)) cs', w'))"
| "stop_nodes_rev env [] w = Some (None, [], w)"
| "stop_nodes_rev env (c # cs) w =
     (case stop_nodes_rev env cs w of
        None \<Rightarrow> None
      | Some (Some e, cs', w') \<Rightarrow> Some (Some e, c # cs', w')
      | Some (None, cs', w') \<Rightarrow>
          (case stop_node env c w' of
             None \<Rightarrow> None
           | Some (e, c', w'') \<Rightarrow> Some (e, c' # cs', w'')))"

section \<open>Crash events\<close>

definition enqueue_crash_event :: "string \<Rightarrow> exn \<Rightarrow> nat option \<Rightarrow> sup_state \<Rightarrow> sup_state" where
  "enqueue_crash_event name e task s =
     s\<lparr>su_pending_crash_events := dput (su_next_event s) (name, e, task) (su_pending_crash_events s),
       su_inbox := su_inbox s @ [ChildCrashed (su_next_event s)], su_next_event := Suc (su_next_event s)\<rparr>"

definition sup_on_child_done :: "string \<Rightarrow> exn option \<Rightarrow> nat \<Rightarrow> sup_state \<Rightarrow> sup_state" where
  "sup_on_child_done name exc task s =
     (case exc of
        None \<Rightarrow> s
      | Some e \<Rightarrow> if e = CancelledError then s else enqueue_crash_event name e (Some task) s)"

section \<open>Restarting children\<close>

definition find_child :: "string \<Rightarrow> node list \<Rightarrow> node option" where
  "find_child name cs = find (\<lambda>c. node_name c = name) cs"

fun replace_child :: "string \<Rightarrow> node \<Rightarrow> node list \<Rightarrow> node list" where
  "replace_child name c [] = []"
| "replace_child name c (x # xs) = (if node_name x = name then c # xs else x # replace_child name c xs)"

type_synonym sup = "sup_state \<times> node list \<times> world"

text \<open>A fresh incarnation of an agent child: construct, re-register, take over the mailbox, replace
  the object, start. The result is the exception raised, if any.\<close>

definition restart_agent_child :: "sup_env \<Rightarrow> string \<Rightarrow> agent \<Rightarrow> sup \<Rightarrow> (exn option \<times> sup) option" where
  "restart_agent_child env name old x =
     (case x of (s, cs, w) \<Rightarrow>
        (case se_ctor_raises env name of
           Some e \<Rightarrow> Some (Some e, x)
         | None \<Rightarrow>
             (case (case w_registry w of
                      None \<Rightarrow> Inr None
                    | Some r \<Rightarrow> map_sum id Some (reregister_preserving r name)) of
                Inl e \<Rightarrow> Some (Some e, x)
              | Inr reg \<Rightarrow>
                  (let fresh = new_agent (se_env env name) reg (a_store old) (w_now w)
                   in case transfer_mailbox (a_mailbox old) (a_mailbox fresh) of
                        None \<Rightarrow> None
                      | Some (old_mb, mb) \<Rightarrow>
                          (case start_child env name (fresh\<lparr>a_mailbox := mb\<rparr>) s (w\<lparr>w_registry := reg\<rparr>) of
                             (e, a', s', w') \<Rightarrow> Some (e, s', replace_child name (NAgent name a') cs, w'))))))"

text \<open>A child supervisor that is started again gets a fresh budget.\<close>

definition reset_budget :: "sup_state \<Rightarrow> sup_state" where
  "reset_budget t = t\<lparr>su_engine := reset_engine (su_engine t), su_restart_counts := []\<rparr>"

definition restart_node :: "sup_env \<Rightarrow> node \<Rightarrow> sup \<Rightarrow> (exn option \<times> sup) option" where
  "restart_node env c x =
     (case c of
        NAgent n a \<Rightarrow> restart_agent_child env n a x
      | NSup n t ds \<Rightarrow>
          (case x of (s, cs, w) \<Rightarrow>
             (case start_node env (NSup n (reset_budget t) ds) s w of
                (e, c', s', w') \<Rightarrow> Some (e, s', replace_child n c' cs, w'))))"

fun restart_nodes :: "sup_env \<Rightarrow> node list \<Rightarrow> sup \<Rightarrow> (exn option \<times> sup) option" where
  "restart_nodes env [] x = Some (None, x)"
| "restart_nodes env (c # cs) x =
     (case restart_node env c x of
        None \<Rightarrow> None
      | Some (Some e, x') \<Rightarrow> Some (Some e, x')
      | Some (None, x') \<Rightarrow> restart_nodes env cs x')"

text \<open>The stop of one child before a group restart: a child that is already stopped, stopping or
  crashed is left alone.\<close>

definition stop_for_restart :: "sup_env \<Rightarrow> node \<Rightarrow> world \<Rightarrow> (exn option \<times> node \<times> world) option" where
  "stop_for_restart env c w =
     (case c of
        NSup n t ds \<Rightarrow> stop_node env c w
      | NAgent n a \<Rightarrow>
          if a_status a \<notin> {STOPPED, STOPPING, CRASHED} then stop_node env c w else Some (None, c, w))"

fun stop_each :: "sup_env \<Rightarrow> node list \<Rightarrow> world \<Rightarrow> (exn option \<times> node list \<times> world) option" where
  "stop_each env [] w = Some (None, [], w)"
| "stop_each env (c # cs) w =
     (case stop_for_restart env c w of
        None \<Rightarrow> None
      | Some (Some e, c', w') \<Rightarrow> Some (Some e, c' # cs, w')
      | Some (None, c', w') \<Rightarrow>
          (case stop_each env cs w' of
             None \<Rightarrow> None
           | Some (e, cs', w'') \<Rightarrow> Some (e, c' # cs', w'')))"

fun stop_each_rev :: "sup_env \<Rightarrow> node list \<Rightarrow> world \<Rightarrow> (exn option \<times> node list \<times> world) option" where
  "stop_each_rev env [] w = Some (None, [], w)"
| "stop_each_rev env (c # cs) w =
     (case stop_each_rev env cs w of
        None \<Rightarrow> None
      | Some (Some e, cs', w') \<Rightarrow> Some (Some e, c # cs', w')
      | Some (None, cs', w') \<Rightarrow>
          (case stop_for_restart env c w' of
             None \<Rightarrow> None
           | Some (e, c', w'') \<Rightarrow> Some (e, c' # cs', w'')))"

definition sup_restart_child :: "sup_env \<Rightarrow> string \<Rightarrow> sup \<Rightarrow> (exn option \<times> sup) option" where
  "sup_restart_child env name x =
     (case x of (s, cs, w) \<Rightarrow>
        if name \<in> set (su_remote_children s)
        then Some (None, s, cs, if se_has_bus env then sup_trace (TRestartRemote name) w else w)
        else
          (case find_child name cs of
             None \<Rightarrow> Some (None, x)
           | Some (NAgent n a) \<Rightarrow> restart_agent_child env n a x
           | Some (NSup n t ds) \<Rightarrow>
               (case stop_node env (NSup n t ds) w of
                  None \<Rightarrow> None
                | Some (Some e, c', w') \<Rightarrow> Some (Some e, s, replace_child n c' cs, w')
                | Some (None, c', w') \<Rightarrow> restart_node env c' (s, replace_child n c' cs, w'))))"

definition restart_all_children :: "sup_env \<Rightarrow> sup \<Rightarrow> (exn option \<times> sup) option" where
  "restart_all_children env x =
     (case x of (s, cs, w) \<Rightarrow>
        (case stop_each env cs w of
           None \<Rightarrow> None
         | Some (Some e, cs', w') \<Rightarrow> Some (Some e, s, cs', w')
         | Some (None, cs', w') \<Rightarrow> restart_nodes env cs' (s, cs', w')))"

definition restart_rest_for_one :: "sup_env \<Rightarrow> string \<Rightarrow> sup \<Rightarrow> (exn option \<times> sup) option" where
  "restart_rest_for_one env name x =
     (case x of (s, cs, w) \<Rightarrow>
        (let before = takeWhile (\<lambda>c. node_name c \<noteq> name) cs;
             to_restart = dropWhile (\<lambda>c. node_name c \<noteq> name) cs
         in case stop_each_rev env to_restart w of
              None \<Rightarrow> None
            | Some (Some e, rest, w') \<Rightarrow> Some (Some e, s, before @ rest, w')
            | Some (None, rest, w') \<Rightarrow> restart_nodes env rest (s, before @ rest, w')))"

section \<open>Handling a crash\<close>

definition child_was_suspended :: "string \<Rightarrow> node list \<Rightarrow> bool" where
  "child_was_suspended name cs =
     (case find_child name cs of
        Some (NAgent n a) \<Rightarrow> dget (a_state a) SUSPEND_STATE_KEY \<noteq> None
      | _ \<Rightarrow> False)"

definition sup_crash_verdict :: "sup_env \<Rightarrow> string \<Rightarrow> sup \<Rightarrow> RestartVerdict \<times> RestartEngine" where
  "sup_crash_verdict env name x =
     (case x of (s, cs, w) \<Rightarrow>
        if child_was_suspended name cs then (exempt_verdict (su_engine s), su_engine s)
        else record_crash (su_engine s) (w_now w) (se_jitter env))"

definition apply_strategy :: "sup_env \<Rightarrow> string \<Rightarrow> sup \<Rightarrow> (exn option \<times> sup) option" where
  "apply_strategy env name x =
     (case su_strategy (fst x) of
        ONE_FOR_ONE \<Rightarrow> sup_restart_child env name x
      | ONE_FOR_ALL \<Rightarrow> restart_all_children env x
      | REST_FOR_ONE \<Rightarrow> restart_rest_for_one env name x)"

text \<open>What a crash leads to: the strategy ran (with the exception it raised, if any), or the budget
  is exhausted.\<close>

datatype crash_result = Applied "exn option" | BudgetExhausted

definition charge_crash :: "sup_env \<Rightarrow> string \<Rightarrow> exn \<Rightarrow> sup \<Rightarrow> sup" where
  "charge_crash env name e x =
     (case x of (s, cs, w) \<Rightarrow>
        (s\<lparr>su_restart_counts := dput name
             ((case dget (su_restart_counts s) name of None \<Rightarrow> 0 | Some n \<Rightarrow> n) + 1) (su_restart_counts s),
           su_engine := snd (sup_crash_verdict env name x)\<rparr>,
         cs, w\<lparr>w_trace := w_trace w @ replicate (se_callbacks env) (TCallback name e)\<rparr>))"

definition handle_crash :: "sup_env \<Rightarrow> string \<Rightarrow> exn \<Rightarrow> sup \<Rightarrow> (crash_result \<times> sup) option" where
  "handle_crash env name e x =
     (let verdict = fst (sup_crash_verdict env name x); x1 = charge_crash env name e x
      in if v_action verdict = Exhausted then Some (BudgetExhausted, x1)
         else
           let x2 = (case x1 of (s, cs, w) \<Rightarrow>
                       (s, cs, if v_delay verdict > 0
                               then (sup_trace (TSleep (v_delay verdict)) w)\<lparr>w_now := w_now w + v_delay verdict\<rparr>
                               else w))
           in map_option (\<lambda>(r, x'). (Applied r, x')) (apply_strategy env name x2))"

text \<open>Permanent failure at the top of the tree: the suspend marker of the agent is cleared.\<close>

definition give_up :: "sup_env \<Rightarrow> string \<Rightarrow> string \<Rightarrow> sup \<Rightarrow> sup" where
  "give_up env sup_name name x =
     (case x of (s, cs, w) \<Rightarrow>
        (case find_child name cs of
           Some (NAgent n a) \<Rightarrow>
             (s, replace_child n (NAgent n (snd (clear_suspend_marker (se_env env n) a))) cs,
              sup_trace (TDown sup_name name) w)
         | _ \<Rightarrow> x))"

text \<open>\<^verbatim>\<open>_escalate_to_parent\<close>: the parent's side table and queue, when there is a parent.\<close>

definition escalate_to_parent :: "string \<Rightarrow> exn \<Rightarrow> sup_state option \<Rightarrow> sup_state option" where
  "escalate_to_parent sup_name e parent = map_option (enqueue_crash_event sup_name e None) parent"

definition stale :: "string \<Rightarrow> nat option \<Rightarrow> sup_state \<Rightarrow> bool" where
  "stale name task s \<longleftrightarrow> task \<noteq> None \<and> dget (su_child_tasks s) name \<noteq> task"

text \<open>\<^verbatim>\<open>_process_crash_event\<close>; the parent's state is \<open>parent\<close>. An exception out of
  the handling escalates the crash.\<close>

definition process_crash_event ::
  "sup_env \<Rightarrow> string \<Rightarrow> nat \<Rightarrow> sup_state option \<Rightarrow> sup \<Rightarrow> (sup_state option \<times> sup) option" where
  "process_crash_event env sup_name i parent x =
     (case x of (s, cs, w) \<Rightarrow>
        (let s1 = s\<lparr>su_pending_crash_events := dpop i (su_pending_crash_events s)\<rparr>
         in case dget (su_pending_crash_events s) i of
              None \<Rightarrow> Some (parent, s1, cs, w)
            | Some (name, e, task) \<Rightarrow>
                if \<not> su_running s1 then Some (parent, s1, cs, w)
                else if stale name task s1 then Some (parent, s1, cs, w)
                else
                  (case handle_crash env name e (s1, cs, w) of
                     None \<Rightarrow> None
                   | Some (Applied None, x') \<Rightarrow> Some (parent, x')
                   | Some (Applied (Some e'), x') \<Rightarrow>
                       Some (escalate_to_parent sup_name e parent,
                         if parent = None then (case x' of (s', cs', w') \<Rightarrow> (s', cs', sup_trace (TDown sup_name name) w')) else x')
                   | Some (BudgetExhausted, x') \<Rightarrow>
                       Some (escalate_to_parent sup_name e parent,
                         if parent = None then give_up env sup_name name x' else x'))))"

text \<open>One turn of the supervisor's own loop.\<close>

definition sup_loop_step ::
  "sup_env \<Rightarrow> string \<Rightarrow> sup_state option \<Rightarrow> sup \<Rightarrow> (sup_state option \<times> sup) option" where
  "sup_loop_step env sup_name parent x =
     (case x of (s, cs, w) \<Rightarrow>
        if \<not> su_loop s then Some (parent, x)
        else
          (case su_inbox s of
             [] \<Rightarrow> Some (parent, x)
           | Shutdown # inbox \<Rightarrow> Some (parent, s\<lparr>su_inbox := inbox, su_loop := False\<rparr>, cs, w)
           | ChildCrashed i # inbox \<Rightarrow>
               process_crash_event env sup_name i parent (s\<lparr>su_inbox := inbox\<rparr>, cs, w)))"

section \<open>Remote children\<close>

definition add_remote_child :: "string \<Rightarrow> real \<Rightarrow> real \<Rightarrow> int \<Rightarrow> sup_state \<Rightarrow> sup_state" where
  "add_remote_child name interval timeout threshold s =
     s\<lparr>su_remote_children := List.insert name (su_remote_children s),
       su_missed_heartbeats := dput name 0 (su_missed_heartbeats s),
       su_remote_child_config := dput name (interval, timeout, threshold) (su_remote_child_config s)\<rparr>"

text \<open>Children by the health channel their registry entry announces, in order; the others get pings
  of their own.\<close>

definition channel_of :: "registry option \<Rightarrow> string \<Rightarrow> string" where
  "channel_of reg n =
     (case reg of
        None \<Rightarrow> ''''
      | Some r \<Rightarrow> (case lookup r n of None \<Rightarrow> '''' | Some e \<Rightarrow> e_health_channel e))"

definition group_by_health_channel :: "registry option \<Rightarrow> string list \<Rightarrow> (string, string list) dict \<times> string list" where
  "group_by_health_channel reg names =
     fold (\<lambda>n (by_channel, legacy).
             let channel = channel_of reg n
             in if channel \<noteq> ''''
                then (dput channel ((case dget by_channel channel of None \<Rightarrow> [] | Some l \<Rightarrow> l) @ [n]) by_channel, legacy)
                else (by_channel, legacy @ [n]))
       names ([], [])"

definition missed_of :: "string \<Rightarrow> sup_state \<Rightarrow> int" where
  "missed_of k s = (case dget (su_missed_heartbeats s) k of None \<Rightarrow> 0 | Some n \<Rightarrow> n)"

definition threshold_of :: "sup_state \<Rightarrow> string \<Rightarrow> int" where
  "threshold_of s n = (case dget (su_remote_child_config s) n of None \<Rightarrow> 3 | Some (i, t, th) \<Rightarrow> th)"

record health_snapshot =
  hs_task_alive :: bool
  hs_status :: string

text \<open>The outcome of a probe or a ping: an answer, the timeout, or another exception (logged).\<close>

datatype 'a answer = Ack 'a | NoAck | Fails

text \<open>One ping of the legacy loop.\<close>

definition legacy_ping :: "string \<Rightarrow> unit answer \<Rightarrow> sup_state \<Rightarrow> sup_state" where
  "legacy_ping name ans s =
     (case ans of
        Ack u \<Rightarrow> s\<lparr>su_missed_heartbeats := dput name 0 (su_missed_heartbeats s)\<rparr>
      | NoAck \<Rightarrow>
          (let missed = missed_of name s + 1;
               s1 = s\<lparr>su_missed_heartbeats := dput name missed (su_missed_heartbeats s)\<rparr>
           in if missed \<ge> threshold_of s name
              then (enqueue_crash_event name (HeartbeatTimeout name missed) None s1)
                     \<lparr>su_missed_heartbeats := dput name 0 (su_missed_heartbeats s1)\<rparr>
              else s1)
      | Fails \<Rightarrow> s)"

definition probe_threshold :: "sup_state \<Rightarrow> string list \<Rightarrow> int" where
  "probe_threshold s children =
     (case children of [] \<Rightarrow> 3 | c # cs \<Rightarrow> fold (\<lambda>n m. min m (threshold_of s n)) cs (threshold_of s c))"

text \<open>One probe of a worker's health channel; the acknowledgement carries a snapshot of the agents
  the worker hosts.\<close>

definition probe_health_channel ::
  "string \<Rightarrow> string list \<Rightarrow> (string, health_snapshot) dict answer \<Rightarrow> sup_state \<Rightarrow> sup_state" where
  "probe_health_channel channel children ans s =
     (case ans of
        NoAck \<Rightarrow>
          (let missed = missed_of channel s + 1;
               s1 = s\<lparr>su_missed_heartbeats := dput channel missed (su_missed_heartbeats s)\<rparr>
           in if missed \<ge> probe_threshold s children
              then (fold (\<lambda>n. enqueue_crash_event n (HeartbeatTimeout n missed) None) children s1)
                     \<lparr>su_missed_heartbeats := dput channel 0 (su_missed_heartbeats s1)\<rparr>
              else s1)
      | Ack agents \<Rightarrow>
          fold (\<lambda>n t. case dget agents n of
                        None \<Rightarrow> t
                      | Some snap \<Rightarrow>
                          if \<not> hs_task_alive snap \<or> hs_status snap = ''CRASHED''
                          then enqueue_crash_event n (HeartbeatTimeout n 0) None t else t)
            children (s\<lparr>su_missed_heartbeats := dput channel 0 (su_missed_heartbeats s)\<rparr>)
      | Fails \<Rightarrow> s)"

text \<open>One round of \<^verbatim>\<open>_heartbeat_loop\<close>: every channel, then every legacy child.\<close>

definition heartbeat_round ::
  "sup_env \<Rightarrow> registry option \<Rightarrow> (string \<Rightarrow> (string, health_snapshot) dict answer) \<Rightarrow> (string \<Rightarrow> unit answer)
     \<Rightarrow> sup_state \<Rightarrow> sup_state" where
  "heartbeat_round env reg probes pings s =
     (if \<not> su_running s \<or> \<not> se_has_bus env then s
      else
        (case group_by_health_channel reg (su_remote_children s) of (by_channel, legacy) \<Rightarrow>
           fold (\<lambda>n. legacy_ping n (pings n)) legacy
             (fold (\<lambda>(ch, ns). probe_health_channel ch ns (probes ch)) by_channel s)))"

section \<open>Introspection\<close>

fun all_agents :: "node \<Rightarrow> (string \<times> agent) list" where
  "all_agents (NAgent n a) = [(n, a)]"
| "all_agents (NSup n s cs) = concat (map all_agents cs)"

fun all_supervisors :: "node \<Rightarrow> string list" where
  "all_supervisors (NAgent n a) = []"
| "all_supervisors (NSup n s cs) = n # concat (map all_supervisors cs)"

text \<open>\<^verbatim>\<open>_status_snapshot\<close>: the answer to a status request.\<close>

record child_status =
  cs_name :: string
  cs_is_supervisor :: bool
  cs_restart_count :: int

definition status_snapshot :: "sup_state \<Rightarrow> node list \<Rightarrow> nat \<times> child_status list" where
  "status_snapshot s cs =
     (length (re_window (su_engine s)),
      map (\<lambda>c. \<lparr>cs_name = node_name c,
                cs_is_supervisor = (case c of NSup n t ds \<Rightarrow> True | NAgent n a \<Rightarrow> False),
                cs_restart_count = (case dget (su_restart_counts s) (node_name c) of None \<Rightarrow> 0 | Some k \<Rightarrow> k)\<rparr>) cs)"

section \<open>What a restart touches\<close>

definition is_sup :: "node \<Rightarrow> bool" where
  "is_sup c = (case c of NAgent n a \<Rightarrow> False | NSup n t ds \<Rightarrow> True)"

definition shape :: "node \<Rightarrow> string \<times> bool" where
  "shape c = (node_name c, is_sup c)"

lemma shape_simps [simp]: "shape (NAgent n a) = (n, False)" "shape (NSup n t ds) = (n, True)"
  by (simp_all add: shape_def is_sup_def)

lemma fst_shape [simp]: "fst (shape c) = node_name c" "fst \<circ> shape = node_name"
  by (auto simp: shape_def)

lemma node_names_shape: "map shape cs = map shape ds \<Longrightarrow> map node_name cs = map node_name ds"
  by (metis fst_shape(2) map_map)

lemma replace_child_names: "node_name c = n \<Longrightarrow> map node_name (replace_child n c cs) = map node_name cs"
  by (induction cs) auto

lemma find_child_Nil [simp]: "find_child n [] = None"
  by (simp add: find_child_def)

lemma find_child_Cons: "find_child n (c # cs) = (if node_name c = n then Some c else find_child n cs)"
  by (simp add: find_child_def)

lemma find_child_replace:
  "node_name c = m \<Longrightarrow> n \<noteq> m \<Longrightarrow> find_child n (replace_child m c cs) = find_child n cs"
  "node_name c = m \<Longrightarrow> m \<in> node_name ` set cs \<Longrightarrow> find_child m (replace_child m c cs) = Some c"
  by (induction cs) (auto simp: find_child_Cons)

lemma find_child_append:
  "find_child n (cs @ ds) = (case find_child n cs of None \<Rightarrow> find_child n ds | Some c \<Rightarrow> Some c)"
  by (induction cs) (auto simp: find_child_Cons)

lemma find_child_None: "n \<notin> node_name ` set cs \<Longrightarrow> find_child n cs = None"
  by (induction cs) (auto simp: find_child_Cons)

lemma find_child_SomeD: "find_child n cs = Some c \<Longrightarrow> c \<in> set cs \<and> node_name c = n"
  by (induction cs) (auto simp: find_child_Cons split: if_splits)

lemma find_child_unique:
  "distinct (map node_name cs) \<Longrightarrow> c \<in> set cs \<Longrightarrow> find_child (node_name c) cs = Some c"
  by (induction cs) (auto simp: find_child_Cons)

text \<open>A start that succeeds takes the next task identity and records it.\<close>

lemma start_child_ok:
  "start_child env n a s w = (None, a', s', w') \<Longrightarrow>
     s' = s\<lparr>su_child_tasks := dput n (w_next_task w) (su_child_tasks s)\<rparr>
   \<and> w' = sup_trace (TStarted n (w_next_task w)) (w\<lparr>w_next_task := Suc (w_next_task w)\<rparr>)"
  by (auto simp: start_child_def Let_def split: prod.splits task_pc.splits option.splits if_splits)

lemma start_child_next: "start_child env n a s w = (e, a', s', w') \<Longrightarrow> w_next_task w' = Suc (w_next_task w)"
  by (auto simp: start_child_def Let_def sup_trace_def split: prod.splits task_pc.splits option.splits if_splits)

lemma tasks_same: "\<exists>ts. s = s\<lparr>su_child_tasks := ts\<rparr>"
  by (rule exI [of _ "su_child_tasks s"]) simp

lemma start_child_keeps:
  "start_child env n a s w = (e, a', s', w') \<Longrightarrow> \<exists>ts. s' = s\<lparr>su_child_tasks := ts\<rparr>"
  using tasks_same [of s]
  by (auto simp: start_child_def Let_def split: prod.splits task_pc.splits option.splits if_splits)

text \<open>Starting children changes nothing of their supervisor but the table of tasks.\<close>

lemma start_subtree_keeps:
  "start_node env c s w = (e, c', s', w') \<Longrightarrow>
     w_next_task w \<le> w_next_task w' \<and> shape c' = shape c \<and> (\<exists>ts. s' = s\<lparr>su_child_tasks := ts\<rparr>)"
  "start_nodes env cs s w = (e, cs', s'', w'') \<Longrightarrow>
     w_next_task w \<le> w_next_task w'' \<and> (\<exists>ts. s'' = s\<lparr>su_child_tasks := ts\<rparr>)"
proof (induction env c s w and env cs s w arbitrary: e c' s' w' and e cs' s'' w''
    rule: start_node_start_nodes.induct)
  case (1 env n a s w)
  then show ?case by (auto dest: start_child_next start_child_keeps split: prod.splits)
next
  case (2 env n t cs s w)
  then show ?case
    using tasks_same [of s] by (auto split: prod.splits)
next
  case (3 env s w)
  then show ?case using tasks_same [of s] by auto
next
  case (4 env c cs s w)
  obtain e1 c1 s1 w1 where n1: "start_node env c s w = (e1, c1, s1, w1)" by (rule prod_cases4)
  from 4(1) [OF this] obtain ts where le: "w_next_task w \<le> w_next_task w1"
    and s1: "s1 = s\<lparr>su_child_tasks := ts\<rparr>" by blast
  show ?case
  proof (cases e1)
    case (Some x)
    with 4(3) n1 le s1 show ?thesis by auto
  next
    case None
    obtain e2 cs2 s2 w2 where n2: "start_nodes env cs s1 w1 = (e2, cs2, s2, w2)" by (rule prod_cases4)
    from 4(2) [OF n1 [symmetric] None refl refl n2] 4(3) n1 n2 None le s1 show ?thesis by auto
  qed
qed

text \<open>
  The child \<open>(n, b)\<close> (\<open>b\<close>: a supervisor) is started anew: an agent runs in a task younger than \<open>k\<close>; a
  supervisor is running, with an empty intensity window.
\<close>

definition fresh_node :: "nat \<Rightarrow> sup_state \<Rightarrow> node list \<Rightarrow> string \<times> bool \<Rightarrow> bool" where
  "fresh_node k s cs c =
     (case c of (n, b) \<Rightarrow>
        if b
        then (case find_child n cs of
                Some (NSup m t ds) \<Rightarrow> su_running t \<and> su_loop t \<and> re_window (su_engine t) = []
              | _ \<Rightarrow> False)
        else (case dget (su_child_tasks s) n of Some t \<Rightarrow> k \<le> t | None \<Rightarrow> False))"

text \<open>From one state to the next exactly the children \<open>M\<close> were started anew.\<close>

definition refreshed :: "nat \<Rightarrow> (string \<times> bool) list \<Rightarrow> sup \<Rightarrow> sup \<Rightarrow> bool" where
  "refreshed k M x x' \<longleftrightarrow>
     (case x of (s, cs, w) \<Rightarrow> case x' of (s', cs', w') \<Rightarrow>
        map node_name cs' = map node_name cs \<and> w_next_task w \<le> w_next_task w'
      \<and> (\<forall>n. n \<notin> fst ` set M \<longrightarrow>
           find_child n cs' = find_child n cs \<and> dget (su_child_tasks s') n = dget (su_child_tasks s) n)
      \<and> (\<forall>c \<in> set M. fresh_node k s' cs' c)
      \<and> (\<exists>ts. s' = s\<lparr>su_child_tasks := ts\<rparr>))"

lemma refreshed_Nil: "refreshed k [] x x"
  using tasks_same [of "fst x"] by (cases x) (auto simp: refreshed_def)

lemma refreshed_trans:
  assumes "refreshed k M x y" "refreshed k N y z" "fst ` set M \<inter> fst ` set N = {}"
  shows "refreshed k (M @ N) x z"
proof -
  obtain s cs w s' cs' w' s'' cs'' w''
    where x: "x = (s, cs, w)" and y: "y = (s', cs', w')" and z: "z = (s'', cs'', w'')"
    by (metis prod_cases3)
  have keep: "fresh_node k s'' cs'' c" if "c \<in> set M" for c
  proof -
    obtain n b where c: "c = (n, b)" by (cases c)
    from that c assms(3) have "n \<notin> fst ` set N" by force
    with assms(2) have "find_child n cs'' = find_child n cs'" "dget (su_child_tasks s'') n = dget (su_child_tasks s') n"
      by (auto simp: refreshed_def y z)
    moreover have "fresh_node k s' cs' c" using assms(1) that by (simp add: refreshed_def x y)
    ultimately show ?thesis by (simp add: fresh_node_def c)
  qed
  from assms(1,2) keep show ?thesis
    by (auto simp: refreshed_def x y z image_Un)
qed

lemma restart_agent_refreshed:
  assumes "restart_agent_child env n a (s, cs, w) = Some (None, x')" "k \<le> w_next_task w"
  shows "refreshed k [(n, False)] (s, cs, w) x'"
proof -
  from assms(1) obtain reg a0 a' s' w' where
    st: "start_child env n a0 s (w\<lparr>w_registry := reg\<rparr>) = (None, a', s', w')"
    and x': "x' = (s', replace_child n (NAgent n a') cs, w')"
    unfolding restart_agent_child_def Let_def
    by (auto split: option.splits prod.splits sum.splits)
  show ?thesis
    using start_child_ok [OF st] x' assms(2)
    by (auto simp: refreshed_def fresh_node_def replace_child_names find_child_replace sup_trace_def dict_simps)
qed

lemma restart_node_refreshed:
  assumes "restart_node env c (s, cs, w) = Some (None, x')" "k \<le> w_next_task w"
    "node_name c \<in> node_name ` set cs"
  shows "refreshed k [shape c] (s, cs, w) x'"
proof (cases c)
  case (NAgent n a)
  with assms show ?thesis by (auto simp: restart_node_def intro: restart_agent_refreshed)
next
  case (NSup n t ds)
  obtain e ds' t' w' where
    st: "start_nodes env ds ((reset_budget t)\<lparr>su_running := True, su_loop := True\<rparr>) w = (e, ds', t', w')"
    by (rule prod_cases4)
  then obtain ts where "w_next_task w \<le> w_next_task w'"
    "t' = (reset_budget t)\<lparr>su_running := True, su_loop := True, su_child_tasks := ts\<rparr>"
    using start_subtree_keeps(2) by fastforce
  with st NSup assms tasks_same [of s] show ?thesis
    by (auto simp: restart_node_def refreshed_def fresh_node_def replace_child_names find_child_replace
        reset_budget_def reset_engine_def)
qed

lemma restart_nodes_refreshed:
  "restart_nodes env ds (s, cs, w) = Some (None, x') \<Longrightarrow> k \<le> w_next_task w \<Longrightarrow>
   distinct (map node_name ds) \<Longrightarrow> node_name ` set ds \<subseteq> node_name ` set cs \<Longrightarrow>
   refreshed k (map shape ds) (s, cs, w) x'"
proof (induction ds arbitrary: s cs w)
  case Nil
  then show ?case by (simp add: refreshed_Nil)
next
  case (Cons c ds)
  from Cons.prems(1) obtain s1 cs1 w1 where
    c: "restart_node env c (s, cs, w) = Some (None, s1, cs1, w1)"
    and ds: "restart_nodes env ds (s1, cs1, w1) = Some (None, x')"
    by (auto split: option.splits prod.splits)
  have rc: "refreshed k [shape c] (s, cs, w) (s1, cs1, w1)"
    using restart_node_refreshed [OF c Cons.prems(2)] Cons.prems(4) by simp
  then have "map node_name cs1 = map node_name cs" "k \<le> w_next_task w1"
    using Cons.prems(2) by (auto simp: refreshed_def)
  then have "refreshed k (map shape ds) (s1, cs1, w1) x'"
    using Cons.IH [OF ds] Cons.prems(3,4) by (metis distinct.simps(2) list.set_map list.simps(9) insert_subset list.simps(15) image_insert)
  moreover have "fst ` set [shape c] \<inter> fst ` set (map shape ds) = {}"
    using Cons.prems(3) by (auto simp: image_image)
  ultimately show ?case using refreshed_trans [OF rc] by simp
qed

text \<open>Stopping children changes neither their names nor the identities of tasks.\<close>

lemma stop_agent_next: "stop_agent env n a w = Some (e, a', w') \<Longrightarrow> w_next_task w' = w_next_task w"
  by (auto simp: stop_agent_def sup_trace_def split: if_splits option.splits prod.splits)

lemma stop_keeps:
  "stop_node env c w = Some (e, c', w') \<Longrightarrow> shape c' = shape c \<and> w_next_task w' = w_next_task w"
  "stop_nodes_rev env cs w = Some (e, cs', w'') \<Longrightarrow> w_next_task w'' = w_next_task w"
proof (induction env c w and env cs w arbitrary: e c' w' and e cs' w''
    rule: stop_node_stop_nodes_rev.induct)
  case (1 env n a w)
  then show ?case by (auto dest: stop_agent_next split: option.splits prod.splits)
next
  case (2 env n t cs w)
  then show ?case by (auto split: option.splits prod.splits)
next
  case (3 env w)
  then show ?case by simp
next
  case (4 env c cs w)
  from 4(3) obtain e1 cs1 w1 where n1: "stop_nodes_rev env cs w = Some (e1, cs1, w1)"
    by (auto split: option.splits)
  from 4(1) [OF n1] have w1: "w_next_task w1 = w_next_task w" .
  show ?case
  proof (cases e1)
    case (Some x)
    with 4(3) n1 w1 show ?thesis by simp
  next
    case None
    with 4(3) n1 obtain c2 where n2: "stop_node env c w1 = Some (e, c2, w'')"
      by (auto split: option.splits)
    from 4(2) [OF n1 refl None refl n2] w1 show ?thesis by simp
  qed
qed

lemma stop_for_restart_keeps:
  "stop_for_restart env c w = Some (e, c', w') \<Longrightarrow> shape c' = shape c \<and> w_next_task w' = w_next_task w"
proof (cases c)
  case (NAgent n a)
  assume r: "stop_for_restart env c w = Some (e, c', w')"
  show ?thesis
  proof (cases "a_status a \<in> {STOPPED, STOPPING, CRASHED}")
    case True
    with r NAgent show ?thesis by (auto simp: stop_for_restart_def)
  next
    case False
    then have "stop_for_restart env c w = stop_node env c w" by (simp add: stop_for_restart_def NAgent)
    with r show ?thesis using stop_keeps(1) by metis
  qed
next
  case (NSup n t ds)
  assume r: "stop_for_restart env c w = Some (e, c', w')"
  have "stop_for_restart env c w = stop_node env c w" by (simp add: stop_for_restart_def NSup)
  with r show ?thesis using stop_keeps(1) by metis
qed

lemma stop_each_keeps:
  "stop_each env cs w = Some (e, cs', w') \<Longrightarrow> map shape cs' = map shape cs \<and> w_next_task w' = w_next_task w"
proof (induction cs arbitrary: w e cs' w')
  case (Cons c cs)
  obtain e1 c1 w1 where c: "stop_for_restart env c w = Some (e1, c1, w1)"
    using Cons.prems by (auto split: option.splits)
  show ?case
    using Cons.prems Cons.IH [of w1] stop_for_restart_keeps [OF c] c
    by (auto split: option.splits)
qed simp

lemma stop_each_rev_keeps:
  "stop_each_rev env cs w = Some (e, cs', w') \<Longrightarrow> map shape cs' = map shape cs \<and> w_next_task w' = w_next_task w"
proof (induction cs arbitrary: w e cs' w')
  case (Cons c cs)
  obtain e1 cs1 w1 where cs: "stop_each_rev env cs w = Some (e1, cs1, w1)"
    using Cons.prems by (auto split: option.splits)
  show ?case
    using Cons.prems Cons.IH [OF cs] stop_for_restart_keeps [of env c w1] cs
    by (auto split: option.splits)
qed simp

text \<open>The scope a strategy is specified to have: the names of the children it restarts.\<close>

definition restart_scope :: "restart_strategy \<Rightarrow> string \<Rightarrow> string list \<Rightarrow> string list" where
  "restart_scope strategy name names =
     (case strategy of
        ONE_FOR_ONE \<Rightarrow> [name]
      | ONE_FOR_ALL \<Rightarrow> names
      | REST_FOR_ONE \<Rightarrow> dropWhile (\<lambda>n. n \<noteq> name) names)"

lemma find_child_shape:
  "map node_name cs' = map node_name cs \<Longrightarrow> n \<notin> node_name ` set cs \<Longrightarrow> find_child n cs' = find_child n cs"
  by (metis find_child_None list.set_map)

lemma dropWhile_names:
  "map node_name (dropWhile (\<lambda>c. node_name c \<noteq> name) cs) = dropWhile (\<lambda>n. n \<noteq> name) (map node_name cs)"
  by (simp add: dropWhile_map comp_def)

lemma set_dropWhile_mem: "x \<in> set (dropWhile P xs) \<Longrightarrow> x \<in> set xs"
  by (metis set_dropWhileD)

text \<open>A restart that stops a group \<open>ds\<close> first.\<close>

lemma restart_group_refreshed:
  assumes "map shape ds' = map shape ds" "w_next_task w' = w_next_task w"
    "restart_nodes env ds' (s, pre @ ds', w') = Some (None, x')" "distinct (map node_name (pre @ ds))"
  shows "refreshed (w_next_task w) (map shape ds) (s, pre @ ds, w) x'"
proof -
  have names: "map node_name ds' = map node_name ds" by (rule node_names_shape [OF assms(1)])
  then have "distinct (map node_name ds')" using assms(4) by (metis distinct_append map_append)
  then have r: "refreshed (w_next_task w) (map shape ds) (s, pre @ ds', w') x'"
    using restart_nodes_refreshed [OF assms(3)] assms(1,2) by auto
  have "find_child n (pre @ ds') = find_child n (pre @ ds)" if "n \<notin> node_name ` set ds" for n
    using find_child_shape [OF names that] by (simp add: find_child_append split: option.splits)
  then show ?thesis
    using r names assms(2) by (cases x') (auto simp: refreshed_def image_image)
qed

lemma sup_restart_child_refreshed:
  assumes "sup_restart_child env name (s, cs, w) = Some (None, x')"
    "name \<notin> set (su_remote_children s)" "find_child name cs = Some c"
  shows "refreshed (w_next_task w) [shape c] (s, cs, w) x'"
proof (cases c)
  case (NAgent n a)
  with assms show ?thesis
    by (auto simp: sup_restart_child_def intro: restart_agent_refreshed)
next
  case (NSup n t ds)
  with find_child_SomeD [OF assms(3)] have n: "n = name" "n \<in> node_name ` set cs" by force+
  from assms NSup obtain c' w' where st: "stop_node env c w = Some (None, c', w')"
    and re: "restart_node env c' (s, replace_child n c' cs, w') = Some (None, x')"
    by (auto simp: sup_restart_child_def simp del: stop_node.simps split: option.splits prod.splits)
  from stop_keeps(1) [OF st] have sh: "shape c' = shape c" "w_next_task w' = w_next_task w" by auto
  then have nm: "node_name c' = n" using NSup by (metis fst_shape(1) node_name.simps(2))
  then have "node_name c' \<in> node_name ` set (replace_child n c' cs)"
    using n(2) replace_child_names [OF nm, of cs] by (metis list.set_map)
  from restart_node_refreshed [OF re _ this, of "w_next_task w"] sh nm NSup show ?thesis
    by (cases x') (auto simp: refreshed_def replace_child_names find_child_replace)
qed

lemma apply_strategy_refreshed:
  assumes "apply_strategy env name (s, cs, w) = Some (None, x')"
    "distinct (map node_name cs)" "name \<in> node_name ` set cs" "name \<notin> set (su_remote_children s)"
  shows "refreshed (w_next_task w)
    (map shape (filter (\<lambda>c. node_name c \<in> set (restart_scope (su_strategy s) name (map node_name cs))) cs))
    (s, cs, w) x'"
proof (cases "su_strategy s")
  case ONE_FOR_ONE
  from assms(3) obtain c where c: "c \<in> set cs" "node_name c = name" by auto
  have "filter (\<lambda>c. node_name c = name) cs = [c]"
    using c assms(2) by (induction cs) (auto simp: filter_empty_conv, metis image_eqI)
  then show ?thesis
    using sup_restart_child_refreshed [of env name s cs w x' c] find_child_unique [OF assms(2) c(1)] assms c ONE_FOR_ONE
    by (simp add: apply_strategy_def restart_scope_def)
next
  case ONE_FOR_ALL
  from assms ONE_FOR_ALL obtain cs' w' where "stop_each env cs w = Some (None, cs', w')"
    "restart_nodes env cs' (s, cs', w') = Some (None, x')"
    by (auto simp: apply_strategy_def restart_all_children_def split: option.splits prod.splits)
  then show ?thesis
    using restart_group_refreshed [of cs' cs w' w env s "[]" x'] stop_each_keeps assms(2) ONE_FOR_ALL
    by (force simp: restart_scope_def intro: filter_True)
next
  case REST_FOR_ONE
  let ?P = "\<lambda>c. node_name c \<noteq> name"
  from assms REST_FOR_ONE obtain ds' w' where "stop_each_rev env (dropWhile ?P cs) w = Some (None, ds', w')"
    "restart_nodes env ds' (s, takeWhile ?P cs @ ds', w') = Some (None, x')"
    by (auto simp: apply_strategy_def restart_rest_for_one_def Let_def split: option.splits prod.splits)
  then have r: "refreshed (w_next_task w) (map shape (dropWhile ?P cs)) (s, cs, w) x'"
    using restart_group_refreshed [of ds' "dropWhile ?P cs" w' w env s "takeWhile ?P cs" x']
      stop_each_rev_keeps assms(2) by force
  have "filter (\<lambda>c. node_name c \<in> set (dropWhile (\<lambda>n. n \<noteq> name) (map node_name cs))) cs = dropWhile ?P cs"
    using assms(2)
  proof (induction cs)
    case (Cons c cs)
    then show ?case by (auto intro: filter_True dest: set_dropWhile_mem)
  qed simp
  with r REST_FOR_ONE show ?thesis by (simp add: restart_scope_def)
qed

section \<open>When a restart succeeds\<close>

definition agent_mail_ok :: "sup_env \<Rightarrow> string \<Rightarrow> agent \<Rightarrow> bool" where
  "agent_mail_ok env n a \<longleftrightarrow>
     mailbox_ok (a_mailbox a) \<and> mb_maxsize (a_mailbox a) = c_mailbox_size (se_env env n)
   \<and> mb_priority_maxsize (a_mailbox a) = 100"

text \<open>The environment is orderly: constructors and starts succeed, and a task that is asked to stop
  ends without an exception of its own.\<close>

definition orderly :: "sup_env \<Rightarrow> bool" where
  "orderly env \<longleftrightarrow>
     (\<forall>n. se_ctor_raises env n = None) \<and> (\<forall>n a. fst (run (se_env env n) a) = LoopTop)
   \<and> (\<forall>n a. agent_mail_ok env n a \<longrightarrow>
        fst (se_ends env n a) \<in> {None, Some CancelledError} \<and> agent_mail_ok env n (snd (se_ends env n a)))"

fun node_ok :: "sup_env \<Rightarrow> node \<Rightarrow> bool" where
  "node_ok env (NAgent n a) \<longleftrightarrow> agent_mail_ok env n a \<and> length (mb_priority_queue (a_mailbox a)) < 100"
| "node_ok env (NSup n t cs) \<longleftrightarrow> (\<forall>c \<in> set cs. node_ok env c)"

definition restartable :: "sup_env \<Rightarrow> node \<Rightarrow> bool" where
  "restartable env c = (case c of NAgent n a \<Rightarrow> agent_mail_ok env n a | NSup n t ds \<Rightarrow> True)"

lemma start_child_succeeds:
  assumes "orderly env"
  shows "fst (start_child env n a s w) = None"
proof -
  obtain a' where "run (se_env env n) (start_nowait (se_env env n) a) = (LoopTop, a')"
    using assms unfolding orderly_def by (metis prod.collapse)
  then show ?thesis by (simp add: start_child_def Let_def)
qed

lemma start_succeeds:
  "orderly env \<Longrightarrow> fst (start_node env c s w) = None"
  "orderly env \<Longrightarrow> fst (start_nodes env cs s w) = None"
proof (induction env c s w and env cs s w rule: start_node_start_nodes.induct)
  case (1 env n a s w)
  then show ?case using start_child_succeeds [of env n a s w] by (auto split: prod.splits)
next
  case (2 env n t cs s w)
  then show ?case by (auto split: prod.splits)
next
  case (3 env s w)
  then show ?case by simp
next
  case (4 env c cs s w)
  obtain e c' s' w' where n: "start_node env c s w = (e, c', s', w')" by (rule prod_cases4)
  with 4(1,3) have e: "e = None" by simp
  from 4(2) [OF n [symmetric] e refl refl 4(3)] show ?case
    by (simp add: n e split: prod.splits) (metis fst_conv)
qed

lemma restart_agent_succeeds:
  assumes "orderly env" "agent_mail_ok env n a"
  shows "\<exists>x'. restart_agent_child env n a x = Some (None, x')"
proof -
  obtain s cs w where x: "x = (s, cs, w)" by (cases x)
  obtain reg where reg: "(case w_registry w of None \<Rightarrow> Inr None
      | Some r \<Rightarrow> map_sum id Some (reregister_preserving r n)) = Inr reg"
    using reregister_preserving_lookup by (cases "w_registry w") (auto, metis map_sum.simps(2))
  obtain old' mb where tr: "transfer_mailbox (a_mailbox a) (new_mailbox (c_mailbox_size (se_env env n)) 100) = Some (old', mb)"
    using transfer_mailbox_spec [of "a_mailbox a"] assms(2) by (auto simp: agent_mail_ok_def)
  from assms(1) have c: "se_ctor_raises env n = None" by (simp add: orderly_def)
  let ?f = "(new_agent (se_env env n) reg (a_store a) (w_now w))\<lparr>a_mailbox := mb\<rparr>"
  obtain e a' s' w' where st: "start_child env n ?f s (w\<lparr>w_registry := reg\<rparr>) = (e, a', s', w')"
    by (rule prod_cases4)
  with start_child_succeeds [OF assms(1)] have "e = None" by (metis fst_conv)
  with st show ?thesis
    unfolding restart_agent_child_def x Let_def
    by (simp add: c reg tr new_agent_def)
qed

lemma restart_node_succeeds:
  assumes "orderly env" "restartable env c"
  shows "\<exists>x'. restart_node env c x = Some (None, x')"
proof (cases c)
  case (NAgent n a)
  with assms restart_agent_succeeds show ?thesis by (auto simp: restart_node_def restartable_def)
next
  case (NSup n t ds)
  obtain s cs w where x: "x = (s, cs, w)" by (cases x)
  obtain e c' s' w' where st: "start_node env (NSup n (reset_budget t) ds) s w = (e, c', s', w')"
    by (rule prod_cases4)
  with start_succeeds(1) [OF assms(1)] have "e = None" by (metis fst_conv)
  with st NSup x show ?thesis by (simp add: restart_node_def del: start_node.simps)
qed

lemma restart_nodes_succeeds:
  "orderly env \<Longrightarrow> \<forall>c \<in> set ds. restartable env c \<Longrightarrow> \<exists>x'. restart_nodes env ds x = Some (None, x')"
proof (induction ds arbitrary: x)
  case (Cons c ds)
  obtain x1 where "restart_node env c x = Some (None, x1)"
    using restart_node_succeeds [OF Cons.prems(1)] Cons.prems(2) by (metis list.set_intros(1))
  with Cons show ?case by simp
next
  case Nil
  then show ?case by (cases x) simp
qed

lemma stop_agent_succeeds:
  assumes "orderly env" "agent_mail_ok env n a" "length (mb_priority_queue (a_mailbox a)) < 100"
  shows "\<exists>a' w'. stop_agent env n a w = Some (None, a', w') \<and> agent_mail_ok env n a'"
proof (cases "a_status a \<in> {RUNNING, INITIALIZING, SUSPENDED}")
  case True
  obtain a1 where a1: "stop_request (se_env env n) a = Some a1" "agent_mail_ok env n a1"
    using assms(2,3) True
    by (auto simp: stop_request_def agent_mail_ok_def Let_def mb_put_def q_full_def mailbox_ok_def tick_uid_def)
  obtain e a2 where e: "se_ends env n a1 = (e, a2)" by (cases "se_ends env n a1")
  with assms(1) a1(2) have "e \<in> {None, Some CancelledError}" "agent_mail_ok env n a2"
    unfolding orderly_def by (metis fst_conv snd_conv)+
  with a1(1) e True show ?thesis by (auto simp: stop_agent_def)
qed (auto simp: stop_agent_def assms(2))

lemma stop_succeeds:
  "orderly env \<Longrightarrow> node_ok env c \<Longrightarrow> \<exists>c' w'. stop_node env c w = Some (None, c', w') \<and> restartable env c'"
  "orderly env \<Longrightarrow> \<forall>c \<in> set cs. node_ok env c \<Longrightarrow> \<exists>cs' w'. stop_nodes_rev env cs w = Some (None, cs', w')"
proof (induction env c w and env cs w rule: stop_node_stop_nodes_rev.induct)
  case (1 env n a w)
  then show ?case using stop_agent_succeeds [of env n a w] by (auto simp: restartable_def)
next
  case (2 env n t cs w)
  then show ?case by (fastforce simp: restartable_def)
next
  case (3 env w)
  then show ?case by simp
next
  case (4 env c cs w)
  then obtain cs' w' where n: "stop_nodes_rev env cs w = Some (None, cs', w')" by auto
  from 4(2) [OF n refl refl] 4(3,4) n show ?case by auto
qed

lemma stop_for_restart_succeeds:
  assumes "orderly env" "node_ok env c"
  shows "\<exists>c' w'. stop_for_restart env c w = Some (None, c', w') \<and> restartable env c'"
proof -
  have "stop_for_restart env c w \<in> {stop_node env c w, Some (None, c, w)}
      \<and> (stop_for_restart env c w = stop_node env c w \<or> restartable env c)"
    using assms(2) by (cases c) (auto simp: stop_for_restart_def restartable_def)
  with stop_succeeds(1) [OF assms, of w] show ?thesis by auto
qed

lemma stop_each_succeeds:
  "orderly env \<Longrightarrow> \<forall>c \<in> set cs. node_ok env c \<Longrightarrow>
     \<exists>cs' w'. stop_each env cs w = Some (None, cs', w') \<and> (\<forall>c \<in> set cs'. restartable env c)"
proof (induction cs arbitrary: w)
  case (Cons c cs)
  obtain c' w' where c: "stop_for_restart env c w = Some (None, c', w')" "restartable env c'"
    using stop_for_restart_succeeds Cons.prems by (metis list.set_intros(1))
  from Cons.IH [of w'] Cons.prems c show ?case by auto
qed simp

lemma stop_each_rev_succeeds:
  "orderly env \<Longrightarrow> \<forall>c \<in> set cs. node_ok env c \<Longrightarrow>
     \<exists>cs' w'. stop_each_rev env cs w = Some (None, cs', w') \<and> (\<forall>c \<in> set cs'. restartable env c)"
proof (induction cs arbitrary: w)
  case (Cons c cs)
  obtain cs' w' where cs: "stop_each_rev env cs w = Some (None, cs', w')" "\<forall>c \<in> set cs'. restartable env c"
    using Cons by fastforce
  obtain c' w'' where "stop_for_restart env c w' = Some (None, c', w'')" "restartable env c'"
    using stop_for_restart_succeeds Cons.prems by (metis list.set_intros(1))
  with cs show ?case by auto
qed simp

lemma apply_strategy_succeeds:
  assumes "orderly env" "\<forall>c \<in> set cs. node_ok env c"
  shows "\<exists>x'. apply_strategy env name (s, cs, w) = Some (None, x')"
proof (cases "su_strategy s")
  case ONE_FOR_ONE
  show ?thesis
  proof (cases "find_child name cs")
    case (Some c)
    then have ok: "node_ok env c" using find_child_SomeD assms(2) by blast
    show ?thesis
    proof (cases c)
      case (NAgent n a)
      with ok restart_agent_succeeds [OF assms(1)] Some ONE_FOR_ONE show ?thesis
        by (auto simp: apply_strategy_def sup_restart_child_def)
    next
      case (NSup n t ds)
      obtain c' w' where st: "stop_node env c w = Some (None, c', w')" "restartable env c'"
        using stop_succeeds(1) [OF assms(1) ok] by blast
      with restart_node_succeeds [OF assms(1) st(2)] Some ONE_FOR_ONE NSup show ?thesis
        by (auto simp: apply_strategy_def sup_restart_child_def simp del: stop_node.simps)
    qed
  qed (simp add: ONE_FOR_ONE apply_strategy_def sup_restart_child_def)
next
  case ONE_FOR_ALL
  with stop_each_succeeds [OF assms, of w] restart_nodes_succeeds [OF assms(1)] show ?thesis
    by (fastforce simp: apply_strategy_def restart_all_children_def)
next
  case REST_FOR_ONE
  have "\<forall>c \<in> set (dropWhile (\<lambda>c. node_name c \<noteq> name) cs). node_ok env c"
    using assms(2) by (metis set_dropWhileD)
  with stop_each_rev_succeeds [OF assms(1), of _ w] restart_nodes_succeeds [OF assms(1)] REST_FOR_ONE show ?thesis
    by (fastforce simp: apply_strategy_def restart_rest_for_one_def Let_def)
qed

section \<open>Properties\<close>

text \<open>C2. A restart strategy succeeds with exactly its specified scope. In an orderly environment
  (constructors and starts succeed, a child asked to stop ends without an exception) the strategy
  returns without raising. ONE_FOR_ONE restarts the crashed child, ONE_FOR_ALL every child,
  REST_FOR_ONE the crashed child and those after it: each child in the scope is started anew (an
  agent in a task younger than the crash; a supervisor running, with an empty intensity window),
  every other child and its task are untouched, and no child changes its place.\<close>

theorem strategy_scope:
  assumes "orderly env" "\<forall>c \<in> set cs. node_ok env c"
    "distinct (map node_name cs)" "name \<in> node_name ` set cs" "name \<notin> set (su_remote_children s)"
  shows "\<exists>s' cs' w'. apply_strategy env name (s, cs, w) = Some (None, s', cs', w')
    \<and> map node_name cs' = map node_name cs
    \<and> (\<forall>c \<in> set cs.
         if node_name c \<in> set (restart_scope (su_strategy s) name (map node_name cs))
         then fresh_node (w_next_task w) s' cs' (shape c)
         else find_child (node_name c) cs' = Some c
            \<and> dget (su_child_tasks s') (node_name c) = dget (su_child_tasks s) (node_name c))"
proof -
  obtain s' cs' w' where ap: "apply_strategy env name (s, cs, w) = Some (None, s', cs', w')"
    using apply_strategy_succeeds [OF assms(1,2)] by (metis prod_cases3)
  let ?scope = "set (restart_scope (su_strategy s) name (map node_name cs))"
  let ?M = "map shape (filter (\<lambda>c. node_name c \<in> ?scope) cs)"
  have r: "refreshed (w_next_task w) ?M (s, cs, w) (s', cs', w')"
    by (rule apply_strategy_refreshed [OF ap assms(3-5)])
  have "node_name c \<notin> fst ` set ?M" if "node_name c \<notin> ?scope" for c
    using that by auto
  with r find_child_unique [OF assms(3)]
  have "map node_name cs' = map node_name cs
    \<and> (\<forall>c \<in> set cs. if node_name c \<in> ?scope then fresh_node (w_next_task w) s' cs' (shape c)
         else find_child (node_name c) cs' = Some c
            \<and> dget (su_child_tasks s') (node_name c) = dget (su_child_tasks s) (node_name c))"
    by (fastforce simp: refreshed_def)
  with ap show ?thesis by blast
qed

text \<open>A sample tree: two agents of the base class and a supervisor between them, under the given
  strategy; tasks 0 and 1 are the agents'.\<close>

definition sample_env :: sup_env where
  "sample_env =
     \<lparr>se_env = base_env, se_ctor_raises = \<lambda>n. None,
      se_ends = \<lambda>n a. (None, a\<lparr>a_status := STOPPED, a_mailbox := new_mailbox 1000 100\<rparr>),
      se_loop_cancelled = \<lambda>n. False, se_has_bus = True, se_callbacks = 1, se_jitter = 0\<rparr>"

definition sample_agent :: "string \<Rightarrow> agent" where
  "sample_agent n = (new_agent (base_env n) None None 0)\<lparr>a_status := RUNNING\<rparr>"

definition sample_children :: "node list" where
  "sample_children =
     [NAgent ''a'' (sample_agent ''a''), NSup ''b'' (new_sup ONE_FOR_ONE 3 60 CONSTANT 1 60) [],
      NAgent ''c'' (sample_agent ''c'')]"

definition sample_sup_state :: "restart_strategy \<Rightarrow> sup_state" where
  "sample_sup_state strategy =
     (new_sup strategy 3 60 CONSTANT 1 60)
       \<lparr>su_running := True, su_loop := True, su_child_tasks := [(''a'', 0), (''c'', 1)]\<rparr>"

definition sample_world :: world where
  "sample_world = \<lparr>w_registry = None, w_next_task = 2, w_now = 0, w_trace = []\<rparr>"

lemma sample_env_orderly: "orderly sample_env"
  by (auto simp: orderly_def sample_env_def agent_mail_ok_def base_env_def mailbox_ok_def new_mailbox_def
      run_def restore_state_def split: option.split)

lemma sample_children_ok: "\<forall>c \<in> set sample_children. node_ok sample_env c"
  by (auto simp: sample_children_def sample_agent_def sample_env_def agent_mail_ok_def base_env_def
      mailbox_ok_def new_mailbox_def new_agent_def)

lemma sample_children_names [simp]: "map node_name sample_children = [''a'', ''b'', ''c'']"
  by (simp add: sample_children_def)

theorem strategy_scope_witness:
  "\<exists>s' cs' w'. apply_strategy sample_env ''b'' (sample_sup_state REST_FOR_ONE, sample_children, sample_world)
       = Some (None, s', cs', w')
     \<and> find_child ''a'' cs' = Some (NAgent ''a'' (sample_agent ''a''))
     \<and> dget (su_child_tasks s') ''a'' = Some 0 \<and> fresh_node 2 s' cs' (''b'', True) \<and> fresh_node 2 s' cs' (''c'', False)"
proof -
  have "''b'' \<in> node_name ` set sample_children" by (simp add: sample_children_def)
  from strategy_scope [OF sample_env_orderly sample_children_ok _ this, of "sample_sup_state REST_FOR_ONE" sample_world]
  show ?thesis
    by (auto simp: sample_sup_state_def new_sup_def restart_scope_def sample_world_def sample_children_def dict_simps)
qed

section \<open>Crash events in the loop\<close>

text \<open>The state a crash of \<open>name\<close> leaves when it is charged to the budget.\<close>

definition charged :: "sup_env \<Rightarrow> string \<Rightarrow> nat \<Rightarrow> sup_msg list \<Rightarrow> sup \<Rightarrow> sup_state" where
  "charged env name i inbox x =
     (case x of (s, cs, w) \<Rightarrow>
        s\<lparr>su_inbox := inbox, su_pending_crash_events := dpop i (su_pending_crash_events s),
          su_restart_counts := dput name
             ((case dget (su_restart_counts s) name of None \<Rightarrow> 0 | Some n \<Rightarrow> n) + 1) (su_restart_counts s),
          su_engine := snd (sup_crash_verdict env name x)\<rparr>)"

lemma sup_crash_verdict_cong:
  "su_engine s' = su_engine s \<Longrightarrow> sup_crash_verdict env name (s', cs, w) = sup_crash_verdict env name (s, cs, w)"
  by (simp add: sup_crash_verdict_def)

lemma charge_crash_charged:
  "charge_crash env name e (s\<lparr>su_inbox := q, su_pending_crash_events := dpop i (su_pending_crash_events s)\<rparr>, cs, w) =
     (charged env name i q (s, cs, w), cs, w\<lparr>w_trace := w_trace w @ replicate (se_callbacks env) (TCallback name e)\<rparr>)"
  by (simp add: charge_crash_def charged_def sup_crash_verdict_def)

lemma loop_step_restarts:
  assumes "orderly env" "\<forall>c \<in> set cs. node_ok env c"
    "distinct (map node_name cs)" "name \<in> node_name ` set cs" "name \<notin> set (su_remote_children s)"
    and loop: "su_loop s" "su_running s" "su_inbox s = ChildCrashed i # q"
    and ev: "dget (su_pending_crash_events s) i = Some (name, e, task)" "\<not> stale name task s"
    and verdict: "v_action (fst (sup_crash_verdict env name (s, cs, w))) \<noteq> Exhausted"
  obtains s' cs' w0 w' where
    "sup_loop_step env sup_name parent (s, cs, w) = Some (parent, s', cs', w')"
    "refreshed (w_next_task w)
       (map shape (filter (\<lambda>c. node_name c \<in> set (restart_scope (su_strategy s) name (map node_name cs))) cs))
       (charged env name i q (s, cs, w), cs, w0) (s', cs', w')"
    "w_next_task w0 = w_next_task w"
proof -
  let ?s1 = "s\<lparr>su_inbox := q, su_pending_crash_events := dpop i (su_pending_crash_events s)\<rparr>"
  let ?c = "charged env name i q (s, cs, w)"
  let ?w1 = "w\<lparr>w_trace := w_trace w @ replicate (se_callbacks env) (TCallback name e)\<rparr>"
  let ?v = "fst (sup_crash_verdict env name (s, cs, w))"
  let ?w0 = "if v_delay ?v > 0 then (sup_trace (TSleep (v_delay ?v)) ?w1)\<lparr>w_now := w_now w + v_delay ?v\<rparr> else ?w1"
  have keep: "su_strategy ?c = su_strategy s" "su_remote_children ?c = su_remote_children s"
    by (simp_all add: charged_def)
  obtain s' cs' w' where ap: "apply_strategy env name (?c, cs, ?w0) = Some (None, s', cs', w')"
    using apply_strategy_succeeds [OF assms(1,2)] by (metis prod_cases3)
  have "handle_crash env name e (?s1, cs, w) = Some (Applied None, s', cs', w')"
    using verdict ap sup_crash_verdict_cong [of ?s1 s env name cs w]
    by (simp add: handle_crash_def Let_def charge_crash_charged split: if_splits)
  then have st: "sup_loop_step env sup_name parent (s, cs, w) = Some (parent, s', cs', w')"
    using loop ev by (auto simp: sup_loop_step_def process_crash_event_def Let_def stale_def)
  have nt: "w_next_task ?w0 = w_next_task w" by (simp add: sup_trace_def)
  from apply_strategy_refreshed [OF ap assms(3,4)] assms(5) keep nt st that [of s' cs' w' ?w0]
  show ?thesis by simp
qed

lemma refreshed_state:
  "refreshed k M (s, cs, w) (s', cs', w') \<Longrightarrow> \<exists>ts. s' = s\<lparr>su_child_tasks := ts\<rparr>"
  by (simp add: refreshed_def)

text \<open>C4. Simultaneous crashes cost one restart round. When the first queued crash is handled, a
  queued crash of another agent in the scope of the strategy becomes stale, because that agent's
  task was replaced: the loop drops it without charging the budget, without a restart and without
  telling the parent.\<close>

theorem simultaneous_crashes_one_round:
  assumes "orderly env" "\<forall>c \<in> set cs. node_ok env c" "distinct (map node_name cs)"
    and "m \<in> node_name ` set cs" "m \<notin> set (su_remote_children s)" "NAgent n a \<in> set cs"
    and "n \<in> set (restart_scope (su_strategy s) m (map node_name cs))"
    and "su_loop s" "su_running s" "su_inbox s = ChildCrashed i # ChildCrashed j # q" "i \<noteq> j"
    and "dget (su_pending_crash_events s) i = Some (m, e, Some t)" "dget (su_child_tasks s) m = Some t"
    and "dget (su_pending_crash_events s) j = Some (n, e', Some t')" "t' < w_next_task w"
    and "v_action (fst (sup_crash_verdict env m (s, cs, w))) \<noteq> Exhausted"
  shows "\<exists>s' cs' w'. sup_loop_step env sup_name parent (s, cs, w) = Some (parent, s', cs', w')
    \<and> su_engine s' = snd (sup_crash_verdict env m (s, cs, w))
    \<and> sup_loop_step env sup_name parent (s', cs', w')
        = Some (parent, s'\<lparr>su_inbox := q, su_pending_crash_events := dpop j (su_pending_crash_events s')\<rparr>, cs', w')"
proof -
  have "\<not> stale m (Some t) s" using assms(13) by (simp add: stale_def)
  from loop_step_restarts [OF assms(1-5) assms(8-10) assms(12) this assms(16), of sup_name parent]
  obtain s' cs' w0 w' where st: "sup_loop_step env sup_name parent (s, cs, w) = Some (parent, s', cs', w')"
    and r: "refreshed (w_next_task w)
       (map shape (filter (\<lambda>c. node_name c \<in> set (restart_scope (su_strategy s) m (map node_name cs))) cs))
       (charged env m i (ChildCrashed j # q) (s, cs, w), cs, w0) (s', cs', w')"
    by metis
  from refreshed_state [OF r] obtain ts where s': "s' = (charged env m i (ChildCrashed j # q) (s, cs, w))\<lparr>su_child_tasks := ts\<rparr>"
    by blast
  have "fresh_node (w_next_task w) s' cs' (shape (NAgent n a))"
    using r assms(6,7) by (force simp: refreshed_def)
  then have "stale n (Some t') s'"
    using assms(15) by (auto simp: fresh_node_def stale_def split: option.splits)
  moreover have "dget (su_pending_crash_events s') j = Some (n, e', Some t')"
    using assms(11,14) by (simp add: s' charged_def dict_simps)
  moreover have "su_inbox s' = ChildCrashed j # q" "su_loop s'" "su_running s'"
    "su_engine s' = snd (sup_crash_verdict env m (s, cs, w))"
    using assms(8,9) by (simp_all add: s' charged_def)
  ultimately show ?thesis
    using st by (auto simp: sup_loop_step_def process_crash_event_def Let_def stale_def)
qed

theorem simultaneous_crashes_one_round_witness:
  "\<exists>s' cs' w'. sup_loop_step sample_env ''s'' None
      (enqueue_crash_event ''c'' ValueError (Some 1) (enqueue_crash_event ''a'' ValueError (Some 0)
         (sample_sup_state ONE_FOR_ALL)), sample_children, sample_world) = Some (None, s', cs', w')
    \<and> length (re_window (su_engine s')) = 1
    \<and> sup_loop_step sample_env ''s'' None (s', cs', w')
        = Some (None, s'\<lparr>su_inbox := [], su_pending_crash_events := dpop 1 (su_pending_crash_events s')\<rparr>, cs', w')"
proof -
  let ?s = "enqueue_crash_event ''c'' ValueError (Some 1) (enqueue_crash_event ''a'' ValueError (Some 0)
         (sample_sup_state ONE_FOR_ALL))"
  have v: "sup_crash_verdict sample_env ''a'' (?s, sample_children, sample_world)
     = record_crash (new_engine 3 60 (Some CONSTANT) 1 60) 0 0"
    by (simp add: sup_crash_verdict_def child_was_suspended_def sample_children_def find_child_Cons sample_agent_def
        new_agent_def sample_sup_state_def new_sup_def enqueue_crash_event_def sample_world_def sample_env_def dict_simps)
  have mem: "''a'' \<in> node_name ` set sample_children" "NAgent ''c'' (sample_agent ''c'') \<in> set sample_children"
    by (simp_all add: sample_children_def)
  have fs: "su_strategy ?s = ONE_FOR_ALL" "''a'' \<notin> set (su_remote_children ?s)" "su_loop ?s" "su_running ?s"
    "su_inbox ?s = [ChildCrashed 0, ChildCrashed 1]" "dget (su_child_tasks ?s) ''a'' = Some 0"
    "dget (su_pending_crash_events ?s) 0 = Some (''a'', ValueError, Some 0)"
    "dget (su_pending_crash_events ?s) 1 = Some (''c'', ValueError, Some 1)"
    by (simp_all add: enqueue_crash_event_def sample_sup_state_def new_sup_def dict_simps)
  have sc: "''c'' \<in> set (restart_scope (su_strategy ?s) ''a'' (map node_name sample_children))"
    unfolding fs(1) by (simp add: restart_scope_def)
  have rc: "length (re_window (snd (record_crash (new_engine 3 60 (Some CONSTANT) 1 60) 0 0))) = 1"
    "v_action (fst (record_crash (new_engine 3 60 (Some CONSTANT) 1 60) 0 0)) \<noteq> Exhausted"
    by (simp_all add: record_crash_def new_engine_def Let_def)
  have d: "distinct (map node_name sample_children)" by simp
  have tl: "(1::nat) < w_next_task sample_world" by (simp add: sample_world_def)
  from rc(2) have "v_action (fst (sup_crash_verdict sample_env ''a'' (?s, sample_children, sample_world))) \<noteq> Exhausted"
    by (simp only: v not_False_eq_True)
  from simultaneous_crashes_one_round [OF sample_env_orderly sample_children_ok d mem(1) fs(2) mem(2) sc
      fs(3-5) zero_neq_one fs(7) fs(6) fs(8) tl this, of "''s''" None] rc(1) v
  show ?thesis by metis
qed

section \<open>Escalation\<close>

lemma loop_step_exhausted:
  assumes "su_loop s" "su_running s" "su_inbox s = ChildCrashed i # q"
    and "dget (su_pending_crash_events s) i = Some (name, e, task)" "\<not> stale name task s"
    and "v_action (fst (sup_crash_verdict env name (s, cs, w))) = Exhausted"
  shows "sup_loop_step env sup_name (Some p) (s, cs, w) =
    Some (Some (enqueue_crash_event sup_name e None p), charged env name i q (s, cs, w), cs,
      w\<lparr>w_trace := w_trace w @ replicate (se_callbacks env) (TCallback name e)\<rparr>)"
proof -
  let ?s1 = "s\<lparr>su_inbox := q, su_pending_crash_events := dpop i (su_pending_crash_events s)\<rparr>"
  have "handle_crash env name e (?s1, cs, w) = Some (BudgetExhausted, charged env name i q (s, cs, w), cs,
      w\<lparr>w_trace := w_trace w @ replicate (se_callbacks env) (TCallback name e)\<rparr>)"
    using assms(6) sup_crash_verdict_cong [of ?s1 s env name cs w]
    by (simp add: handle_crash_def Let_def charge_crash_charged)
  with assms(1-5) show ?thesis
    by (auto simp: sup_loop_step_def process_crash_event_def Let_def stale_def escalate_to_parent_def)
qed

text \<open>C6. Escalation. A crash that exhausts the budget starts and stops nothing: the children are left
  as they are and the parent gets exactly one event, for the supervisor itself. When the parent's
  loop takes it, it restarts the supervisor as a subtree by its own strategy: the supervisor is
  running again with an empty intensity window, so its next crash is judged afresh.\<close>

theorem exhausted_budget_escalates:
  assumes "su_loop s" "su_running s" "su_inbox s = ChildCrashed i # q"
    and "dget (su_pending_crash_events s) i = Some (name, e, task)" "\<not> stale name task s"
    and "v_action (fst (sup_crash_verdict env name (s, cs, w))) = Exhausted"
    and "orderly env" "su_loop p" "su_running p" "su_inbox p = []" "su_remote_children p = []"
    and "distinct (map node_name ps)" "NSup sup_name (charged env name i q (s, cs, w)) cs \<in> set ps"
    and "\<forall>c \<in> set ps. node_ok env c"
    and "v_action (fst (sup_crash_verdict env sup_name (p, ps, w))) \<noteq> Exhausted"
  shows "\<exists>p' w' p'' ps' w''.
      sup_loop_step env sup_name (Some p) (s, cs, w) = Some (Some p', charged env name i q (s, cs, w), cs, w')
    \<and> w_trace w' = w_trace w @ replicate (se_callbacks env) (TCallback name e)
    \<and> su_inbox p' = [ChildCrashed (su_next_event p)]
    \<and> sup_loop_step env parent_name gp (p', ps, w') = Some (gp, p'', ps', w'')
    \<and> fresh_node (w_next_task w) p'' ps' (sup_name, True) \<and> su_inbox p'' = []"
proof -
  let ?p' = "enqueue_crash_event sup_name e None p"
  let ?w' = "w\<lparr>w_trace := w_trace w @ replicate (se_callbacks env) (TCallback name e)\<rparr>"
  have mem: "sup_name \<in> node_name ` set ps" using assms(13) by force
  have f: "su_loop ?p'" "su_running ?p'" "su_inbox ?p' = [ChildCrashed (su_next_event p)]"
    "dget (su_pending_crash_events ?p') (su_next_event p) = Some (sup_name, e, None)"
    "sup_name \<notin> set (su_remote_children ?p')" "\<not> stale sup_name None ?p'"
    using assms(8-11) by (simp_all add: enqueue_crash_event_def dict_simps stale_def)
  have v: "v_action (fst (sup_crash_verdict env sup_name (?p', ps, ?w'))) \<noteq> Exhausted"
    using assms(15) by (simp add: sup_crash_verdict_def enqueue_crash_event_def split: if_splits)
  obtain p'' ps' w0 w'' where st: "sup_loop_step env parent_name gp (?p', ps, ?w') = Some (gp, p'', ps', w'')"
    and r: "refreshed (w_next_task ?w')
       (map shape (filter (\<lambda>c. node_name c \<in> set (restart_scope (su_strategy ?p') sup_name (map node_name ps))) ps))
       (charged env sup_name (su_next_event p) [] (?p', ps, ?w'), ps, w0) (p'', ps', w'')"
    using loop_step_restarts [OF assms(7,14,12) mem f(5,1-4,6) v, of parent_name gp] by metis
  have in_scope: "sup_name \<in> set (restart_scope strategy sup_name (map node_name ps))" for strategy
  proof -
    have "sup_name \<in> set (dropWhile (\<lambda>n. n \<noteq> sup_name) ns)" if "sup_name \<in> set ns" for ns
      using that by (induction ns) auto
    with mem show ?thesis by (auto simp: restart_scope_def split: restart_strategy.split)
  qed
  then have "fresh_node (w_next_task w) p'' ps' (shape (NSup sup_name (charged env name i q (s, cs, w)) cs))"
    using r assms(13) by (force simp: refreshed_def)
  moreover have "su_inbox p'' = []" using refreshed_state [OF r] by (auto simp: charged_def)
  ultimately show ?thesis
    using loop_step_exhausted [OF assms(1-6), of sup_name p] st f(3) by auto
qed

section \<open>Heartbeats\<close>

lemma succ_div_mod:
  fixes t x :: int
  assumes "0 < t"
  shows "(x + 1) mod t = (if x mod t + 1 = t then 0 else x mod t + 1)"
    "(x + 1) div t = x div t + (if x mod t + 1 = t then 1 else 0)"
proof -
  let ?d = "if x mod t + 1 = t then 1 else 0" and ?r = "if x mod t + 1 = t then 0 else x mod t + 1"
  have "x + 1 = t * (x div t + ?d) + ?r"
  proof (cases "x mod t + 1 = t")
    case True
    have "t * (x div t + 1) = t * (x div t) + t" by (simp add: distrib_left)
    with True mult_div_mod_eq [of t x] show ?thesis by (simp only: if_True simp_thms)
  qed simp
  moreover have "0 \<le> ?r" "?r < t"
    using assms pos_mod_bound [OF assms, of x] pos_mod_sign [OF assms, of x] by (simp_all split: if_splits)
  ultimately show "(x + 1) mod t = ?r" "(x + 1) div t = x div t + ?d"
    using int_mod_pos_eq [of "x + 1" t "x div t + ?d" ?r] int_div_pos_eq [of "x + 1" t "x div t + ?d" ?r] by blast+
qed

lemma missed_of_put [simp]: "missed_of k (s\<lparr>su_missed_heartbeats := dput k v m\<rparr>) = v"
  by (simp add: missed_of_def dict_simps)

lemma threshold_of_same [simp]:
  "threshold_of (s\<lparr>su_missed_heartbeats := m\<rparr>) n = threshold_of s n"
  "threshold_of (enqueue_crash_event k e t s) n = threshold_of s n"
  "su_missed_heartbeats (enqueue_crash_event k e t s) = su_missed_heartbeats s"
  "length (su_inbox (enqueue_crash_event k e t s)) = Suc (length (su_inbox s))"
  by (simp_all add: threshold_of_def enqueue_crash_event_def)

lemma legacy_ping_NoAck:
  assumes "0 \<le> missed_of name s"
  shows "threshold_of (legacy_ping name NoAck s) k = threshold_of s k"
    "missed_of name (legacy_ping name NoAck s) =
       (if missed_of name s + 1 \<ge> threshold_of s name then 0 else missed_of name s + 1)"
    "length (su_inbox (legacy_ping name NoAck s)) =
       length (su_inbox s) + (if missed_of name s + 1 \<ge> threshold_of s name then 1 else 0)"
  using assms by (simp_all add: legacy_ping_def Let_def)

lemma missed_pings:
  assumes "missed_of name s = 0" "0 < threshold_of s name"
  shows "threshold_of ((legacy_ping name NoAck ^^ k) s) name = threshold_of s name
    \<and> missed_of name ((legacy_ping name NoAck ^^ k) s) = int k mod threshold_of s name
    \<and> int (length (su_inbox ((legacy_ping name NoAck ^^ k) s))) = int (length (su_inbox s)) + int k div threshold_of s name"
proof (induction k)
  case 0
  then show ?case using assms by simp
next
  case (Suc k)
  let ?t = "threshold_of s name" and ?s = "(legacy_ping name NoAck ^^ k) s"
  have m: "0 \<le> int k mod ?t" "int k mod ?t < ?t" using assms(2) by simp_all
  have eq: "int (Suc k) = int k + 1" by simp
  have "(int k + 1) mod ?t = (if int k mod ?t + 1 = ?t then 0 else int k mod ?t + 1)"
    "(int k + 1) div ?t = int k div ?t + (if int k mod ?t + 1 = ?t then 1 else 0)"
    using succ_div_mod [OF assms(2), of "int k"] by simp_all
  with Suc m legacy_ping_NoAck [of name ?s] show ?case
    unfolding eq by auto
qed

text \<open>Missed heartbeats. From a reset counter, \<open>k\<close> consecutive missed pings of a child with a
  positive threshold report it as crashed exactly \<open>k div threshold\<close> times and leave
  \<open>k mod threshold\<close> misses counted; one acknowledged ping starts the count again and reports
  nothing.\<close>

theorem heartbeat_threshold:
  assumes "missed_of name s = 0" "0 < threshold_of s name"
  shows "int (length (su_inbox ((legacy_ping name NoAck ^^ k) s))) = int (length (su_inbox s)) + int k div threshold_of s name
    \<and> missed_of name ((legacy_ping name NoAck ^^ k) s) = int k mod threshold_of s name
    \<and> missed_of name (legacy_ping name (Ack u) ((legacy_ping name NoAck ^^ k) s)) = 0
    \<and> su_inbox (legacy_ping name (Ack u) ((legacy_ping name NoAck ^^ k) s)) = su_inbox ((legacy_ping name NoAck ^^ k) s)"
  using missed_pings [OF assms] by (simp add: legacy_ping_def)

theorem heartbeat_threshold_witness:
  "length (su_inbox ((legacy_ping ''r'' NoAck ^^ 7) (add_remote_child ''r'' 5 2 3 (sample_sup_state ONE_FOR_ONE)))) = 2"
proof -
  let ?s = "add_remote_child ''r'' 5 2 3 (sample_sup_state ONE_FOR_ONE)"
  have "missed_of ''r'' ?s = 0" "threshold_of ?s ''r'' = 3" "su_inbox ?s = []"
    by (simp_all add: add_remote_child_def missed_of_def threshold_of_def sample_sup_state_def new_sup_def dict_simps)
  with heartbeat_threshold [of "''r''" ?s 7] show ?thesis by simp
qed

theorem exhausted_budget_escalates_witness:
  "\<exists>p' w' p'' ps' w''.
     sup_loop_step sample_env ''b'' (Some (sample_sup_state REST_FOR_ONE))
       (enqueue_crash_event ''x'' ValueError None
          ((new_sup ONE_FOR_ONE 0 60 CONSTANT 1 60)\<lparr>su_running := True, su_loop := True\<rparr>), [], sample_world)
       = Some (Some p', charged sample_env ''x'' 0 [] (enqueue_crash_event ''x'' ValueError None
          ((new_sup ONE_FOR_ONE 0 60 CONSTANT 1 60)\<lparr>su_running := True, su_loop := True\<rparr>), [], sample_world), [], w')
   \<and> sup_loop_step sample_env ''top'' None (p', [NSup ''b'' (charged sample_env ''x'' 0 [] (enqueue_crash_event ''x'' ValueError None
          ((new_sup ONE_FOR_ONE 0 60 CONSTANT 1 60)\<lparr>su_running := True, su_loop := True\<rparr>), [], sample_world)) []], w')
       = Some (None, p'', ps', w'')
   \<and> fresh_node 2 p'' ps' (''b'', True)"
proof -
  let ?s = "enqueue_crash_event ''x'' ValueError None
          ((new_sup ONE_FOR_ONE 0 60 CONSTANT 1 60)\<lparr>su_running := True, su_loop := True\<rparr>)"
  let ?p = "sample_sup_state REST_FOR_ONE"
  let ?c = "charged sample_env ''x'' 0 [] (?s, [], sample_world)"
  have s: "su_loop ?s" "su_running ?s" "su_inbox ?s = [ChildCrashed 0]"
    "dget (su_pending_crash_events ?s) 0 = Some (''x'', ValueError, None)" "\<not> stale ''x'' None ?s"
    "v_action (fst (sup_crash_verdict sample_env ''x'' (?s, [], sample_world))) = Exhausted"
    by (simp_all add: enqueue_crash_event_def new_sup_def dict_simps stale_def sup_crash_verdict_def
        child_was_suspended_def record_crash_def new_engine_def Let_def sample_world_def)
  have p: "su_loop ?p" "su_running ?p" "su_inbox ?p = []" "su_remote_children ?p = []"
    by (simp_all add: sample_sup_state_def new_sup_def)
  have ps: "distinct (map node_name [NSup ''b'' ?c []])" "NSup ''b'' ?c [] \<in> set [NSup ''b'' ?c []]"
    "\<forall>c \<in> set [NSup ''b'' ?c []]. node_ok sample_env c"
    by simp_all
  have "v_action (fst (sup_crash_verdict sample_env ''b'' (?p, [NSup ''b'' ?c []], sample_world))) \<noteq> Exhausted"
    by (simp add: sample_sup_state_def new_sup_def sup_crash_verdict_def child_was_suspended_def find_child_Cons
        record_crash_def new_engine_def Let_def sample_world_def)
  from exhausted_budget_escalates [OF s sample_env_orderly p ps this, of "''top''" None]
  show ?thesis by (simp add: sample_world_def) blast
qed

section \<open>A stop that had to cancel the task\<close>

text \<open>A class whose starts reach the loop with the mailbox they were given.\<close>

definition plain_start :: "agent_env \<Rightarrow> bool" where
  "plain_start env \<longleftrightarrow>
     (\<forall>a. \<exists>b. run env a = (LoopTop, b) \<and> a_mailbox b = a_mailbox a
          \<and> a_status b \<in> {RUNNING, SUSPENDED} \<and> a_suspend_requested b = a_suspend_requested a)"

lemma start_nowait_keeps:
  "a_mailbox (start_nowait env a) = a_mailbox a"
  "a_suspend_requested (start_nowait env a) = a_suspend_requested a"
  by (simp_all add: start_nowait_def set_status_def Let_def split: option.split)

lemma new_agent_suspend:
  "\<not> a_suspend_requested ((new_agent env reg st now)\<lparr>a_mailbox := mb\<rparr>)"
  "a_mailbox ((new_agent env reg st now)\<lparr>a_mailbox := mb\<rparr>) = mb"
  by (simp_all add: new_agent_def)

text \<open>A group restart stops a child for good when its stop timed out. The stop puts a shutdown
  message and cancels the task at the timeout; a task that was busy in \<^verbatim>\<open>handle()\<close> never
  took the message. The restart moves the whole mailbox to the fresh incarnation, which is started,
  takes the old shutdown message first and ends in \<^verbatim>\<open>STOPPED\<close> without an exception; the
  supervisor's done callback ignores that, so nothing restarts the child.\<close>

theorem cancelled_stop_ends_fresh_incarnation:
  assumes "plain_start (se_env env n)" "quiet_teardown (se_env env n)" "c_has_bus (se_env env n)"
    and "se_ctor_raises env n = None" "agent_mail_ok env n a" "a_status a = RUNNING"
    and "mb_priority_queue (a_mailbox a) = []" "stop_request (se_env env n) a = Some a1"
    and "se_ends env n a1 = (Some CancelledError, a2)" "a_mailbox a2 = a_mailbox a1"
    and "n \<in> node_name ` set cs"
  shows "stop_agent env n a w = Some (None, a2, sup_trace (TStopped n) w)
    \<and> (\<exists>s' cs' w' b c. restart_agent_child env n a2 (s, cs, sup_trace (TStopped n) w) = Some (None, s', cs', w')
        \<and> find_child n cs' = Some (NAgent n b)
        \<and> (task_step (se_env env n) ^^ 2) (LoopTop, b) = (Done None, c) \<and> a_status c = STOPPED
        \<and> sup_on_child_done n None t s' = s')"
proof
  show "stop_agent env n a w = Some (None, a2, sup_trace (TStopped n) w)"
    using assms(6,8,9) by (simp add: stop_agent_def)
next
  let ?e = "se_env env n" and ?w = "sup_trace (TStopped n) w"
  let ?m = "(fresh_message ?e a)\<lparr>m_type := ''_agency.shutdown'', m_sender := ''_agency'',
             m_recipient := c_name ?e, m_priority := 1\<rparr>"
  have a1: "a_mailbox a1 = (a_mailbox a)\<lparr>mb_priority_queue := [?m], mb_notify := True\<rparr>"
    using assms(6-8) by (auto simp: stop_request_def Let_def mb_put_def q_full_def tick_uid_def split: if_splits)
  have ok: "agent_mail_ok env n a2"
    using assms(5,10) a1 by (auto simp: agent_mail_ok_def mailbox_ok_def)
  obtain old' mb where tr: "transfer_mailbox (a_mailbox a2) (new_mailbox (c_mailbox_size ?e) 100) = Some (old', mb)"
    and q: "mb_priority_queue mb = [?m]"
    using transfer_mailbox_spec [of "a_mailbox a2"] ok a1 assms(10) by (auto simp: agent_mail_ok_def)
  obtain reg where reg: "(case w_registry ?w of None \<Rightarrow> Inr None
      | Some r \<Rightarrow> map_sum id Some (reregister_preserving r n)) = Inr reg"
    using reregister_preserving_lookup by (cases "w_registry ?w") (auto, metis map_sum.simps(2))
  let ?f = "(new_agent ?e reg (a_store a2) (w_now ?w))\<lparr>a_mailbox := mb\<rparr>"
  obtain b where b: "run ?e (start_nowait ?e ?f) = (LoopTop, b)" "a_mailbox b = mb"
    "a_status b \<in> {RUNNING, SUSPENDED}" "\<not> a_suspend_requested b"
    using assms(1) unfolding plain_start_def
    by (metis (no_types, lifting) start_nowait_keeps new_agent_suspend)
  obtain c where "(task_step ?e ^^ 2) (LoopTop, b) = (Done None, c)" "a_status c = STOPPED"
    using stop_message_ends_loop [OF assms(2,3) b(3,4), of ?m "[]"] b(2) q
    by (auto simp: fresh_message_def default_message_def)
  moreover have "\<exists>s' w'. restart_agent_child env n a2 (s, cs, ?w) = Some (None, s', replace_child n (NAgent n b) cs, w')"
    unfolding restart_agent_child_def Let_def
    using reg tr b(1) assms(4) by (simp add: new_agent_def start_child_def Let_def)
  ultimately show "\<exists>s' cs' w' b c. restart_agent_child env n a2 (s, cs, ?w) = Some (None, s', cs', w')
        \<and> find_child n cs' = Some (NAgent n b)
        \<and> (task_step ?e ^^ 2) (LoopTop, b) = (Done None, c) \<and> a_status c = STOPPED
        \<and> sup_on_child_done n None t s' = s'"
    using find_child_replace(2) [OF _ assms(11), of "NAgent n b"] by (fastforce simp: sup_on_child_done_def)
qed

theorem cancelled_stop_ends_fresh_incarnation_witness:
  "\<exists>a1 s' cs' w' b c. stop_request (base_env ''a'') (sample_agent ''a'') = Some a1
     \<and> restart_agent_child (sample_env\<lparr>se_ends := \<lambda>n x. (Some CancelledError, x)\<rparr>) ''a'' a1
          (sample_sup_state ONE_FOR_ALL, sample_children, sup_trace (TStopped ''a'') sample_world) = Some (None, s', cs', w')
     \<and> find_child ''a'' cs' = Some (NAgent ''a'' b)
     \<and> (task_step (base_env ''a'') ^^ 2) (LoopTop, b) = (Done None, c) \<and> a_status c = STOPPED"
proof -
  let ?env = "sample_env\<lparr>se_ends := \<lambda>n x. (Some CancelledError, x)\<rparr>"
  have env: "se_env ?env ''a'' = base_env ''a''" "se_ctor_raises ?env ''a'' = None"
    "\<And>x. se_ends ?env ''a'' x = (Some CancelledError, x)"
    by (simp_all add: sample_env_def)
  have ps: "plain_start (base_env ''a'')"
    by (auto simp: plain_start_def run_def base_env_def restore_state_def message_loop_start_def emit_lifecycle_span_def
        log_event_def set_status_def Let_def split: option.split)
  have qt: "quiet_teardown (base_env ''a'')" "c_has_bus (base_env ''a'')"
    by (simp_all add: quiet_teardown_def base_env_def)
  have ok: "agent_mail_ok ?env ''a'' (sample_agent ''a'')" "a_status (sample_agent ''a'') = RUNNING"
    "mb_priority_queue (a_mailbox (sample_agent ''a'')) = []"
    by (simp_all add: agent_mail_ok_def sample_agent_def new_agent_def sample_env_def base_env_def mailbox_ok_def new_mailbox_def)
  obtain a1 where a1: "stop_request (base_env ''a'') (sample_agent ''a'') = Some a1"
    by (simp add: stop_request_def ok Let_def mb_put_def q_full_def)
  have "''a'' \<in> node_name ` set sample_children" by (simp add: sample_children_def)
  from cancelled_stop_ends_fresh_incarnation [of ?env "''a''", unfolded env, OF ps qt refl ok a1 refl refl this,
      of sample_world "sample_sup_state ONE_FOR_ALL" 0] a1
  show ?thesis by metis
qed

end
