(* ===== verification/Eval_Agent.thy ===== *)
theory Eval_Agent
  imports Agent_Loop
begin

text \<open>
  \<^verbatim>\<open>src/civitas/evalloop.py\<close>: \<^verbatim>\<open>EvalAgent\<close> receives the events other agents emit
  (\<^verbatim>\<open>emit_eval\<close> of \<^verbatim>\<open>src/civitas/process.py\<close>), lets exporters see them, asks
  \<^verbatim>\<open>on_eval_event\<close> for a verdict and sends a correction, at most a configured number per
  window and target.
\<close>

section \<open>Types\<close>

record eval_event =
  ev_agent_name :: string
  ev_event_type :: string
  ev_payload :: payload
  ev_trace_id :: string
  ev_message_id :: string
  ev_timestamp :: real

datatype severity = Nudge | Redirect | Halt

fun severity_value :: "severity \<Rightarrow> string" where
  "severity_value Nudge = ''nudge''"
| "severity_value Redirect = ''redirect''"
| "severity_value Halt = ''halt''"

record correction_signal =
  cs_severity :: severity
  cs_reason :: string
  cs_payload :: payload

record eval_agent =
  ea_agent :: agent
  ea_correction_timestamps :: "(string, real list) dict"

record eval_env =
  ee_env :: agent_env
  ee_max_corrections :: int
  ee_window_seconds :: real
  ee_exporters :: "(eval_event \<Rightarrow> unit call) list"
  ee_on_eval_event :: "eval_event \<Rightarrow> correction_signal option call"

section \<open>Operations\<close>

text \<open>\<^verbatim>\<open>emit_eval\<close> of the observed agent: the caller's payload is merged over the two
  fields.\<close>

definition emit_eval :: "agent_env \<Rightarrow> string \<Rightarrow> payload \<Rightarrow> string \<Rightarrow> unit call" where
  "emit_eval env event_type p eval_agent a =
     (if \<not> c_has_bus env then (Inr (), a)
      else send env eval_agent
             (merge [(''agent_name'', JStr (c_name env)), (''event_type'', JStr event_type)] p)
             ''civitas.eval.event'' a)"

definition event_of :: "message \<Rightarrow> real \<Rightarrow> eval_event" where
  "event_of m now =
     \<lparr>ev_agent_name = get_str (m_payload m) ''agent_name'' (m_sender m),
      ev_event_type = get_str (m_payload m) ''event_type'' '''', ev_payload = m_payload m,
      ev_trace_id = m_trace_id m, ev_message_id = m_id m, ev_timestamp = now\<rparr>"

text \<open>\<^verbatim>\<open>_check_rate_limit\<close>.\<close>

definition check_rate_limit ::
  "int \<Rightarrow> real \<Rightarrow> real \<Rightarrow> string \<Rightarrow> (string, real list) dict \<Rightarrow> bool \<times> (string, real list) dict" where
  "check_rate_limit max_corrections window now name ts =
     (let recent = filter (\<lambda>t. now - t < window) (case dget ts name of None \<Rightarrow> [] | Some l \<Rightarrow> l)
      in if int (length recent) \<ge> max_corrections then (False, dput name recent ts)
         else (True, dput name (recent @ [now]) ts))"

definition correction_message :: "agent_env \<Rightarrow> string \<Rightarrow> correction_signal \<Rightarrow> message \<Rightarrow> agent \<Rightarrow> message" where
  "correction_message env target signal original a =
     (fresh_message env a)
       \<lparr>m_type := (if cs_severity signal = Halt then ''civitas.eval.halt'' else ''civitas.eval.correction''),
        m_sender := c_name env, m_recipient := target,
        m_payload := merge [(''severity'', JStr (severity_value (cs_severity signal))), (''reason'', JStr (cs_reason signal))]
                       (cs_payload signal),
        m_trace_id := m_trace_id original, m_span_id := e_span_id env (a_uid a),
        m_parent_span_id := (if m_span_id original = '''' then None else Some (m_span_id original)),
        m_priority := (if cs_severity signal = Halt then 1 else 0)\<rparr>"

definition send_correction :: "agent_env \<Rightarrow> string \<Rightarrow> correction_signal \<Rightarrow> message \<Rightarrow> unit call" where
  "send_correction env target signal original a =
     (if \<not> c_has_bus env then (Inr (), a) else route env (correction_message env target signal original a) a)"

fun run_exporters :: "(eval_event \<Rightarrow> unit call) list \<Rightarrow> eval_event \<Rightarrow> unit call" where
  "run_exporters [] ev a = (Inr (), a)"
| "run_exporters (x # xs) ev a = andThen (contained (x ev)) (run_exporters xs ev) a"

definition eval_handle :: "eval_env \<Rightarrow> message \<Rightarrow> eval_agent \<Rightarrow> unit result \<times> eval_agent" where
  "eval_handle env m x =
     (if m_type m \<noteq> ''civitas.eval.event'' then (Inr (), x)
      else
        let event = event_of m (a_now (ea_agent x))
        in case andThen (run_exporters (ee_exporters env) event) (ee_on_eval_event env event) (ea_agent x) of
             (Inl e, a) \<Rightarrow> (Inl e, x\<lparr>ea_agent := a\<rparr>)
           | (Inr None, a) \<Rightarrow> (Inr (), x\<lparr>ea_agent := a\<rparr>)
           | (Inr (Some signal), a) \<Rightarrow>
               (case check_rate_limit (ee_max_corrections env) (ee_window_seconds env) (a_now a)
                       (ev_agent_name event) (ea_correction_timestamps x) of
                  (False, ts) \<Rightarrow> (Inr (), \<lparr>ea_agent = a, ea_correction_timestamps = ts\<rparr>)
                | (True, ts) \<Rightarrow>
                    (case send_correction (ee_env env) (ev_agent_name event) signal m a of
                       (r, a') \<Rightarrow> (r, \<lparr>ea_agent = a', ea_correction_timestamps = ts\<rparr>))))"

section \<open>The rate limit\<close>

definition timestamps_of :: "(string, real list) dict \<Rightarrow> string \<Rightarrow> real list" where
  "timestamps_of ts name = (case dget ts name of None \<Rightarrow> [] | Some l \<Rightarrow> l)"

interpretation corrections: window_limiter "\<lambda>now t. now - t < window" limit "check_rate_limit limit window" timestamps_of
  for limit window
  by unfold_locales (auto simp: check_rate_limit_def timestamps_of_def Let_def dict_simps)

section \<open>Properties\<close>

text \<open>Corrections are limited per target. On a clock that never goes back, a correction for a
  target passes exactly when fewer than \<^verbatim>\<open>max_corrections\<close> corrections to it passed in the
  window before, counted over the whole history and independent of other targets; so within any
  window no target gets more than \<^verbatim>\<open>max_corrections\<close> corrections.\<close>

theorem corrections_limited:
  assumes "sorted (map fst rs @ [now])"
  shows "(fst (check_rate_limit limit window now target (snd (serve (check_rate_limit limit window) rs [])))
       \<longleftrightarrow> int (length (filter (\<lambda>t. now - t < window) (granted target (fst (serve (check_rate_limit limit window) rs []))))) < limit)
    \<and> (0 \<le> limit \<longrightarrow>
        int (length (filter (\<lambda>t. now - t < window) (granted target (fst (serve (check_rate_limit limit window) rs []))))) \<le> limit)"
  using corrections.decision_counts_history [OF assms, of "[]" target limit window]
    corrections.grants_bounded [OF _ _ assms, of limit "[]" target window]
  by (simp add: timestamps_of_def)

theorem corrections_limited_witness:
  "fst (check_rate_limit 1 60 30 ''a'' (snd (serve (check_rate_limit 1 60) [(0, ''a''), (10, ''b'')] []))) = False"
  using corrections_limited [of "[(0, ''a''), (10, ''b'')]" 30 1 60 "''a''"]
  by (simp add: check_rate_limit_def Let_def)

text \<open>A halt verdict stops its target. When an event leads to a halt verdict that the rate limit
  lets pass, the evaluation agent routes exactly one message, to the agent the event names; once it
  is in that agent's mailbox, behind no other control message, the agent ends in
  \<^verbatim>\<open>STOPPED\<close> without an exception at its next two steps, whatever business messages are
  queued and also while it is suspended. Routing uses the event's own \<^verbatim>\<open>agent_name\<close>
  field, not the sender.\<close>

theorem halt_verdict_stops_target:
  assumes "m_type m = ''civitas.eval.event''" "c_has_bus (ee_env env)"
    and "andThen (run_exporters (ee_exporters env) (event_of m (a_now (ea_agent x))))
           (ee_on_eval_event env (event_of m (a_now (ea_agent x)))) (ea_agent x) = (Inr (Some signal), a)"
    and "cs_severity signal = Halt"
    and "fst (check_rate_limit (ee_max_corrections env) (ee_window_seconds env) (a_now a)
           (get_str (m_payload m) ''agent_name'' (m_sender m)) (ea_correction_timestamps x))"
    and "quiet_teardown tenv" "c_has_bus tenv" "a_status b \<in> {RUNNING, SUSPENDED}" "\<not> a_suspend_requested b"
    and "mb_priority_queue (a_mailbox b) = []"
  shows "\<exists>h ts. eval_handle env m x =
        (case route (ee_env env) h a of (r, a') \<Rightarrow> (r, \<lparr>ea_agent = a', ea_correction_timestamps = ts\<rparr>))
      \<and> m_recipient h = get_str (m_payload m) ''agent_name'' (m_sender m)
      \<and> (\<exists>b' c. receive py_str h b = Some b'
           \<and> (task_step tenv ^^ 2) (LoopTop, b') = (Done None, c) \<and> a_status c = STOPPED)"
proof -
  let ?t = "get_str (m_payload m) ''agent_name'' (m_sender m)"
  let ?h = "correction_message (ee_env env) ?t signal m a"
  obtain ts where ts: "check_rate_limit (ee_max_corrections env) (ee_window_seconds env) (a_now a) ?t
      (ea_correction_timestamps x) = (True, ts)"
    using assms(5) by (metis prod.collapse)
  have "eval_handle env m x =
      (case route (ee_env env) ?h a of (r, a') \<Rightarrow> (r, \<lparr>ea_agent = a', ea_correction_timestamps = ts\<rparr>))"
    using assms(1-4) ts by (simp add: eval_handle_def Let_def event_of_def send_correction_def)
  moreover have h: "m_type ?h = ''civitas.eval.halt''" "m_priority ?h = 1" "m_ttl ?h = None"
      "m_correlation_id ?h = None" "m_recipient ?h = ?t"
    using assms(4) by (simp_all add: correction_message_def fresh_message_def default_message_def)
  moreover have "receive py_str ?h b =
      Some (b\<lparr>a_mailbox := (a_mailbox b)\<lparr>mb_priority_queue := [?h], mb_notify := True\<rparr>\<rparr>)"
    using h assms(10) by (simp add: receive_def consume_stream_frame_def mb_put_def q_full_def)
  moreover have "\<exists>c. (task_step tenv ^^ 2) (LoopTop, b\<lparr>a_mailbox := (a_mailbox b)\<lparr>mb_priority_queue := [?h], mb_notify := True\<rparr>\<rparr>)
      = (Done None, c) \<and> a_status c = STOPPED"
    using stop_message_ends_loop [OF assms(6,7), of "b\<lparr>a_mailbox := (a_mailbox b)\<lparr>mb_priority_queue := [?h], mb_notify := True\<rparr>\<rparr>" ?h "[]"]
      assms(8,9) h by simp
  ultimately show ?thesis by blast
qed

text \<open>An evaluation agent that halts whoever reports an event.\<close>

definition strict_env :: eval_env where
  "strict_env =
     \<lparr>ee_env = base_env ''eval'', ee_max_corrections = 10, ee_window_seconds = 60, ee_exporters = [],
      ee_on_eval_event = \<lambda>ev a. (Inr (Some \<lparr>cs_severity = Halt, cs_reason = ''policy'', cs_payload = []\<rparr>), a)\<rparr>"

definition sample_event :: message where
  "sample_event = (default_message ''1'' 0)\<lparr>m_type := ''civitas.eval.event'', m_sender := ''bad'',
     m_payload := [(''event_type'', JStr ''llm'')]\<rparr>"

theorem halt_verdict_stops_target_witness:
  "\<exists>h ts b' c. eval_handle strict_env sample_event \<lparr>ea_agent = new_agent (base_env ''eval'') None None 0, ea_correction_timestamps = []\<rparr>
      = (case route (base_env ''eval'') h (new_agent (base_env ''eval'') None None 0) of
           (r, a') \<Rightarrow> (r, \<lparr>ea_agent = a', ea_correction_timestamps = ts\<rparr>))
     \<and> m_recipient h = ''bad''
     \<and> receive (\<lambda>v. []) h ((new_agent (base_env ''bad'') None None 0)\<lparr>a_status := RUNNING\<rparr>) = Some b'
     \<and> (task_step (base_env ''bad'') ^^ 2) (LoopTop, b') = (Done None, c) \<and> a_status c = STOPPED"
proof -
  let ?a = "new_agent (base_env ''eval'') None None 0"
  let ?x = "\<lparr>ea_agent = ?a, ea_correction_timestamps = []\<rparr>"
  let ?s = "\<lparr>cs_severity = Halt, cs_reason = ''policy'', cs_payload = []\<rparr>"
  let ?b = "(new_agent (base_env ''bad'') None None 0)\<lparr>a_status := RUNNING\<rparr>"
  have m: "m_type sample_event = ''civitas.eval.event''" by (simp add: sample_event_def)
  have env: "c_has_bus (ee_env strict_env)" by (simp add: strict_env_def base_env_def)
  have sig: "andThen (run_exporters (ee_exporters strict_env) (event_of sample_event (a_now (ea_agent ?x))))
      (ee_on_eval_event strict_env (event_of sample_event (a_now (ea_agent ?x)))) (ea_agent ?x) = (Inr (Some ?s), ?a)"
    by (simp add: strict_env_def andThen_def)
  have sev: "cs_severity ?s = Halt" by simp
  have lim: "fst (check_rate_limit (ee_max_corrections strict_env) (ee_window_seconds strict_env) (a_now ?a)
      (get_str (m_payload sample_event) ''agent_name'' (m_sender sample_event)) (ea_correction_timestamps ?x))"
    by (simp add: check_rate_limit_def strict_env_def Let_def)
  have qt: "quiet_teardown (base_env ''bad'')" "c_has_bus (base_env ''bad'')"
    by (simp_all add: quiet_teardown_def base_env_def)
  have b: "a_status ?b \<in> {RUNNING, SUSPENDED}" "\<not> a_suspend_requested ?b" "mb_priority_queue (a_mailbox ?b) = []"
    by (simp_all add: new_agent_def new_mailbox_def)
  have t: "get_str (m_payload sample_event) ''agent_name'' (m_sender sample_event) = ''bad''" "ee_env strict_env = base_env ''eval''"
    by (simp_all add: sample_event_def get_str_def strict_env_def)
  from halt_verdict_stops_target [OF m env sig sev lim qt b, of "\<lambda>v. []"] show ?thesis
    unfolding t by blast
qed

end
