(* ===== verification/Gen_Server.thy ===== *)
theory Gen_Server
  imports Agent_State
begin

text \<open>
  \<^verbatim>\<open>GenServer\<close> of \<^verbatim>\<open>src/civitas/genserver.py\<close> and its callers \<^verbatim>\<open>call\<close> and
  \<^verbatim>\<open>cast\<close> of \<^verbatim>\<open>src/civitas/process.py\<close>: a message is dispatched to one of three
  hooks by its reply address and its cast marker, and timers send a message to the server itself.
  The attributes a subclass adds are the type \<open>'s\<close>. The timers of the event loop and the list
  of tasks the server tracks are kept apart, so that what the list is for can be stated.
\<close>

section \<open>State\<close>

datatype timer_status = Pending | Fired | Cancelled

record timer =
  tm_due :: real
  tm_payload :: payload
  tm_status :: timer_status

record 's gen_server =
  g_agent :: agent
  g_user :: 's
  g_timers :: "(nat, timer) dict"          \<comment> \<open>every task ever created, by identity\<close>
  g_send_after_tasks :: "nat list"

record 's gs_hooks =
  h_init :: "'s gen_server \<Rightarrow> unit result \<times> 's gen_server"
  h_call :: "payload \<Rightarrow> string \<Rightarrow> 's gen_server \<Rightarrow> json result \<times> 's gen_server"
  h_cast :: "payload \<Rightarrow> 's gen_server \<Rightarrow> unit result \<times> 's gen_server"
  h_info :: "payload \<Rightarrow> 's gen_server \<Rightarrow> unit result \<times> 's gen_server"

definition new_gen_server :: "agent \<Rightarrow> 's \<Rightarrow> 's gen_server" where
  "new_gen_server a u = \<lparr>g_agent = a, g_user = u, g_timers = [], g_send_after_tasks = []\<rparr>"

section \<open>Dispatch\<close>

definition gs_span :: "agent_env \<Rightarrow> string \<Rightarrow> 's gen_server \<Rightarrow> 's gen_server" where
  "gs_span env name g =
     (if c_has_tracer env then g\<lparr>g_agent := log_event (EvSpan name) (g_agent g)\<rparr> else g)"

definition CAST_MARKER :: string where
  "CAST_MARKER = ''__cast__''"

definition is_cast :: "payload \<Rightarrow> bool" where
  "is_cast p = (case dget p CAST_MARKER of Some v \<Rightarrow> truthy v | None \<Rightarrow> False)"

definition do_call :: "agent_env \<Rightarrow> 's gs_hooks \<Rightarrow> message \<Rightarrow> 's gen_server \<Rightarrow> message option result \<times> 's gen_server" where
  "do_call env h m g =
     (case h_call h (m_payload m) (m_sender m) (gs_span env ''civitas.genserver.call'' g) of
        (Inl e, g') \<Rightarrow> (Inl e, g')
      | (Inr v, g') \<Rightarrow>
          (case v of
             JDict d \<Rightarrow> (map_sum id Some (reply env d (g_agent g')), g')
           | _ \<Rightarrow> (Inl TypeError, g')))"

definition do_cast :: "agent_env \<Rightarrow> 's gs_hooks \<Rightarrow> message \<Rightarrow> 's gen_server \<Rightarrow> message option result \<times> 's gen_server" where
  "do_cast env h m g =
     (case h_cast h (filter (\<lambda>(k, v). k \<noteq> CAST_MARKER) (m_payload m))
             (gs_span env ''civitas.genserver.cast'' g) of
        (r, g') \<Rightarrow> (map_sum id (\<lambda>u. None) r, g'))"

definition do_info :: "agent_env \<Rightarrow> 's gs_hooks \<Rightarrow> message \<Rightarrow> 's gen_server \<Rightarrow> message option result \<times> 's gen_server" where
  "do_info env h m g =
     (case h_info h (m_payload m) (gs_span env ''civitas.genserver.info'' g) of
        (r, g') \<Rightarrow> (map_sum id (\<lambda>u. None) r, g'))"

definition gs_handle :: "agent_env \<Rightarrow> 's gs_hooks \<Rightarrow> message \<Rightarrow> 's gen_server \<Rightarrow> message option result \<times> 's gen_server" where
  "gs_handle env h m g =
     (if m_reply_to m \<noteq> None then do_call env h m g
      else if is_cast (m_payload m) then do_cast env h m g
      else do_info env h m g)"

section \<open>Timers\<close>

definition timer_done :: "'s gen_server \<Rightarrow> nat \<Rightarrow> bool" where
  "timer_done g i = (case dget (g_timers g) i of Some t \<Rightarrow> tm_status t \<noteq> Pending | None \<Rightarrow> True)"

definition send_after :: "real \<Rightarrow> payload \<Rightarrow> 's gen_server \<Rightarrow> 's gen_server" where
  "send_after delay_ms p g =
     (let i = length (g_timers g);
          t = \<lparr>tm_due = a_now (g_agent g) + delay_ms / 1000, tm_payload = p, tm_status = Pending\<rparr>
      in g\<lparr>g_timers := dput i t (g_timers g),
           g_send_after_tasks := filter (\<lambda>j. \<not> timer_done g j) (g_send_after_tasks g) @ [i]\<rparr>)"

text \<open>The task of a timer wakes up: it routes the message to the server's own name; an exception of
  the routing is ignored.\<close>

definition info_message :: "agent_env \<Rightarrow> payload \<Rightarrow> agent \<Rightarrow> message" where
  "info_message env p a =
     (fresh_message env a)\<lparr>m_type := ''genserver.info'', m_sender := c_name env, m_recipient := c_name env,
        m_payload := p, m_span_id := e_span_id env (a_uid a)\<rparr>"

definition set_timer :: "nat \<Rightarrow> timer_status \<Rightarrow> 's gen_server \<Rightarrow> 's gen_server" where
  "set_timer i st g =
     (case dget (g_timers g) i of
        None \<Rightarrow> g
      | Some t \<Rightarrow> g\<lparr>g_timers := dput i (t\<lparr>tm_status := st\<rparr>) (g_timers g)\<rparr>)"

definition timer_fire :: "agent_env \<Rightarrow> nat \<Rightarrow> 's gen_server \<Rightarrow> 's gen_server" where
  "timer_fire env i g =
     (case dget (g_timers g) i of
        None \<Rightarrow> g
      | Some t \<Rightarrow>
          if tm_status t \<noteq> Pending \<or> a_now (g_agent g) < tm_due t then g
          else if \<not> c_has_bus env then set_timer i Fired g
          else
            (case route env (info_message env (tm_payload t) (g_agent g)) (g_agent g) of
               (r, a') \<Rightarrow> set_timer i Fired (g\<lparr>g_agent := a'\<rparr>)))"

text \<open>\<^verbatim>\<open>on_stop\<close>: cancel what is not done, wait for it, forget all.\<close>

definition cancel_timer :: "nat \<Rightarrow> 's gen_server \<Rightarrow> 's gen_server" where
  "cancel_timer i g = (if timer_done g i then g else set_timer i Cancelled g)"

definition gs_on_stop :: "'s gen_server \<Rightarrow> 's gen_server" where
  "gs_on_stop g = (fold cancel_timer (g_send_after_tasks g) g)\<lparr>g_send_after_tasks := []\<rparr>"

definition gs_on_start :: "'s gs_hooks \<Rightarrow> 's gen_server \<Rightarrow> unit result \<times> 's gen_server" where
  "gs_on_start h g = h_init h g"

section \<open>Callers\<close>

text \<open>\<^verbatim>\<open>call\<close>: \<open>ask\<close> stands for the bus's \<^verbatim>\<open>request\<close>. \<^verbatim>\<open>cast\<close> adds the
  marker.\<close>

definition call :: "agent_env \<Rightarrow> (message \<Rightarrow> message result) \<Rightarrow> string \<Rightarrow> payload \<Rightarrow> payload call" where
  "call env ask name p a =
     (case ask_message env name p ''message'' a of
        (Inl e, a') \<Rightarrow> (Inl e, a')
      | (Inr m, a') \<Rightarrow> (map_sum id m_payload (ask m), a'))"

definition cast :: "agent_env \<Rightarrow> string \<Rightarrow> payload \<Rightarrow> unit call" where
  "cast env name p = send env name (dput CAST_MARKER (JBool True) p) ''message''"

section \<open>Timer bookkeeping\<close>

text \<open>Every pending task is tracked, tracked tasks exist, and identities are assigned in order.\<close>

definition timers_tracked :: "'s gen_server \<Rightarrow> bool" where
  "timers_tracked g \<longleftrightarrow>
     map fst (g_timers g) = [0..<length (g_timers g)]
   \<and> distinct (g_send_after_tasks g)
   \<and> set (g_send_after_tasks g) \<subseteq> {..<length (g_timers g)}
   \<and> (\<forall>i. \<not> timer_done g i \<longrightarrow> i \<in> set (g_send_after_tasks g))"

inductive gs_step :: "agent_env \<Rightarrow> 's gen_server \<Rightarrow> 's gen_server \<Rightarrow> bool" for env :: agent_env where
  SendAfter: "gs_step env g (send_after d p g)"
| Fire: "gs_step env g (timer_fire env i g)"
| Stop: "gs_step env g (gs_on_stop g)"
| Other: "g_timers g' = g_timers g \<Longrightarrow> g_send_after_tasks g' = g_send_after_tasks g \<Longrightarrow> gs_step env g g'"

inductive_cases gs_stepE: "gs_step env g g'"

lemma dkeys_dput_member: "dget d k \<noteq> None \<Longrightarrow> map fst (dput k v d) = map fst d"
  by (induction d) auto

lemma dput_new: "dget d k = None \<Longrightarrow> dput k v d = d @ [(k, v)]"
  by (induction d) auto

lemma set_timer_fields [simp]:
  "map fst (g_timers (set_timer i st g)) = map fst (g_timers g)"
  "length (g_timers (set_timer i st g)) = length (g_timers g)"
  "g_send_after_tasks (set_timer i st g) = g_send_after_tasks g"
  "g_user (set_timer i st g) = g_user g"
  "g_agent (set_timer i st g) = g_agent g"
  by (auto simp: set_timer_def dkeys_dput_member dict_simps split: option.split)

lemma timer_done_set [simp]:
  "st \<noteq> Pending \<Longrightarrow> timer_done (set_timer i st g) j \<longleftrightarrow> j = i \<or> timer_done g j"
  by (auto simp: timer_done_def set_timer_def dict_simps split: option.splits)

lemma cancel_timer_fields [simp]:
  "map fst (g_timers (cancel_timer i g)) = map fst (g_timers g)"
  "length (g_timers (cancel_timer i g)) = length (g_timers g)"
  "timer_done (cancel_timer i g) j \<longleftrightarrow> j = i \<or> timer_done g j"
  "g_agent (cancel_timer i g) = g_agent g"
  by (auto simp: cancel_timer_def)

lemma cancel_all_fields [simp]:
  "map fst (g_timers (fold cancel_timer is g)) = map fst (g_timers g)"
  "length (g_timers (fold cancel_timer is g)) = length (g_timers g)"
  "timer_done (fold cancel_timer is g) j \<longleftrightarrow> j \<in> set is \<or> timer_done g j"
  "g_agent (fold cancel_timer is g) = g_agent g"
  by (induction "is" arbitrary: g) auto

lemma timer_done_on_stop [simp]: "timer_done (gs_on_stop g) j \<longleftrightarrow> j \<in> set (g_send_after_tasks g) \<or> timer_done g j"
  by (simp add: gs_on_stop_def timer_done_def cong: option.case_cong)
     (simp add: timer_done_def [symmetric])

lemma timers_tracked_new: "timers_tracked (new_gen_server a u)"
  by (simp add: timers_tracked_def new_gen_server_def timer_done_def)

lemma timers_tracked_send_after:
  assumes "timers_tracked g"
  shows "timers_tracked (send_after d p g)"
proof -
  let ?n = "length (g_timers g)" and ?g = "send_after d p g"
  have keys: "map fst (g_timers g) = [0..<?n]" using assms by (simp add: timers_tracked_def)
  then have none: "dget (g_timers g) ?n = None"
    by (metis atLeastLessThan_iff in_dkeys_iff less_irrefl set_upt)
  have ts: "g_timers ?g = g_timers g @ [(?n, \<lparr>tm_due = a_now (g_agent g) + d / 1000, tm_payload = p, tm_status = Pending\<rparr>)]"
    using none by (simp add: send_after_def Let_def dput_new)
  have done_iff: "timer_done ?g i \<longleftrightarrow> i \<noteq> ?n \<and> timer_done g i" for i
    using none by (auto simp: timer_done_def send_after_def Let_def dict_simps split: option.splits)
  have "g_send_after_tasks ?g = filter (\<lambda>j. \<not> timer_done g j) (g_send_after_tasks g) @ [?n]"
    by (simp add: send_after_def Let_def)
  with assms keys ts done_iff show ?thesis
    by (auto simp: timers_tracked_def)
qed

lemma timers_tracked_fire:
  assumes "timers_tracked g"
  shows "timers_tracked (timer_fire env i g)"
proof -
  have "timers_tracked (set_timer i Fired (g\<lparr>g_agent := a\<rparr>))" for a
  proof -
    have "timers_tracked (g\<lparr>g_agent := a\<rparr>)"
      using assms by (simp add: timers_tracked_def timer_done_def)
    then show ?thesis by (simp add: timers_tracked_def)
  qed
  then have "timers_tracked (set_timer i Fired (g\<lparr>g_agent := a\<rparr>))" "timers_tracked (set_timer i Fired g)" for a
    by (metis gen_server.surjective gen_server.update_convs(1))+
  with assms show ?thesis
    by (simp add: timer_fire_def split: option.split prod.split)
qed

lemma timers_tracked_stop:
  assumes "timers_tracked g"
  shows "timers_tracked (gs_on_stop g)"
  using assms by (auto simp: timers_tracked_def) (simp_all add: gs_on_stop_def)

lemma timers_tracked_same:
  "g_timers g' = g_timers g \<Longrightarrow> g_send_after_tasks g' = g_send_after_tasks g \<Longrightarrow> timers_tracked g \<Longrightarrow> timers_tracked g'"
  by (simp add: timers_tracked_def timer_done_def)

lemma timers_tracked_step: "timers_tracked g \<Longrightarrow> gs_step env g g' \<Longrightarrow> timers_tracked g'"
  by (erule gs_stepE)
     (simp_all add: timers_tracked_send_after timers_tracked_fire timers_tracked_stop, erule (2) timers_tracked_same)

interpretation gs_machine: invariant_machine "\<lambda>g. \<exists>a u. g = new_gen_server a u" "gs_step env" timers_tracked for env
  by unfold_locales (auto intro: timers_tracked_new timers_tracked_step)

section \<open>Properties\<close>

text \<open>Timers die with their server. Whatever timers a server starts and whenever they fire, every
  timer that is still pending is in the list of tracked tasks, and starting a timer shrinks the list
  to the pending timers and the new one, so it does not grow with the finished ones; after
  \<^verbatim>\<open>on_stop\<close> no timer is pending, so no wake-up sends anything any more.\<close>

theorem timers_die_with_server:
  assumes "(gs_step env)\<^sup>*\<^sup>* (new_gen_server a u) g"
  shows "(\<forall>i. \<not> timer_done g i \<longrightarrow> i \<in> set (g_send_after_tasks g))
    \<and> length (g_send_after_tasks (send_after d p g)) = Suc (card {i. \<not> timer_done g i})
    \<and> g_send_after_tasks (gs_on_stop g) = []
    \<and> (\<forall>i. timer_fire env i (gs_on_stop g) = gs_on_stop g)"
proof -
  have tr: "timers_tracked g" by (rule gs_machine.reachable_inv [OF _ assms]) blast
  have "set (filter (\<lambda>j. \<not> timer_done g j) (g_send_after_tasks g)) = {i. \<not> timer_done g i}"
    using tr by (auto simp: timers_tracked_def)
  moreover have "distinct (filter (\<lambda>j. \<not> timer_done g j) (g_send_after_tasks g))"
    using tr by (simp add: timers_tracked_def)
  ultimately have len: "length (filter (\<lambda>j. \<not> timer_done g j) (g_send_after_tasks g)) = card {i. \<not> timer_done g i}"
    by (metis distinct_card)
  have idle: "timer_fire env i x = x" if "timer_done x i" for i and x :: "'a gen_server"
    using that by (cases "dget (g_timers x) i") (auto simp: timer_fire_def timer_done_def)
  have "timer_fire env i (gs_on_stop g) = gs_on_stop g" for i
    by (rule idle) (use tr in \<open>auto simp: timers_tracked_def\<close>)
  with tr len show ?thesis
    by (simp add: timers_tracked_def send_after_def Let_def gs_on_stop_def)
qed

theorem timers_die_with_server_witness:
  "length (g_send_after_tasks (send_after 20 [] (send_after 10 [] (new_gen_server
      (new_agent (base_env ''s'') None None 0) ())))) = 2
   \<and> timer_fire (base_env ''s'') 0 (gs_on_stop (send_after 10 [] (new_gen_server (new_agent (base_env ''s'') None None 0) ())))
      = gs_on_stop (send_after 10 [] (new_gen_server (new_agent (base_env ''s'') None None 0) ()))"
proof -
  let ?g0 = "new_gen_server (new_agent (base_env ''s'') None None 0) ()"
  have "(gs_step (base_env ''s''))\<^sup>*\<^sup>* ?g0 (send_after 10 [] ?g0)"
    by (rule r_into_rtranclp) (rule SendAfter)
  from timers_die_with_server [OF this, of 20 "[]"]
  have t: "length (g_send_after_tasks (send_after 20 [] (send_after 10 [] ?g0))) = Suc (card {i. \<not> timer_done (send_after 10 [] ?g0) i})"
    "timer_fire (base_env ''s'') 0 (gs_on_stop (send_after 10 [] ?g0)) = gs_on_stop (send_after 10 [] ?g0)"
    by blast+
  have "{i. \<not> timer_done (send_after 10 [] ?g0) i} = {0}"
    by (auto simp: send_after_def new_gen_server_def timer_done_def)
  with t show ?thesis by simp
qed

text \<open>The message a call leads to, as the transport hands it to the server.\<close>

definition delivered :: "string \<Rightarrow> message \<Rightarrow> message" where
  "delivered raddr m = m\<lparr>m_reply_to := Some raddr\<rparr>"

lemma filter_dput_marker:
  "filter (\<lambda>(k, v). k \<noteq> CAST_MARKER) (dput CAST_MARKER x p) = filter (\<lambda>(k, v). k \<noteq> CAST_MARKER) p"
  by (induction p) auto

lemma with_trace_fields [simp]:
  "m_payload (with_trace a m) = m_payload m" "m_sender (with_trace a m) = m_sender m"
  "m_reply_to (with_trace a m) = m_reply_to m" "m_correlation_id (with_trace a m) = m_correlation_id m"
  by (simp_all add: with_trace_def split: option.split)

text \<open>Callers meet the right hook. A \<^verbatim>\<open>cast\<close> is routed as one message that the server
  hands to \<^verbatim>\<open>handle_cast\<close> with the caller's payload, the marker removed. A
  \<^verbatim>\<open>call\<close> asks with a message that the server, once the transport has put a reply address
  in it, hands to \<^verbatim>\<open>handle_call\<close> with the caller's payload and name; the dictionary
  \<^verbatim>\<open>handle_call\<close> returns is what \<^verbatim>\<open>call\<close> returns, sent to that reply address, and a
  result that is no dictionary is a \<^verbatim>\<open>TypeError\<close>.\<close>

theorem callers_meet_hooks:
  assumes "c_has_bus env" "dget p CAST_MARKER = None" "raddr \<noteq> ''''"
  shows "(\<exists>m. cast env name p a = andThen (route env m) (lift (metric env ''message_sent'')) a
      \<and> gs_handle senv h m g =
          (case h_cast h p (gs_span senv ''civitas.genserver.cast'' g) of (r, g') \<Rightarrow> (map_sum id (\<lambda>u. None) r, g')))
    \<and> (\<exists>m a'. ask_message env name p ''message'' a = (Inr m, a')
      \<and> (\<forall>v g'. h_call h p (c_name env) (gs_span senv ''civitas.genserver.call'' g) = (Inr v, g')
            \<and> a_current_message (g_agent g') = Some (delivered raddr m) \<longrightarrow>
           (case v of
              JDict d \<Rightarrow> (\<exists>out. gs_handle senv h (delivered raddr m) g = (Inr (Some out), g')
                 \<and> m_recipient out = raddr
                 \<and> call env (\<lambda>x. Inr out) name p a = (Inr d, a'))
            | _ \<Rightarrow> gs_handle senv h (delivered raddr m) g = (Inl TypeError, g'))))"
proof
  have nr: "reject_reserved_type ''message'' = Inr ()"
    by (simp add: reject_reserved_type_def)
  let ?m = "with_trace a ((fresh_message env a)
                      \<lparr>m_type := ''message'', m_sender := c_name env, m_recipient := name,
                       m_payload := dput CAST_MARKER (JBool True) p, m_span_id := e_span_id env (a_uid a)\<rparr>)"
  have "cast env name p a = andThen (route env ?m) (lift (metric env ''message_sent'')) a"
    using assms(1) nr by (simp add: cast_def send_def Let_def)
  moreover have "filter (\<lambda>(k, v). k \<noteq> CAST_MARKER) p = p"
    using assms(2) by (auto simp: filter_id_conv map_of_eq_None_iff image_iff)
  ultimately show "\<exists>m. cast env name p a = andThen (route env m) (lift (metric env ''message_sent'')) a
      \<and> gs_handle senv h m g =
          (case h_cast h p (gs_span senv ''civitas.genserver.cast'' g) of (r, g') \<Rightarrow> (map_sum id (\<lambda>u. None) r, g'))"
    by (intro exI [of _ ?m])
       (simp add: gs_handle_def is_cast_def do_cast_def fresh_message_def default_message_def dict_simps filter_dput_marker)
next
  obtain m a' where m: "ask_message env name p ''message'' a = (Inr m, a')"
    and f: "m_payload m = p" "m_sender m = c_name env"
    using assms(1) by (auto simp: ask_message_def reject_reserved_type_def Let_def)
  have "case v of
      JDict d \<Rightarrow> (\<exists>out. gs_handle senv h (delivered raddr m) g = (Inr (Some out), g')
         \<and> m_recipient out = raddr \<and> call env (\<lambda>x. Inr out) name p a = (Inr d, a'))
    | _ \<Rightarrow> gs_handle senv h (delivered raddr m) g = (Inl TypeError, g')"
    if "h_call h p (c_name env) (gs_span senv ''civitas.genserver.call'' g) = (Inr v, g')"
      "a_current_message (g_agent g') = Some (delivered raddr m)" for v g'
    using that m f assms(3)
    by (simp add: gs_handle_def do_call_def delivered_def reply_def call_def reply_to_message_def reply_address_def
        split: json.split)
  with m show "\<exists>m a'. ask_message env name p ''message'' a = (Inr m, a')
      \<and> (\<forall>v g'. h_call h p (c_name env) (gs_span senv ''civitas.genserver.call'' g) = (Inr v, g')
            \<and> a_current_message (g_agent g') = Some (delivered raddr m) \<longrightarrow>
           (case v of
              JDict d \<Rightarrow> (\<exists>out. gs_handle senv h (delivered raddr m) g = (Inr (Some out), g')
                 \<and> m_recipient out = raddr
                 \<and> call env (\<lambda>x. Inr out) name p a = (Inr d, a'))
            | _ \<Rightarrow> gs_handle senv h (delivered raddr m) g = (Inl TypeError, g')))"
    by blast
qed

text \<open>A server that counts its casts and answers a call with its own payload.\<close>

definition echo_hooks :: "nat gs_hooks" where
  "echo_hooks =
     \<lparr>h_init = \<lambda>g. (Inr (), g), h_call = \<lambda>p sender g. (Inr (JDict p), g),
      h_cast = \<lambda>p g. (Inr (), g\<lparr>g_user := Suc (g_user g)\<rparr>), h_info = \<lambda>p g. (Inr (), g)\<rparr>"

theorem callers_meet_hooks_witness:
  "\<exists>m. cast (base_env ''c'') ''s'' [(''x'', JInt 1)] (new_agent (base_env ''c'') None None 0)
        = andThen (route (base_env ''c'') m) (lift (metric (base_env ''c'') ''message_sent'')) (new_agent (base_env ''c'') None None 0)
     \<and> gs_handle (base_env ''s'') echo_hooks m (new_gen_server (new_agent (base_env ''s'') None None 0) 0)
        = (Inr None, new_gen_server (new_agent (base_env ''s'') None None 0) 1)"
proof -
  have "c_has_bus (base_env ''c'')" "dget [(''x'', JInt 1)] CAST_MARKER = None" "''r'' \<noteq> ''''"
    by (simp_all add: base_env_def CAST_MARKER_def)
  from callers_meet_hooks [OF this, of "''s''" "new_agent (base_env ''c'') None None 0" "base_env ''s''" echo_hooks
      "new_gen_server (new_agent (base_env ''s'') None None 0) 0"]
  show ?thesis by (auto simp: echo_hooks_def gs_span_def base_env_def new_gen_server_def)
qed

end
