(* ===== verification/Gateway_Router.thy ===== *)
theory Gateway_Router
  imports Civitas_Prelude
begin

text \<open>
  \<^verbatim>\<open>src/civitas/gateway/router.py\<close>: path patterns, their segments, and the ordered
  route table in which the first match wins.
\<close>

section \<open>Routes\<close>

type_synonym segment = "bool \<times> string"      \<comment> \<open>is it a parameter, its name or literal\<close>

record route_entry =
  rt_method :: string
  rt_path_pattern :: string
  rt_agent :: string
  rt_mode :: string
  rt_middleware :: "string list"
  rt_raw_response :: bool
  rt_payload_extra :: payload
  rt_inject_principal :: bool
  rt_segments :: "segment list"

definition parse_part :: "string \<Rightarrow> segment" where
  "parse_part part =
     (if part \<noteq> [] \<and> hd part = CHR ''{'' \<and> last part = CHR ''}'' then (True, butlast (tl part)) else (False, part))"

definition parse_pattern :: "string \<Rightarrow> segment list" where
  "parse_pattern pattern = map parse_part (py_split (CHR ''/'') (py_strip (CHR ''/'') pattern))"

text \<open>The dataclass constructor with \<^verbatim>\<open>__post_init__\<close>.\<close>

definition new_route :: "string \<Rightarrow> string \<Rightarrow> string \<Rightarrow> string \<Rightarrow> string list \<Rightarrow> route_entry" where
  "new_route meth pattern agent mode mw =
     \<lparr>rt_method = py_upper meth, rt_path_pattern = pattern, rt_agent = agent, rt_mode = mode,
      rt_middleware = mw, rt_raw_response = False, rt_payload_extra = [], rt_inject_principal = False,
      rt_segments = parse_pattern pattern\<rparr>"

text \<open>The \<^verbatim>\<open>routes\<close> list of a configuration: a dictionary per route, an absent key being
  \<^const>\<open>None\<close>.\<close>

record route_decl =
  rd_method :: "string option"
  rd_path :: "string option"
  rd_agent :: "string option"
  rd_mode :: "string option"
  rd_middleware :: "string list option"

fun from_config :: "route_decl list \<Rightarrow> route_entry list result" where
  "from_config [] = Inr []"
| "from_config (r # rs) =
     (case (rd_method r, rd_path r, rd_agent r) of
        (Some meth, Some path, Some agent) \<Rightarrow>
          map_sum id (\<lambda>es. new_route meth path agent
             (case rd_mode r of None \<Rightarrow> ''call'' | Some mode \<Rightarrow> mode)
             (case rd_middleware r of None \<Rightarrow> [] | Some mw \<Rightarrow> mw) # es) (from_config rs)
      | _ \<Rightarrow> Inl KeyError)"

section \<open>Matching\<close>

fun match_pairs :: "(segment \<times> string) list \<Rightarrow> (string, string) dict \<Rightarrow> (string, string) dict option" where
  "match_pairs [] ps = Some ps"
| "match_pairs (((is_param, name), seg) # xs) ps =
     (if is_param then match_pairs xs (dput name seg ps)
      else if name \<noteq> seg then None
      else match_pairs xs ps)"

definition match_segments :: "segment list \<Rightarrow> string list \<Rightarrow> (string, string) dict option" where
  "match_segments entry_segs path_segs =
     (if length entry_segs \<noteq> length path_segs then None else match_pairs (zip entry_segs path_segs) [])"

definition path_segments :: "string \<Rightarrow> string list" where
  "path_segments path =
     (let p = py_strip (CHR ''/'') path in if p = '''' then [] else py_split (CHR ''/'') p)"

fun match_entries :: "route_entry list \<Rightarrow> string \<Rightarrow> string list \<Rightarrow> (route_entry \<times> (string, string) dict) option" where
  "match_entries [] meth segs = None"
| "match_entries (e # es) meth segs =
     (if rt_method e \<noteq> py_upper meth then match_entries es meth segs
      else (case match_segments (rt_segments e) segs of
              Some ps \<Rightarrow> Some (e, ps)
            | None \<Rightarrow> match_entries es meth segs))"

definition route_match :: "route_entry list \<Rightarrow> string \<Rightarrow> string \<Rightarrow> (route_entry \<times> (string, string) dict) option" where
  "route_match entries meth path = match_entries entries meth (path_segments path)"

section \<open>What a match is\<close>

definition fits :: "route_entry \<Rightarrow> string \<Rightarrow> string list \<Rightarrow> bool" where
  "fits e meth segs \<longleftrightarrow>
     rt_method e = py_upper meth \<and> list_all2 (\<lambda>(is_param, name) seg. is_param \<or> name = seg) (rt_segments e) segs"

text \<open>The value of a parameter: the segment at its last occurrence in the pattern.\<close>

definition param_value :: "segment list \<Rightarrow> string list \<Rightarrow> string \<Rightarrow> string option" where
  "param_value entry_segs segs n = map_of (rev (zip entry_segs segs)) (True, n)"

lemma match_pairs_spec:
  "length es = length ss \<Longrightarrow>
   (match_pairs (zip es ss) ps \<noteq> None \<longleftrightarrow> list_all2 (\<lambda>(is_param, name) seg. is_param \<or> name = seg) es ss)
 \<and> (\<forall>qs n. match_pairs (zip es ss) ps = Some qs \<longrightarrow>
      dget qs n = (case param_value es ss n of Some v \<Rightarrow> Some v | None \<Rightarrow> dget ps n))"
proof (induction es ss arbitrary: ps rule: list_induct2)
  case Nil
  then show ?case by (simp add: param_value_def)
next
  case (Cons x xs y ys)
  obtain b n where x: "x = (b, n)" by (cases x)
  have pv: "param_value (x # xs) (y # ys) k =
      (case param_value xs ys k of Some v \<Rightarrow> Some v | None \<Rightarrow> if b \<and> n = k then Some y else None)" for k
    by (auto simp: param_value_def x map_of_append map_add_def split: option.split)
  show ?case
    using Cons.IH [of "dput n y ps"] Cons.IH [of ps] unfolding x [symmetric] pv
    by (auto simp: x dict_simps split: option.splits)
qed

lemma match_segments_spec:
  "match_segments es ss \<noteq> None \<longleftrightarrow> list_all2 (\<lambda>(is_param, name) seg. is_param \<or> name = seg) es ss"
  "match_segments es ss = Some qs \<Longrightarrow> dget qs n = param_value es ss n"
  using match_pairs_spec [of es ss "[]"]
  by (auto simp: match_segments_def list_all2_lengthD split: if_splits option.splits)

section \<open>Building patterns and paths\<close>

definition render_part :: "segment \<Rightarrow> string" where
  "render_part s = (case s of (is_param, name) \<Rightarrow> if is_param then CHR ''{'' # name @ [CHR ''}''] else name)"

definition render_pattern :: "segment list \<Rightarrow> string" where
  "render_pattern segs = CHR ''/'' # py_join (CHR ''/'') (map render_part segs)"

text \<open>A path made from a pattern and values of its parameters.\<close>

definition path_of :: "(string \<Rightarrow> string) \<Rightarrow> segment list \<Rightarrow> string" where
  "path_of v segs = CHR ''/'' # py_join (CHR ''/'') (map (\<lambda>(is_param, name). if is_param then v name else name) segs)"

text \<open>Segments that a pattern can express: no slash inside, no empty literal, no literal in braces.\<close>

definition segment_ok :: "segment \<Rightarrow> bool" where
  "segment_ok s =
     (case s of (is_param, name) \<Rightarrow>
        CHR ''/'' \<notin> set name \<and> (is_param \<or> (name \<noteq> [] \<and> \<not> (hd name = CHR ''{'' \<and> last name = CHR ''}''))))"

lemma py_join_ends:
  assumes "ws \<noteq> []" "\<forall>w \<in> set ws. w \<noteq> [] \<and> c \<notin> set w"
  shows "py_join c ws \<noteq> []" "hd (py_join c ws) \<noteq> c" "last (py_join c ws) \<noteq> c"
  using assms
proof (induction c ws rule: py_join.induct)
  case (2 c w)
  { case 1 then show ?case by simp next case 2 then show ?case by (cases w) auto
    next case 3 then show ?case by (simp) (metis last_in_set) }
next
  case (3 c w v ws)
  { case 1 then show ?case by simp next case 2 then show ?case by (cases w) auto
    next case 3
      with "3.IH" have "last (py_join c (v # ws)) \<noteq> c" "py_join c (v # ws) \<noteq> []" by simp_all
      then show ?case by simp }
qed simp_all

lemma py_strip_ends: "s \<noteq> [] \<Longrightarrow> hd s \<noteq> c \<Longrightarrow> last s \<noteq> c \<Longrightarrow> py_strip c (c # s) = s"
proof -
  assume s: "s \<noteq> []" "hd s \<noteq> c" "last s \<noteq> c"
  have "dropWhile (\<lambda>x. x = c) (c # s) = s" using s(1,2) by (cases s) auto
  moreover have "dropWhile (\<lambda>x. x = c) (rev s) = rev s"
    using s(1,3) by (cases s rule: rev_cases) simp_all
  ultimately show ?thesis by (simp add: py_strip_def)
qed

lemma split_strip_join:
  assumes "ws \<noteq> []" "\<forall>w \<in> set ws. w \<noteq> [] \<and> c \<notin> set w"
  shows "py_split c (py_strip c (c # py_join c ws)) = ws" "py_strip c (c # py_join c ws) \<noteq> []"
proof -
  have strip: "py_strip c (c # py_join c ws) = py_join c ws"
    by (rule py_strip_ends [OF py_join_ends [OF assms]])
  show "py_split c (py_strip c (c # py_join c ws)) = ws"
    unfolding strip using assms by (intro py_split_join) simp_all
  show "py_strip c (c # py_join c ws) \<noteq> []"
    unfolding strip by (rule py_join_ends(1) [OF assms])
qed

lemma parse_render_part: "segment_ok s \<Longrightarrow> parse_part (render_part s) = s"
  by (auto simp: segment_ok_def parse_part_def render_part_def split: prod.splits)

lemma render_part_ok: "segment_ok s \<Longrightarrow> render_part s \<noteq> [] \<and> CHR ''/'' \<notin> set (render_part s)"
  by (auto simp: segment_ok_def render_part_def split: prod.splits)

lemma parse_render_pattern:
  assumes "segs \<noteq> []" "\<forall>s \<in> set segs. segment_ok s"
  shows "parse_pattern (render_pattern segs) = segs"
proof -
  have "py_split (CHR ''/'') (py_strip (CHR ''/'') (render_pattern segs)) = map render_part segs"
    unfolding render_pattern_def by (rule split_strip_join(1)) (use assms render_part_ok in auto)
  then show ?thesis
    using assms(2) by (simp add: parse_pattern_def map_idI parse_render_part)
qed

lemma path_segments_path_of:
  assumes "segs \<noteq> []" "\<forall>s \<in> set segs. segment_ok s" "\<forall>n. v n \<noteq> [] \<and> CHR ''/'' \<notin> set (v n)"
  shows "path_segments (path_of v segs) = map (\<lambda>(is_param, name). if is_param then v name else name) segs"
proof -
  let ?ws = "map (\<lambda>(is_param, name). if is_param then v name else name) segs"
  have "(\<lambda>(is_param, name). if is_param then v name else name) s \<noteq> []
      \<and> CHR ''/'' \<notin> set ((\<lambda>(is_param, name). if is_param then v name else name) s)" if "s \<in> set segs" for s
  proof -
    obtain b n where s: "s = (b, n)" by (cases s)
    show ?thesis
      using spec [OF assms(3), of n] bspec [OF assms(2) that] by (cases b) (simp_all add: s segment_ok_def)
  qed
  with assms(1) have ws: "?ws \<noteq> []" "\<forall>w \<in> set ?ws. w \<noteq> [] \<and> CHR ''/'' \<notin> set w"
    by simp_all
  show ?thesis
    unfolding path_segments_def path_of_def Let_def if_not_P [OF split_strip_join(2) [OF ws]]
    by (rule split_strip_join(1) [OF ws])
qed

lemma param_value_Some: "param_value segs ss n = Some w \<Longrightarrow> (True, n) \<in> set segs"
  unfolding param_value_def by (drule map_of_SomeD) (auto dest: set_zip_leftD)

lemma param_value_Cons:
  "length ss = length segs \<Longrightarrow> param_value (s # segs) (w # ss) n =
     (case param_value segs ss n of Some u \<Rightarrow> Some u | None \<Rightarrow> if s = (True, n) then Some w else None)"
  by (auto simp: param_value_def map_of_append map_add_def split: option.split)

lemma param_value_path_of:
  "(True, n) \<in> set segs \<Longrightarrow>
   param_value segs (map (\<lambda>(is_param, name). if is_param then v name else name) segs) n = Some (v n)"
proof (induction segs)
  case (Cons s segs)
  show ?case
  proof (cases "(True, n) \<in> set segs")
    case True
    then show ?thesis using Cons.IH by (simp add: param_value_Cons)
  next
    case False
    then have "param_value segs ss n = None" for ss
      using param_value_Some by (metis not_None_eq)
    then show ?thesis using Cons.prems False by (auto simp: param_value_Cons)
  qed
qed simp

lemma py_split_empty: "py_split c s = [[]] \<Longrightarrow> s = []"
  by (cases s) (auto split: if_splits list.splits)

lemma route_match_find:
  "map_option fst (route_match es meth path) = find (\<lambda>e. fits e meth (path_segments path)) es"
  "route_match es meth path = Some (e, ps) \<Longrightarrow> dget ps n = param_value (rt_segments e) (path_segments path) n"
proof -
  have *: "map_option fst (match_entries es meth segs) = find (\<lambda>e. fits e meth segs) es
     \<and> (\<forall>e ps n. match_entries es meth segs = Some (e, ps) \<longrightarrow> dget ps n = param_value (rt_segments e) segs n)" for segs
  proof (induction es)
    case (Cons e es)
    then show ?case
      using match_segments_spec(1) [of "rt_segments e" segs] match_segments_spec(2) [of "rt_segments e" segs]
      by (auto simp: fits_def split: option.splits)
  qed simp
  show "map_option fst (route_match es meth path) = find (\<lambda>e. fits e meth (path_segments path)) es"
    using * by (simp add: route_match_def)
  show "route_match es meth path = Some (e, ps) \<Longrightarrow> dget ps n = param_value (rt_segments e) (path_segments path) n"
    using * by (simp add: route_match_def)
qed

section \<open>Properties\<close>

text \<open>C30. Matching is the declarative reading of the table: the result is the first entry whose
  method is the request's and whose segments fit the path's one by one, and each parameter has the
  value of the segment at its last position.\<close>

theorem route_match_spec:
  "map_option fst (route_match es meth path) = find (\<lambda>e. fits e meth (path_segments path)) es
   \<and> (\<forall>e ps n. route_match es meth path = Some (e, ps) \<longrightarrow>
        dget ps n = param_value (rt_segments e) (path_segments path) n)"
  using route_match_find by blast

theorem route_match_spec_witness:
  "map_option fst (route_match [new_route ''GET'' ''/a/{x}'' ''g'' ''call'' [], new_route ''get'' ''/a/b'' ''h'' ''call'' []] ''get'' ''/a/b'')
     = Some (new_route ''GET'' ''/a/{x}'' ''g'' ''call'' [])"
proof -
  have "fits (new_route ''GET'' ''/a/{x}'' ''g'' ''call'' []) ''get'' (path_segments ''/a/b'')"
    by code_simp
  with route_match_spec [of "[new_route ''GET'' ''/a/{x}'' ''g'' ''call'' [], new_route ''get'' ''/a/b'' ''h'' ''call'' []]" "''get''" "''/a/b''"]
  show ?thesis by simp
qed

text \<open>A path built from a pattern leads back to it: for a pattern of expressible segments and
  non-empty values without slashes, the route declared with that pattern matches the path built from
  the values, and returns every parameter's value.\<close>

theorem route_url_roundtrip:
  assumes "segs \<noteq> []" "\<forall>s \<in> set segs. segment_ok s" "\<forall>n. v n \<noteq> [] \<and> CHR ''/'' \<notin> set (v n)"
  shows "\<exists>ps. route_match (new_route meth (render_pattern segs) agent mode mw # es) meth (path_of v segs)
            = Some (new_route meth (render_pattern segs) agent mode mw, ps)
          \<and> (\<forall>n. (True, n) \<in> set segs \<longrightarrow> dget ps n = Some (v n))"
proof -
  let ?e = "new_route meth (render_pattern segs) agent mode mw"
  let ?ss = "map (\<lambda>(is_param, name). if is_param then v name else name) segs"
  have e: "rt_segments ?e = segs" "rt_method ?e = py_upper meth"
    using parse_render_pattern [OF assms(1,2)] by (simp_all add: new_route_def)
  have p: "path_segments (path_of v segs) = ?ss" by (rule path_segments_path_of [OF assms])
  have "list_all2 (\<lambda>(is_param, name) seg. is_param \<or> name = seg) segs ?ss"
    by (auto simp: list_all2_conv_all_nth split: prod.splits)
  then obtain ps where ps: "match_segments segs ?ss = Some ps"
    using match_segments_spec(1) [of segs ?ss] by blast
  then have "route_match (?e # es) meth (path_of v segs) = Some (?e, ps)"
    by (simp add: route_match_def p e)
  moreover have "dget ps n = Some (v n)" if "(True, n) \<in> set segs" for n
    using match_segments_spec(2) [OF ps] param_value_path_of [OF that] by simp
  ultimately show ?thesis by blast
qed

theorem route_url_roundtrip_witness:
  "\<exists>ps. route_match [new_route ''GET'' (render_pattern [(False, ''v1''), (True, ''id'')]) ''a'' ''call'' []] ''GET''
          (path_of (\<lambda>n. ''42'') [(False, ''v1''), (True, ''id'')])
       = Some (new_route ''GET'' (render_pattern [(False, ''v1''), (True, ''id'')]) ''a'' ''call'' [], ps)
     \<and> dget ps ''id'' = Some ''42''"
  using route_url_roundtrip [of "[(False, ''v1''), (True, ''id'')]" "\<lambda>n. ''42''" "''GET''" "''a''" "''call''" "[]" "[]"]
  by (simp add: segment_ok_def)

text \<open>A route for the root path is dead: the pattern \<^verbatim>\<open>/\<close> has one empty segment, the
  root path has none, and no other path has a single empty segment, so such a route never
  matches.\<close>

theorem root_route_unreachable:
  "route_match [new_route meth ''/'' agent mode mw] meth' path = None"
proof -
  have "path_segments path \<noteq> [[]]"
    using py_split_empty [of "CHR ''/''" "py_strip (CHR ''/'') path"] by (auto simp: path_segments_def Let_def)
  then have "\<not> fits (new_route meth ''/'' agent mode mw) meth' (path_segments path)"
    by (auto simp: fits_def new_route_def parse_pattern_def parse_part_def py_strip_def list_all2_Cons1)
  then have "find (\<lambda>e. fits e meth' (path_segments path)) [new_route meth ''/'' agent mode mw] = None"
    by simp
  with route_match_find(1) show ?thesis by (metis option.map_disc_iff)
qed

end
