(* ===== verification/Gateway_Auth.thy ===== *)
theory Gateway_Auth
  imports Gen_Server Gateway_Router
begin

text \<open>
  The gateway's request and response objects, its middleware chain and the middlewares the
  repository ships: \<^verbatim>\<open>types.py\<close>, \<^verbatim>\<open>middleware.py\<close>, \<^verbatim>\<open>auth.py\<close>,
  \<^verbatim>\<open>mtls.py\<close>, \<^verbatim>\<open>jwt_auth.py\<close> and \<^verbatim>\<open>ratelimit.py\<close> of
  \<^verbatim>\<open>src/civitas/gateway\<close>. The bus's \<^verbatim>\<open>request\<close>, the settings read from the
  environment, and the JWT, X.509, base64 and address libraries are arguments; of the JWT library the
  only exceptions are those the code catches.
\<close>

section \<open>Requests and responses\<close>

record gateway_request =
  rq_method :: string
  rq_path :: string
  rq_path_params :: "(string, string) dict"
  rq_query_params :: "(string, string) dict"
  rq_headers :: "(string, string) dict"
  rq_body :: payload
  rq_client_ip :: string
  rq_gateway :: bool                              \<comment> \<open>\<^verbatim>\<open>gateway is not None\<close>\<close>
  rq_client_cert :: "(string, string) dict option"
  rq_auth :: "payload option"

text \<open>A streaming response holds the generator of \<^verbatim>\<open>GatewayDispatcher.stream\<close>, which does
  nothing until it is iterated: its arguments.\<close>

record stream_call =
  sc_recipient :: string
  sc_msg_type :: string
  sc_payload :: payload
  sc_trace_id :: string

record gateway_response =
  rs_status :: int
  rs_body :: payload
  rs_headers :: "(string, string) dict"
  rs_stream :: "stream_call option"
  rs_raw_body :: "string option"
  rs_content_type :: "string option"

definition new_response :: "int \<Rightarrow> payload \<Rightarrow> gateway_response" where
  "new_response status body =
     \<lparr>rs_status = status, rs_body = body, rs_headers = [], rs_stream = None, rs_raw_body = None,
      rs_content_type = None\<rparr>"

definition error_body :: "string \<Rightarrow> payload" where
  "error_body text = [(''error'', JStr text)]"

section \<open>The gateway process\<close>

text \<open>What a request can change: the gateway's own process, its open streams, the requests it handed
  to the bus, and the rest of the system, of type \<open>'w\<close>.\<close>

record 'w gateway =
  gw_agent :: agent
  gw_stream_sinks :: "(string, stream_sink) dict"
  gw_requests :: "message list"
  gw_rest :: 'w

type_synonym 'w gw_handler = "gateway_request \<Rightarrow> 'w gateway \<Rightarrow> gateway_response result \<times> 'w gateway"
type_synonym 'w middleware = "gateway_request \<Rightarrow> 'w gw_handler \<Rightarrow> 'w gateway \<Rightarrow> gateway_response result \<times> 'w gateway"

record 'w gw_env =
  gw_env :: agent_env
  gw_request :: "message \<Rightarrow> 'w \<Rightarrow> message result \<times> 'w"
  gw_str :: "json \<Rightarrow> string"                       \<comment> \<open>\<^verbatim>\<open>str\<close>\<close>
  gw_int :: "json \<Rightarrow> int result"                   \<comment> \<open>\<^verbatim>\<open>int\<close>\<close>
  gw_dumps :: "json \<Rightarrow> string"                     \<comment> \<open>\<^verbatim>\<open>json.dumps\<close>\<close>

text \<open>\<^verbatim>\<open>AgentProcess.ask\<close> of the gateway process.\<close>

definition gw_ask :: "'w gw_env \<Rightarrow> string \<Rightarrow> payload \<Rightarrow> string \<Rightarrow> 'w gateway \<Rightarrow> message result \<times> 'w gateway" where
  "gw_ask env recipient p msg_type g =
     (case ask_message (gw_env env) recipient p msg_type (gw_agent g) of
        (Inl e, a) \<Rightarrow> (Inl e, g\<lparr>gw_agent := a\<rparr>)
      | (Inr m, a) \<Rightarrow>
          (case gw_request env m (gw_rest g) of
             (r, w) \<Rightarrow> (r, g\<lparr>gw_agent := a, gw_requests := gw_requests g @ [m], gw_rest := w\<rparr>)))"

section \<open>The chain\<close>

definition load_middleware :: "(string \<Rightarrow> string \<Rightarrow> 'w middleware result) \<Rightarrow> string \<Rightarrow> 'w middleware result" where
  "load_middleware import_attr dotted_path =
     (case py_rpartition (CHR ''.'') dotted_path of
        (module_path, name) \<Rightarrow> if module_path = '''' then Inl ValueError else import_attr module_path name)"

definition load_or_fail :: "(string \<Rightarrow> string \<Rightarrow> 'w middleware result) \<Rightarrow> string \<Rightarrow> 'w middleware result" where
  "load_or_fail import_attr dotted_path =
     (case load_middleware import_attr dotted_path of
        Inr mw \<Rightarrow> Inr mw
      | Inl e \<Rightarrow> if is_Exception e then Inl ConfigurationError else Inl e)"

fun load_all :: "(string \<Rightarrow> string \<Rightarrow> 'w middleware result) \<Rightarrow> string list \<Rightarrow> 'w middleware list result" where
  "load_all import_attr [] = Inr []"
| "load_all import_attr (p # ps) =
     (case load_or_fail import_attr p of
        Inl e \<Rightarrow> Inl e
      | Inr mw \<Rightarrow> map_sum id (\<lambda>mws. mw # mws) (load_all import_attr ps))"

text \<open>The loop over \<^verbatim>\<open>reversed(middlewares)\<close> wraps the chain built so far.\<close>

definition wrap :: "'w middleware \<Rightarrow> 'w gw_handler \<Rightarrow> 'w gw_handler" where
  "wrap mw nxt = (\<lambda>rq. mw rq nxt)"

definition build_chain :: "'w middleware list \<Rightarrow> 'w gw_handler \<Rightarrow> 'w gw_handler" where
  "build_chain middlewares handler = fold wrap (rev middlewares) handler"

section \<open>API keys\<close>

text \<open>\<^verbatim>\<open>hmac.compare_digest\<close> of two strings raises unless both are ASCII.\<close>

definition compare_digest :: "string \<Rightarrow> string \<Rightarrow> bool result" where
  "compare_digest a b = (if is_ascii a \<and> is_ascii b then Inr (a = b) else Inl TypeError)"

definition require_api_key :: "string option \<Rightarrow> 'w middleware" where
  "require_api_key gateway_api_key rq nxt g =
     (case gateway_api_key of
        None \<Rightarrow> (Inr (new_response 500 (error_body ''server auth is not configured'')), g)
      | Some expected \<Rightarrow>
          if expected = '''' then (Inr (new_response 500 (error_body ''server auth is not configured'')), g)
          else
            (let provided = (case dget (rq_headers rq) ''x-api-key'' of None \<Rightarrow> '''' | Some k \<Rightarrow> k)
             in case compare_digest provided expected of
                  Inl e \<Rightarrow> (Inl e, g)
                | Inr ok \<Rightarrow>
                    if ok then nxt rq g
                    else (Inr (new_response 401 (error_body ''invalid or missing API key'')), g)))"

section \<open>Client certificates\<close>

datatype dn_verdict = DnOk | MtlsMisconfigured | NoCertificate | Forbidden string

definition check_dn :: "string option \<Rightarrow> string list \<Rightarrow> dn_verdict" where
  "check_dn dn allowed =
     (if allowed = [] then MtlsMisconfigured
      else case dn of
             None \<Rightarrow> NoCertificate
           | Some d \<Rightarrow> if d \<notin> set allowed then Forbidden d else DnOk)"

text \<open>\<^verbatim>\<open>_client_cert_from_headers\<close>: \<open>in_cidr\<close> stands for the address library
  (\<^const>\<open>None\<close> for a string that is no address), \<open>der_dn\<close> for base64 decoding and
  X.509.\<close>

definition client_cert_from_headers ::
  "(string \<Rightarrow> string \<Rightarrow> bool option) \<Rightarrow> (string \<Rightarrow> string option) \<Rightarrow> string option
     \<Rightarrow> (string \<times> string) list \<Rightarrow> string list \<Rightarrow> (string, string) dict option" where
  "client_cert_from_headers in_cidr der_dn client headers trusted_cidrs =
     (case client of
        None \<Rightarrow> None
      | Some ip \<Rightarrow>
          if \<not> list_ex (\<lambda>c. in_cidr ip c = Some True) trusted_cidrs then None
          else
            (case map snd (filter (\<lambda>(n, v). py_lower n = ''client-cert'') headers) of
               [raw] \<Rightarrow>
                 if length raw < 2 \<or> hd raw \<noteq> CHR '':'' \<or> last raw \<noteq> CHR '':'' then None
                 else map_option (\<lambda>dn. [(''dn'', dn)]) (der_dn (butlast (tl raw)))
             | _ \<Rightarrow> None))"

definition set_auth :: "payload \<Rightarrow> gateway_request \<Rightarrow> gateway_request" where
  "set_auth p rq = rq\<lparr>rq_auth := Some (merge (case rq_auth rq of None \<Rightarrow> [] | Some a \<Rightarrow> a) p)\<rparr>"

definition require_client_cert :: "string list \<Rightarrow> 'w middleware" where
  "require_client_cert allowed_dns rq nxt g =
     (let dn = (case rq_client_cert rq of None \<Rightarrow> None | Some c \<Rightarrow> dget c ''dn'')
      in case check_dn dn allowed_dns of
           MtlsMisconfigured \<Rightarrow> (Inr (new_response 500 (error_body ''server auth is not configured'')), g)
         | NoCertificate \<Rightarrow> (Inr (new_response 401 (error_body ''client certificate required'')), g)
         | Forbidden d \<Rightarrow> (Inr (new_response 403 (error_body ''client certificate not authorized'')), g)
         | DnOk \<Rightarrow> nxt (set_auth [(''client_cert'', JDict [(''dn'', JStr (the dn))])] rq) g)"

section \<open>JSON web tokens\<close>

record jwt_settings =
  js_jwks_url :: "string option"
  js_public_key :: "string option"
  js_secret :: "string option"
  js_audience :: "string option"
  js_issuer :: "string option"
  js_algorithms :: "string list"

record jwt_verifier =
  jv_audience :: string
  jv_issuer :: string
  jv_algorithms :: "string list"
  jv_static_key :: string
  jv_jwks_url :: "string option"

text \<open>Truth of an optional string.\<close>

definition given :: "string option \<Rightarrow> bool" where
  "given s = (case s of None \<Rightarrow> False | Some t \<Rightarrow> t \<noteq> '''')"

definition DEFAULT_ALGORITHMS :: "string list" where
  "DEFAULT_ALGORITHMS = [''RS256'']"

definition is_hmac :: "string \<Rightarrow> bool" where
  "is_hmac a = startswith (py_upper a) ''HS''"

definition jwt_algorithms :: "jwt_settings \<Rightarrow> string list" where
  "jwt_algorithms s = (if js_algorithms s \<noteq> [] then js_algorithms s else DEFAULT_ALGORITHMS)"

definition new_jwt_verifier :: "bool \<Rightarrow> jwt_settings \<Rightarrow> jwt_verifier result" where
  "new_jwt_verifier have_pyjwt s =
     (let algs = jwt_algorithms s;
          uses_hmac = (algs \<noteq> [] \<and> list_all is_hmac algs)
      in if \<not> have_pyjwt then Inl ConfigurationError
         else if length (filter given [js_jwks_url s, js_public_key s, js_secret s]) \<noteq> 1 then Inl ConfigurationError
         else if \<not> given (js_audience s) then Inl ConfigurationError
         else if \<not> given (js_issuer s) then Inl ConfigurationError
         else if list_ex is_hmac algs \<and> \<not> list_all is_hmac algs then Inl ConfigurationError
         else if given (js_secret s) \<and> \<not> uses_hmac then Inl ConfigurationError
         else if (given (js_jwks_url s) \<or> given (js_public_key s)) \<and> uses_hmac then Inl ConfigurationError
         else if given (js_jwks_url s) \<and> \<not> startswith (py_lower (the (js_jwks_url s))) ''https://'' then Inl ConfigurationError
         else Inr \<lparr>jv_audience = the (js_audience s), jv_issuer = the (js_issuer s), jv_algorithms = algs,
                   jv_static_key = (if given (js_public_key s) then the (js_public_key s)
                                    else if given (js_secret s) then the (js_secret s) else ''''),
                   jv_jwks_url = (if given (js_jwks_url s) then js_jwks_url s else None)\<rparr>)"

definition MAX_TOKEN_BYTES :: nat where
  "MAX_TOKEN_BYTES = 8192"

text \<open>The library: \<open>jl_signing_key url token\<close> is \<^verbatim>\<open>PyJWKClient\<close>'s lookup and
  \<open>jl_decode token key algorithms audience issuer\<close> is \<^verbatim>\<open>jwt.decode\<close> with the three
  required claims; \<^const>\<open>None\<close> is a \<^verbatim>\<open>PyJWTError\<close>.\<close>

record jwt_lib =
  jl_signing_key :: "string \<Rightarrow> string \<Rightarrow> string option"
  jl_decode :: "string \<Rightarrow> string \<Rightarrow> string list \<Rightarrow> string \<Rightarrow> string \<Rightarrow> payload option"

definition jwt_verify :: "jwt_lib \<Rightarrow> jwt_verifier \<Rightarrow> string \<Rightarrow> payload option" where
  "jwt_verify lib v token =
     (if length token > MAX_TOKEN_BYTES then None
      else
        (case (case jv_jwks_url v of Some url \<Rightarrow> jl_signing_key lib url token | None \<Rightarrow> Some (jv_static_key v)) of
           None \<Rightarrow> None
         | Some key \<Rightarrow> jl_decode lib token key (jv_algorithms v) (jv_audience v) (jv_issuer v)))"

text \<open>\<open>verify\<close> is the gateway's verifier, \<^const>\<open>None\<close> when it has none.\<close>

definition jwt_principal :: "(json \<Rightarrow> string) \<Rightarrow> payload \<Rightarrow> payload" where
  "jwt_principal py_str claims =
     (case dget claims ''sub'' of
        Some sub \<Rightarrow> if truthy sub then [(''id'', JStr (py_str sub)), (''method'', JStr ''jwt'')]
                    else [(''id'', JStr ''jwt''), (''method'', JStr ''jwt'')]
      | None \<Rightarrow> [(''id'', JStr ''jwt''), (''method'', JStr ''jwt'')])"

definition bearer_token :: "gateway_request \<Rightarrow> string option" where
  "bearer_token rq =
     (case py_partition (CHR '' '') (case dget (rq_headers rq) ''authorization'' of None \<Rightarrow> '''' | Some h \<Rightarrow> h) of
        (scheme, raw_token) \<Rightarrow>
          if py_lower scheme \<noteq> ''bearer'' \<or> py_strip_ws raw_token = '''' then None
          else Some (py_strip_ws raw_token))"

definition require_jwt :: "(json \<Rightarrow> string) \<Rightarrow> (string \<Rightarrow> payload option) option \<Rightarrow> 'w middleware" where
  "require_jwt py_str verifier rq nxt g =
     (case (if rq_gateway rq then verifier else None) of
        None \<Rightarrow> (Inr (new_response 500 (error_body ''server auth is not configured'')), g)
      | Some verify \<Rightarrow>
          (case bearer_token rq of
             None \<Rightarrow> (Inr ((new_response 401 (error_body ''missing bearer token''))
                        \<lparr>rs_headers := [(''WWW-Authenticate'', ''Bearer'')]\<rparr>), g)
           | Some token \<Rightarrow>
               (case verify token of
                  None \<Rightarrow> (Inr ((new_response 401 (error_body ''invalid token''))
                             \<lparr>rs_headers := [(''WWW-Authenticate'', ''Bearer error=\"invalid_token\"'')]\<rparr>), g)
                | Some claims \<Rightarrow>
                    nxt (set_auth [(''claims'', JDict claims), (''principal'', JDict (jwt_principal py_str claims))] rq) g)))"

section \<open>Rate limits\<close>

record rate_limiter =
  rl_max :: int
  rl_window :: real
  rl_hits :: "(string, real list) dict"

definition new_rate_limiter :: "int \<Rightarrow> real \<Rightarrow> rate_limiter" where
  "new_rate_limiter max_requests window_seconds = \<lparr>rl_max = max_requests, rl_window = window_seconds, rl_hits = []\<rparr>"

definition hits_of :: "(string, real list) dict \<Rightarrow> string \<Rightarrow> real list" where
  "hits_of hits c = (case dget hits c of None \<Rightarrow> [] | Some h \<Rightarrow> h)"

definition rl_acquire :: "int \<Rightarrow> real \<Rightarrow> real \<Rightarrow> string \<Rightarrow> (string, real list) dict \<Rightarrow> bool \<times> (string, real list) dict" where
  "rl_acquire max_requests window now client_id all_hits =
     (let cutoff = now - window;
          hits = filter (\<lambda>t. t \<ge> cutoff) (hits_of all_hits client_id);
          allowed = int (length hits) < max_requests;
          hits = (if allowed then hits @ [now] else hits)
      in (allowed, dput client_id hits all_hits))"

definition rl_handle_call :: "(json \<Rightarrow> string) \<Rightarrow> payload \<Rightarrow> string \<Rightarrow> rate_limiter gen_server \<Rightarrow> json result \<times> rate_limiter gen_server" where
  "rl_handle_call py_str p from g =
     (let client_id = (case dget p ''client_id'' of None \<Rightarrow> '''' | Some (JStr s) \<Rightarrow> s | Some v \<Rightarrow> py_str v);
          rl = g_user g
      in case rl_acquire (rl_max rl) (rl_window rl) (a_now (g_agent g)) client_id (rl_hits rl) of
           (allowed, hits) \<Rightarrow>
             (Inr (JDict [(''allowed'', JBool allowed),
                          (''remaining'', JInt (max 0 (rl_max rl - int (length (hits_of hits client_id))))),
                          (''retry_after'', JInt (trunc_real (rl_window rl)))]),
              g\<lparr>g_user := rl\<lparr>rl_hits := hits\<rparr>\<rparr>))"

definition rate_limit :: "'w gw_env \<Rightarrow> 'w middleware" where
  "rate_limit env rq nxt g =
     (if \<not> rq_gateway rq then nxt rq g
      else
        (case gw_ask env ''rate_limiter'' [(''client_id'', JStr (rq_client_ip rq))] ''message'' g of
           (Inl e, g') \<Rightarrow> (Inl e, g')
         | (Inr r, g') \<Rightarrow>
             (if \<not> (case dget (m_payload r) ''allowed'' of None \<Rightarrow> True | Some v \<Rightarrow> truthy v)
              then (Inr ((new_response 429 (error_body ''rate limit exceeded''))
                      \<lparr>rs_headers := [(''Retry-After'',
                          gw_str env (case dget (m_payload r) ''retry_after'' of None \<Rightarrow> JInt 60 | Some v \<Rightarrow> v))]\<rparr>), g')
              else nxt rq g')))"

section \<open>Middlewares as barriers\<close>

text \<open>A middleware relays \<open>P\<close> when, on a request with \<open>P\<close>, its result depends on the rest of the
  chain only through requests that have \<open>P\<close>: whatever it passes on still has \<open>P\<close>.\<close>

definition relays :: "(gateway_request \<Rightarrow> bool) \<Rightarrow> 'w middleware \<Rightarrow> bool" where
  "relays P mw \<longleftrightarrow>
     (\<forall>rq k k' g. P rq \<longrightarrow> (\<forall>rq' g'. P rq' \<longrightarrow> k rq' g' = k' rq' g') \<longrightarrow> mw rq k g = mw rq k' g)"

lemma build_chain_simps [simp]:
  "build_chain [] h = h"
  "build_chain (mw # mws) h rq g = mw rq (build_chain mws h) g"
  by (simp_all add: build_chain_def wrap_def)

lemma build_chain_append: "build_chain (xs @ ys) h = build_chain xs (build_chain ys h)"
  by (simp add: build_chain_def)

lemma relays_chain:
  "\<forall>mw \<in> set mws. relays P mw \<Longrightarrow> P rq \<Longrightarrow> (\<And>rq' g'. P rq' \<Longrightarrow> h rq' g' = h' rq' g') \<Longrightarrow>
   build_chain mws h rq g = build_chain mws h' rq g"
proof (induction mws arbitrary: rq g)
  case (Cons mw mws)
  then have "relays P mw" "\<And>rq' g'. P rq' \<Longrightarrow> build_chain mws h rq' g' = build_chain mws h' rq' g'"
    by auto
  with Cons.prems(2) show ?case unfolding relays_def build_chain_simps by blast
qed simp

text \<open>A barrier answers every request that has \<open>P\<close> by itself.\<close>

locale barrier =
  fixes P :: "gateway_request \<Rightarrow> bool"
    and mw :: "'w middleware"
    and deny :: "gateway_request \<Rightarrow> gateway_response result"
  assumes denies: "P rq \<Longrightarrow> mw rq k g = (deny rq, g)"
begin

lemma relays_self: "relays P mw"
  by (simp add: relays_def denies)

lemma chain_stops:
  assumes "\<forall>m \<in> set pre. relays P m" "P rq"
  shows "build_chain (pre @ mw # post) h rq g = build_chain pre (\<lambda>rq' g'. (deny rq', g')) rq g"
  unfolding build_chain_append by (rule relays_chain [OF assms]) (simp add: denies)

lemma chain_ignores_rest:
  assumes "\<forall>m \<in> set pre. relays P m" "P rq"
  shows "build_chain (pre @ mw # post) h rq g = build_chain (pre @ mw # post') h' rq g"
  by (simp only: chain_stops [OF assms])

end

section \<open>What each middleware refuses\<close>

definition bad_key :: "string option \<Rightarrow> gateway_request \<Rightarrow> bool" where
  "bad_key key rq \<longleftrightarrow> \<not> given key \<or> dget (rq_headers rq) ''x-api-key'' \<noteq> key"

definition deny_key :: "string option \<Rightarrow> gateway_request \<Rightarrow> gateway_response result" where
  "deny_key key rq =
     (if \<not> given key then Inr (new_response 500 (error_body ''server auth is not configured''))
      else if is_ascii (the key) \<and> (case dget (rq_headers rq) ''x-api-key'' of None \<Rightarrow> True | Some k \<Rightarrow> is_ascii k)
      then Inr (new_response 401 (error_body ''invalid or missing API key''))
      else Inl TypeError)"

definition bad_cert :: "string list \<Rightarrow> gateway_request \<Rightarrow> bool" where
  "bad_cert allowed rq \<longleftrightarrow>
     check_dn (case rq_client_cert rq of None \<Rightarrow> None | Some c \<Rightarrow> dget c ''dn'') allowed \<noteq> DnOk"

definition deny_cert :: "string list \<Rightarrow> gateway_request \<Rightarrow> gateway_response result" where
  "deny_cert allowed rq =
     (case check_dn (case rq_client_cert rq of None \<Rightarrow> None | Some c \<Rightarrow> dget c ''dn'') allowed of
        NoCertificate \<Rightarrow> Inr (new_response 401 (error_body ''client certificate required''))
      | Forbidden d \<Rightarrow> Inr (new_response 403 (error_body ''client certificate not authorized''))
      | _ \<Rightarrow> Inr (new_response 500 (error_body ''server auth is not configured'')))"

definition bad_token :: "(string \<Rightarrow> payload option) option \<Rightarrow> gateway_request \<Rightarrow> bool" where
  "bad_token verifier rq \<longleftrightarrow>
     \<not> (rq_gateway rq \<and> verifier \<noteq> None \<and> bearer_token rq \<noteq> None \<and> the verifier (the (bearer_token rq)) \<noteq> None)"

definition deny_token :: "(string \<Rightarrow> payload option) option \<Rightarrow> gateway_request \<Rightarrow> gateway_response result" where
  "deny_token verifier rq =
     Inr (if rq_gateway rq \<and> verifier \<noteq> None
          then if bearer_token rq = None
               then (new_response 401 (error_body ''missing bearer token''))
                        \<lparr>rs_headers := [(''WWW-Authenticate'', ''Bearer'')]\<rparr>
               else (new_response 401 (error_body ''invalid token''))
                        \<lparr>rs_headers := [(''WWW-Authenticate'', ''Bearer error=\"invalid_token\"'')]\<rparr>
          else new_response 500 (error_body ''server auth is not configured''))"

interpretation api_key: barrier "bad_key key" "require_api_key key" "deny_key key" for key
  by unfold_locales
     (auto simp: bad_key_def require_api_key_def deny_key_def given_def compare_digest_def Let_def is_ascii_def split: option.splits)

interpretation client_cert: barrier "bad_cert dns" "require_client_cert dns" "deny_cert dns" for dns
  by unfold_locales (auto simp: bad_cert_def require_client_cert_def deny_cert_def Let_def split: dn_verdict.splits)

interpretation jwt: barrier "bad_token v" "require_jwt py_str v" "deny_token v" for v py_str
  by unfold_locales (auto simp: bad_token_def require_jwt_def deny_token_def split: option.splits)

text \<open>The middlewares of the repository change no field of a request but \<^verbatim>\<open>auth\<close>.\<close>

inductive first_party :: "'w gw_env \<Rightarrow> 'w middleware \<Rightarrow> bool" for env :: "'w gw_env" where
  "first_party env (require_api_key key)"
| "first_party env (require_client_cert dns)"
| "first_party env (require_jwt py_str v)"
| "first_party env (rate_limit env)"

definition reads_no_auth :: "(gateway_request \<Rightarrow> bool) \<Rightarrow> bool" where
  "reads_no_auth P \<longleftrightarrow> (\<forall>rq a. P (rq\<lparr>rq_auth := a\<rparr>) = P rq)"

lemma first_party_relays: "first_party env mw \<Longrightarrow> reads_no_auth P \<Longrightarrow> relays P mw"
proof (induction rule: first_party.induct)
  case (1 key)
  show ?case by (simp add: relays_def require_api_key_def Let_def split: option.split sum.split)
next
  case (2 dns)
  then have "P (set_auth p rq) = P rq" for p rq by (simp add: reads_no_auth_def set_auth_def)
  then show ?case by (simp add: relays_def require_client_cert_def Let_def split: dn_verdict.split)
next
  case (3 py_str v)
  then have "P (set_auth p rq) = P rq" for p rq by (simp add: reads_no_auth_def set_auth_def)
  then show ?case by (simp add: relays_def require_jwt_def split: option.split)
next
  case 4
  show ?case by (simp add: relays_def rate_limit_def split: prod.split sum.split)
qed

text \<open>The authentication middlewares and the requests they refuse.\<close>

inductive refuses :: "'w middleware \<Rightarrow> (gateway_request \<Rightarrow> bool) \<Rightarrow> bool" where
  "refuses (require_api_key key) (bad_key key)"
| "refuses (require_client_cert dns) (bad_cert dns)"
| "refuses (require_jwt py_str v) (bad_token v)"

lemma refuses_reads_no_auth: "refuses mw P \<Longrightarrow> reads_no_auth P"
  by (induction rule: refuses.induct)
     (simp_all add: reads_no_auth_def bad_key_def bad_cert_def bad_token_def bearer_token_def)

lemma given_Some: "given x \<Longrightarrow> \<exists>y. x = Some y \<and> y \<noteq> ''''"
  by (auto simp: given_def split: option.splits)

lemma new_jwt_verifier_Inr:
  assumes "new_jwt_verifier have s = Inr v"
  shows "length (filter given [js_jwks_url s, js_public_key s, js_secret s]) = 1"
    "jv_audience v \<noteq> ''''" "jv_issuer v \<noteq> ''''" "jv_algorithms v \<noteq> []"
    "\<not> (list_ex is_hmac (jv_algorithms v) \<and> \<not> list_all is_hmac (jv_algorithms v))"
    "given (js_secret s) \<Longrightarrow> list_all is_hmac (jv_algorithms v)"
    "given (js_jwks_url s) \<or> given (js_public_key s) \<Longrightarrow> \<not> list_all is_hmac (jv_algorithms v)"
    "given (js_jwks_url s) \<Longrightarrow> startswith (py_lower (the (js_jwks_url s))) ''https://''"
    "jv_static_key v = (if given (js_public_key s) then the (js_public_key s)
                        else if given (js_secret s) then the (js_secret s) else '''')"
    "jv_jwks_url v = (if given (js_jwks_url s) then js_jwks_url s else None)"
proof -
  let ?algs = "jwt_algorithms s"
  have ne: "?algs \<noteq> []" by (simp add: jwt_algorithms_def DEFAULT_ALGORITHMS_def)
  have "length (filter given [js_jwks_url s, js_public_key s, js_secret s]) = 1
     \<and> given (js_audience s) \<and> given (js_issuer s)
     \<and> \<not> (list_ex is_hmac ?algs \<and> \<not> list_all is_hmac ?algs)
     \<and> (given (js_secret s) \<longrightarrow> list_all is_hmac ?algs)
     \<and> (given (js_jwks_url s) \<or> given (js_public_key s) \<longrightarrow> \<not> list_all is_hmac ?algs)
     \<and> (given (js_jwks_url s) \<longrightarrow> startswith (py_lower (the (js_jwks_url s))) ''https://'')
     \<and> v = \<lparr>jv_audience = the (js_audience s), jv_issuer = the (js_issuer s), jv_algorithms = ?algs,
            jv_static_key = (if given (js_public_key s) then the (js_public_key s)
                             else if given (js_secret s) then the (js_secret s) else ''''),
            jv_jwks_url = (if given (js_jwks_url s) then js_jwks_url s else None)\<rparr>"
    using assms ne unfolding new_jwt_verifier_def Let_def if_Inl_eq_Inr by blast
  with ne show "length (filter given [js_jwks_url s, js_public_key s, js_secret s]) = 1"
    "jv_audience v \<noteq> ''''" "jv_issuer v \<noteq> ''''" "jv_algorithms v \<noteq> []"
    "\<not> (list_ex is_hmac (jv_algorithms v) \<and> \<not> list_all is_hmac (jv_algorithms v))"
    "given (js_secret s) \<Longrightarrow> list_all is_hmac (jv_algorithms v)"
    "given (js_jwks_url s) \<or> given (js_public_key s) \<Longrightarrow> \<not> list_all is_hmac (jv_algorithms v)"
    "given (js_jwks_url s) \<Longrightarrow> startswith (py_lower (the (js_jwks_url s))) ''https://''"
    "jv_static_key v = (if given (js_public_key s) then the (js_public_key s)
                        else if given (js_secret s) then the (js_secret s) else '''')"
    "jv_jwks_url v = (if given (js_jwks_url s) then js_jwks_url s else None)"
    by (auto dest: given_Some)
qed

section \<open>Properties\<close>

text \<open>C8. Authentication fails closed. Put an API-key, client-certificate or JWT middleware anywhere
  in a chain, after any of the repository's middlewares. A request it refuses (no or a wrong key, no
  certificate or one whose subject is not listed, no or an invalid token, or a secret that is not
  configured at all) gets the same answer and leaves the same state whatever middlewares, handler and
  dispatch come behind it: nothing of them runs. The refusal itself is a 401, 403 or 500 without a
  stream, or the \<^verbatim>\<open>TypeError\<close> of comparing a key that is not ASCII, and changes nothing.\<close>

theorem auth_fails_closed:
  assumes "\<forall>m \<in> set pre. first_party env m" "refuses mw P" "P rq"
  shows "build_chain (pre @ mw # post) h rq g = build_chain (pre @ [mw]) h' rq g
       \<and> (\<exists>d. mw rq k g = (d, g)
             \<and> (case d of Inl e \<Rightarrow> e = TypeError | Inr r \<Rightarrow> rs_status r \<in> {401, 403, 500} \<and> rs_stream r = None))"
proof -
  have pre: "\<forall>m \<in> set pre. relays P m"
    using assms(1) refuses_reads_no_auth [OF assms(2)] first_party_relays by blast
  show ?thesis
    using assms(2,3) pre
  proof (induction rule: refuses.induct)
    case (1 key)
    then show ?case
      using api_key.chain_ignores_rest [of pre key rq post h g "[]" h'] api_key.denies [of key rq k g]
      by (auto simp: deny_key_def new_response_def)
  next
    case (2 dns)
    then show ?case
      using client_cert.chain_ignores_rest [of pre dns rq post h g "[]" h'] client_cert.denies [of dns rq k g]
      by (auto simp: deny_cert_def new_response_def split: dn_verdict.split)
  next
    case (3 py_str v)
    then show ?case
      using jwt.chain_ignores_rest [of pre v rq py_str post h g "[]" h'] jwt.denies [of v rq py_str k g]
      by (auto simp: deny_token_def new_response_def)
  qed
qed

definition sample_request :: gateway_request where
  "sample_request =
     \<lparr>rq_method = ''POST'', rq_path = ''/agents/a'', rq_path_params = [], rq_query_params = [],
      rq_headers = [(''x-api-key'', ''guess'')], rq_body = [], rq_client_ip = ''10.0.0.1'', rq_gateway = True,
      rq_client_cert = None, rq_auth = None\<rparr>"

theorem auth_fails_closed_witness:
  "build_chain ([require_client_cert [''CN=a'']] @ require_api_key (Some ''secret'') # []) (\<lambda>rq g. (Inr (new_response 200 []), g)) sample_request
      \<lparr>gw_agent = new_agent (base_env ''gw'') None None 0, gw_stream_sinks = [], gw_requests = [], gw_rest = ()\<rparr>
   = build_chain ([require_client_cert [''CN=a'']] @ [require_api_key (Some ''secret'')]) (\<lambda>rq g. (Inl RuntimeError, g)) sample_request
      \<lparr>gw_agent = new_agent (base_env ''gw'') None None 0, gw_stream_sinks = [], gw_requests = [], gw_rest = ()\<rparr>"
proof -
  have pre: "\<forall>m \<in> set [require_client_cert [''CN=a'']]. first_party env m" for env
    by (simp add: first_party.intros)
  have bad: "bad_key (Some ''secret'') sample_request" by (simp add: bad_key_def sample_request_def)
  show ?thesis
    using auth_fails_closed [OF pre refuses.intros(1) bad] by blast
qed

text \<open>C31. No algorithm confusion. A verifier that is built has exactly one key source, a non-empty
  audience and issuer and at least one algorithm; it accepts HMAC algorithms only with the shared
  secret as its key, and with a public key or a JWKS endpoint, which then is an HTTPS one, no
  algorithm is an HMAC one. A token longer than 8192 characters is refused before it is decoded.\<close>

theorem jwt_verifier_sound:
  assumes "new_jwt_verifier have s = Inr v"
  shows "length (filter given [js_jwks_url s, js_public_key s, js_secret s]) = 1
    \<and> jv_audience v \<noteq> '''' \<and> jv_issuer v \<noteq> '''' \<and> jv_algorithms v \<noteq> []
    \<and> (\<forall>a \<in> set (jv_algorithms v). is_hmac a \<longleftrightarrow> given (js_secret s))
    \<and> (given (js_secret s) \<longrightarrow> js_secret s = Some (jv_static_key v) \<and> jv_jwks_url v = None)
    \<and> (given (js_public_key s) \<longrightarrow> js_public_key s = Some (jv_static_key v) \<and> jv_jwks_url v = None)
    \<and> (\<forall>u. jv_jwks_url v = Some u \<longrightarrow> startswith (py_lower u) ''https://'')
    \<and> (length token > 8192 \<longrightarrow> jwt_verify lib v token = None)"
proof -
  note f = new_jwt_verifier_Inr [OF assms]
  have hmac: "is_hmac a \<longleftrightarrow> given (js_secret s)" if "a \<in> set (jv_algorithms v)" for a
    using f(1) f(5-7) that by (cases "given (js_secret s)") (auto simp: list_all_iff list_ex_iff split: if_splits)
  have key: "given (js_secret s) \<longrightarrow> js_secret s = Some (jv_static_key v) \<and> jv_jwks_url v = None"
    "given (js_public_key s) \<longrightarrow> js_public_key s = Some (jv_static_key v) \<and> jv_jwks_url v = None"
    using f(1) f(9,10) by (auto dest: given_Some split: if_splits)
  have "\<forall>u. jv_jwks_url v = Some u \<longrightarrow> startswith (py_lower u) ''https://''"
    using f(8,10) by (auto split: if_splits)
  with f(1-4) hmac key show ?thesis
    by (simp add: jwt_verify_def MAX_TOKEN_BYTES_def)
qed

theorem jwt_verifier_sound_witness:
  "\<exists>v. new_jwt_verifier True \<lparr>js_jwks_url = None, js_public_key = Some ''pem'', js_secret = None, js_audience = Some ''api'',
          js_issuer = Some ''idp'', js_algorithms = [''ES256'']\<rparr> = Inr v
     \<and> jv_static_key v = ''pem'' \<and> (\<forall>a \<in> set (jv_algorithms v). \<not> is_hmac a)"
proof -
  let ?s = "\<lparr>js_jwks_url = None, js_public_key = Some ''pem'', js_secret = None, js_audience = Some ''api'',
          js_issuer = Some ''idp'', js_algorithms = [''ES256'']\<rparr>"
  have "\<not> isl (new_jwt_verifier True ?s)" by code_simp
  then obtain v where v: "new_jwt_verifier True ?s = Inr v" by (cases "new_jwt_verifier True ?s") auto
  from jwt_verifier_sound [OF this, of "''''" undefined] have "jv_static_key v = ''pem'' \<and> (\<forall>a \<in> set (jv_algorithms v). \<not> is_hmac a)"
    by (simp add: given_def)
  with v show ?thesis by blast
qed

section \<open>The rate limiter behind the middleware\<close>

interpretation requests: window_limiter "\<lambda>now t. t \<ge> now - window" limit "rl_acquire limit window" hits_of
  for limit window
  by unfold_locales (auto simp: rl_acquire_def hits_of_def Let_def dict_simps)

text \<open>A request that the server's loop takes from its mailbox and answers; without an answer the caller
  runs into its timeout.\<close>

definition answer :: "agent_env \<Rightarrow> 's gs_hooks \<Rightarrow> string \<Rightarrow> message \<Rightarrow> 's gen_server \<Rightarrow> message result \<times> 's gen_server" where
  "answer senv h raddr m g =
     (case gs_handle senv h (delivered raddr m)
             (g\<lparr>g_agent := (g_agent g)\<lparr>a_current_message := Some (delivered raddr m)\<rparr>\<rparr>) of
        (Inr (Some out), g') \<Rightarrow> (Inr out, g')
      | (r, g') \<Rightarrow> (Inl TimeoutError, g'))"

definition limiter_hooks :: "(json \<Rightarrow> string) \<Rightarrow> rate_limiter gs_hooks \<Rightarrow> rate_limiter gs_hooks" where
  "limiter_hooks py_str h = h\<lparr>h_call := rl_handle_call py_str\<rparr>"

lemma with_trace_recipient [simp]: "m_recipient (with_trace a m) = m_recipient m"
  by (simp add: with_trace_def split: option.split)

lemma gs_span_fields [simp]:
  "g_user (gs_span env n g) = g_user g" "a_now (g_agent (gs_span env n g)) = a_now (g_agent g)"
  "a_current_message (g_agent (gs_span env n g)) = a_current_message (g_agent g)"
  by (simp_all add: gs_span_def log_event_def)

lemma answer_limiter:
  assumes "m_payload m = [(''client_id'', JStr c)]"
    and "rl_acquire (rl_max (g_user g)) (rl_window (g_user g)) (a_now (g_agent g)) c (rl_hits (g_user g)) = (ok, hits)"
  shows "\<exists>out g'. answer senv (limiter_hooks py_str h) raddr m g = (Inr out, g')
      \<and> dget (m_payload out) ''allowed'' = Some (JBool ok) \<and> g_user g' = (g_user g)\<lparr>rl_hits := hits\<rparr>"
  using assms
  by (simp add: answer_def gs_handle_def do_call_def limiter_hooks_def rl_handle_call_def delivered_def reply_def
      reply_to_message_def Let_def)

text \<open>C15. The rate limit is exact. Behind the middleware, with the limiter answering on the bus, a request
  of a client passes exactly when fewer than \<^verbatim>\<open>max_requests\<close> of its requests passed in the
  window that ends now, counted over the whole history of a clock that never goes back and whatever
  other clients did, so no window holds more than \<^verbatim>\<open>max_requests\<close> of them; a request over
  the budget is answered with 429 and nothing behind the middleware runs.\<close>

theorem rate_limit_exact:
  assumes "sorted (map fst rs @ [now])"
    and "gw_request env = answer senv (limiter_hooks py_str h) raddr" "c_has_bus (gw_env env)"
    and "rq_gateway rq" "a_now (g_agent (gw_rest g)) = now" "rl_max (g_user (gw_rest g)) = limit"
    and "rl_window (g_user (gw_rest g)) = window"
    and "rl_hits (g_user (gw_rest g)) = snd (serve (rl_acquire limit window) rs [])"
  shows "let past = filter (\<lambda>t. t \<ge> now - window) (granted (rq_client_ip rq) (fst (serve (rl_acquire limit window) rs [])))
      in (0 \<le> limit \<longrightarrow> int (length past) \<le> limit)
       \<and> (\<exists>g' resp. rs_status resp = 429
            \<and> rl_hits (g_user (gw_rest g')) = snd (rl_acquire limit window now (rq_client_ip rq) (rl_hits (g_user (gw_rest g))))
            \<and> (\<forall>mws k. build_chain (rate_limit env # mws) k rq g =
                 (if int (length past) < limit then build_chain mws k rq g' else (Inr resp, g'))))"
proof -
  let ?c = "rq_client_ip rq" let ?s = "serve (rl_acquire limit window) rs []"
  let ?past = "filter (\<lambda>t. t \<ge> now - window) (granted ?c (fst ?s))"
  obtain ok hits where acq: "rl_acquire limit window now ?c (snd ?s) = (ok, hits)" by force
  have ok: "ok \<longleftrightarrow> int (length ?past) < limit"
    using requests.decision_counts_history [OF assms(1), of "[]" ?c limit window] by (simp add: acq hits_of_def)
  have bound: "0 \<le> limit \<longrightarrow> int (length ?past) \<le> limit"
    using requests.grants_bounded [OF _ _ assms(1), of limit "[]" ?c window] by (simp add: hits_of_def)
  obtain m a where m: "ask_message (gw_env env) ''rate_limiter'' [(''client_id'', JStr ?c)] ''message'' (gw_agent g) = (Inr m, a)"
    and p: "m_payload m = [(''client_id'', JStr ?c)]"
    using assms(3) by (auto simp: ask_message_def reject_reserved_type_def Let_def)
  obtain out w where out: "gw_request env m (gw_rest g) = (Inr out, w)" "dget (m_payload out) ''allowed'' = Some (JBool ok)"
      "g_user w = (g_user (gw_rest g))\<lparr>rl_hits := hits\<rparr>"
    using answer_limiter [OF p, of "gw_rest g" ok hits] acq assms(2,5-8) by metis
  let ?g = "g\<lparr>gw_agent := a, gw_requests := gw_requests g @ [m], gw_rest := w\<rparr>"
  let ?r = "(new_response 429 (error_body ''rate limit exceeded''))
              \<lparr>rs_headers := [(''Retry-After'', gw_str env (case dget (m_payload out) ''retry_after'' of None \<Rightarrow> JInt 60 | Some v \<Rightarrow> v))]\<rparr>"
  have "build_chain (rate_limit env # mws) k rq g = (if ok then build_chain mws k rq ?g else (Inr ?r, ?g))" for mws k
    using assms(4) m out(1,2) by (simp add: rate_limit_def gw_ask_def)
  moreover have "rl_hits (g_user (gw_rest ?g)) = snd (rl_acquire limit window now ?c (rl_hits (g_user (gw_rest g))))"
    using acq out(3) assms(8) by simp
  moreover have "rs_status ?r = 429" by (simp add: new_response_def)
  ultimately show ?thesis using ok bound unfolding Let_def by blast
qed

definition limiter_world :: "real \<Rightarrow> (string, real list) dict \<Rightarrow> rate_limiter gen_server" where
  "limiter_world now hits =
     new_gen_server (new_agent (base_env ''rate_limiter'') None None now) ((new_rate_limiter 1 60)\<lparr>rl_hits := hits\<rparr>)"

definition limiter_env :: "rate_limiter gen_server gw_env" where
  "limiter_env =
     \<lparr>gw_env = base_env ''gw'',
      gw_request = answer (base_env ''rate_limiter'') (limiter_hooks (\<lambda>v. [])
         \<lparr>h_init = \<lambda>g. (Inr (), g), h_call = \<lambda>p s g. (Inl RuntimeError, g), h_cast = \<lambda>p g. (Inr (), g), h_info = \<lambda>p g. (Inr (), g)\<rparr>) ''_reply.1'',
      gw_str = \<lambda>v. ''60'', gw_int = \<lambda>v. Inr 200, gw_dumps = \<lambda>v. []\<rparr>"

theorem rate_limit_exact_witness:
  "\<exists>g' resp. build_chain [rate_limit limiter_env] (\<lambda>rq g. (Inl RuntimeError, g)) sample_request
      \<lparr>gw_agent = new_agent (base_env ''gw'') None None 30, gw_stream_sinks = [], gw_requests = [],
       gw_rest = limiter_world 30 (snd (serve (rl_acquire 1 60) [(0, ''10.0.0.1''), (10, ''10.0.0.2'')] []))\<rparr>
     = (Inr resp, g') \<and> rs_status resp = 429"
proof -
  let ?h = "\<lparr>h_init = \<lambda>g. (Inr (), g), h_call = \<lambda>p s g. (Inl RuntimeError, g), h_cast = \<lambda>p g. (Inr (), g), h_info = \<lambda>p g. (Inr (), g)\<rparr>"
  let ?rs = "[(0, ''10.0.0.1''), (10, ''10.0.0.2'')]"
  let ?g = "\<lparr>gw_agent = new_agent (base_env ''gw'') None None 30, gw_stream_sinks = [], gw_requests = [],
       gw_rest = limiter_world 30 (snd (serve (rl_acquire 1 60) ?rs []))\<rparr>"
  have srt: "sorted (map fst ?rs @ [30::real])" by simp
  have env: "gw_request limiter_env = answer (base_env ''rate_limiter'') (limiter_hooks (\<lambda>v. []) ?h) ''_reply.1''"
    "c_has_bus (gw_env limiter_env)" "rq_gateway sample_request"
    by (simp_all add: limiter_env_def base_env_def sample_request_def)
  have st: "a_now (g_agent (gw_rest ?g)) = 30" "rl_max (g_user (gw_rest ?g)) = 1" "rl_window (g_user (gw_rest ?g)) = 60"
    "rl_hits (g_user (gw_rest ?g)) = snd (serve (rl_acquire 1 60) ?rs [])"
    by (simp_all add: limiter_world_def new_gen_server_def new_agent_def new_rate_limiter_def)
  have "length (filter (\<lambda>t. t \<ge> 30 - 60) (granted (rq_client_ip sample_request) (fst (serve (rl_acquire 1 60) ?rs [])))) = 1"
    by (simp add: sample_request_def rl_acquire_def hits_of_def Let_def granted_def)
  then have over: "\<not> int (length (filter (\<lambda>t. t \<ge> 30 - 60) (granted (rq_client_ip sample_request) (fst (serve (rl_acquire 1 60) ?rs []))))) < 1"
    by presburger
  from rate_limit_exact [OF srt env st] show ?thesis
    unfolding Let_def if_not_P [OF over] by blast
qed

end
