(* ===== verification/Gateway.thy ===== *)
theory Gateway
  imports Gateway_Auth Agent_Loop
begin

text \<open>
  The gateway itself: \<^verbatim>\<open>dispatch.py\<close>, \<^verbatim>\<open>core.py\<close> and \<^verbatim>\<open>asgi.py\<close> of
  \<^verbatim>\<open>src/civitas/gateway\<close>: its configuration and start-up checks, the routes of the
  topology agent, and the way of an HTTP request or a WebSocket session to the bus and back. One
  request is handled without interruption by others. The HTTP server, the JSON and multipart
  parsers and the documentation pages are arguments; a server that cannot bind or import is outside
  the model.
\<close>

section \<open>Dispatch\<close>

datatype dispatch_status = OK | ACCEPTED | AGENT_ERROR | NOT_FOUND | TIMEOUT | INTERNAL

record dispatch_result =
  dr_status :: dispatch_status
  dr_payload :: payload
  dr_error :: "string option"

definition new_result :: "dispatch_status \<Rightarrow> payload \<Rightarrow> string option \<Rightarrow> dispatch_result" where
  "new_result st p err = \<lparr>dr_status = st, dr_payload = p, dr_error = err\<rparr>"

definition not_found_text :: "string \<Rightarrow> string" where
  "not_found_text recipient = ''agent '' @ [CHR 0x27] @ recipient @ [CHR 0x27] @ '' not found''"

definition dispatch_call ::
  "'w gw_env \<Rightarrow> string \<Rightarrow> payload \<Rightarrow> string \<Rightarrow> 'w gateway \<Rightarrow> dispatch_result result \<times> 'w gateway" where
  "dispatch_call env recipient p msg_type g =
     (case gw_ask env recipient p msg_type g of
        (Inl e, g') \<Rightarrow>
          if e = MessageRoutingError then (Inr (new_result NOT_FOUND [] (Some (not_found_text recipient))), g')
          else if e = TimeoutError then (Inr (new_result TIMEOUT [] (Some ''upstream timeout'')), g')
          else if is_Exception e then (Inr (new_result INTERNAL [] (Some ''internal error'')), g')
          else (Inl e, g')
      | (Inr r, g') \<Rightarrow>
          (case dget (m_payload r) ''error'' of
             Some v \<Rightarrow> (Inr (new_result AGENT_ERROR (m_payload r) (Some (as_str (gw_str env) v))), g')
           | None \<Rightarrow> (Inr (new_result OK (m_payload r) None), g')))"

definition dispatch_cast ::
  "'w gw_env \<Rightarrow> string \<Rightarrow> payload \<Rightarrow> string \<Rightarrow> 'w gateway \<Rightarrow> dispatch_result result \<times> 'w gateway" where
  "dispatch_cast env recipient p msg_type g =
     (case send (gw_env env) recipient p msg_type (gw_agent g) of
        (r, a) \<Rightarrow>
          (case r of
             Inr u \<Rightarrow> (Inr (new_result ACCEPTED [] None), g\<lparr>gw_agent := a\<rparr>)
           | Inl e \<Rightarrow>
               if e = MessageRoutingError
               then (Inr (new_result NOT_FOUND [] (Some (not_found_text recipient))), g\<lparr>gw_agent := a\<rparr>)
               else if is_Exception e then (Inr (new_result INTERNAL [] (Some ''internal error'')), g\<lparr>gw_agent := a\<rparr>)
               else (Inl e, g\<lparr>gw_agent := a\<rparr>)))"

definition dispatch ::
  "'w gw_env \<Rightarrow> string \<Rightarrow> string \<Rightarrow> payload \<Rightarrow> string \<Rightarrow> 'w gateway \<Rightarrow> dispatch_result result \<times> 'w gateway" where
  "dispatch env recipient msg_type p mode g =
     (if mode = ''cast'' then dispatch_cast env recipient p msg_type g
      else dispatch_call env recipient p msg_type g)"

section \<open>Configuration\<close>

record gateway_config =
  gc_host :: string
  gc_port :: int
  gc_port_quic :: "int option"
  gc_tls_cert :: "string option"
  gc_tls_key :: "string option"
  gc_tls_ca_cert :: "string option"
  gc_client_cert_mode :: string
  gc_mtls_source :: string
  gc_trusted_proxy_cidrs :: "string list"
  gc_request_timeout :: real
  gc_enable_http3 :: bool
  gc_grpc_enabled :: bool
  gc_grpc_port :: "int option"
  gc_grpc_reflection :: bool
  gc_routes :: "route_decl list"
  gc_middleware :: "string list"
  gc_docs_enabled :: "bool option"
  gc_docs_path :: string
  gc_ws_routes :: "(string, string) dict"
  gc_stream_queue_maxsize :: int
  gc_stream_idle_timeout :: real
  gc_max_stream_duration :: real
  gc_topology_agent :: "string option"
  gc_topology_prefix :: string
  gc_topology_middleware :: "string list"

definition default_config :: gateway_config where
  "default_config =
     \<lparr>gc_host = ''0.0.0.0'', gc_port = 8080, gc_port_quic = None, gc_tls_cert = None, gc_tls_key = None,
      gc_tls_ca_cert = None, gc_client_cert_mode = ''none'', gc_mtls_source = ''direct'', gc_trusted_proxy_cidrs = [],
      gc_request_timeout = 30, gc_enable_http3 = False, gc_grpc_enabled = False, gc_grpc_port = None, gc_grpc_reflection = True,
      gc_routes = [], gc_middleware = [], gc_docs_enabled = None, gc_docs_path = ''/docs'', gc_ws_routes = [],
      gc_stream_queue_maxsize = 256, gc_stream_idle_timeout = 300, gc_max_stream_duration = 3600,
      gc_topology_agent = None, gc_topology_prefix = '''', gc_topology_middleware = []\<rparr>"

abbreviation JWT_MIDDLEWARE_PATH :: string where "JWT_MIDDLEWARE_PATH \<equiv> ''civitas.gateway.jwt_auth.require_jwt''"
abbreviation MTLS_MIDDLEWARE_PATH :: string where "MTLS_MIDDLEWARE_PATH \<equiv> ''civitas.gateway.mtls.require_client_cert''"

definition AUTH_MIDDLEWARE_PATHS :: "string list" where
  "AUTH_MIDDLEWARE_PATHS = [''civitas.gateway.auth.require_api_key'', JWT_MIDDLEWARE_PATH, MTLS_MIDDLEWARE_PATH]"

definition auth_configured :: "gateway_config \<Rightarrow> bool" where
  "auth_configured c \<longleftrightarrow>
     gc_client_cert_mode c \<noteq> ''none'' \<or> list_ex (\<lambda>mw. mw \<in> set AUTH_MIDDLEWARE_PATHS) (gc_middleware c)"

text \<open>\<^verbatim>\<open>__post_init__\<close>; \<open>valid_cidr\<close> stands for \<^verbatim>\<open>ipaddress.ip_network\<close>.\<close>

definition post_init :: "(string \<Rightarrow> bool) \<Rightarrow> gateway_config \<Rightarrow> gateway_config result" where
  "post_init valid_cidr c =
     (if gc_enable_http3 c \<and> \<not> (given (gc_tls_cert c) \<and> given (gc_tls_key c)) then Inl ValueError
      else if gc_enable_http3 c \<and> gc_port_quic c = None then Inl ValueError
      else if gc_grpc_enabled c \<and> gc_grpc_port c = None then Inl ValueError
      else if gc_client_cert_mode c \<notin> {''none'', ''optional'', ''required''} then Inl ConfigurationError
      else if gc_client_cert_mode c \<noteq> ''none''
              \<and> \<not> (given (gc_tls_ca_cert c) \<and> given (gc_tls_cert c) \<and> given (gc_tls_key c)) then Inl ConfigurationError
      else if gc_client_cert_mode c \<noteq> ''none'' \<and> gc_enable_http3 c then Inl ConfigurationError
      else if gc_client_cert_mode c = ''optional'' \<and> gc_grpc_enabled c then Inl ConfigurationError
      else if gc_mtls_source c \<notin> {''direct'', ''proxy_header''} then Inl ConfigurationError
      else if gc_mtls_source c = ''proxy_header'' \<and> gc_trusted_proxy_cidrs c = [] then Inl ConfigurationError
      else if gc_mtls_source c = ''proxy_header'' \<and> \<not> list_all valid_cidr (gc_trusted_proxy_cidrs c) then Inl ConfigurationError
      else if gc_mtls_source c = ''proxy_header'' \<and> gc_client_cert_mode c \<noteq> ''none'' then Inl ConfigurationError
      else Inr (if gc_docs_enabled c = None then c\<lparr>gc_docs_enabled := Some (\<not> auth_configured c)\<rparr> else c))"

section \<open>Topology routes\<close>

definition TOPOLOGY_ROUTE_SPECS :: "(string \<times> string \<times> bool) list" where
  "TOPOLOGY_ROUTE_SPECS =
     [(''/health'', ''health'', True), (''/topology'', ''topology'', False), (''/agents'', ''agents'', False),
      (''/agents/{name}'', ''agent_detail'', False), (''/agents/{name}/mailbox'', ''mailbox_peek'', False),
      (''/snapshot'', ''snapshot'', False), (''/metrics'', ''metrics'', False), (''/processes'', ''processes'', False)]"

definition TOPOLOGY_WRITE_ROUTE_SPECS :: "(string \<times> string) list" where
  "TOPOLOGY_WRITE_ROUTE_SPECS =
     [(''/agents/{name}/suspend'', ''suspend''), (''/agents/{name}/resume'', ''resume''),
      (''/agents/{name}/restart'', ''restart''), (''/agents/{name}/mailbox'', ''mailbox_inject'')]"

definition topology_read_route :: "string \<Rightarrow> string \<Rightarrow> string list \<Rightarrow> string \<times> string \<times> bool \<Rightarrow> route_entry" where
  "topology_read_route agent pfx mw spec =
     (case spec of (sfx, op, is_health) \<Rightarrow>
        (new_route ''GET'' (pfx @ sfx) agent ''call'' (if is_health then [] else mw))
          \<lparr>rt_raw_response := True, rt_payload_extra := [(''__op__'', JStr op)]\<rparr>)"

definition topology_write_route :: "string \<Rightarrow> string \<Rightarrow> string list \<Rightarrow> string \<times> string \<Rightarrow> route_entry" where
  "topology_write_route agent pfx mw spec =
     (case spec of (sfx, op) \<Rightarrow>
        (new_route ''POST'' (pfx @ sfx) agent ''call'' mw)
          \<lparr>rt_payload_extra := [(''__op__'', JStr op)], rt_inject_principal := True\<rparr>)"

definition build_topology_routes :: "string \<Rightarrow> string \<Rightarrow> string list \<Rightarrow> route_entry list" where
  "build_topology_routes agent pfx mw =
     (let pfx = py_rstrip (CHR ''/'') pfx
      in map (topology_read_route agent pfx mw) TOPOLOGY_ROUTE_SPECS
         @ map (topology_write_route agent pfx mw) TOPOLOGY_WRITE_ROUTE_SPECS)"

text \<open>The route table of \<^verbatim>\<open>HTTPGateway.__init__\<close>.\<close>

definition gateway_routes :: "gateway_config \<Rightarrow> route_entry list result" where
  "gateway_routes c =
     map_sum id (\<lambda>es. es @ (if given (gc_topology_agent c)
        then build_topology_routes (the (gc_topology_agent c)) (gc_topology_prefix c) (gc_topology_middleware c) else []))
       (from_config (gc_routes c))"

section \<open>Starting\<close>

definition configured_middleware_paths :: "gateway_config \<Rightarrow> route_entry list \<Rightarrow> string list" where
  "configured_middleware_paths c table = gc_middleware c @ concat (map rt_middleware table)"

text \<open>\<^verbatim>\<open>GatewayASGI.__init__\<close>: the cache keyed by the identity of an entry is kept beside the
  entry.\<close>

record 'w gateway_asgi =
  ga_config :: gateway_config
  ga_middlewares :: "'w middleware list"
  ga_routes :: "(route_entry \<times> 'w middleware list) list"

fun load_routes ::
  "(string \<Rightarrow> string \<Rightarrow> 'w middleware result) \<Rightarrow> route_entry list \<Rightarrow> (route_entry \<times> 'w middleware list) list result" where
  "load_routes imp [] = Inr []"
| "load_routes imp (e # es) =
     (case load_all imp (rt_middleware e) of
        Inl x \<Rightarrow> Inl x
      | Inr mws \<Rightarrow> map_sum id (\<lambda>rs. (e, mws) # rs) (load_routes imp es))"

definition new_asgi :: "(string \<Rightarrow> string \<Rightarrow> 'w middleware result) \<Rightarrow> gateway_config \<Rightarrow> route_entry list \<Rightarrow> 'w gateway_asgi result" where
  "new_asgi imp c table =
     (case load_all imp (gc_middleware c) of
        Inl e \<Rightarrow> Inl e
      | Inr mws \<Rightarrow>
          map_sum id (\<lambda>rs. \<lparr>ga_config = c, ga_middlewares = mws, ga_routes = rs\<rparr>) (load_routes imp table))"

definition route_middlewares :: "'w gateway_asgi \<Rightarrow> route_entry \<Rightarrow> 'w middleware list" where
  "route_middlewares ga e = (case dget (ga_routes ga) e of None \<Rightarrow> [] | Some mws \<Rightarrow> mws)"

text \<open>
  \<^verbatim>\<open>on_start\<close>: the application, the JWT verifier, the checks, then the servers it starts in
  order. \<open>x509\<close> is the guarded import of the certificate library; a server that fails to
  start is outside the model. The warnings are returned with the servers.
\<close>

datatype gw_server = Uvicorn | H3 | Grpc

record 'w started =
  st_asgi :: "'w gateway_asgi"
  st_jwt :: "jwt_verifier option"
  st_servers :: "gw_server list"
  st_warnings :: "string list"

definition gw_on_start ::
  "bool \<Rightarrow> bool \<Rightarrow> bool \<Rightarrow> (string \<Rightarrow> string \<Rightarrow> 'w middleware result) \<Rightarrow> jwt_settings \<Rightarrow> gateway_config \<Rightarrow> route_entry list
     \<Rightarrow> 'w started result" where
  "gw_on_start have_uvicorn have_pyjwt have_x509 imp settings c table =
     (if \<not> have_uvicorn then Inl RuntimeError
      else
        (case new_asgi imp c table of
           Inl e \<Rightarrow> Inl e
         | Inr ga \<Rightarrow>
             (case (if JWT_MIDDLEWARE_PATH \<in> set (configured_middleware_paths c table)
                    then map_sum id Some (new_jwt_verifier have_pyjwt settings) else Inr None) of
                Inl e \<Rightarrow> Inl e
              | Inr verifier \<Rightarrow>
                  if gc_mtls_source c = ''proxy_header'' \<and> \<not> have_x509 then Inl ConfigurationError
                  else if gc_mtls_source c = ''proxy_header''
                          \<and> MTLS_MIDDLEWARE_PATH \<notin> set (configured_middleware_paths c table) then Inl ConfigurationError
                  else if gc_mtls_source c = ''direct'' \<and> gc_client_cert_mode c \<noteq> ''none'' \<and> \<not> have_x509 then Inl ConfigurationError
                  else if gc_grpc_enabled c \<and> verifier \<noteq> None \<and> \<not> (given (gc_tls_cert c) \<and> given (gc_tls_key c)) then Inl ConfigurationError
                  else if gc_enable_http3 c \<and> (gc_port_quic c = None \<or> gc_tls_cert c = None \<or> gc_tls_key c = None) then Inl ConfigurationError
                  else if gc_grpc_enabled c \<and> gc_grpc_port c = None then Inl ConfigurationError
                  else Inr \<lparr>st_asgi = ga, st_jwt = verifier,
                            st_servers = [Uvicorn] @ (if gc_enable_http3 c then [H3] else []) @ (if gc_grpc_enabled c then [Grpc] else []),
                            st_warnings =
                              (if gc_topology_agent c \<noteq> None \<and> gc_topology_middleware c = []
                                  \<and> gc_host c \<notin> {''127.0.0.1'', ''localhost'', ''::1''} then [''open control plane''] else [])
                              @ (if gc_client_cert_mode c \<noteq> ''none'' \<and> verifier = None \<and> gc_ws_routes c \<noteq> [] then [''open websocket routes''] else [])\<rparr>)))"

section \<open>Streams\<close>

definition open_stream :: "gateway_config \<Rightarrow> string \<Rightarrow> 'w gateway \<Rightarrow> 'w gateway" where
  "open_stream c cid g = g\<lparr>gw_stream_sinks := dput cid (new_sink (gc_stream_queue_maxsize c)) (gw_stream_sinks g)\<rparr>"

definition close_stream :: "string \<Rightarrow> 'w gateway \<Rightarrow> 'w gateway" where
  "close_stream cid g = g\<lparr>gw_stream_sinks := dpop cid (gw_stream_sinks g)\<rparr>"

definition stream_request_message :: "agent_env \<Rightarrow> stream_call \<Rightarrow> string \<Rightarrow> agent \<Rightarrow> message" where
  "stream_request_message env sc cid a =
     (fresh_message env a)\<lparr>m_type := sc_msg_type sc, m_sender := c_name env, m_recipient := sc_recipient sc,
        m_payload := sc_payload sc, m_correlation_id := Some cid, m_reply_to := Some (c_name env),
        m_trace_id := sc_trace_id sc, m_span_id := e_span_id env (a_uid a)\<rparr>"

definition send_stream_request :: "'w gw_env \<Rightarrow> stream_call \<Rightarrow> string \<Rightarrow> 'w gateway \<Rightarrow> unit result \<times> 'w gateway" where
  "send_stream_request env sc cid g =
     (if \<not> c_has_bus (gw_env env) then (Inl RuntimeError, g)
      else case route (gw_env env) (stream_request_message (gw_env env) sc cid (gw_agent g)) (gw_agent g) of
             (r, a) \<Rightarrow> (r, g\<lparr>gw_agent := a\<rparr>))"

text \<open>\<^verbatim>\<open>handle\<close>: chunks and terminators go to the sink of their correlation identifier.\<close>

definition gw_handle :: "(json \<Rightarrow> string) \<Rightarrow> message \<Rightarrow> 'w gateway \<Rightarrow> 'w gateway" where
  "gw_handle py_str m g =
     (let cid = (case m_correlation_id m of None \<Rightarrow> '''' | Some c \<Rightarrow> c)
      in case dget (gw_stream_sinks g) cid of
           None \<Rightarrow> g
         | Some sink \<Rightarrow>
             g\<lparr>gw_stream_sinks := dput cid
                 (if m_type m = STREAM_CHUNK then ss_push (m_payload m) None sink
                  else if m_type m = STREAM_END then ss_end None sink
                  else if m_type m = STREAM_ERROR then ss_fail (stream_error_text py_str (m_payload m)) sink
                  else sink) (gw_stream_sinks g)\<rparr>)"

section \<open>HTTP\<close>

definition parse_traceparent :: "string \<Rightarrow> string \<times> string option" where
  "parse_traceparent value =
     (case py_split (CHR ''-'') value of
        [v, t, sp, f] \<Rightarrow> if length t = 32 \<and> length sp = 16 then (t, Some sp) else ('''', None)
      | _ \<Rightarrow> ('''', None))"

definition parse_query :: "string \<Rightarrow> (string, string) dict" where
  "parse_query query_string =
     (if query_string = '''' then []
      else fold (\<lambda>pair d. if CHR ''='' \<in> set pair
                          then (case py_partition (CHR ''='') pair of (k, v) \<Rightarrow> dput k v d) else d)
             (py_split (CHR ''&'') query_string) [])"

text \<open>\<^verbatim>\<open>_default_route\<close>: agent, mode and payload.\<close>

definition default_route :: "string \<Rightarrow> string \<Rightarrow> payload \<Rightarrow> (string \<times> string \<times> payload) option" where
  "default_route meth path body =
     (case filter (\<lambda>p. p \<noteq> '''') (py_split (CHR ''/'') (py_strip (CHR ''/'') path)) of
        [x, name] \<Rightarrow> if meth = ''POST'' \<and> x = ''agents'' then Some (name, ''call'', body) else None
      | [x, name, verb] \<Rightarrow>
          if meth = ''POST'' \<and> x = ''agents'' \<and> verb = ''cast'' then Some (name, ''cast'', body)
          else if meth = ''GET'' \<and> x = ''agents'' \<and> verb = ''state'' then Some (name, ''call'', [(''__op__'', JStr ''state'')])
          else None
      | _ \<Rightarrow> None)"

definition error_json :: "string option \<Rightarrow> payload" where
  "error_json e = [(''error'', jopt_str e)]"

text \<open>\<^verbatim>\<open>_result_to_response\<close>. Encoding a value that is no string raises; for the content type
  that happens when the response is sent, before anything is on the wire.\<close>

definition raw_response :: "'w gw_env \<Rightarrow> payload \<Rightarrow> gateway_response result" where
  "raw_response env p =
     (case (dget p ''__raw_body__'', dget p ''__content_type__'') of
        (raw, ct) \<Rightarrow>
          (case (case dget p ''__status__'' of None \<Rightarrow> Inr 200 | Some v \<Rightarrow> gw_int env v) of
             Inl e \<Rightarrow> Inl e
           | Inr status \<Rightarrow>
               (case (case raw of None \<Rightarrow> Some '''' | Some (JStr s) \<Rightarrow> Some s | Some v \<Rightarrow> None,
                      case ct of None \<Rightarrow> Some ''text/plain; charset=utf-8'' | Some (JStr s) \<Rightarrow> Some s | Some v \<Rightarrow> None) of
                  (Some body, Some content_type) \<Rightarrow>
                    Inr ((new_response status [])\<lparr>rs_raw_body := Some body, rs_content_type := Some content_type\<rparr>)
                | _ \<Rightarrow> Inl AttributeError)))"

definition result_to_response :: "'w gw_env \<Rightarrow> dispatch_result \<Rightarrow> bool \<Rightarrow> gateway_response result" where
  "result_to_response env r raw =
     (case dr_status r of
        ACCEPTED \<Rightarrow> Inr (new_response 202 [])
      | NOT_FOUND \<Rightarrow> Inr (new_response 404 (error_json (dr_error r)))
      | TIMEOUT \<Rightarrow> Inr (new_response 504 (error_json (dr_error r)))
      | INTERNAL \<Rightarrow> Inr (new_response 500 (error_json (dr_error r)))
      | AGENT_ERROR \<Rightarrow> Inr (new_response 400 (dr_payload r))
      | OK \<Rightarrow> if raw then raw_response env (dr_payload r) else Inr (new_response 200 (dr_payload r)))"

text \<open>The payload of a routed request: body, then path parameters, then the route's fixed keys, then
  the principal.\<close>

definition unauthenticated :: json where
  "unauthenticated = JDict [(''id'', JStr ''unauthenticated'')]"

definition principal_of :: "gateway_request \<Rightarrow> json" where
  "principal_of rq =
     (case dget (case rq_auth rq of None \<Rightarrow> [] | Some a \<Rightarrow> a) ''principal'' of
        Some p \<Rightarrow> if truthy p then p else unauthenticated
      | None \<Rightarrow> unauthenticated)"

definition route_payload :: "route_entry \<Rightarrow> (string, string) dict \<Rightarrow> gateway_request \<Rightarrow> payload" where
  "route_payload e path_params rq =
     (let p = merge (merge (rq_body rq) (map (\<lambda>(k, v). (k, JStr v)) path_params)) (rt_payload_extra e)
      in if rt_inject_principal e then dput ''__principal__'' (principal_of rq) p else p)"

definition msg_type_of :: "gateway_request \<Rightarrow> string" where
  "msg_type_of rq = (case dget (rq_headers rq) ''x-civitas-type'' of None \<Rightarrow> ''http.request'' | Some t \<Rightarrow> t)"

definition trace_id_of :: "gateway_request \<Rightarrow> string" where
  "trace_id_of rq =
     (case dget (rq_headers rq) ''traceparent'' of
        None \<Rightarrow> ''''
      | Some tp \<Rightarrow> if tp = '''' then '''' else fst (parse_traceparent tp))"

definition finish_dispatch :: "'w gw_env \<Rightarrow> bool \<Rightarrow> dispatch_result result \<times> 'w gateway \<Rightarrow> gateway_response result \<times> 'w gateway" where
  "finish_dispatch env raw x =
     (case x of
        (Inl e, g) \<Rightarrow> (Inl e, g)
      | (Inr r, g) \<Rightarrow> (result_to_response env r raw, g))"

definition dispatch_handler :: "'w gw_env \<Rightarrow> route_entry list \<Rightarrow> 'w gw_handler" where
  "dispatch_handler env table rq g =
     (case route_match table (rq_method rq) (rq_path rq) of
        Some (e, path_params) \<Rightarrow>
          (let p = route_payload e path_params rq
           in if rt_mode e = ''stream''
              then (Inr ((new_response 200 [])
                      \<lparr>rs_stream := Some \<lparr>sc_recipient = rt_agent e, sc_msg_type = msg_type_of rq, sc_payload = p,
                                         sc_trace_id = trace_id_of rq\<rparr>\<rparr>), g)
              else finish_dispatch env (rt_raw_response e)
                     (dispatch env (rt_agent e) (msg_type_of rq) p (rt_mode e) g))
      | None \<Rightarrow>
          (case default_route (rq_method rq) (rq_path rq) (rq_body rq) of
             Some (agent, mode, p) \<Rightarrow>
               finish_dispatch env False (dispatch env agent (msg_type_of rq) p mode g)
           | None \<Rightarrow>
               (Inr (new_response 404 (error_body (''no route for '' @ rq_method rq @ '' '' @ rq_path rq))), g)))"

section \<open>Sending the response\<close>

datatype asgi_event =
    HttpStart int "(string \<times> string) list"
  | HttpBody string bool            \<comment> \<open>the bytes and \<^verbatim>\<open>more_body\<close>\<close>

definition alt_svc :: "'w gw_env \<Rightarrow> gateway_config \<Rightarrow> (string \<times> string) list" where
  "alt_svc env c =
     (case gc_port_quic c of
        Some q \<Rightarrow> if gc_enable_http3 c \<and> q \<noteq> 0
                  then [(''alt-svc'', ''h3='' @ [CHR 0x22] @ '':'' @ gw_str env (JInt q) @ [CHR 0x22])] else []
      | None \<Rightarrow> [])"

definition respond :: "'w gw_env \<Rightarrow> gateway_config \<Rightarrow> gateway_response \<Rightarrow> (string, string) dict \<Rightarrow> asgi_event list" where
  "respond env c r extra =
     (let (encoded, content_type) =
            (case rs_raw_body r of
               Some b \<Rightarrow> (b, case rs_content_type r of
                                None \<Rightarrow> ''text/plain; charset=utf-8''
                              | Some t \<Rightarrow> if t = '''' then ''text/plain; charset=utf-8'' else t)
             | None \<Rightarrow> (gw_dumps env (JDict (rs_body r)), ''application/json''))
      in [HttpStart (rs_status r)
            ([(''content-type'', content_type), (''content-length'', gw_str env (JInt (int (length encoded))))]
             @ alt_svc env c @ rs_headers r @ extra),
          HttpBody encoded False])"

text \<open>
  \<^verbatim>\<open>GatewayDispatcher.stream\<close>: \<open>arrivals\<close> gives the frames that reach the sink of a
  correlation identifier, with their times. The sink is closed whatever happens.
\<close>

definition dispatcher_stream ::
  "'w gw_env \<Rightarrow> gateway_config \<Rightarrow> (string \<Rightarrow> arrival list) \<Rightarrow> stream_call \<Rightarrow> 'w gateway
     \<Rightarrow> (payload list \<times> drain_end) result \<times> 'w gateway" where
  "dispatcher_stream env c arrivals sc g =
     (let cid = e_uuid (gw_env env) (a_uid (gw_agent g));
          g1 = open_stream c cid (g\<lparr>gw_agent := tick_uid (gw_agent g)\<rparr>);
          now = a_now (gw_agent g)
      in case send_stream_request env sc cid g1 of
           (Inl e, g2) \<Rightarrow> (Inl e, close_stream cid g2)
         | (Inr u, g2) \<Rightarrow>
             (case drain (Some (gc_stream_idle_timeout c)) None (Some (now + gc_max_stream_duration c)) True now (arrivals cid) of
                (ys, fin) \<Rightarrow> (Inr (map fst ys, fin), close_stream cid g2)))"

definition NL :: string where
  "NL = [CHR 0x0A]"

fun sse_frames :: "'w gw_env \<Rightarrow> nat \<Rightarrow> payload list \<Rightarrow> asgi_event list" where
  "sse_frames env i [] = []"
| "sse_frames env i (p # ps) =
     HttpBody (''id: '' @ gw_str env (JInt (int (Suc i))) @ NL @ ''data: '' @ gw_dumps env (JDict p) @ NL @ NL) True
     # sse_frames env (Suc i) ps"

definition respond_stream ::
  "'w gw_env \<Rightarrow> gateway_config \<Rightarrow> (string \<Rightarrow> arrival list) \<Rightarrow> gateway_response \<Rightarrow> stream_call \<Rightarrow> (string, string) dict \<Rightarrow> 'w gateway
     \<Rightarrow> (asgi_event list \<times> unit result) \<times> 'w gateway" where
  "respond_stream env c arrivals r sc extra g =
     (let start = HttpStart (rs_status r)
            ([(''content-type'', ''text/event-stream''), (''cache-control'', ''no-cache'')] @ alt_svc env c @ rs_headers r @ extra)
      in case dispatcher_stream env c arrivals sc g of
           (Inl e, g') \<Rightarrow> (([start], Inl e), g')
         | (Inr (ps, fin), g') \<Rightarrow>
             ((start # sse_frames env 0 ps
               @ (case fin of
                    DReturned t \<Rightarrow> [HttpBody [] False]
                  | DClosed reason t \<Rightarrow>
                      [HttpBody (''event: error'' @ NL @ ''data: '' @ gw_dumps env (JDict [(''error'', JStr reason)]) @ NL @ NL) True,
                       HttpBody [] False]
                  | Blocked \<Rightarrow> []), Inr ()), g'))"

section \<open>Handling an HTTP request\<close>

record http_scope =
  hs_method :: string
  hs_path :: string
  hs_headers :: "(string \<times> string) list"
  hs_query_string :: string
  hs_client :: "string option"
  hs_tls :: "(string option \<times> string list) option"        \<comment> \<open>subject name and chain of the TLS extension\<close>
  hs_body :: "(string \<times> bool) list"                    \<comment> \<open>received chunks with \<^verbatim>\<open>more_body\<close>\<close>

record asgi_env =
  ae_loads :: "string \<Rightarrow> json option"
  ae_multipart :: "string \<Rightarrow> string \<Rightarrow> payload option"
  ae_in_cidr :: "string \<Rightarrow> string \<Rightarrow> bool option"
  ae_der_dn :: "string \<Rightarrow> string option"
  ae_swagger :: "string \<Rightarrow> string"
  ae_openapi :: string
  ae_arrivals :: "string \<Rightarrow> arrival list"

definition client_cert_from_scope :: "(string option \<times> string list) option \<Rightarrow> (string, string) dict option" where
  "client_cert_from_scope tls =
     (case tls of
        Some (dn, leaf # chain) \<Rightarrow>
          Some ((case dn of None \<Rightarrow> [] | Some d \<Rightarrow> [(''dn'', d)]) @ [(''leaf_pem'', leaf)])
      | _ \<Rightarrow> None)"

fun read_body :: "string \<Rightarrow> (string \<times> bool) list \<Rightarrow> string option" where
  "read_body acc [] = None"
| "read_body acc ((chunk, more_body) # rest) =
     (if more_body then read_body (acc @ chunk) rest else Some (acc @ chunk))"

definition scope_headers :: "(string \<times> string) list \<Rightarrow> (string, string) dict" where
  "scope_headers hs = fold (\<lambda>(k, v) d. dput (py_lower k) v d) hs []"

text \<open>The body: \<open>Inl\<close> is the error answered with 400.\<close>

definition parse_body :: "asgi_env \<Rightarrow> string \<Rightarrow> string \<Rightarrow> string + payload" where
  "parse_body ae body_bytes content_type =
     (if body_bytes \<noteq> [] \<and> startswith content_type ''multipart/form-data'' then
        (case ae_multipart ae body_bytes content_type of
           None \<Rightarrow> Inl ''invalid multipart/form-data body''
         | Some d \<Rightarrow> Inr d)
      else if body_bytes \<noteq> [] then
        (case ae_loads ae body_bytes of
           None \<Rightarrow> Inl ''invalid JSON body''
         | Some (JDict d) \<Rightarrow> Inr d
         | Some v \<Rightarrow> Inl ''request body must be a JSON object'')
      else Inr [])"

definition new_request ::
  "asgi_env \<Rightarrow> gateway_config \<Rightarrow> http_scope \<Rightarrow> (route_entry \<times> (string, string) dict) option \<Rightarrow> payload \<Rightarrow> gateway_request" where
  "new_request ae c sc matched body =
     \<lparr>rq_method = hs_method sc, rq_path = hs_path sc,
      rq_path_params = (case matched of None \<Rightarrow> [] | Some (e, ps) \<Rightarrow> ps),
      rq_query_params = parse_query (hs_query_string sc), rq_headers = scope_headers (hs_headers sc), rq_body = body,
      rq_client_ip = (case hs_client sc of None \<Rightarrow> '''' | Some ip \<Rightarrow> ip), rq_gateway = True,
      rq_client_cert = (if gc_mtls_source c = ''proxy_header''
                        then client_cert_from_headers (ae_in_cidr ae) (ae_der_dn ae) (hs_client sc) (hs_headers sc) (gc_trusted_proxy_cidrs c)
                        else client_cert_from_scope (hs_tls sc)),
      rq_auth = None\<rparr>"

definition serve_document :: "'w gw_env \<Rightarrow> string \<Rightarrow> string \<Rightarrow> asgi_event list" where
  "serve_document env content_type doc =
     [HttpStart 200 [(''content-type'', content_type), (''content-length'', gw_str env (JInt (int (length doc))))],
      HttpBody doc False]"

text \<open>\<^verbatim>\<open>_handle_http\<close>; \<^const>\<open>None\<close> is a body that never ends.\<close>

definition handle_http ::
  "'w gw_env \<Rightarrow> asgi_env \<Rightarrow> 'w gateway_asgi \<Rightarrow> http_scope \<Rightarrow> 'w gateway
     \<Rightarrow> ((asgi_event list \<times> unit result) \<times> 'w gateway) option" where
  "handle_http env ae ga sc g =
     (let c = ga_config ga; docs_path = py_rstrip (CHR ''/'') (gc_docs_path c); headers = scope_headers (hs_headers sc)
      in if gc_docs_enabled c = Some True \<and> hs_method sc = ''GET'' \<and> hs_path sc = docs_path
         then Some ((serve_document env ''text/html; charset=utf-8'' (ae_swagger ae (docs_path @ ''/openapi.json'')), Inr ()), g)
         else if gc_docs_enabled c = Some True \<and> hs_method sc = ''GET''
                 \<and> hs_path sc \<in> {docs_path @ ''/openapi.json'', ''/openapi.json''}
         then Some ((serve_document env ''application/json'' (ae_openapi ae), Inr ()), g)
         else
           (case read_body [] (hs_body sc) of
              None \<Rightarrow> None
            | Some body_bytes \<Rightarrow>
                (case parse_body ae body_bytes (case dget headers ''content-type'' of None \<Rightarrow> '''' | Some t \<Rightarrow> t) of
                   Inl err \<Rightarrow> Some ((respond env c (new_response 400 (error_body err)) [], Inr ()), g)
                 | Inr body \<Rightarrow>
                     (let table = map fst (ga_routes ga);
                          matched = route_match table (hs_method sc) (hs_path sc);
                          mws = (case matched of None \<Rightarrow> [] | Some (e, ps) \<Rightarrow> route_middlewares ga e);
                          extra = (case dget headers ''traceparent'' of
                                     None \<Rightarrow> [] | Some tp \<Rightarrow> if tp = '''' then [] else [(''traceparent'', tp)])
                      in case build_chain (ga_middlewares ga @ mws) (dispatch_handler env table)
                                (new_request ae c sc matched body) g of
                           (Inl e, g') \<Rightarrow> Some (([], Inl e), g')
                         | (Inr r, g') \<Rightarrow>
                             (case rs_stream r of
                                Some strm \<Rightarrow> Some (respond_stream env c (ae_arrivals ae) r strm extra g')
                              | None \<Rightarrow> Some ((respond env c r extra, Inr ()), g'))))))"

section \<open>WebSocket sessions\<close>

abbreviation WS_BEARER_PREFIX :: string where "WS_BEARER_PREFIX \<equiv> ''civitas.bearer.''"

fun extract_ws_token :: "string list \<Rightarrow> (string \<times> string) option" where
  "extract_ws_token [] = None"
| "extract_ws_token (s # ss) =
     (if startswith s WS_BEARER_PREFIX then Some (s, drop (length WS_BEARER_PREFIX) s) else extract_ws_token ss)"

text \<open>A \<^verbatim>\<open>websocket.receive\<close> event carries text or bytes.\<close>

datatype ws_event = WsConnect | WsReceive "string option" "string option" | WsDisconnect | WsOther

datatype ws_out = WsAccept "string option" | WsClose int

definition ws_parse :: "asgi_env \<Rightarrow> string option \<Rightarrow> string option \<Rightarrow> payload option" where
  "ws_parse ae text bytes =
     (case (case text of Some t \<Rightarrow> t | None \<Rightarrow> (case bytes of None \<Rightarrow> '''' | Some b \<Rightarrow> b)) of
        [] \<Rightarrow> None
      | t \<Rightarrow>
          (case ae_loads ae t of
             None \<Rightarrow> None
           | Some (JDict d) \<Rightarrow> Some d
           | Some v \<Rightarrow> Some [(''data'', v)]))"

definition ws_message :: "string \<Rightarrow> string \<Rightarrow> payload \<Rightarrow> stream_call" where
  "ws_message agent msg_type p = \<lparr>sc_recipient = agent, sc_msg_type = msg_type, sc_payload = p, sc_trace_id = ''''\<rparr>"

text \<open>The loop of a session; \<^const>\<open>None\<close> is waiting for the client.\<close>

fun ws_loop :: "'w gw_env \<Rightarrow> asgi_env \<Rightarrow> string \<Rightarrow> string \<Rightarrow> ws_event list \<Rightarrow> 'w gateway \<Rightarrow> (unit result \<times> 'w gateway) option" where
  "ws_loop env ae agent sid [] g = None"
| "ws_loop env ae agent sid (ev # evs) g =
     (case ev of
        WsDisconnect \<Rightarrow> Some (Inr (), g)
      | WsReceive text bytes \<Rightarrow>
          (case ws_parse ae text bytes of
             None \<Rightarrow> ws_loop env ae agent sid evs g
           | Some p \<Rightarrow>
               (case send_stream_request env (ws_message agent ''ws.message'' p) sid g of
                  (Inl e, g') \<Rightarrow> Some (Inl e, g')
                | (Inr u, g') \<Rightarrow> ws_loop env ae agent sid evs g'))
      | _ \<Rightarrow> ws_loop env ae agent sid evs g)"

text \<open>The \<^verbatim>\<open>finally\<close> block: the sink is closed and the agent told, exceptions suppressed.\<close>

definition ws_finish :: "'w gw_env \<Rightarrow> string \<Rightarrow> string \<Rightarrow> unit result \<Rightarrow> 'w gateway \<Rightarrow> unit result \<times> 'w gateway" where
  "ws_finish env agent sid r g =
     (case send_stream_request env (ws_message agent ''ws.close'' [(''__session__'', JStr ''closed'')]) sid (close_stream sid g) of
        (Inl e, g') \<Rightarrow> if is_Exception e then (r, g') else (Inl e, g')
      | (Inr u, g') \<Rightarrow> (r, g'))"

definition ws_session ::
  "'w gw_env \<Rightarrow> asgi_env \<Rightarrow> gateway_config \<Rightarrow> string \<Rightarrow> ws_event list \<Rightarrow> 'w gateway \<Rightarrow> (unit result \<times> 'w gateway) option" where
  "ws_session env ae c agent evs g =
     (let sid = e_uuid (gw_env env) (a_uid (gw_agent g));
          g1 = open_stream c sid (g\<lparr>gw_agent := tick_uid (gw_agent g)\<rparr>)
      in map_option (\<lambda>(r, g2). ws_finish env agent sid r g2) (ws_loop env ae agent sid evs g1))"

text \<open>\<^verbatim>\<open>_handle_websocket\<close>: what is sent before the session, and the session.\<close>

definition handle_websocket ::
  "'w gw_env \<Rightarrow> asgi_env \<Rightarrow> gateway_config \<Rightarrow> (string \<Rightarrow> payload option) option \<Rightarrow> string \<Rightarrow> string list \<Rightarrow> ws_event list \<Rightarrow> 'w gateway
     \<Rightarrow> ws_out list \<times> (unit result \<times> 'w gateway) option" where
  "handle_websocket env ae c verifier path subprotocols evs g =
     (case evs of
        [] \<Rightarrow> ([], None)
      | ev # evs' \<Rightarrow>
          if ev \<noteq> WsConnect then ([], Some (Inr (), g))
          else
            (case dget (rev (gc_ws_routes c)) path of
               None \<Rightarrow> ([WsClose 4404], Some (Inr (), g))
             | Some agent \<Rightarrow>
                 (case verifier of
                    None \<Rightarrow> ([WsAccept None], ws_session env ae c agent evs' g)
                  | Some verify \<Rightarrow>
                      (case extract_ws_token subprotocols of
                         None \<Rightarrow> ([WsClose 4401], Some (Inr (), g))
                       | Some (subprotocol, token) \<Rightarrow>
                           if verify token = None then ([WsClose 4401], Some (Inr (), g))
                           else ([WsAccept (Some subprotocol)], ws_session env ae c agent evs' g)))))"

section \<open>Lemmas\<close>

lemma load_all_spec:
  "load_all imp ps = Inr mws \<Longrightarrow> list_all2 (\<lambda>p m. load_middleware imp p = Inr m) ps mws"
proof (induction ps arbitrary: mws)
  case (Cons p ps)
  then show ?case
    by (cases "load_all imp ps") (auto simp: load_or_fail_def split: sum.splits if_splits)
qed simp

lemma load_routes_spec:
  "load_routes imp es = Inr rs \<Longrightarrow> list_all2 (\<lambda>e (e', mws). e' = e \<and> load_all imp (rt_middleware e) = Inr mws) es rs"
proof (induction es arbitrary: rs)
  case (Cons e es)
  then show ?case by (cases "load_routes imp es") (auto split: sum.splits)
qed simp

lemma new_asgi_spec:
  assumes "new_asgi imp c table = Inr ga"
  shows "ga_config ga = c" "map fst (ga_routes ga) = table"
    "list_all2 (\<lambda>p m. load_middleware imp p = Inr m) (gc_middleware c) (ga_middlewares ga)"
    "\<forall>(e, mws) \<in> set (ga_routes ga). list_all2 (\<lambda>p m. load_middleware imp p = Inr m) (rt_middleware e) mws"
proof -
  obtain mws rs where l: "load_all imp (gc_middleware c) = Inr mws" "load_routes imp table = Inr rs"
    "ga = \<lparr>ga_config = c, ga_middlewares = mws, ga_routes = rs\<rparr>"
    using assms by (cases "load_all imp (gc_middleware c)"; cases "load_routes imp table") (auto simp: new_asgi_def)
  show "ga_config ga = c" by (simp add: l)
  show "list_all2 (\<lambda>p m. load_middleware imp p = Inr m) (gc_middleware c) (ga_middlewares ga)"
    using load_all_spec [OF l(1)] by (simp add: l)
  have r: "list_all2 (\<lambda>e (e', mws). e' = e \<and> load_all imp (rt_middleware e) = Inr mws) table rs"
    by (rule load_routes_spec [OF l(2)])
  then show "map fst (ga_routes ga) = table"
    by (simp add: l list_eq_iff_nth_eq list_all2_conv_all_nth split: prod.splits) (metis fst_conv surj_pair)
  show "\<forall>(e, mws) \<in> set (ga_routes ga). list_all2 (\<lambda>p m. load_middleware imp p = Inr m) (rt_middleware e) mws"
    using r load_all_spec by (fastforce simp: l list_all2_conv_all_nth in_set_conv_nth split: prod.splits)
qed

lemma post_init_Inr:
  assumes "post_init valid_cidr c0 = Inr c"
  shows "gc_enable_http3 c0 \<longrightarrow> given (gc_tls_cert c0) \<and> given (gc_tls_key c0)"
    "gc_client_cert_mode c0 \<noteq> ''none'' \<longrightarrow>
       given (gc_tls_ca_cert c0) \<and> given (gc_tls_cert c0) \<and> given (gc_tls_key c0) \<and> \<not> gc_enable_http3 c0"
    "gc_client_cert_mode c0 = ''optional'' \<longrightarrow> \<not> gc_grpc_enabled c0"
    "gc_mtls_source c0 = ''proxy_header'' \<longrightarrow>
       gc_trusted_proxy_cidrs c0 \<noteq> [] \<and> list_all valid_cidr (gc_trusted_proxy_cidrs c0) \<and> gc_client_cert_mode c0 = ''none''"
    "c = (if gc_docs_enabled c0 = None then c0\<lparr>gc_docs_enabled := Some (\<not> auth_configured c0)\<rparr> else c0)"
  using assms unfolding post_init_def if_Inl_eq_Inr by (blast, blast, blast, blast, blast)

lemma gw_on_start_Inr:
  assumes "gw_on_start u p x imp s c table = Inr st"
  shows "new_asgi imp c table = Inr (st_asgi st)"
    "(if JWT_MIDDLEWARE_PATH \<in> set (configured_middleware_paths c table)
                    then map_sum id Some (new_jwt_verifier p s) else Inr None) = Inr (st_jwt st)"
    "gc_mtls_source c = ''proxy_header'' \<longrightarrow> MTLS_MIDDLEWARE_PATH \<in> set (configured_middleware_paths c table)"
    "gc_grpc_enabled c \<and> st_jwt st \<noteq> None \<longrightarrow> given (gc_tls_cert c) \<and> given (gc_tls_key c)"
    "st_servers st = [Uvicorn] @ (if gc_enable_http3 c then [H3] else []) @ (if gc_grpc_enabled c then [Grpc] else [])"
proof -
  obtain ga v where gv: "new_asgi imp c table = Inr ga"
    "(if JWT_MIDDLEWARE_PATH \<in> set (configured_middleware_paths c table)
                    then map_sum id Some (new_jwt_verifier p s) else Inr None) = Inr v"
    using assms unfolding gw_on_start_def if_Inl_eq_Inr by (auto simp only: split: sum.split_asm)
  note st = assms [unfolded gw_on_start_def gv sum.case if_Inl_eq_Inr sum.inject]
  then obtain w where eq: "st = \<lparr>st_asgi = ga, st_jwt = v,
      st_servers = [Uvicorn] @ (if gc_enable_http3 c then [H3] else []) @ (if gc_grpc_enabled c then [Grpc] else []),
      st_warnings = w\<rparr>"
    by blast
  from gv show "new_asgi imp c table = Inr (st_asgi st)"
    "(if JWT_MIDDLEWARE_PATH \<in> set (configured_middleware_paths c table)
                    then map_sum id Some (new_jwt_verifier p s) else Inr None) = Inr (st_jwt st)"
    unfolding eq started.simps by blast+
  from st show "gc_mtls_source c = ''proxy_header'' \<longrightarrow> MTLS_MIDDLEWARE_PATH \<in> set (configured_middleware_paths c table)"
    "gc_grpc_enabled c \<and> st_jwt st \<noteq> None \<longrightarrow> given (gc_tls_cert c) \<and> given (gc_tls_key c)"
    unfolding eq started.simps by blast+
  show "st_servers st = [Uvicorn] @ (if gc_enable_http3 c then [H3] else []) @ (if gc_grpc_enabled c then [Grpc] else [])"
    unfolding eq started.simps ..
qed

section \<open>Properties\<close>

text \<open>C32. A gateway that starts is protected as configured. Every middleware named globally or on a
  route has been imported, in order, none skipped; the JWT verifier exists exactly when its middleware
  is configured somewhere; certificates forwarded by a proxy are only read when the authorizing
  middleware is configured and the peers to trust are listed; client certificates imply a complete TLS
  configuration and no HTTP/3 server; gRPC with JWT only runs over TLS; and with an authentication
  middleware or client certificates the documentation pages are off unless switched on explicitly.\<close>

theorem gateway_starts_protected:
  assumes "post_init valid_cidr c0 = Inr c" "gw_on_start u p x imp s c table = Inr st"
  shows "list_all2 (\<lambda>q m. load_middleware imp q = Inr m) (gc_middleware c) (ga_middlewares (st_asgi st))
    \<and> map fst (ga_routes (st_asgi st)) = table
    \<and> (\<forall>(e, mws) \<in> set (ga_routes (st_asgi st)). list_all2 (\<lambda>q m. load_middleware imp q = Inr m) (rt_middleware e) mws)
    \<and> (st_jwt st \<noteq> None \<longleftrightarrow> JWT_MIDDLEWARE_PATH \<in> set (configured_middleware_paths c table))
    \<and> (gc_mtls_source c = ''proxy_header'' \<longrightarrow>
         MTLS_MIDDLEWARE_PATH \<in> set (configured_middleware_paths c table) \<and> gc_trusted_proxy_cidrs c \<noteq> []
         \<and> gc_client_cert_mode c = ''none'')
    \<and> (gc_client_cert_mode c \<noteq> ''none'' \<longrightarrow>
         given (gc_tls_ca_cert c) \<and> given (gc_tls_cert c) \<and> given (gc_tls_key c) \<and> H3 \<notin> set (st_servers st))
    \<and> (Grpc \<in> set (st_servers st) \<and> st_jwt st \<noteq> None \<longrightarrow> given (gc_tls_cert c) \<and> given (gc_tls_key c))
    \<and> (gc_docs_enabled c0 = None \<and> auth_configured c0 \<longrightarrow> gc_docs_enabled c = Some False)"
proof -
  note pi = post_init_Inr [OF assms(1)] and os = gw_on_start_Inr [OF assms(2)]
  note asgi = new_asgi_spec [OF os(1)]
  have c: "gc_mtls_source c = gc_mtls_source c0" "gc_client_cert_mode c = gc_client_cert_mode c0"
    "gc_trusted_proxy_cidrs c = gc_trusted_proxy_cidrs c0" "gc_tls_ca_cert c = gc_tls_ca_cert c0"
    "gc_tls_cert c = gc_tls_cert c0" "gc_tls_key c = gc_tls_key c0" "gc_enable_http3 c = gc_enable_http3 c0"
    using pi(5) by simp_all
  have srv: "H3 \<in> set (st_servers st) \<longleftrightarrow> gc_enable_http3 c" "Grpc \<in> set (st_servers st) \<longleftrightarrow> gc_grpc_enabled c"
    using os(5) by simp_all
  have jwt: "st_jwt st \<noteq> None \<longleftrightarrow> JWT_MIDDLEWARE_PATH \<in> set (configured_middleware_paths c table)"
    using os(2) by (cases "JWT_MIDDLEWARE_PATH \<in> set (configured_middleware_paths c table)"; cases "new_jwt_verifier p s") (auto dest: sym)
  have docs: "gc_docs_enabled c0 = None \<and> auth_configured c0 \<longrightarrow> gc_docs_enabled c = Some False"
    using pi(5) by simp
  show ?thesis
    using asgi(2-4) jwt docs pi(2,4) os(3,4) unfolding c srv by blast
qed

definition no_import :: "string \<Rightarrow> string \<Rightarrow> unit middleware result" where
  "no_import module_path name = Inl RuntimeError"

theorem gateway_starts_protected_witness:
  "\<exists>st. gw_on_start True False True no_import
       \<lparr>js_jwks_url = None, js_public_key = None, js_secret = None, js_audience = None, js_issuer = None, js_algorithms = []\<rparr>
       (default_config\<lparr>gc_client_cert_mode := ''required'', gc_tls_ca_cert := Some ''ca'', gc_tls_cert := Some ''crt'', gc_tls_key := Some ''key'',
           gc_docs_enabled := Some False\<rparr>) [] = Inr st
     \<and> H3 \<notin> set (st_servers st)"
proof -
  let ?c0 = "default_config\<lparr>gc_client_cert_mode := ''required'', gc_tls_ca_cert := Some ''ca'', gc_tls_cert := Some ''crt'', gc_tls_key := Some ''key''\<rparr>"
  let ?c = "?c0\<lparr>gc_docs_enabled := Some False\<rparr>"
  let ?s = "\<lparr>js_jwks_url = None, js_public_key = None, js_secret = None, js_audience = None, js_issuer = None, js_algorithms = []\<rparr>"
  have pi: "post_init (\<lambda>x. True) ?c0 = Inr ?c"
    by (simp add: post_init_def default_config_def given_def auth_configured_def)
  obtain st where st: "gw_on_start True False True no_import ?s ?c [] = Inr st"
    by (simp add: gw_on_start_def default_config_def new_asgi_def configured_middleware_paths_def given_def)
  have "gc_client_cert_mode ?c \<noteq> ''none''" by (simp add: default_config_def)
  with gateway_starts_protected [OF pi st] st show ?thesis by blast
qed

lemma dispatch_call_requests:
  assumes "c_has_bus (gw_env env)" "reject_reserved_type t = Inr ()"
  shows "\<exists>m r g'. dispatch_call env recipient p t g = (r, g') \<and> gw_requests g' = gw_requests g @ [m]
      \<and> m_recipient m = recipient \<and> m_payload m = p \<and> m_type m = t \<and> m_sender m = c_name (gw_env env)
      \<and> a_events (gw_agent g') = a_events (metric (gw_env env) ''message_sent'' (gw_agent g))"
proof -
  obtain m a where m: "ask_message (gw_env env) recipient p t (gw_agent g) = (Inr m, a)"
    "m_recipient m = recipient" "m_payload m = p" "m_type m = t" "m_sender m = c_name (gw_env env)"
    "a_events a = a_events (metric (gw_env env) ''message_sent'' (gw_agent g))"
    using assms by (auto simp: ask_message_def Let_def with_trace_def metric_def log_event_def tick_uid_def split: option.splits)
  obtain r w where "gw_request env m (gw_rest g) = (r, w)" by force
  with m show ?thesis
    by (auto simp: dispatch_call_def gw_ask_def split: sum.splits option.splits)
qed

lemma match_pairs_dict_ok: "match_pairs xs ps = Some qs \<Longrightarrow> dict_ok ps \<Longrightarrow> dict_ok qs"
  by (induction xs ps rule: match_pairs.induct) (auto split: if_splits)

lemma route_match_dict_ok: "route_match table meth path = Some (e, ps) \<Longrightarrow> dict_ok ps"
proof -
  have "match_entries table meth segs = Some (e, ps) \<Longrightarrow> dict_ok ps" for segs
    by (induction table)
       (auto simp: match_segments_def dest: match_pairs_dict_ok split: if_splits option.splits)
  then show "route_match table meth path = Some (e, ps) \<Longrightarrow> dict_ok ps" by (simp add: route_match_def)
qed

lemma topology_write_route_fields:
  "rt_payload_extra (topology_write_route agent pfx mw (sfx, op)) = [(''__op__'', JStr op)]"
  "rt_inject_principal (topology_write_route agent pfx mw (sfx, op))"
  "rt_mode (topology_write_route agent pfx mw (sfx, op)) = ''call''"
  "rt_agent (topology_write_route agent pfx mw (sfx, op)) = agent"
  by (simp_all add: topology_write_route_def new_route_def)

lemma dget_map_JStr: "dget (map (\<lambda>(k, v). (k, JStr v)) ps) k = map_option JStr (dget ps k)"
  by (induction ps) auto

text \<open>A control-plane write carries the operation, the target and the actor of the route. A request
  that matches one of the write routes leads to exactly one message, to the topology agent, in which
  the operation is the route's, the parameters of the path are the path's, and the principal is the one
  the authentication middleware set, or \<^verbatim>\<open>unauthenticated\<close>, whatever the client put in the
  body under these names.\<close>

theorem topology_writes_carry_principal:
  assumes "route_match table (rq_method rq) (rq_path rq) = Some (topology_write_route agent pfx mw (sfx, op), ps)"
    and "c_has_bus (gw_env env)" "reject_reserved_type (msg_type_of rq) = Inr ()"
  shows "\<exists>m r g'. dispatch_handler env table rq g = (r, g')
      \<and> gw_requests g' = gw_requests g @ [m] \<and> m_recipient m = agent
      \<and> dget (m_payload m) ''__op__'' = Some (JStr op)
      \<and> dget (m_payload m) ''__principal__'' = Some (principal_of rq)
      \<and> (\<forall>n v. dget ps n = Some v \<and> n \<notin> {''__op__'', ''__principal__''} \<longrightarrow> dget (m_payload m) n = Some (JStr v))"
proof -
  let ?e = "topology_write_route agent pfx mw (sfx, op)"
  let ?p = "route_payload ?e ps rq"
  note f = topology_write_route_fields [of agent pfx mw sfx op]
  have ok: "dict_ok (map (\<lambda>(k, v). (k, JStr v)) ps)"
    using route_match_dict_ok [OF assms(1)] by (simp add: case_prod_unfold comp_def)
  obtain m r g' where d: "dispatch_call env agent ?p (msg_type_of rq) g = (r, g')" "gw_requests g' = gw_requests g @ [m]"
    "m_recipient m = agent" "m_payload m = ?p"
    using dispatch_call_requests [OF assms(2,3), of agent ?p g] by blast
  have "dispatch_handler env table rq g = finish_dispatch env (rt_raw_response ?e) (r, g')"
    using assms(1) d(1) f(3,4) by (simp add: dispatch_handler_def Let_def dispatch_def)
  moreover have "snd (finish_dispatch env b (r, g')) = g'" for b by (simp add: finish_dispatch_def split: sum.split)
  ultimately obtain r' where "dispatch_handler env table rq g = (r', g')" by (metis prod.collapse)
  moreover have "dget ?p ''__op__'' = Some (JStr op)" "dget ?p ''__principal__'' = Some (principal_of rq)"
    by (simp_all add: route_payload_def f Let_def dict_simps)
  moreover have "dget ?p n = Some (JStr v)" if "dget ps n = Some v" "n \<notin> {''__op__'', ''__principal__''}" for n v
    using that ok by (simp add: route_payload_def f Let_def dict_simps dget_map_JStr)
  ultimately show ?thesis
    using d(2-4) by (intro exI [of _ m] exI [of _ r'] exI [of _ g']) simp
qed

definition spoofing_request :: gateway_request where
  "spoofing_request = sample_request\<lparr>rq_path := ''/agents/worker/suspend'', rq_body :=
     [(''__op__'', JStr ''restart''), (''name'', JStr ''other''), (''__principal__'', JDict [(''id'', JStr ''root'')])]\<rparr>"

definition unit_env :: "unit gw_env" where
  "unit_env = \<lparr>gw_env = base_env ''gw'', gw_request = \<lambda>m w. (Inl TimeoutError, w), gw_str = \<lambda>v. [],
     gw_int = \<lambda>v. Inr 200, gw_dumps = \<lambda>v. []\<rparr>"

definition unit_gateway :: "unit gateway" where
  "unit_gateway = \<lparr>gw_agent = new_agent (base_env ''gw'') None None 0, gw_stream_sinks = [], gw_requests = [], gw_rest = ()\<rparr>"

theorem topology_writes_carry_principal_witness:
  "\<exists>m r g'. dispatch_handler unit_env (build_topology_routes ''topo'' '''' [''my.auth'']) spoofing_request unit_gateway = (r, g')
      \<and> gw_requests g' = [m] \<and> m_recipient m = ''topo''
      \<and> dget (m_payload m) ''__op__'' = Some (JStr ''suspend'')
      \<and> dget (m_payload m) ''__principal__'' = Some (JDict [(''id'', JStr ''unauthenticated'')])
      \<and> dget (m_payload m) ''name'' = Some (JStr ''worker'')"
proof -
  have m: "route_match (build_topology_routes ''topo'' '''' [''my.auth'']) (rq_method spoofing_request) (rq_path spoofing_request)
      = Some (topology_write_route ''topo'' '''' [''my.auth''] (''/agents/{name}/suspend'', ''suspend''), [(''name'', ''worker'')])"
    by code_simp
  have e: "c_has_bus (gw_env unit_env)" "reject_reserved_type (msg_type_of spoofing_request) = Inr ()"
    by (simp_all add: unit_env_def base_env_def msg_type_of_def spoofing_request_def sample_request_def reject_reserved_type_def)
  have "principal_of spoofing_request = JDict [(''id'', JStr ''unauthenticated'')]" "gw_requests unit_gateway = []"
    by (simp_all add: principal_of_def spoofing_request_def sample_request_def unauthenticated_def unit_gateway_def)
  with topology_writes_carry_principal [OF m e, of unit_gateway] show ?thesis by auto
qed

text \<open>The HTTP status that the outcome of a call on the bus has.\<close>

definition status_of_reply :: "message result \<Rightarrow> int" where
  "status_of_reply r =
     (case r of
        Inl e \<Rightarrow> if e = MessageRoutingError then 404 else if e = TimeoutError then 504 else 500
      | Inr m \<Rightarrow> if dget (m_payload m) ''error'' \<noteq> None then 400 else 200)"

text \<open>The status of an answer is the outcome on the bus. For a call route that is not raw, the
  HTTP status is 404 when the bus does not know the agent, 504 when it does not answer in time, 500
  for every other exception, 400 when the reply carries an \<^verbatim>\<open>error\<close> key and 200 for any other
  reply, whose payload is the body; a reserved message type in the request's header is a 500 and
  nothing is sent. Only a cancellation is raised.\<close>

theorem http_status_of_outcome:
  assumes "route_match table (rq_method rq) (rq_path rq) = Some (e, ps)" "rt_mode e = ''call''" "\<not> rt_raw_response e"
    and "gw_ask env (rt_agent e) (route_payload e ps rq) (msg_type_of rq) g = (out, g')" "out \<noteq> Inl CancelledError"
  shows "\<exists>r. dispatch_handler env table rq g = (Inr r, g') \<and> rs_status r = status_of_reply out \<and> rs_stream r = None
      \<and> (\<forall>m. out = Inr m \<longrightarrow> rs_body r = m_payload m)
      \<and> (isl (reject_reserved_type (msg_type_of rq)) \<longrightarrow> rs_status r = 500 \<and> g' = g)"
proof -
  have "isl (reject_reserved_type (msg_type_of rq)) \<longrightarrow> out = Inl MessageValidationError \<and> g' = g"
    using assms(4) by (auto simp: gw_ask_def ask_message_def reject_reserved_type_def split: if_splits)
  then show ?thesis
    using assms
    by (auto simp: dispatch_handler_def Let_def dispatch_def dispatch_call_def finish_dispatch_def result_to_response_def
        new_result_def status_of_reply_def new_response_def is_Exception_def split: sum.splits option.splits)
qed

theorem http_status_of_outcome_witness:
  "\<exists>r g'. dispatch_handler unit_env [new_route ''POST'' ''/x'' ''a'' ''call'' []] (sample_request\<lparr>rq_path := ''/x''\<rparr>) unit_gateway
      = (Inr r, g') \<and> rs_status r = 504"
proof -
  let ?rq = "sample_request\<lparr>rq_path := ''/x''\<rparr>" and ?e = "new_route ''POST'' ''/x'' ''a'' ''call'' []"
  have m: "route_match [?e] (rq_method ?rq) (rq_path ?rq) = Some (?e, [])" by code_simp
  have e: "rt_mode ?e = ''call''" "\<not> rt_raw_response ?e" "rt_agent ?e = ''a''" by (simp_all add: new_route_def)
  obtain g' where ask: "gw_ask unit_env (rt_agent ?e) (route_payload ?e [] ?rq) (msg_type_of ?rq) unit_gateway = (Inl TimeoutError, g')"
    by (simp add: gw_ask_def ask_message_def msg_type_of_def sample_request_def reject_reserved_type_def unit_env_def base_env_def Let_def)
  from http_status_of_outcome [OF m e(1,2) ask] show ?thesis
    by (auto simp: status_of_reply_def)
qed

text \<open>A client of a streaming route chooses the message type without restriction. The type of the
  message comes from the \<^verbatim>\<open>X-Civitas-Type\<close> header; a call refuses a reserved type, a stream
  request does not pass through that check. So on a streaming route the header
  \<^verbatim>\<open>_agency.shutdown\<close> makes the gateway send the route's agent a message of that type, which
  the bus accepts as a system message, and an idle agent that receives it ends in \<^verbatim>\<open>STOPPED\<close>
  at its next two steps.\<close>

theorem stream_route_forwards_control_type:
  assumes "route_match table (rq_method rq) (rq_path rq) = Some (e, ps)" "rt_mode e = ''stream''"
    and "dget (rq_headers rq) ''x-civitas-type'' = Some ''_agency.shutdown''" "c_has_bus (gw_env env)"
    and "quiet_teardown tenv" "c_has_bus tenv" "a_status b = RUNNING" "\<not> a_suspend_requested b" "a_pending_streams b = []"
    and "mb_priority_queue (a_mailbox b) = []" "mb_queue (a_mailbox b) = []"
  shows "\<exists>sc r. dispatch_handler env table rq g = (Inr r, g) \<and> rs_stream r = Some sc
      \<and> (\<forall>cid. \<exists>m. send_stream_request env sc cid g
             = (case route (gw_env env) m (gw_agent g) of (x, a) \<Rightarrow> (x, g\<lparr>gw_agent := a\<rparr>))
           \<and> m_type m \<in> set SYSTEM_MESSAGE_TYPES \<and> m_recipient m = rt_agent e
           \<and> (\<exists>b' c. receive py_str m b = Some b' \<and> (task_step tenv ^^ 2) (LoopTop, b') = (Done None, c) \<and> a_status c = STOPPED))"
proof -
  let ?sc = "\<lparr>sc_recipient = rt_agent e, sc_msg_type = ''_agency.shutdown'', sc_payload = route_payload e ps rq, sc_trace_id = trace_id_of rq\<rparr>"
  let ?r = "(new_response 200 [])\<lparr>rs_stream := Some ?sc\<rparr>"
  have "dispatch_handler env table rq g = (Inr ?r, g)"
    using assms(1-3) by (simp add: dispatch_handler_def Let_def msg_type_of_def)
  moreover have "\<exists>m. send_stream_request env ?sc cid g
             = (case route (gw_env env) m (gw_agent g) of (x, a) \<Rightarrow> (x, g\<lparr>gw_agent := a\<rparr>))
           \<and> m_type m \<in> set SYSTEM_MESSAGE_TYPES \<and> m_recipient m = rt_agent e
           \<and> (\<exists>b' c. receive py_str m b = Some b' \<and> (task_step tenv ^^ 2) (LoopTop, b') = (Done None, c) \<and> a_status c = STOPPED)" for cid
  proof -
    let ?m = "stream_request_message (gw_env env) ?sc cid (gw_agent g)"
    let ?b = "b\<lparr>a_mailbox := (a_mailbox b)\<lparr>mb_queue := [?m], mb_notify := True\<rparr>\<rparr>"
    have m: "m_type ?m = ''_agency.shutdown''" "m_recipient ?m = rt_agent e" "m_priority ?m = 0" "m_ttl ?m = None"
      "m_correlation_id ?m = Some cid"
      by (simp_all add: stream_request_message_def fresh_message_def default_message_def)
    have "receive py_str ?m b = Some ?b"
      using assms(9-11) m by (simp add: receive_def consume_stream_frame_def mb_put_def q_full_def)
    moreover have "\<exists>c. (task_step tenv ^^ 2) (LoopTop, ?b) = (Done None, c) \<and> a_status c = STOPPED"
      using stop_message_as_business_message [OF assms(5,6), of ?b ?m "[]"] assms(7,8,10) m by simp
    moreover have "send_stream_request env ?sc cid g
             = (case route (gw_env env) ?m (gw_agent g) of (x, a) \<Rightarrow> (x, g\<lparr>gw_agent := a\<rparr>))"
      using assms(4) by (simp add: send_stream_request_def)
    moreover have "m_type ?m \<in> set SYSTEM_MESSAGE_TYPES" by (simp add: m SYSTEM_MESSAGE_TYPES_def)
    ultimately show ?thesis using m(2) by blast
  qed
  moreover have "rs_stream ?r = Some ?sc" by simp
  ultimately show ?thesis by blast
qed

theorem stream_route_forwards_control_type_witness:
  "\<exists>sc r. dispatch_handler unit_env [new_route ''POST'' ''/x'' ''a'' ''stream'' []]
        (sample_request\<lparr>rq_path := ''/x'', rq_headers := [(''x-civitas-type'', ''_agency.shutdown'')]\<rparr>) unit_gateway = (Inr r, unit_gateway)
      \<and> rs_stream r = Some sc
      \<and> (\<exists>m b' c. receive (\<lambda>v. []) m ((new_agent (base_env ''a'') None None 0)\<lparr>a_status := RUNNING\<rparr>) = Some b'
             \<and> m_recipient m = ''a''
             \<and> (task_step (base_env ''a'') ^^ 2) (LoopTop, b') = (Done None, c) \<and> a_status c = STOPPED)"
proof -
  let ?rq = "sample_request\<lparr>rq_path := ''/x'', rq_headers := [(''x-civitas-type'', ''_agency.shutdown'')]\<rparr>"
  let ?e = "new_route ''POST'' ''/x'' ''a'' ''stream'' []"
  let ?b = "(new_agent (base_env ''a'') None None 0)\<lparr>a_status := RUNNING\<rparr>"
  have m: "route_match [?e] (rq_method ?rq) (rq_path ?rq) = Some (?e, [])" by code_simp
  have e: "rt_mode ?e = ''stream''" "dget (rq_headers ?rq) ''x-civitas-type'' = Some ''_agency.shutdown''" "c_has_bus (gw_env unit_env)"
    "quiet_teardown (base_env ''a'')" "c_has_bus (base_env ''a'')"
    by (simp_all add: new_route_def unit_env_def base_env_def quiet_teardown_def)
  have b: "a_status ?b = RUNNING" "\<not> a_suspend_requested ?b" "a_pending_streams ?b = []"
    "mb_priority_queue (a_mailbox ?b) = []" "mb_queue (a_mailbox ?b) = []"
    by (simp_all add: new_agent_def new_mailbox_def)
  have "rt_agent ?e = ''a''" by (simp add: new_route_def)
  with stream_route_forwards_control_type [OF m e b, of unit_gateway "\<lambda>v. []"] show ?thesis
    by metis
qed

lemma dpop_dput: "dget d k = None \<Longrightarrow> dpop k (dput k v d) = d"
  by (induction d) (auto simp: AList.delete_eq split: if_splits)

lemma drain_not_blocked: "snd (drain (Some i) None (Some d) first now arrivals) \<noteq> Blocked"
proof (induction arrivals arbitrary: first now)
  case Nil
  show ?case by (subst drain.simps) (simp add: drain_wait_def Let_def split: option.split)
next
  case (Cons x arrivals)
  obtain t f busy where x: "x = (t, f, busy)" by (cases x)
  have ih: "drain (Some i) None (Some d) b n arrivals \<noteq> (ys, Blocked)" for b n ys
    using Cons.IH by (metis snd_conv)
  show ?case
    by (subst drain.simps) (auto simp: x ih drain_wait_def Let_def split: option.split frame.split prod.split sum.split)
qed

lemma send_stream_request_sinks [simp]: "gw_stream_sinks (snd (send_stream_request env sc cid g)) = gw_stream_sinks g"
  by (simp add: send_stream_request_def split: prod.split)

lemma send_stream_request_keeps: "send_stream_request env sc cid g = (r, g') \<Longrightarrow> gw_stream_sinks g' = gw_stream_sinks g"
  using send_stream_request_sinks [of env sc cid g] by simp

lemma ws_loop_sinks: "ws_loop env ae agent sid evs g = Some (r, g') \<Longrightarrow> gw_stream_sinks g' = gw_stream_sinks g"
proof (induction evs arbitrary: g)
  case (Cons ev evs)
  show ?case
  proof (cases ev)
    case (WsReceive t b)
    show ?thesis
    proof (cases "ws_parse ae t b")
      case None
      then show ?thesis using Cons.IH Cons.prems WsReceive by simp
    next
      case (Some p)
      obtain x g1 where s: "send_stream_request env (ws_message agent ''ws.message'' p) sid g = (x, g1)" by force
      then show ?thesis
        using Cons.IH [of g1] Cons.prems WsReceive Some send_stream_request_keeps [OF s] by (cases x) simp_all
    qed
  qed (use Cons in \<open>simp_all\<close>)
qed simp

text \<open>Streams are demultiplexed, finite and released. A frame changes the sink of its correlation
  identifier and no other. A streaming response whose request was sent ends: after the chunks, in order,
  one error event when the stream failed or ran into a timeout, and then the closing empty part. Whatever
  happens, in an HTTP stream or in a WebSocket session that ends, its sink is gone afterwards and every
  other stream is as before.\<close>

theorem streams_released:
  assumes "dget (gw_stream_sinks g) (e_uuid (gw_env env) (a_uid (gw_agent g))) = None"
  shows "gw_stream_sinks (snd (respond_stream env c arrivals resp sc extra g)) = gw_stream_sinks g
    \<and> (\<forall>evs g'. respond_stream env c arrivals resp sc extra g = ((evs, Inr ()), g') \<longrightarrow>
         (let (ys, fin) = drain (Some (gc_stream_idle_timeout c)) None (Some (a_now (gw_agent g) + gc_max_stream_duration c)) True
                            (a_now (gw_agent g)) (arrivals (e_uuid (gw_env env) (a_uid (gw_agent g))))
          in \<exists>start err. evs = start # sse_frames env 0 (map fst ys) @ err @ [HttpBody [] False]
               \<and> length err = (case fin of DReturned t \<Rightarrow> 0 | _ \<Rightarrow> 1)))
    \<and> (\<forall>r g'. ws_session env ae c agent wsevs g = Some (r, g') \<longrightarrow> gw_stream_sinks g' = gw_stream_sinks g)
    \<and> (\<forall>m h cid. m_correlation_id m \<noteq> Some cid \<and> cid \<noteq> '''' \<longrightarrow>
         dget (gw_stream_sinks (gw_handle py_str m h)) cid = dget (gw_stream_sinks h) cid)"
proof (intro conjI allI impI)
  let ?cid = "e_uuid (gw_env env) (a_uid (gw_agent g))"
  let ?g1 = "open_stream c ?cid (g\<lparr>gw_agent := tick_uid (gw_agent g)\<rparr>)"
  have rel: "gw_stream_sinks (close_stream ?cid (snd (send_stream_request env sc' ?cid ?g1))) = gw_stream_sinks g" for sc'
    using dpop_dput [OF assms] by (simp add: close_stream_def open_stream_def)
  obtain x g2 where s: "send_stream_request env sc ?cid ?g1 = (x, g2)" by force
  obtain ys fin where dr: "drain (Some (gc_stream_idle_timeout c)) None (Some (a_now (gw_agent g) + gc_max_stream_duration c)) True
      (a_now (gw_agent g)) (arrivals ?cid) = (ys, fin)" by force
  have fin: "fin \<noteq> Blocked" using drain_not_blocked dr by (metis snd_conv)
  show "gw_stream_sinks (snd (respond_stream env c arrivals resp sc extra g)) = gw_stream_sinks g"
    using rel [of sc] s dr by (cases x) (simp_all add: respond_stream_def dispatcher_stream_def Let_def)
  fix evs g' assume "respond_stream env c arrivals resp sc extra g = ((evs, Inr ()), g')"
  then obtain start where ev: "evs = start # sse_frames env 0 (map fst ys)
       @ (case fin of DReturned t \<Rightarrow> [HttpBody [] False]
          | DClosed reason t \<Rightarrow>
              [HttpBody (''event: error'' @ NL @ ''data: '' @ gw_dumps env (JDict [(''error'', JStr reason)]) @ NL @ NL) True,
               HttpBody [] False] | Blocked \<Rightarrow> [])"
    using s dr by (cases x) (auto simp: respond_stream_def dispatcher_stream_def Let_def)
  show "let (ys, fin) = drain (Some (gc_stream_idle_timeout c)) None (Some (a_now (gw_agent g) + gc_max_stream_duration c)) True
              (a_now (gw_agent g)) (arrivals ?cid)
        in \<exists>start err. evs = start # sse_frames env 0 (map fst ys) @ err @ [HttpBody [] False]
             \<and> length err = (case fin of DReturned t \<Rightarrow> 0 | _ \<Rightarrow> 1)"
  proof (cases fin)
    case (DClosed reason t)
    then show ?thesis
      using ev unfolding dr by (auto intro!: exI [of _ "[_]"])
  qed (use ev fin dr in \<open>simp_all\<close>)
next
  let ?cid = "e_uuid (gw_env env) (a_uid (gw_agent g))"
  fix r g' assume ws: "ws_session env ae c agent wsevs g = Some (r, g')"
  then obtain r1 g2 where l: "ws_loop env ae agent ?cid wsevs (open_stream c ?cid (g\<lparr>gw_agent := tick_uid (gw_agent g)\<rparr>)) = Some (r1, g2)"
    "(r, g') = ws_finish env agent ?cid r1 g2"
    by (auto simp: ws_session_def Let_def)
  have "gw_stream_sinks g' = gw_stream_sinks (close_stream ?cid g2)"
    using l(2) by (auto simp: ws_finish_def dest: send_stream_request_keeps split: prod.splits sum.splits if_splits)
  with ws_loop_sinks [OF l(1)] dpop_dput [OF assms] show "gw_stream_sinks g' = gw_stream_sinks g"
    by (simp add: close_stream_def open_stream_def)
next
  fix m :: message and h :: "'b gateway" and cid assume "m_correlation_id m \<noteq> Some cid \<and> cid \<noteq> ''''"
  then show "dget (gw_stream_sinks (gw_handle py_str m h)) cid = dget (gw_stream_sinks h) cid"
    by (auto simp: gw_handle_def Let_def dict_simps split: option.splits)
qed

theorem streams_released_witness:
  "gw_stream_sinks (snd (respond_stream unit_env default_config (\<lambda>cid. [(1, Chunk [], 0), (2, EndFrame, 0)]) (new_response 200 [])
      \<lparr>sc_recipient = ''a'', sc_msg_type = ''t'', sc_payload = [], sc_trace_id = ''''\<rparr> [] unit_gateway)) = []"
proof -
  have "dget (gw_stream_sinks unit_gateway) (e_uuid (gw_env unit_env) (a_uid (gw_agent unit_gateway))) = None"
    by (simp add: unit_gateway_def)
  from streams_released [OF this] have "gw_stream_sinks (snd (respond_stream unit_env default_config
      (\<lambda>cid. [(1, Chunk [], 0), (2, EndFrame, 0)]) (new_response 200 [])
      \<lparr>sc_recipient = ''a'', sc_msg_type = ''t'', sc_payload = [], sc_trace_id = ''''\<rparr> [] unit_gateway)) = gw_stream_sinks unit_gateway"
    by blast
  also have "\<dots> = []" by (simp add: unit_gateway_def)
  finally show ?thesis .
qed

text \<open>No unauthenticated WebSocket. With a verifier configured, a socket is accepted exactly for a
  known path and an offered subprotocol whose token, the first one offered, the verifier accepts, and
  that subprotocol is echoed; otherwise the handshake is closed with 4404 or 4401 and nothing is
  opened or sent.\<close>

theorem ws_accept_requires_token:
  assumes "handle_websocket env ae c (Some verify) path subprotocols evs g = (outs, res)"
  shows "((\<exists>sp. WsAccept sp \<in> set outs) \<longrightarrow>
            (\<exists>agent tok. (path, agent) \<in> set (gc_ws_routes c)
               \<and> extract_ws_token subprotocols = Some (WS_BEARER_PREFIX @ tok, tok) \<and> verify tok \<noteq> None
               \<and> outs = [WsAccept (Some (WS_BEARER_PREFIX @ tok))]))
     \<and> ((\<nexists>sp. WsAccept sp \<in> set outs) \<longrightarrow> set outs \<subseteq> {WsClose 4404, WsClose 4401} \<and> (res = None \<or> res = Some (Inr (), g)))"
proof -
  have tok: "extract_ws_token ss = Some (sp, t) \<Longrightarrow> sp = WS_BEARER_PREFIX @ t" for ss sp t
  proof (induction ss)
    case (Cons s ss)
    then show ?case
      by (cases "startswith s WS_BEARER_PREFIX") (auto simp: prefix_def)
  qed simp
  show ?thesis
    using assms tok unfolding handle_websocket_def
    by (force dest: map_of_SomeD split: list.splits if_splits option.splits prod.splits)
qed

theorem ws_accept_requires_token_witness:
  "\<exists>res. handle_websocket unit_env undefined (default_config\<lparr>gc_ws_routes := [(''/ws'', ''chat'')]\<rparr>) (Some (\<lambda>t. None))
      ''/ws'' [''civitas.bearer.x''] [WsConnect, WsDisconnect] unit_gateway = ([WsClose 4401], res)
    \<and> (res = None \<or> res = Some (Inr (), unit_gateway))"
proof -
  have h: "handle_websocket unit_env undefined (default_config\<lparr>gc_ws_routes := [(''/ws'', ''chat'')]\<rparr>) (Some (\<lambda>t. None))
      ''/ws'' [''civitas.bearer.x''] [WsConnect, WsDisconnect] unit_gateway = ([WsClose 4401], Some (Inr (), unit_gateway))"
    by (simp add: handle_websocket_def)
  from ws_accept_requires_token [OF this] h show ?thesis by auto
qed

end
