(* ===== verification/Topology_Agent.thy ===== *)
theory Topology_Agent
  imports Gateway
begin

text \<open>
  \<^verbatim>\<open>TopologyAgent\<close> of \<^verbatim>\<open>src/civitas/topology_server.py\<close>: the generic server behind the
  gateway's control-plane routes. The tree it is given by the runtime is a value; the metrics
  snapshot, its Prometheus text and the process samples are arguments, as are \<^verbatim>\<open>json.dumps\<close>,
  \<^verbatim>\<open>str\<close> and \<^verbatim>\<open>repr\<close>.
\<close>

section \<open>What the agent sees\<close>

record agent_view =
  av_agent :: agent
  av_capabilities :: "string list"
  av_capability_metadata :: payload
  av_uptime_seconds :: real
  av_session_turn_count :: int
  av_session_duration_seconds :: real

text \<open>A dynamic supervisor lists its live children with their restart counts, a supervisor its children
  with the counts it keeps for them.\<close>

datatype topo_node =
    TAgent string agent_view
  | TDyn string process_status "int option" "int option" "(string \<times> agent_view \<times> int) list"
  | TSup string string nat "(topo_node \<times> int) list"

record topology_agent =
  ta_root_supervisor :: "topo_node option"
  ta_agents :: "(string, agent_view) dict"

record topo_env =
  te_dumps :: "json \<Rightarrow> string"
  te_str :: "json \<Rightarrow> string"
  te_repr :: "string \<Rightarrow> string"
  te_new_trace_id :: "nat \<Rightarrow> string"
  te_transport_class :: "string option"              \<comment> \<open>class name of the bus's transport\<close>
  te_snapshot :: "json option"                       \<comment> \<open>the collector's snapshot, when there is one\<close>
  te_prometheus :: string
  te_runtime_sample :: "payload option"
  te_worker_sample :: "string \<Rightarrow> payload option"     \<comment> \<open>the answer of a health channel, if any\<close>

section \<open>Introspection\<close>

definition process_id_for :: "string \<Rightarrow> registry option \<Rightarrow> string \<Rightarrow> string" where
  "process_id_for self_name reg name =
     (case (case reg of None \<Rightarrow> None | Some r \<Rightarrow> lookup r name) of
        Some entry \<Rightarrow> if e_health_channel entry \<noteq> '''' then e_health_channel entry else self_name
      | None \<Rightarrow> self_name)"

definition view_fields :: "agent_view \<Rightarrow> payload" where
  "view_fields v =
     [(''capabilities'', JList (map JStr (av_capabilities v))),
      (''capability_metadata'', JDict (av_capability_metadata v)),
      (''uptime_seconds'', JFloat (av_uptime_seconds v)),
      (''session_turn_count'', JInt (av_session_turn_count v)),
      (''session_duration_seconds'', JFloat (av_session_duration_seconds v)),
      (''suspend_category'', JStr (suspend_category_property (av_agent v)))]"

definition serialize_agent :: "string \<Rightarrow> registry option \<Rightarrow> string \<Rightarrow> agent_view \<Rightarrow> int \<Rightarrow> json" where
  "serialize_agent self_name reg name v restart_count =
     JDict ([(''name'', JStr name), (''type'', JStr ''agent''),
             (''status'', JStr (status_value (a_status (av_agent v)))),
             (''restart_count'', JInt restart_count),
             (''process_id'', JStr (process_id_for self_name reg name))] @ view_fields v)"

fun serialize_node :: "string \<Rightarrow> registry option \<Rightarrow> topo_node \<Rightarrow> int \<Rightarrow> json" where
  "serialize_node self_name reg (TDyn name st max_children max_total_spawns kids) restart_count =
     JDict [(''name'', JStr name), (''type'', JStr ''dynamic_supervisor''), (''status'', JStr (status_value st)),
            (''restart_count'', JInt restart_count), (''process_id'', JStr (process_id_for self_name reg name)),
            (''max_children'', jopt_int max_children), (''max_total_spawns'', jopt_int max_total_spawns),
            (''live_count'', JInt (int (length kids))),
            (''children'', JList (map (\<lambda>(n, v, c). serialize_agent self_name reg n v c) kids))]"
| "serialize_node self_name reg (TSup name strategy crashes kids) restart_count =
     JDict [(''name'', JStr name), (''type'', JStr ''supervisor''), (''strategy'', JStr strategy),
            (''restart_count'', JInt restart_count), (''crashes_in_window'', JInt (int crashes)),
            (''process_id'', JStr self_name),
            (''children'', JList (map (\<lambda>(k, c). serialize_node self_name reg k c) kids))]"
| "serialize_node self_name reg (TAgent name v) restart_count = serialize_agent self_name reg name v restart_count"

definition build_topology :: "string \<Rightarrow> registry option \<Rightarrow> topology_agent \<Rightarrow> json" where
  "build_topology self_name reg t =
     (case ta_root_supervisor t of
        None \<Rightarrow> JDict (error_body ''runtime not available'')
      | Some r0 \<Rightarrow> serialize_node self_name reg r0 0)"

fun collect_dynamic_children :: "string \<Rightarrow> registry option \<Rightarrow> topo_node \<Rightarrow> json list" where
  "collect_dynamic_children self_name reg (TDyn name st mc mt kids) =
     map (\<lambda>(n, v, c). JDict ([(''name'', JStr n), (''status'', JStr (status_value (a_status (av_agent v)))),
             (''restart_count'', JInt c), (''process_id'', JStr (process_id_for self_name reg n))] @ view_fields v)) kids"
| "collect_dynamic_children self_name reg (TSup name strategy crashes kids) =
     concat (map (\<lambda>(k, c). collect_dynamic_children self_name reg k) kids)"
| "collect_dynamic_children self_name reg (TAgent name v) = []"

definition agent_entry :: "string \<Rightarrow> registry option \<Rightarrow> string \<Rightarrow> agent_view \<Rightarrow> json" where
  "agent_entry self_name reg name v =
     JDict ([(''name'', JStr name), (''status'', JStr (status_value (a_status (av_agent v)))),
             (''process_id'', JStr (process_id_for self_name reg name))] @ view_fields v)"

definition build_agents_list :: "string \<Rightarrow> registry option \<Rightarrow> topology_agent \<Rightarrow> json list" where
  "build_agents_list self_name reg t =
     map (\<lambda>(n, v). agent_entry self_name reg n v) (ta_agents t)
     @ (case ta_root_supervisor t of None \<Rightarrow> [] | Some r0 \<Rightarrow> collect_dynamic_children self_name reg r0)"

fun search_tree :: "topo_node \<Rightarrow> string \<Rightarrow> agent_view option"
  and search_list :: "(topo_node \<times> int) list \<Rightarrow> string \<Rightarrow> agent_view option" where
  "search_tree (TDyn nm st mc mt kids) name = map_option fst (dget kids name)"
| "search_tree (TSup nm strategy crashes kids) name = search_list kids name"
| "search_tree (TAgent nm v) name = None"
| "search_list [] name = None"
| "search_list ((k, c) # ks) name =
     (case search_tree k name of Some v \<Rightarrow> Some v | None \<Rightarrow> search_list ks name)"

definition find_dynamic_agent :: "topology_agent \<Rightarrow> string \<Rightarrow> agent_view option" where
  "find_dynamic_agent t name =
     (case ta_root_supervisor t of None \<Rightarrow> None | Some r0 \<Rightarrow> search_tree r0 name)"

definition find_agent :: "topology_agent \<Rightarrow> string \<Rightarrow> agent_view option" where
  "find_agent t name = (case dget (ta_agents t) name of Some v \<Rightarrow> Some v | None \<Rightarrow> find_dynamic_agent t name)"

definition build_agent_detail :: "string \<Rightarrow> registry option \<Rightarrow> topology_agent \<Rightarrow> string \<Rightarrow> json option" where
  "build_agent_detail self_name reg t name = map_option (agent_entry self_name reg name) (find_agent t name)"

definition deployment_shape :: "string option \<Rightarrow> payload" where
  "deployment_shape transport_class =
     (case (case transport_class of
              Some c \<Rightarrow>
                if c = ''InProcessTransport'' then (''in_process'', ''single_process'')
                else if c = ''ZMQTransport'' then (''zmq'', ''multi_process'')
                else if c = ''NATSTransport'' then (''nats'', ''distributed'')
                else (''unknown'', ''unknown'')
            | None \<Rightarrow> (''unknown'', ''unknown'')) of
        (transport, mode) \<Rightarrow> [(''transport'', JStr transport), (''mode'', JStr mode)])"

text \<open>\<^verbatim>\<open>_distinct_health_channels\<close>; the iteration order of the set is that of the registry.\<close>

definition distinct_health_channels :: "registry option \<Rightarrow> string list" where
  "distinct_health_channels reg =
     (case reg of
        None \<Rightarrow> []
      | Some r \<Rightarrow>
          remdups (concat (map (\<lambda>n. case lookup r n of
              Some e \<Rightarrow> if e_health_channel e \<noteq> '''' then [e_health_channel e] else []
            | None \<Rightarrow> []) (all_names r))))"

definition build_processes :: "topo_env \<Rightarrow> string \<Rightarrow> registry option \<Rightarrow> json" where
  "build_processes te self_name reg =
     JDict [(''deployment'', JDict (deployment_shape (te_transport_class te))),
            (''processes'', JList
               ((case te_runtime_sample te of
                   None \<Rightarrow> []
                 | Some s \<Rightarrow> [JDict (merge [(''kind'', JStr ''runtime''), (''id'', JStr self_name)] s)])
                @ concat (map (\<lambda>c. case te_worker_sample te c of
                     None \<Rightarrow> []
                   | Some s \<Rightarrow> [JDict (merge [(''kind'', JStr ''worker''), (''id'', JStr c)] s)])
                   (distinct_health_channels reg))))]"

section \<open>Operations\<close>

definition raw_json :: "topo_env \<Rightarrow> json \<Rightarrow> int \<Rightarrow> payload" where
  "raw_json te data status =
     [(''__raw_body__'', JStr (te_dumps te data)), (''__content_type__'', JStr ''application/json''), (''__status__'', JInt status)]"

text \<open>\<^verbatim>\<open>str(payload.get(k, d))\<close>.\<close>

definition str_item :: "topo_env \<Rightarrow> payload \<Rightarrow> string \<Rightarrow> string \<Rightarrow> string" where
  "str_item te p k d = (case dget p k of None \<Rightarrow> d | Some v \<Rightarrow> as_str (te_str te) v)"

definition principal_id :: "topo_env \<Rightarrow> payload \<Rightarrow> string result" where
  "principal_id te p =
     (case (case dget p ''__principal__'' of
              None \<Rightarrow> unauthenticated
            | Some v \<Rightarrow> if truthy v then v else unauthenticated) of
        JDict d \<Rightarrow> Inr (str_item te d ''id'' ''unauthenticated'')
      | _ \<Rightarrow> Inl AttributeError)"

definition control_message :: "topo_env \<Rightarrow> agent_env \<Rightarrow> string \<Rightarrow> string \<Rightarrow> payload \<Rightarrow> agent \<Rightarrow> message" where
  "control_message te env msg_type recipient body a =
     (fresh_message env a)\<lparr>m_type := msg_type, m_sender := c_name env, m_recipient := recipient, m_payload := body,
        m_trace_id := (if c_has_tracer env then te_new_trace_id te (a_uid a) else ''''),
        m_span_id := e_span_id env (a_uid a), m_priority := 1\<rparr>"

definition route_control_message :: "topo_env \<Rightarrow> agent_env \<Rightarrow> string \<Rightarrow> string \<Rightarrow> payload \<Rightarrow> unit call" where
  "route_control_message te env msg_type recipient body a = route env (control_message te env msg_type recipient body a) a"

text \<open>The frame the four write operations share: a target, a bus, an actor, then the work.\<close>

definition write_op :: "topo_env \<Rightarrow> agent_env \<Rightarrow> payload \<Rightarrow> (string \<Rightarrow> string \<Rightarrow> payload call) \<Rightarrow> payload call" where
  "write_op te env p work a =
     (let name = str_item te p ''name'' ''''
      in if name = '''' then (Inr (error_body ''agent name required''), a)
         else if \<not> c_has_bus env then (Inr (error_body ''runtime not available''), a)
         else (case principal_id te p of Inl e \<Rightarrow> (Inl e, a) | Inr actor \<Rightarrow> work name actor a))"

definition op_suspend :: "topo_env \<Rightarrow> agent_env \<Rightarrow> payload \<Rightarrow> payload call" where
  "op_suspend te env p =
     write_op te env p (\<lambda>name actor.
       andThen (route_control_message te env ''_agency.suspend'' name
                  [(''reason'', JStr (str_item te p ''reason'' '''')), (''category'', JStr (str_item te p ''category'' ''other'')),
                   (''initiated_by'', JStr actor)])
         (\<lambda>a. (Inr [(''status'', JStr ''suspend_requested''), (''agent'', JStr name), (''initiated_by'', JStr actor)], a)))"

definition op_resume :: "topo_env \<Rightarrow> agent_env \<Rightarrow> payload \<Rightarrow> payload call" where
  "op_resume te env p =
     write_op te env p (\<lambda>name actor.
       andThen (route_control_message te env ''_agency.resume'' name [(''approver'', JStr actor)])
         (\<lambda>a. (Inr [(''status'', JStr ''resume_requested''), (''agent'', JStr name), (''approver'', JStr actor)], a)))"

definition op_restart :: "topo_env \<Rightarrow> agent_env \<Rightarrow> payload \<Rightarrow> payload call" where
  "op_restart te env p =
     write_op te env p (\<lambda>name actor.
       andThen (route_control_message te env ''_agency.force_restart'' name
                  [(''reason'', JStr (str_item te p ''reason'' '''')), (''initiated_by'', JStr actor)])
         (\<lambda>a. (Inr [(''status'', JStr ''restart_requested''), (''agent'', JStr name), (''initiated_by'', JStr actor)], a)))"

text \<open>\<^verbatim>\<open>_op_mailbox_inject\<close>: the type is checked before the actor is read.\<close>

definition inject_message :: "topo_env \<Rightarrow> agent_env \<Rightarrow> string \<Rightarrow> string \<Rightarrow> payload \<Rightarrow> agent \<Rightarrow> message" where
  "inject_message te env name msg_type p a =
     (control_message te env msg_type name (case dget p ''payload'' of Some (JDict d) \<Rightarrow> d | _ \<Rightarrow> []) a)\<lparr>m_priority := 0\<rparr>"

definition op_mailbox_inject :: "topo_env \<Rightarrow> agent_env \<Rightarrow> payload \<Rightarrow> payload call" where
  "op_mailbox_inject te env p a =
     (let name = str_item te p ''name'' ''''; msg_type = str_item te p ''type'' ''''
      in if name = '''' then (Inr (error_body ''agent name required''), a)
         else if \<not> c_has_bus env then (Inr (error_body ''runtime not available''), a)
         else if msg_type = '''' then (Inr (error_body (''message '' @ [CHR 0x27] @ ''type'' @ [CHR 0x27] @ '' required'')), a)
         else if startswith msg_type ''_agency.'' \<or> startswith msg_type ''civitas.''
         then (Inr (error_body (''cannot inject reserved/system message type '' @ te_repr te msg_type)), a)
         else
           (case principal_id te p of
              Inl e \<Rightarrow> (Inl e, a)
            | Inr actor \<Rightarrow>
                andThen (route env (inject_message te env name msg_type p a))
                  (\<lambda>a'. (Inr [(''status'', JStr ''injected''), (''agent'', JStr name), (''message_type'', JStr msg_type),
                             (''initiated_by'', JStr actor)],
                        emit_audit env ''mailbox.inject''
                          [(''target'', JStr name), (''message_type'', JStr msg_type), (''initiated_by'', JStr actor)] a')) a))"

definition peek_entry :: "message \<Rightarrow> json" where
  "peek_entry m =
     JDict [(''id'', JStr (m_id m)), (''type'', JStr (m_type m)), (''sender'', JStr (m_sender m)),
            (''recipient'', JStr (m_recipient m)), (''priority'', JInt (m_priority m)), (''timestamp'', JFloat (m_timestamp m))]"

definition op_mailbox_peek :: "topo_env \<Rightarrow> topology_agent \<Rightarrow> payload \<Rightarrow> payload" where
  "op_mailbox_peek te t p =
     (let name = str_item te p ''name'' ''''
      in case find_agent t name of
           None \<Rightarrow> raw_json te (JDict (error_body (''agent '' @ [CHR 0x27] @ name @ [CHR 0x27] @ '' not found (or not in this process)''))) 404
         | Some v \<Rightarrow>
             raw_json te (JDict [(''agent'', JStr name), (''depth'', JInt (int (mb_depth (a_mailbox (av_agent v))))),
                                 (''messages'', JList (map peek_entry (mb_peek (a_mailbox (av_agent v)))))]) 200)"

definition on_agent :: "payload call \<Rightarrow> topology_agent gen_server \<Rightarrow> json result \<times> topology_agent gen_server" where
  "on_agent f g = (case f (g_agent g) of (r, a) \<Rightarrow> (map_sum id JDict r, g\<lparr>g_agent := a\<rparr>))"

definition topo_handle_call ::
  "topo_env \<Rightarrow> agent_env \<Rightarrow> payload \<Rightarrow> string \<Rightarrow> topology_agent gen_server \<Rightarrow> json result \<times> topology_agent gen_server" where
  "topo_handle_call te env p from g =
     (let op = dget p ''__op__''; t = g_user g; reg = a_registry (g_agent g); self_name = c_name env;
          ans = (\<lambda>d. (Inr (JDict d), g))
      in if op = Some (JStr ''health'') then ans (raw_json te (JDict [(''status'', JStr ''ok'')]) 200)
         else if op = Some (JStr ''topology'') then ans (raw_json te (build_topology self_name reg t) 200)
         else if op = Some (JStr ''agents'') then ans (raw_json te (JList (build_agents_list self_name reg t)) 200)
         else if op = Some (JStr ''agent_detail'') then
           (let name = str_item te p ''name'' ''''
            in case build_agent_detail self_name reg t name of
                 None \<Rightarrow> ans (raw_json te (JDict (error_body (not_found_text name))) 404)
               | Some d \<Rightarrow> ans (raw_json te d 200))
         else if op = Some (JStr ''snapshot'') then
           (case te_snapshot te of
              None \<Rightarrow> ans (raw_json te (JDict (error_body ''metrics not available'')) 404)
            | Some d \<Rightarrow> ans (raw_json te d 200))
         else if op = Some (JStr ''metrics'') then
           ans [(''__raw_body__'', JStr (if te_snapshot te = None then '''' else te_prometheus te)),
                (''__content_type__'', JStr ''text/plain; version=0.0.4; charset=utf-8''), (''__status__'', JInt 200)]
         else if op = Some (JStr ''processes'') then ans (raw_json te (build_processes te self_name reg) 200)
         else if op = Some (JStr ''suspend'') then on_agent (op_suspend te env p) g
         else if op = Some (JStr ''resume'') then on_agent (op_resume te env p) g
         else if op = Some (JStr ''restart'') then on_agent (op_restart te env p) g
         else if op = Some (JStr ''mailbox_peek'') then ans (op_mailbox_peek te t p)
         else if op = Some (JStr ''mailbox_inject'') then on_agent (op_mailbox_inject te env p) g
         else ans (raw_json te (JDict (error_body ''not found'')) 404))"

section \<open>Write operations on the bus\<close>

definition topo_hooks :: "topo_env \<Rightarrow> agent_env \<Rightarrow> topology_agent gs_hooks \<Rightarrow> topology_agent gs_hooks" where
  "topo_hooks te env h = h\<lparr>h_call := topo_handle_call te env\<rparr>"

text \<open>The control message of each operation and the key under which it names the actor.\<close>

definition CONTROL_OPS :: "(string \<times> string \<times> string) list" where
  "CONTROL_OPS =
     [(''suspend'', ''_agency.suspend'', ''initiated_by''), (''resume'', ''_agency.resume'', ''approver''),
      (''restart'', ''_agency.force_restart'', ''initiated_by'')]"

definition control_sent :: "string \<Rightarrow> string \<Rightarrow> string \<Rightarrow> string \<Rightarrow> agent \<Rightarrow> agent \<Rightarrow> bool" where
  "control_sent ty key name actor a a' \<longleftrightarrow>
     (\<exists>m. routed (a_events a') = routed (a_events a) @ [m] \<and> m_type m = ty \<and> m_recipient m = name \<and> m_priority m = 1
        \<and> dget (m_payload m) key = Some (JStr actor))"

text \<open>The dictionary a write answers with.\<close>

definition acknowledgement :: "string \<Rightarrow> string \<Rightarrow> string \<Rightarrow> string \<Rightarrow> payload" where
  "acknowledgement op key name actor = [(''status'', JStr (op @ ''_requested'')), (''agent'', JStr name), (key, JStr actor)]"

lemma route_control_sent:
  assumes "accepting_bus env"
  shows "\<exists>a'. route_control_message te env ty name body a = (Inr (), a')
      \<and> routed (a_events a') = routed (a_events a) @ [control_message te env ty name body a]"
  using assms by (simp add: route_control_message_def route_def accepting_bus_def log_event_def tick_uid_def)

lemma control_message_fields [simp]:
  "m_type (control_message te env ty name body a) = ty" "m_recipient (control_message te env ty name body a) = name"
  "m_priority (control_message te env ty name body a) = 1" "m_payload (control_message te env ty name body a) = body"
  by (simp_all add: control_message_def)

lemma write_op_sends:
  assumes "accepting_bus env" "str_item te p ''name'' '''' = n" "n \<noteq> ''''" "principal_id te p = Inr actor"
  shows "write_op te env p (\<lambda>name actor. andThen (route_control_message te env ty name (body actor)) (\<lambda>a. (Inr (ack name actor), a))) a
      = (Inr (ack n actor), snd (route_control_message te env ty n (body actor) a))"
proof -
  obtain a' where "route_control_message te env ty n (body actor) a = (Inr (), a')"
    using route_control_sent [OF assms(1)] by blast
  moreover have "c_has_bus env" using assms(1) by (simp add: accepting_bus_def)
  ultimately show ?thesis using assms(2-4) by (simp add: write_op_def Let_def andThen_def)
qed

lemma topo_handle_call_ops:
  "dget p ''__op__'' = Some (JStr ''suspend'') \<Longrightarrow> topo_handle_call te env p from g = on_agent (op_suspend te env p) g"
  "dget p ''__op__'' = Some (JStr ''resume'') \<Longrightarrow> topo_handle_call te env p from g = on_agent (op_resume te env p) g"
  "dget p ''__op__'' = Some (JStr ''restart'') \<Longrightarrow> topo_handle_call te env p from g = on_agent (op_restart te env p) g"
  "dget p ''__op__'' = Some (JStr ''mailbox_peek'') \<Longrightarrow> topo_handle_call te env p from g = (Inr (JDict (op_mailbox_peek te (g_user g) p)), g)"
  "dget p ''__op__'' = Some (JStr ''mailbox_inject'') \<Longrightarrow> topo_handle_call te env p from g = on_agent (op_mailbox_inject te env p) g"
  by (simp_all add: topo_handle_call_def Let_def)

lemma control_op_sends:
  assumes "accepting_bus env" "(op, ty, key) \<in> set CONTROL_OPS" "dget p ''__op__'' = Some (JStr op)"
    and "dget p ''name'' = Some (JStr n)" "n \<noteq> ''''" "principal_id te p = Inr actor"
  shows "\<exists>a'. topo_handle_call te env p from g = (Inr (JDict (acknowledgement op key n actor)), g\<lparr>g_agent := a'\<rparr>)
      \<and> control_sent ty key n actor (g_agent g) a' \<and> a_current_message a' = a_current_message (g_agent g)"
proof -
  have n: "str_item te p ''name'' '''' = n" using assms(4) by (simp add: str_item_def as_str_def)
  note w = write_op_sends [OF assms(1) n assms(5,6)]
  have sent: "\<exists>a'. on_agent (write_op te env p
        (\<lambda>name actor. andThen (route_control_message te env ty name (body actor)) (\<lambda>a. (Inr (ack name actor), a)))) g
          = (Inr (JDict (acknowledgement op key n actor)), g\<lparr>g_agent := a'\<rparr>)
      \<and> control_sent ty key n actor (g_agent g) a' \<and> a_current_message a' = a_current_message (g_agent g)"
    if "dget (body actor) key = Some (JStr actor)" "ack n actor = acknowledgement op key n actor" for ty body ack
  proof -
    let ?m = "control_message te env ty n (body actor) (g_agent g)"
    have "snd (route_control_message te env ty n (body actor) (g_agent g)) = log_event (EvRoute ?m) (tick_uid (g_agent g))"
      using assms(1) by (simp add: route_control_message_def route_def accepting_bus_def)
    with that show ?thesis
      by (intro exI [of _ "log_event (EvRoute ?m) (tick_uid (g_agent g))"])
         (simp add: on_agent_def w control_sent_def log_event_def tick_uid_def)
  qed
  consider "op = ''suspend''" "ty = ''_agency.suspend''" "key = ''initiated_by''" | "op = ''resume''" "ty = ''_agency.resume''" "key = ''approver''"
    | "op = ''restart''" "ty = ''_agency.force_restart''" "key = ''initiated_by''"
    using assms(2) unfolding CONTROL_OPS_def by auto
  then show ?thesis
  proof cases
    case 1
    show ?thesis unfolding topo_handle_call_ops(1) [OF assms(3) [unfolded 1]] op_suspend_def 1(2)
      by (rule sent) (simp_all add: 1 acknowledgement_def)
  next
    case 2
    show ?thesis unfolding topo_handle_call_ops(2) [OF assms(3) [unfolded 2]] op_resume_def 2(2)
      by (rule sent) (simp_all add: 2 acknowledgement_def)
  next
    case 3
    show ?thesis unfolding topo_handle_call_ops(3) [OF assms(3) [unfolded 3]] op_restart_def 3(2)
      by (rule sent) (simp_all add: 3 acknowledgement_def)
  qed
qed

lemma topology_answers_write:
  assumes "accepting_bus senv" "(op, ty, key) \<in> set CONTROL_OPS" "dget (m_payload q) ''__op__'' = Some (JStr op)"
    and "dget (m_payload q) ''name'' = Some (JStr n)" "n \<noteq> ''''" "principal_id te (m_payload q) = Inr actor"
  shows "\<exists>out g'. answer senv (topo_hooks te senv h) raddr q g = (Inr out, g') \<and> m_payload out = acknowledgement op key n actor
      \<and> control_sent ty key n actor (g_agent g) (g_agent g')"
proof -
  let ?g = "gs_span senv ''civitas.genserver.call'' (g\<lparr>g_agent := (g_agent g)\<lparr>a_current_message := Some (delivered raddr q)\<rparr>\<rparr>)"
  have p: "m_payload (delivered raddr q) = m_payload q" "m_reply_to (delivered raddr q) = Some raddr" by (simp_all add: delivered_def)
  obtain a' where h: "topo_handle_call te senv (m_payload q) (m_sender (delivered raddr q)) ?g
      = (Inr (JDict (acknowledgement op key n actor)), ?g\<lparr>g_agent := a'\<rparr>)" "control_sent ty key n actor (g_agent ?g) a'" "a_current_message a' = Some (delivered raddr q)"
    using control_op_sends [OF assms, of "m_sender (delivered raddr q)" ?g] by auto
  have "routed (a_events (g_agent ?g)) = routed (a_events (g_agent g))"
    by (simp add: gs_span_def log_event_def)
  with h(2) have "control_sent ty key n actor (g_agent g) a'" by (simp add: control_sent_def)
  with h show ?thesis
    by (simp add: answer_def gs_handle_def p do_call_def topo_hooks_def reply_def reply_to_message_def)
qed

lemma dispatch_reaches_topology:
  assumes "gw_request env = answer senv (topo_hooks te senv h) raddr" "c_has_bus (gw_env env)" "reject_reserved_type t = Inr ()"
    and "accepting_bus senv" "(op, ty, key) \<in> set CONTROL_OPS" "dget p ''__op__'' = Some (JStr op)"
    and "dget p ''name'' = Some (JStr n)" "n \<noteq> ''''" "principal_id te p = Inr actor"
  shows "\<exists>g'. dispatch_call env recipient p t g = (Inr (new_result OK (acknowledgement op key n actor) None), g')
      \<and> control_sent ty key n actor (g_agent (gw_rest g)) (g_agent (gw_rest g'))"
proof -
  obtain m a where m: "ask_message (gw_env env) recipient p t (gw_agent g) = (Inr m, a)" "m_payload m = p"
    using assms(2,3) by (auto simp: ask_message_def Let_def)
  obtain out w where "gw_request env m (gw_rest g) = (Inr out, w)" "m_payload out = acknowledgement op key n actor"
    "control_sent ty key n actor (g_agent (gw_rest g)) (g_agent w)"
    using topology_answers_write [OF assms(4,5), of m n te actor h raddr "gw_rest g"] assms(1,6-9) m(2) by auto
  moreover have "dget (acknowledgement op key n actor) ''error'' = None"
    using assms(5) by (auto simp: acknowledgement_def CONTROL_OPS_def)
  ultimately show ?thesis using m by (auto simp: dispatch_call_def gw_ask_def)
qed

section \<open>Properties\<close>

text \<open>C11. A control-plane write from end to end. A request with a valid bearer token on one of the
  suspend, resume and restart routes, handled by the JWT middleware, the dispatch handler, the bus and
  the topology agent, is answered with 200 and the acknowledgement of the topology agent, which names the
  operation, the agent and the actor, and makes the topology agent send exactly one control
  message: of the operation's type, with control priority, to the agent the path names, and with the
  subject of the token as the actor, whatever the client put in the body.\<close>

theorem control_plane_write_end_to_end:
  assumes "route_match table (rq_method rq) (rq_path rq) = Some (topology_write_route topo pfx mw (sfx, op), ps)"
    and "(op, ty, key) \<in> set CONTROL_OPS" "dget ps ''name'' = Some n" "n \<noteq> ''''"
    and "rq_gateway rq" "bearer_token rq = Some token" "verify token = Some claims" "dget claims ''sub'' = Some (JStr sub)" "sub \<noteq> ''''"
    and "gw_request env = answer senv (topo_hooks te senv h) raddr" "c_has_bus (gw_env env)" "accepting_bus senv"
    and "reject_reserved_type (msg_type_of rq) = Inr ()" "py_str (JStr sub) = sub"
  shows "\<exists>g'. build_chain [require_jwt py_str (Some verify)] (dispatch_handler env table) rq g
        = (Inr (new_response 200 (acknowledgement op key n sub)), g')
      \<and> control_sent ty key n sub (g_agent (gw_rest g)) (g_agent (gw_rest g'))"
proof -
  let ?e = "topology_write_route topo pfx mw (sfx, op)"
  let ?rq = "set_auth [(''claims'', JDict claims), (''principal'', JDict (jwt_principal py_str claims))] rq"
  let ?p = "route_payload ?e ps ?rq"
  note f = topology_write_route_fields [of topo pfx mw sfx op]
  have chain: "build_chain [require_jwt py_str (Some verify)] (dispatch_handler env table) rq g = dispatch_handler env table ?rq g"
    using assms(5-7) by (simp add: require_jwt_def)
  have rq: "rq_method ?rq = rq_method rq" "rq_path ?rq = rq_path rq" "msg_type_of ?rq = msg_type_of rq"
    by (simp_all add: set_auth_def msg_type_of_def)
  have ok: "dict_ok (map (\<lambda>(k, v). (k, JStr v)) ps)"
    using route_match_dict_ok [OF assms(1)] by (simp add: case_prod_unfold comp_def)
  have pr: "principal_of ?rq = JDict [(''id'', JStr sub), (''method'', JStr ''jwt'')]"
    using assms(8,9,14) by (simp add: principal_of_def set_auth_def jwt_principal_def dict_simps)
  have p: "dget ?p ''__op__'' = Some (JStr op)" "dget ?p ''name'' = Some (JStr n)" "principal_id te ?p = Inr sub"
    using assms(3) ok pr by (simp_all add: route_payload_def f Let_def dict_simps dget_map_JStr principal_id_def str_item_def as_str_def)
  obtain g' where d: "dispatch_call env topo ?p (msg_type_of rq) g = (Inr (new_result OK (acknowledgement op key n sub) None), g')"
    "control_sent ty key n sub (g_agent (gw_rest g)) (g_agent (gw_rest g'))"
    using dispatch_reaches_topology [OF assms(10,11,13,12,2) p(1,2) assms(4) p(3)] by blast
  have "\<not> rt_raw_response ?e" by (simp add: topology_write_route_def new_route_def)
  with assms(1) d(1) have "dispatch_handler env table ?rq g = (Inr (new_response 200 (acknowledgement op key n sub)), g')"
    by (simp add: dispatch_handler_def rq f Let_def dispatch_def finish_dispatch_def result_to_response_def new_result_def)
  with d(2) chain show ?thesis by simp
qed

definition plain_topo_env :: topo_env where
  "plain_topo_env = \<lparr>te_dumps = \<lambda>v. '''', te_str = \<lambda>v. '''', te_repr = \<lambda>s. s, te_new_trace_id = \<lambda>n. '''', te_transport_class = None,
     te_snapshot = None, te_prometheus = '''', te_runtime_sample = None, te_worker_sample = \<lambda>c. None\<rparr>"

definition plain_topo_hooks :: "topology_agent gs_hooks" where
  "plain_topo_hooks = topo_hooks plain_topo_env (base_env ''topo'')
     \<lparr>h_init = \<lambda>g. (Inr (), g), h_call = \<lambda>p s g. (Inl RuntimeError, g), h_cast = \<lambda>p g. (Inr (), g), h_info = \<lambda>p g. (Inr (), g)\<rparr>"

definition topo_gw_env :: "topology_agent gen_server gw_env" where
  "topo_gw_env = \<lparr>gw_env = base_env ''gw'', gw_request = answer (base_env ''topo'') plain_topo_hooks ''_reply.1'',
     gw_str = \<lambda>v. case v of JStr s \<Rightarrow> s | _ \<Rightarrow> '''', gw_int = \<lambda>v. Inr 200, gw_dumps = \<lambda>v. ''''\<rparr>"

definition topo_gateway :: "topology_agent gen_server gateway" where
  "topo_gateway = \<lparr>gw_agent = new_agent (base_env ''gw'') None None 0, gw_stream_sinks = [], gw_requests = [],
     gw_rest = new_gen_server (new_agent (base_env ''topo'') None None 0) \<lparr>ta_root_supervisor = None, ta_agents = []\<rparr>\<rparr>"

definition token_request :: gateway_request where
  "token_request = spoofing_request\<lparr>rq_headers := [(''authorization'', ''Bearer t'')]\<rparr>"

lemma topo_gw_env_facts:
  "\<exists>h. gw_request topo_gw_env = answer (base_env ''topo'') (topo_hooks plain_topo_env (base_env ''topo'') h) ''_reply.1''"
  "c_has_bus (gw_env topo_gw_env)" "accepting_bus (base_env ''topo'')"
  by (auto simp: topo_gw_env_def plain_topo_hooks_def base_env_def accepting_bus_def)

theorem control_plane_write_end_to_end_witness:
  "\<exists>g'. build_chain [require_jwt (\<lambda>v. case v of JStr s \<Rightarrow> s | _ \<Rightarrow> '''') (Some (\<lambda>t. if t = ''t'' then Some [(''sub'', JStr ''alice'')] else None))]
        (dispatch_handler topo_gw_env (build_topology_routes ''topo'' '''' [''my.auth''])) token_request topo_gateway
        = (Inr (new_response 200 (acknowledgement ''suspend'' ''initiated_by'' ''worker'' ''alice'')), g')
      \<and> control_sent ''_agency.suspend'' ''initiated_by'' ''worker'' ''alice'' (g_agent (gw_rest topo_gateway)) (g_agent (gw_rest g'))"
proof -
  have m: "route_match (build_topology_routes ''topo'' '''' [''my.auth'']) (rq_method token_request) (rq_path token_request)
      = Some (topology_write_route ''topo'' '''' [''my.auth''] (''/agents/{name}/suspend'', ''suspend''), [(''name'', ''worker'')])"
    by code_simp
  have ops: "(''suspend'', ''_agency.suspend'', ''initiated_by'') \<in> set CONTROL_OPS" by (simp add: CONTROL_OPS_def)
  have n: "dget [(''name'', ''worker'')] ''name'' = Some ''worker''" "''worker'' \<noteq> ''''" by simp_all
  have rq: "rq_gateway token_request" "bearer_token token_request = Some ''t''" "reject_reserved_type (msg_type_of token_request) = Inr ()"
    by code_simp+
  obtain h where h: "gw_request topo_gw_env = answer (base_env ''topo'') (topo_hooks plain_topo_env (base_env ''topo'') h) ''_reply.1''"
    using topo_gw_env_facts(1) by blast
  show ?thesis
    by (rule control_plane_write_end_to_end [OF m ops n rq(1,2) _ _ _ h topo_gw_env_facts(2,3) rq(3),
          where claims = "[(''sub'', JStr ''alice'')]" and sub = "''alice''"]) simp_all
qed

lemma topology_segments:
  "map (\<lambda>e. (rt_method e, length (rt_segments e))) (build_topology_routes topo '''' mw) =
     map (\<lambda>n. (''GET'', n)) [1, 1, 1, 2, 3, 1, 1, 1] @ map (\<lambda>n. (''POST'', n)) [3, 3, 3, 3]"
proof -
  have up: "py_upper ''GET'' = ''GET''" "py_upper ''POST'' = ''POST''" by code_simp+
  have seg: "map (\<lambda>(sfx, op, b). length (parse_pattern sfx)) TOPOLOGY_ROUTE_SPECS = [1, 1, 1, 2, 3, 1, 1, 1]"
    "map (\<lambda>(sfx, op). length (parse_pattern sfx)) TOPOLOGY_WRITE_ROUTE_SPECS = [3, 3, 3, 3]"
    by code_simp+
  have "map (\<lambda>e. (rt_method e, length (rt_segments e))) (build_topology_routes topo '''' mw) =
      map (\<lambda>n. (''GET'', n)) (map (\<lambda>(sfx, op, b). length (parse_pattern sfx)) TOPOLOGY_ROUTE_SPECS)
      @ map (\<lambda>n. (''POST'', n)) (map (\<lambda>(sfx, op). length (parse_pattern sfx)) TOPOLOGY_WRITE_ROUTE_SPECS)"
    by (simp add: build_topology_routes_def py_rstrip_def topology_read_route_def topology_write_route_def new_route_def up
        comp_def case_prod_unfold)
  then show ?thesis unfolding seg .
qed

lemma no_route_for_agent_post:
  assumes "path_segments path = [x, y]"
  shows "route_match (build_topology_routes topo '''' mw) ''POST'' path = None"
proof -
  have "\<not> fits e ''POST'' [x, y]" if "e \<in> set (build_topology_routes topo '''' mw)" for e
  proof -
    have "(rt_method e, length (rt_segments e)) \<in> set (map (\<lambda>e. (rt_method e, length (rt_segments e))) (build_topology_routes topo '''' mw))"
      using that by simp
    then have "rt_method e = ''GET'' \<or> length (rt_segments e) = 3" unfolding topology_segments by auto
    moreover have "py_upper ''POST'' \<noteq> ''GET''" by code_simp
    ultimately show ?thesis by (auto simp: fits_def dest: list_all2_lengthD)
  qed
  then have "find (\<lambda>e. fits e ''POST'' (path_segments path)) (build_topology_routes topo '''' mw) = None"
    unfolding assms find_None_iff by blast
  with route_match_find(1) show ?thesis by (metis option.map_disc_iff)
qed

lemma agent_path:
  assumes "topo \<noteq> ''''" "CHR ''/'' \<notin> set topo"
  shows "path_segments (''/agents/'' @ topo) = [''agents'', topo]"
    "default_route ''POST'' (''/agents/'' @ topo) body = Some (topo, ''call'', body)"
proof -
  have path: "''/agents/'' @ topo = CHR ''/'' # py_join (CHR ''/'') [''agents'', topo]" by simp
  have ws: "[''agents'', topo] \<noteq> []" "\<forall>w \<in> set [''agents'', topo]. w \<noteq> [] \<and> CHR ''/'' \<notin> set w" using assms by simp_all
  note ss = split_strip_join [OF ws]
  show "path_segments (''/agents/'' @ topo) = [''agents'', topo]"
    unfolding path path_segments_def Let_def if_not_P [OF ss(2)] by (rule ss(1))
  show "default_route ''POST'' (''/agents/'' @ topo) body = Some (topo, ''call'', body)"
    unfolding path default_route_def ss(1) using assms(1) by simp
qed

text \<open>C39. The default routes go around the authentication of the control plane. The middleware of the
  topology routes is attached to those routes only, and a request that matches no route falls back to
  the default routes: a \<^verbatim>\<open>POST\<close> to \<^verbatim>\<open>/agents/\<close> followed by the topology agent's own name
  matches none of them, whatever middleware they require, and its body becomes the payload as it is. So
  a body with an operation, a target and a principal of the client's choice is carried out, with no
  route middleware run and the invented principal as the actor.\<close>

theorem default_route_bypasses_topology_auth:
  assumes "map fst (ga_routes ga) = build_topology_routes topo '''' mw" "ga_middlewares ga = []"
    and "topo \<noteq> ''''" "CHR ''/'' \<notin> set topo" "hs_method sc = ''POST''" "hs_path sc = ''/agents/'' @ topo"
    and "read_body [] (hs_body sc) = Some bytes"
    and "parse_body ae bytes (case dget (scope_headers (hs_headers sc)) ''content-type'' of None \<Rightarrow> '''' | Some t \<Rightarrow> t) = Inr body"
    and "dget (scope_headers (hs_headers sc)) ''x-civitas-type'' = None"
    and "(op, ty, key) \<in> set CONTROL_OPS" "dget body ''__op__'' = Some (JStr op)" "dget body ''name'' = Some (JStr n)" "n \<noteq> ''''"
    and "dget body ''__principal__'' = Some (JDict [(''id'', JStr who)])"
    and "gw_request env = answer senv (topo_hooks te senv h) raddr" "c_has_bus (gw_env env)" "accepting_bus senv"
  shows "\<exists>evs g'. handle_http env ae ga sc g = Some ((evs, Inr ()), g')
      \<and> control_sent ty key n who (g_agent (gw_rest g)) (g_agent (gw_rest g'))"
proof -
  let ?table = "build_topology_routes topo '''' mw"
  have nomatch: "route_match ?table ''POST'' (hs_path sc) = None"
    unfolding assms(6) by (rule no_route_for_agent_post [OF agent_path(1) [OF assms(3,4)]])
  let ?rq = "new_request ae (ga_config ga) sc None body"
  have rq: "rq_method ?rq = ''POST''" "rq_path ?rq = hs_path sc" "rq_body ?rq = body" "msg_type_of ?rq = ''http.request''"
    using assms(5,9) by (simp_all add: new_request_def msg_type_of_def)
  have "principal_id te body = Inr who" using assms(14) by (simp add: principal_id_def str_item_def as_str_def)
  moreover have "reject_reserved_type ''http.request'' = Inr ()" by (simp add: reject_reserved_type_def)
  ultimately obtain ack g' where d: "dispatch_call env topo body ''http.request'' g = (Inr (new_result OK ack None), g')"
    "control_sent ty key n who (g_agent (gw_rest g)) (g_agent (gw_rest g'))"
    using dispatch_reaches_topology [OF assms(15,16) _ assms(17,10,11,12,13)] by blast
  have "dispatch_handler env ?table ?rq g = (Inr (new_response 200 ack), g')"
    using d(1) nomatch agent_path(2) [OF assms(3,4)]
    by (simp add: dispatch_handler_def rq assms(6) dispatch_def finish_dispatch_def result_to_response_def new_result_def)
  then have "\<exists>evs. handle_http env ae ga sc g = Some ((evs, Inr ()), g')"
    using nomatch by (simp add: handle_http_def Let_def assms(1,2,5,7,8) new_response_def)
  with d(2) show ?thesis by blast
qed

text \<open>A gateway whose topology routes all require an API key, and a request without one.\<close>

definition guarded_asgi :: "topology_agent gen_server gateway_asgi" where
  "guarded_asgi = \<lparr>ga_config = default_config, ga_middlewares = [],
     ga_routes = map (\<lambda>e. (e, [require_api_key (Some ''key'')])) (build_topology_routes ''topo'' '''' [''civitas.gateway.auth.require_api_key''])\<rparr>"

definition forged_body :: payload where
  "forged_body = [(''__op__'', JStr ''restart''), (''name'', JStr ''worker''), (''__principal__'', JDict [(''id'', JStr ''root'')])]"

definition forging_scope :: http_scope where
  "forging_scope = \<lparr>hs_method = ''POST'', hs_path = ''/agents/topo'', hs_headers = [], hs_query_string = '''', hs_client = None,
     hs_tls = None, hs_body = [(''{}'', False)]\<rparr>"

definition forging_env :: asgi_env where
  "forging_env = \<lparr>ae_loads = \<lambda>s. Some (JDict forged_body), ae_multipart = \<lambda>b t. None, ae_in_cidr = \<lambda>a c. None, ae_der_dn = \<lambda>d. None,
     ae_swagger = \<lambda>u. '''', ae_openapi = '''', ae_arrivals = \<lambda>c. []\<rparr>"

theorem default_route_bypasses_topology_auth_witness:
  "\<exists>evs g'. handle_http topo_gw_env forging_env guarded_asgi forging_scope topo_gateway = Some ((evs, Inr ()), g')
      \<and> control_sent ''_agency.force_restart'' ''initiated_by'' ''worker'' ''root''
          (g_agent (gw_rest topo_gateway)) (g_agent (gw_rest g'))"
proof -
  obtain h where h: "gw_request topo_gw_env = answer (base_env ''topo'') (topo_hooks plain_topo_env (base_env ''topo'') h) ''_reply.1''"
    using topo_gw_env_facts(1) by blast
  have ga: "map fst (ga_routes guarded_asgi) = build_topology_routes ''topo'' '''' [''civitas.gateway.auth.require_api_key'']"
    "ga_middlewares guarded_asgi = []"
    by (simp_all add: guarded_asgi_def comp_def)
  have sc: "hs_method forging_scope = ''POST''" "hs_path forging_scope = ''/agents/'' @ ''topo''"
    "read_body [] (hs_body forging_scope) = Some ''{}''"
    "parse_body forging_env ''{}'' (case dget (scope_headers (hs_headers forging_scope)) ''content-type'' of None \<Rightarrow> '''' | Some t \<Rightarrow> t) = Inr forged_body"
    "dget (scope_headers (hs_headers forging_scope)) ''x-civitas-type'' = None"
    by (simp_all add: forging_scope_def forging_env_def parse_body_def scope_headers_def)
  have b: "(''restart'', ''_agency.force_restart'', ''initiated_by'') \<in> set CONTROL_OPS" "dget forged_body ''__op__'' = Some (JStr ''restart'')"
    "dget forged_body ''name'' = Some (JStr ''worker'')" "''worker'' \<noteq> ''''"
    "dget forged_body ''__principal__'' = Some (JDict [(''id'', JStr ''root'')])"
    by (simp_all add: forged_body_def CONTROL_OPS_def)
  show ?thesis
    by (rule default_route_bypasses_topology_auth [OF ga _ _ sc b h topo_gw_env_facts(2,3)]) simp_all
qed

text \<open>An agent with other payloads in its queued messages.\<close>

definition redact :: "(message \<Rightarrow> payload) \<Rightarrow> agent_view \<Rightarrow> agent_view" where
  "redact f v = v\<lparr>av_agent := (av_agent v)\<lparr>a_mailbox := (a_mailbox (av_agent v))
     \<lparr>mb_queue := map (\<lambda>m. m\<lparr>m_payload := f m\<rparr>) (mb_queue (a_mailbox (av_agent v))),
      mb_priority_queue := map (\<lambda>m. m\<lparr>m_payload := f m\<rparr>) (mb_priority_queue (a_mailbox (av_agent v)))\<rparr>\<rparr>\<rparr>"

text \<open>What the mailbox operations can do. An injection either answers without any effect or sends
  exactly one message, to the named agent, with business priority and with a type outside the reserved
  name spaces, and leaves an audit record that names target, type and actor and nothing of the payload.
  A peek changes nothing, and its answer does not depend on the payloads of the queued messages.\<close>

theorem mailbox_operations_confined:
  assumes "accepting_bus env" "op_mailbox_inject te env p a = (r, a')"
  shows "(a' = a
      \<or> (\<exists>m actor. routed (a_events a') = routed (a_events a) @ [m] \<and> m_recipient m = str_item te p ''name'' '''' \<and> m_priority m = 0
            \<and> m_type m = str_item te p ''type'' '''' \<and> \<not> startswith (m_type m) ''_agency.'' \<and> \<not> startswith (m_type m) ''civitas.''
            \<and> a_events a' = a_events a @ [EvRoute m] @ (if c_has_audit env then [EvAudit ''mailbox.inject''
                 [(''target'', JStr (m_recipient m)), (''message_type'', JStr (m_type m)), (''initiated_by'', JStr actor)]] else [])))
    \<and> (\<forall>g frm q. dget q ''__op__'' = Some (JStr ''mailbox_peek'') \<longrightarrow> snd (topo_handle_call te env q frm g) = g)
    \<and> (\<forall>t t' f. find_agent t' (str_item te p ''name'' '''') = map_option (redact f) (find_agent t (str_item te p ''name'' '''')) \<longrightarrow>
         op_mailbox_peek te t' p = op_mailbox_peek te t p)"
proof (intro conjI allI impI)
  let ?n = "str_item te p ''name'' ''''" and ?t = "str_item te p ''type'' ''''"
  show "a' = a
      \<or> (\<exists>m actor. routed (a_events a') = routed (a_events a) @ [m] \<and> m_recipient m = ?n \<and> m_priority m = 0
            \<and> m_type m = ?t \<and> \<not> startswith (m_type m) ''_agency.'' \<and> \<not> startswith (m_type m) ''civitas.''
            \<and> a_events a' = a_events a @ [EvRoute m] @ (if c_has_audit env then [EvAudit ''mailbox.inject''
                 [(''target'', JStr (m_recipient m)), (''message_type'', JStr (m_type m)), (''initiated_by'', JStr actor)]] else []))"
  proof (cases "a' = a")
    case False
    then obtain actor where ok: "\<not> startswith ?t ''_agency.''" "\<not> startswith ?t ''civitas.''" "principal_id te p = Inr actor"
      and w: "op_mailbox_inject te env p a = andThen (route env (inject_message te env ?n ?t p a))
                  (\<lambda>a'. (Inr [(''status'', JStr ''injected''), (''agent'', JStr ?n), (''message_type'', JStr ?t),
                             (''initiated_by'', JStr actor)],
                        emit_audit env ''mailbox.inject''
                          [(''target'', JStr ?n), (''message_type'', JStr ?t), (''initiated_by'', JStr actor)] a')) a"
      using assms(2) by (auto simp: op_mailbox_inject_def Let_def split: if_splits sum.splits)
    let ?m = "inject_message te env ?n ?t p a"
    have "a' = emit_audit env ''mailbox.inject'' [(''target'', JStr ?n), (''message_type'', JStr ?t), (''initiated_by'', JStr actor)]
            (log_event (EvRoute ?m) (tick_uid a))"
      using assms w by (simp add: andThen_def route_def accepting_bus_def)
    moreover have "m_recipient ?m = ?n" "m_type ?m = ?t" "m_priority ?m = 0" by (simp_all add: inject_message_def)
    ultimately show ?thesis
      using ok(1,2) by (intro disjI2 exI [of _ ?m] exI [of _ actor]) (simp add: emit_audit_def log_event_def tick_uid_def)
  qed simp
next
  fix g :: "topology_agent gen_server" and frm q
  assume "dget q ''__op__'' = Some (JStr ''mailbox_peek'')"
  then show "snd (topo_handle_call te env q frm g) = g" by (simp add: topo_handle_call_ops)
next
  fix t t' f assume r: "find_agent t' (str_item te p ''name'' '''') = map_option (redact f) (find_agent t (str_item te p ''name'' ''''))"
  have "peek_entry \<circ> (\<lambda>m. m\<lparr>m_payload := f m\<rparr>) = peek_entry" by (rule ext) (simp add: peek_entry_def)
  then show "op_mailbox_peek te t' p = op_mailbox_peek te t p"
    using r by (cases "find_agent t (str_item te p ''name'' '''')")
      (simp_all add: op_mailbox_peek_def Let_def redact_def mb_peek_def mb_depth_def)
qed

theorem mailbox_operations_confined_witness:
  "snd (op_mailbox_inject plain_topo_env (base_env ''topo'') [(''name'', JStr ''w''), (''type'', JStr ''civitas.eval.halt'')]
     (new_agent (base_env ''topo'') None None 0)) = new_agent (base_env ''topo'') None None 0"
proof -
  let ?p = "[(''name'', JStr ''w''), (''type'', JStr ''civitas.eval.halt'')]" and ?a = "new_agent (base_env ''topo'') None None 0"
  obtain r a' where op: "op_mailbox_inject plain_topo_env (base_env ''topo'') ?p ?a = (r, a')" by force
  have "str_item plain_topo_env ?p ''type'' '''' = ''civitas.eval.halt''" by (simp add: str_item_def as_str_def)
  with mailbox_operations_confined [OF topo_gw_env_facts(3) op] op show ?thesis by auto
qed

text \<open>A write for an unknown agent crashes the topology agent. The bus refuses the control message
  with \<^verbatim>\<open>MessageRoutingError\<close>, which no write operation handles, so the handler of the
  generic server raises it, with no reply for the caller; under the default error policy that is a crash
  of the topology agent.\<close>

theorem unknown_target_raises:
  assumes "c_has_bus senv" "\<And>m a. m_recipient m = n \<Longrightarrow> e_route senv m a = (Inl MessageRoutingError, a)"
    and "(op, ty, key) \<in> set CONTROL_OPS" "dget (m_payload q) ''__op__'' = Some (JStr op)"
    and "dget (m_payload q) ''name'' = Some (JStr n)" "n \<noteq> ''''" "principal_id te (m_payload q) = Inr actor" "m_reply_to q \<noteq> None"
  shows "fst (gs_handle senv (topo_hooks te senv h) q g) = Inl MessageRoutingError"
proof -
  have n: "str_item te (m_payload q) ''name'' '''' = n" using assms(5) by (simp add: str_item_def as_str_def)
  have w: "fst (on_agent (write_op te senv (m_payload q)
        (\<lambda>name actor. andThen (route_control_message te senv ty name (body actor)) (\<lambda>a. (Inr (ack name actor), a)))) g) = Inl MessageRoutingError"
    for ty body ack g
    using assms(1,2,6,7) n
    by (simp add: on_agent_def write_op_def Let_def andThen_def route_control_message_def route_def control_message_def)
  have "fst (topo_handle_call te senv (m_payload q) frm g) = Inl MessageRoutingError" for frm g
  proof -
    consider "op = ''suspend''" | "op = ''resume''" | "op = ''restart''" using assms(3) unfolding CONTROL_OPS_def by auto
    then show ?thesis
    proof cases
      case 1 show ?thesis unfolding topo_handle_call_ops(1) [OF assms(4) [unfolded 1]] op_suspend_def by (rule w)
    next
      case 2 show ?thesis unfolding topo_handle_call_ops(2) [OF assms(4) [unfolded 2]] op_resume_def by (rule w)
    next
      case 3 show ?thesis unfolding topo_handle_call_ops(3) [OF assms(4) [unfolded 3]] op_restart_def by (rule w)
    qed
  qed
  then have "\<exists>g'. topo_handle_call te senv (m_payload q) (m_sender q) (gs_span senv ''civitas.genserver.call'' g) = (Inl MessageRoutingError, g')"
    by (metis prod.collapse)
  with assms(8) show ?thesis by (auto simp: gs_handle_def do_call_def topo_hooks_def)
qed

theorem unknown_target_raises_witness:
  "fst (gs_handle ((base_env ''topo'')\<lparr>e_route := \<lambda>m a. (Inl MessageRoutingError, a)\<rparr>)
      (topo_hooks plain_topo_env ((base_env ''topo'')\<lparr>e_route := \<lambda>m a. (Inl MessageRoutingError, a)\<rparr>) plain_topo_hooks)
      ((default_message ''1'' 0)\<lparr>m_payload := forged_body, m_reply_to := Some ''_reply.1''\<rparr>) (gw_rest topo_gateway))
   = Inl MessageRoutingError"
proof -
  let ?env = "(base_env ''topo'')\<lparr>e_route := \<lambda>m a. (Inl MessageRoutingError, a)\<rparr>"
  let ?q = "(default_message ''1'' 0)\<lparr>m_payload := forged_body, m_reply_to := Some ''_reply.1''\<rparr>"
  have e: "c_has_bus ?env" "\<And>m a. m_recipient m = ''worker'' \<Longrightarrow> e_route ?env m a = (Inl MessageRoutingError, a)"
    by (simp_all add: base_env_def)
  have b: "(''restart'', ''_agency.force_restart'', ''initiated_by'') \<in> set CONTROL_OPS" "dget (m_payload ?q) ''__op__'' = Some (JStr ''restart'')"
    "dget (m_payload ?q) ''name'' = Some (JStr ''worker'')" "''worker'' \<noteq> ''''" "principal_id plain_topo_env (m_payload ?q) = Inr ''root''"
    "m_reply_to ?q \<noteq> None"
    by (simp_all add: forged_body_def CONTROL_OPS_def principal_id_def str_item_def as_str_def)
  show ?thesis by (rule unknown_target_raises [OF e b])
qed

end
