(* ===== verification/Security.thy ===== *)
theory Security
  imports Message_Bus Supervisor
begin

text \<open>
  \<^verbatim>\<open>src/civitas/security/\<close>: the configuration, the identities and the key registry, the cache
  of nonces, the signer and the signing serializer, with the handlers of
  \<^verbatim>\<open>src/civitas/runtime.py\<close> that apply the announcements it verifies. msgpack is a
  \<^typ>\<open>'d codec\<close>; Ed25519 (signing, the public key of a private key, verifying, reading a public
  key from base64) is a parameter; the nonce that \<^verbatim>\<open>os.urandom\<close> draws is an argument.
\<close>

section \<open>Configuration\<close>

text \<open>The dataclasses keep what the YAML says; the code reads the flags by their truth value.\<close>

record identity_config =
  ic_mode :: json
  ic_key_dir :: string

record signing_config =
  sc_enabled :: json
  sc_algorithm :: json
  sc_require_verification :: json
  sc_allow_unsigned :: json

record zmq_curve_config =
  zc_enabled :: json
  zc_server_public_key :: json
  zc_server_secret_key :: json
  zc_client_public_key :: json
  zc_client_secret_key :: json

record nats_tls_config =
  nt_enabled :: json
  nt_cert :: "string option"
  nt_key :: "string option"
  nt_ca :: "string option"
  nt_nkey_seed :: json

record transport_security_config =
  ts_zmq :: zmq_curve_config
  ts_nats :: nats_tls_config

record security_config =
  se_identity :: identity_config
  se_signing :: signing_config
  se_transport :: transport_security_config

text \<open>\<^verbatim>\<open>Path(x)\<close>, and \<^verbatim>\<open>Path(x) if x else None\<close>.\<close>

definition py_path :: "json \<Rightarrow> string result" where
  "py_path v = (case v of JStr s \<Rightarrow> Inr s | _ \<Rightarrow> Inl TypeError)"

definition path_or_none :: "json \<Rightarrow> string option result" where
  "path_or_none v = (if truthy v then map_sum id Some (py_path v) else Inr None)"

definition zmq_from_dict :: "payload \<Rightarrow> zmq_curve_config" where
  "zmq_from_dict d =
     \<lparr>zc_enabled = get_or (JBool False) d ''enabled'',
      zc_server_public_key = get_or (JStr '''') d ''server_public_key'',
      zc_server_secret_key = get_or (JStr '''') d ''server_secret_key'',
      zc_client_public_key = get_or (JStr '''') d ''client_public_key'',
      zc_client_secret_key = get_or (JStr '''') d ''client_secret_key''\<rparr>"

definition nats_from_dict :: "payload \<Rightarrow> nats_tls_config result" where
  "nats_from_dict d =
     bind_r (get_block d ''tls'') (\<lambda>tls.
       (let cert_raw = get_or JNull tls ''cert''; key_raw = get_or JNull tls ''key''; ca_raw = get_or JNull tls ''ca''
        in bind_r (path_or_none cert_raw) (\<lambda>cert.
           bind_r (path_or_none key_raw) (\<lambda>key.
           bind_r (path_or_none ca_raw) (\<lambda>ca.
             Inr \<lparr>nt_enabled = get_or (JBool (truthy cert_raw \<or> truthy key_raw \<or> truthy ca_raw)) tls ''enabled'',
                  nt_cert = cert, nt_key = key, nt_ca = ca, nt_nkey_seed = get_or (JStr '''') d ''nkey_seed''\<rparr>)))))"

text \<open>\<^verbatim>\<open>zmq_data.get("curve", zmq_data)\<close>: the curve block, or the whole \<^verbatim>\<open>zmq\<close> block.\<close>

definition transport_from_dict :: "payload \<Rightarrow> transport_security_config result" where
  "transport_from_dict d =
     bind_r (get_block d ''zmq'') (\<lambda>zmq.
     bind_r (get_block d ''nats'') (\<lambda>nats.
     bind_r (case get_or (JDict zmq) zmq ''curve'' of JDict c \<Rightarrow> Inr (zmq_from_dict c) | _ \<Rightarrow> Inl AttributeError) (\<lambda>zc.
     bind_r (nats_from_dict nats) (\<lambda>nc. Inr \<lparr>ts_zmq = zc, ts_nats = nc\<rparr>))))"

definition signing_from_dict :: "payload \<Rightarrow> signing_config" where
  "signing_from_dict d =
     \<lparr>sc_enabled = get_or (JBool False) d ''enabled'', sc_algorithm = get_or (JStr ''ed25519'') d ''algorithm'',
      sc_require_verification = get_or (JBool True) d ''require_verification'',
      sc_allow_unsigned = get_or (JBool False) d ''allow_unsigned''\<rparr>"

definition security_from_dict :: "payload \<Rightarrow> security_config result" where
  "security_from_dict d =
     bind_r (get_block d ''identity'') (\<lambda>idd.
     bind_r (get_block d ''signing'') (\<lambda>sgd.
     bind_r (get_block d ''transport'') (\<lambda>trd.
     bind_r (py_path (get_or (JStr ''./civitas-keys'') idd ''key_dir'')) (\<lambda>kd.
     bind_r (transport_from_dict trd) (\<lambda>ts.
       Inr \<lparr>se_identity = \<lparr>ic_mode = get_or (JStr ''auto'') idd ''mode'', ic_key_dir = kd\<rparr>,
            se_signing = signing_from_dict sgd, se_transport = ts\<rparr>)))))"

text \<open>The condition that every rejection of the signer and of the serializer repeats.\<close>

definition strict :: "signing_config \<Rightarrow> bool" where
  "strict c \<longleftrightarrow> truthy (sc_require_verification c) \<and> \<not> truthy (sc_allow_unsigned c)"

section \<open>Identities and keys\<close>

record ('d, 'k, 'v) crypto =
  cr_codec :: "'d codec"
  cr_sign :: "'k \<Rightarrow> 'd \<Rightarrow> string"
  cr_verify_key :: "'k \<Rightarrow> 'v"
  cr_verify :: "'v \<Rightarrow> 'd \<Rightarrow> string \<Rightarrow> bool"
  cr_read_key :: "string \<Rightarrow> 'v result"
  cr_str :: "json \<Rightarrow> string"

record 'k identity =
  id_name :: string
  id_signing_key :: 'k

definition verify_key :: "('d, 'k, 'v) crypto \<Rightarrow> 'k identity \<Rightarrow> 'v" where
  "verify_key cr i = cr_verify_key cr (id_signing_key i)"

definition identity_sign :: "('d, 'k, 'v) crypto \<Rightarrow> 'k identity \<Rightarrow> 'd \<Rightarrow> string" where
  "identity_sign cr i data = cr_sign cr (id_signing_key i) data"

type_synonym 'v key_registry = "(string, 'v) dict"

definition kr_register :: "string \<Rightarrow> 'v \<Rightarrow> 'v key_registry \<Rightarrow> 'v key_registry" where
  "kr_register name k r = dput name k r"

definition kr_register_b64 :: "('d, 'k, 'v) crypto \<Rightarrow> string \<Rightarrow> string \<Rightarrow> 'v key_registry \<Rightarrow> 'v key_registry result" where
  "kr_register_b64 cr name b64 r = map_sum id (\<lambda>k. dput name k r) (cr_read_key cr b64)"

definition kr_get :: "'v key_registry \<Rightarrow> string \<Rightarrow> 'v option" where
  "kr_get r name = dget r name"

section \<open>Nonces\<close>

text \<open>The keys of the \<^verbatim>\<open>OrderedDict\<close>, oldest first. A nonce is whatever the sender put there:
  numbers that compare equal are the same key, lists and dictionaries cannot be hashed.\<close>

record nonce_cache =
  nc_cache :: "json list"
  nc_maxsize :: nat

definition new_nonce_cache :: "nat \<Rightarrow> nonce_cache" where
  "new_nonce_cache n = \<lparr>nc_cache = [], nc_maxsize = n\<rparr>"

definition hash_key :: "json \<Rightarrow> json result" where
  "hash_key v =
     (case v of
        JList xs \<Rightarrow> Inl TypeError
      | JDict d \<Rightarrow> Inl TypeError
      | JBool b \<Rightarrow> Inr (JInt (if b then 1 else 0))
      | JFloat r \<Rightarrow> Inr (if r = of_int \<lfloor>r\<rfloor> then JInt \<lfloor>r\<rfloor> else JFloat r)
      | _ \<Rightarrow> Inr v)"

definition nc_insert :: "json \<Rightarrow> nonce_cache \<Rightarrow> nonce_cache" where
  "nc_insert n c =
     (let xs = nc_cache c @ [n] in c\<lparr>nc_cache := (if length xs > nc_maxsize c then tl xs else xs)\<rparr>)"

definition check_and_add :: "json \<Rightarrow> nonce_cache \<Rightarrow> bool \<times> nonce_cache" where
  "check_and_add n c =
     (if n \<in> set (nc_cache c) then (False, c) else (True, nc_insert n c))"

section \<open>The signer\<close>

record ('k, 'v) signer =
  sg_identities :: "(string, 'k identity) dict"
  sg_registry :: "'v key_registry"
  sg_config :: signing_config
  sg_nonce_cache :: nonce_cache

definition new_signer :: "(string, 'k identity) dict \<Rightarrow> 'v key_registry \<Rightarrow> signing_config \<Rightarrow> ('k, 'v) signer" where
  "new_signer ids reg c =
     \<lparr>sg_identities = ids, sg_registry = reg, sg_config = c, sg_nonce_cache = new_nonce_cache 10000\<rparr>"

definition add_identity :: "'k identity \<Rightarrow> ('k, 'v) signer \<Rightarrow> ('k, 'v) signer" where
  "add_identity i s = s\<lparr>sg_identities := dput (id_name i) i (sg_identities s)\<rparr>"

definition trust :: "string \<Rightarrow> 'v \<Rightarrow> ('k, 'v) signer \<Rightarrow> ('k, 'v) signer" where
  "trust name k s = s\<lparr>sg_registry := kr_register name k (sg_registry s)\<rparr>"

text \<open>The bytes a signature covers: the envelope without the signature.\<close>

definition signed_bytes :: "('d, 'k, 'v) crypto \<Rightarrow> json \<Rightarrow> string \<Rightarrow> json \<Rightarrow> 'd" where
  "signed_bytes cr msg signer nonce =
     pack (cr_codec cr) [(''v'', JInt 2), (''msg'', msg), (''signer'', JStr signer), (''nonce'', nonce)]"

definition new_envelope :: "json \<Rightarrow> string \<Rightarrow> string \<Rightarrow> string \<Rightarrow> payload" where
  "new_envelope msg signer signature nonce =
     [(''v'', JInt 2), (''msg'', msg),
      (''sig'', JDict [(''signer'', JStr signer), (''alg'', JStr ''ed25519''), (''value'', JBytes signature), (''nonce'', JBytes nonce)])]"

definition signer_sign :: "('d, 'k, 'v) crypto \<Rightarrow> string \<Rightarrow> payload \<Rightarrow> ('k, 'v) signer \<Rightarrow> payload result" where
  "signer_sign cr nonce msg_dict s =
     (let sender = as_str (cr_str cr) (get_or (JStr '''') msg_dict ''sender'');
          signature = (case dget (sg_identities s) sender of
             Some i \<Rightarrow> identity_sign cr i (signed_bytes cr (JDict msg_dict) sender (JBytes nonce))
           | None \<Rightarrow> '''')
      in if signature = '''' \<and> strict (sg_config s) then Inl SignatureError
         else Inr (new_envelope (JDict msg_dict) sender signature nonce))"

definition signer_verify :: "('d, 'k, 'v) crypto \<Rightarrow> payload \<Rightarrow> ('k, 'v) signer \<Rightarrow> json result \<times> ('k, 'v) signer" where
  "signer_verify cr envelope s =
     (case get_or (JDict []) envelope ''sig'' of
        JDict sig \<Rightarrow>
          (let signer = as_str (cr_str cr) (get_or (JStr '''') sig ''signer'');
               nonce = get_or (JBytes '''') sig ''nonce'';
               signature = get_or (JBytes '''') sig ''value'';
               msg_dict = get_or (JDict []) envelope ''msg''
           in case hash_key nonce of
                Inl e \<Rightarrow> (Inl e, s)
              | Inr h \<Rightarrow>
                  (case check_and_add h (sg_nonce_cache s) of (fresh, c) \<Rightarrow>
                     (let s' = s\<lparr>sg_nonce_cache := c\<rparr>
                      in if \<not> fresh then (Inl SignatureError, s')
                         else case kr_get (sg_registry s) signer of
                           None \<Rightarrow> (if strict (sg_config s) then Inl SignatureError else Inr msg_dict, s')
                         | Some vk \<Rightarrow>
                             if \<not> truthy signature
                             then (if strict (sg_config s) then Inl SignatureError else Inr msg_dict, s')
                             else (if (case signature of
                                         JBytes b \<Rightarrow> cr_verify cr vk (signed_bytes cr msg_dict signer nonce) b
                                       | _ \<Rightarrow> False)
                                   then Inr msg_dict else Inl SignatureError, s'))))
      | _ \<Rightarrow> (Inl AttributeError, s))"

section \<open>The signing serializer\<close>

definition signing_serialize :: "('d, 'k, 'v) crypto \<Rightarrow> string \<Rightarrow> message \<Rightarrow> ('k, 'v) signer \<Rightarrow> 'd result" where
  "signing_serialize cr nonce m s = map_sum id (pack (cr_codec cr)) (signer_sign cr nonce (to_dict m) s)"

text \<open>\<^verbatim>\<open>raw.get("v") == 2\<close>, and \<^verbatim>\<open>Message.from_dict\<close> in its \<^verbatim>\<open>try\<close>; \<^const>\<open>None\<close> is
  an envelope with a field of an undeclared type, as for the plain serializer.\<close>

definition is_v2 :: "payload \<Rightarrow> bool" where
  "is_v2 raw \<longleftrightarrow> dget raw ''v'' \<in> {Some (JInt 2), Some (JFloat 2)}"

definition rebuild :: "string \<Rightarrow> real \<Rightarrow> json \<Rightarrow> message result option" where
  "rebuild fid now v =
     (case v of JDict d \<Rightarrow> map_option Inr (from_dict fid now d) | _ \<Rightarrow> Some (Inl DeserializationError))"

definition signing_deserialize ::
  "('d, 'k, 'v) crypto \<Rightarrow> string \<Rightarrow> real \<Rightarrow> 'd \<Rightarrow> ('k, 'v) signer \<Rightarrow> message result option \<times> ('k, 'v) signer" where
  "signing_deserialize cr fid now data s =
     (case unpack (cr_codec cr) data of
        Inl e \<Rightarrow> (Some (Inl DeserializationError), s)
      | Inr (JDict raw) \<Rightarrow>
          (if is_v2 raw \<and> dget raw ''sig'' \<noteq> None then
             (case signer_verify cr raw s of
                (Inl e, s') \<Rightarrow> (Some (Inl e), s')
              | (Inr v, s') \<Rightarrow> (rebuild fid now v, s'))
           else if strict (sg_config s) then (Some (Inl SignatureError), s)
           else (rebuild fid now (if is_v2 raw then get_or (JDict raw) raw ''msg'' else JDict raw), s))
      | Inr _ \<Rightarrow> (Some (Inl AttributeError), s))"


section \<open>Announcements\<close>

text \<open>
  The part of a runtime that applies announcements: the registry and, when signing is on, the signer,
  whose key registry is the object the runtime holds as \<^verbatim>\<open>_key_registry\<close>. A payload
  whose fields have undeclared types is outside the model (\<^const>\<open>None\<close>).
\<close>

record ('k, 'v) node =
  nd_signer :: "('k, 'v) signer option"
  nd_registry :: registry

definition node_deserialize ::
  "('d, 'k, 'v) crypto \<Rightarrow> string \<Rightarrow> real \<Rightarrow> 'd \<Rightarrow> ('k, 'v) node \<Rightarrow> message result option \<times> ('k, 'v) node" where
  "node_deserialize cr fid now data nd =
     (case nd_signer nd of
        None \<Rightarrow> (deserialize (cr_codec cr) fid now data, nd)
      | Some s \<Rightarrow> (case signing_deserialize cr fid now data s of (r, s') \<Rightarrow> (r, nd\<lparr>nd_signer := Some s'\<rparr>)))"

text \<open>\<^verbatim>\<open>str(payload.get(k, "") or "")\<close> and \<^verbatim>\<open>int(payload.get(k, 0) or 0)\<close>.\<close>

definition str_or_empty :: "('d, 'k, 'v) crypto \<Rightarrow> payload \<Rightarrow> string \<Rightarrow> string" where
  "str_or_empty cr p k = (let v = get_or (JStr '''') p k in if truthy v then as_str (cr_str cr) v else '''')"

definition int_or_zero :: "payload \<Rightarrow> string \<Rightarrow> int result" where
  "int_or_zero p k = (let v = get_or (JInt 0) p k in if truthy v then int_of_json v else Inr 0)"

fun str_list :: "json list \<Rightarrow> string list option" where
  "str_list [] = Some []"
| "str_list (JStr s # vs) = map_option (\<lambda>ss. s # ss) (str_list vs)"
| "str_list (v # vs) = None"

definition announced_capabilities :: "payload \<Rightarrow> string list option" where
  "announced_capabilities p =
     (let v = get_or JNull p ''capabilities''
      in if \<not> truthy v then Some [] else case v of JList vs \<Rightarrow> str_list vs | _ \<Rightarrow> None)"

definition announced_metadata :: "payload \<Rightarrow> payload option" where
  "announced_metadata p =
     (let v = get_or JNull p ''capability_metadata''
      in if \<not> truthy v then Some [] else case v of JDict d \<Rightarrow> Some d | _ \<Rightarrow> None)"

text \<open>The last step of \<^verbatim>\<open>_on_remote_register\<close>: record the announced public key.\<close>

definition learn_key :: "('d, 'k, 'v) crypto \<Rightarrow> string \<Rightarrow> string \<Rightarrow> ('k, 'v) node \<Rightarrow> unit result \<times> ('k, 'v) node" where
  "learn_key cr name pubkey nd =
     (case nd_signer nd of
        None \<Rightarrow> (Inr (), nd)
      | Some s \<Rightarrow>
          if pubkey = '''' then (Inr (), nd)
          else case kr_register_b64 cr name pubkey (sg_registry s) of
                 Inl e \<Rightarrow> (if e \<in> {ValueError, TypeError} then Inr () else Inl e, nd)
               | Inr reg \<Rightarrow> (Inr (), nd\<lparr>nd_signer := Some (s\<lparr>sg_registry := reg\<rparr>)\<rparr>))"

definition apply_register :: "('d, 'k, 'v) crypto \<Rightarrow> message \<Rightarrow> ('k, 'v) node \<Rightarrow> (unit result \<times> ('k, 'v) node) option" where
  "apply_register cr m nd =
     (let p = m_payload m; v = get_or (JStr '''') p ''name'' in
      if \<not> truthy v then Some (Inr (), nd)
      else case (v, int_or_zero p ''epoch'', announced_capabilities p, announced_metadata p) of
             (JStr name, Inr epoch, Some caps, Some meta) \<Rightarrow>
               (let pubkey = str_or_empty cr p ''pubkey'' in
                case register_remote name caps meta (m_sender m) pubkey epoch (str_or_empty cr p ''health_channel'') (nd_registry nd) of
                  Inl e \<Rightarrow> Some (if e = ValueError then Inr () else Inl e, nd)
                | Inr r \<Rightarrow> Some (learn_key cr name pubkey (nd\<lparr>nd_registry := r\<rparr>)))
           | (JStr name, Inl e, _) \<Rightarrow> Some (Inl e, nd)
           | _ \<Rightarrow> None)"

definition apply_deregister :: "message \<Rightarrow> ('k, 'v) node \<Rightarrow> (unit result \<times> ('k, 'v) node) option" where
  "apply_deregister m nd =
     (let p = m_payload m; v = get_or (JStr '''') p ''name'' in
      if \<not> truthy v then Some (Inr (), nd)
      else case (v, int_or_zero p ''epoch'') of
             (JStr name, Inr epoch) \<Rightarrow> Some (Inr (), nd\<lparr>nd_registry := deregister_remote name epoch (nd_registry nd)\<rparr>)
           | (JStr name, Inl e) \<Rightarrow> Some (Inl e, nd)
           | _ \<Rightarrow> None)"

text \<open>Both handlers drop what does not verify or does not decode; another exception of the serializer
  escapes them.\<close>

definition on_announcement ::
  "('d, 'k, 'v) crypto \<Rightarrow> string \<Rightarrow> real \<Rightarrow> (message \<Rightarrow> ('k, 'v) node \<Rightarrow> (unit result \<times> ('k, 'v) node) option) \<Rightarrow> 'd
     \<Rightarrow> ('k, 'v) node \<Rightarrow> (unit result \<times> ('k, 'v) node) option" where
  "on_announcement cr fid now app data nd =
     (case node_deserialize cr fid now data nd of
        (None, nd') \<Rightarrow> None
      | (Some (Inl e), nd') \<Rightarrow> Some (if e \<in> {SignatureError, DeserializationError} then Inr () else Inl e, nd')
      | (Some (Inr m), nd') \<Rightarrow> app m nd')"

definition on_remote_register ::
  "('d, 'k, 'v) crypto \<Rightarrow> string \<Rightarrow> real \<Rightarrow> 'd \<Rightarrow> ('k, 'v) node \<Rightarrow> (unit result \<times> ('k, 'v) node) option" where
  "on_remote_register cr fid now = on_announcement cr fid now (apply_register cr)"

definition on_remote_deregister ::
  "('d, 'k, 'v) crypto \<Rightarrow> string \<Rightarrow> real \<Rightarrow> 'd \<Rightarrow> ('k, 'v) node \<Rightarrow> (unit result \<times> ('k, 'v) node) option" where
  "on_remote_deregister cr fid now = on_announcement cr fid now apply_deregister"

text \<open>\<^verbatim>\<open>_on_runtime_addressed\<close>: what it routes, the error reply of a request. \<open>sid\<close> is the
  fresh span identifier; the dash of the text is written in ASCII.\<close>

definition runtime_sink_text :: string where
  "runtime_sink_text = [CHR 0x27] @ ''_runtime'' @ [CHR 0x27] @
     '' is not an agent - Runtime-initiated messages have no routable sender; use reply()/ask to return data to the caller''"

definition on_runtime_addressed ::
  "('d, 'k, 'v) crypto \<Rightarrow> string \<Rightarrow> string \<Rightarrow> real \<Rightarrow> 'd \<Rightarrow> ('k, 'v) node \<Rightarrow> (message list result \<times> ('k, 'v) node) option" where
  "on_runtime_addressed cr fid sid now data nd =
     (case node_deserialize cr fid now data nd of
        (None, nd') \<Rightarrow> None
      | (Some (Inl e), nd') \<Rightarrow> Some (if e \<in> {SignatureError, DeserializationError} then Inr [] else Inl e, nd')
      | (Some (Inr m), nd') \<Rightarrow>
          (let cid = (case m_correlation_id m of None \<Rightarrow> '''' | Some c \<Rightarrow> c)
           in Some (Inr (if cid \<noteq> '''' \<and> reply_address m \<noteq> ''''
                then [(default_message fid now)
                       \<lparr>m_type := ''reply'', m_sender := ''_runtime'', m_recipient := reply_address m,
                        m_payload := [(''status'', JStr ''error''), (''error'', JStr runtime_sink_text)],
                        m_correlation_id := m_correlation_id m, m_trace_id := m_trace_id m, m_span_id := sid,
                        m_parent_span_id := Some (m_span_id m)\<rparr>]
                else []), nd')))"


section \<open>What the nonce cache remembers\<close>

interpretation nonces: drop_oldest cap nc_insert nc_cache "\<lambda>c. nc_maxsize c = cap \<and> length (nc_cache c) \<le> cap" for cap
proof
  fix c :: nonce_cache and x
  assume ok: "nc_maxsize c = cap \<and> length (nc_cache c) \<le> cap"
  show "nc_cache (nc_insert x c) = keep_last cap (nc_cache c @ [x])"
    using ok by (cases "length (nc_cache c) < cap"; cases "nc_cache c") (auto simp: nc_insert_def Let_def keep_last_def drop_Suc)
  then show "nc_maxsize (nc_insert x c) = cap \<and> length (nc_cache (nc_insert x c)) \<le> cap"
    using ok by (simp add: nc_insert_def Let_def)
qed

abbreviation cache_ok :: "nonce_cache \<Rightarrow> bool" where
  "cache_ok c \<equiv> length (nc_cache c) \<le> nc_maxsize c"

definition nonces_of :: "('k, 'v) signer \<Rightarrow> json list" where
  "nonces_of s = nc_cache (sg_nonce_cache s)"

definition signer_ok :: "('k, 'v) signer \<Rightarrow> bool" where
  "signer_ok s \<longleftrightarrow> cache_ok (sg_nonce_cache s)"

abbreviation capacity :: "('k, 'v) signer \<Rightarrow> nat" where
  "capacity s \<equiv> nc_maxsize (sg_nonce_cache s)"

text \<open>Whatever arrives, a delivery changes nothing but the cache, by one nonce at most.\<close>

definition remembers :: "('k, 'v) signer \<Rightarrow> json list \<Rightarrow> ('k, 'v) signer \<Rightarrow> bool" where
  "remembers s hs s' \<longleftrightarrow>
     (\<exists>c. s' = s\<lparr>sg_nonce_cache := c\<rparr> \<and> nc_maxsize c = capacity s \<and> nc_cache c = keep_last (capacity s) (nonces_of s @ hs))"

lemma remembers_refl: "signer_ok s \<Longrightarrow> remembers s [] s"
  unfolding remembers_def by (rule exI [of _ "sg_nonce_cache s"]) (simp add: signer_ok_def nonces_of_def)

lemma remembers_trans: "remembers s hs t \<Longrightarrow> remembers t ks u \<Longrightarrow> remembers s (hs @ ks) u"
  by (auto simp: remembers_def nonces_of_def keep_last_keep_last_append)

lemma remembers_fields:
  "remembers s hs t \<Longrightarrow> sg_registry t = sg_registry s \<and> sg_config t = sg_config s \<and> sg_identities t = sg_identities s
     \<and> capacity t = capacity s \<and> signer_ok t \<and> nonces_of t = keep_last (capacity s) (nonces_of s @ hs)"
  by (auto simp: remembers_def signer_ok_def nonces_of_def)

lemma check_and_add_remembers:
  "signer_ok s \<Longrightarrow> \<exists>hs. length hs \<le> 1 \<and> remembers s hs (s\<lparr>sg_nonce_cache := snd (check_and_add h (sg_nonce_cache s))\<rparr>)"
proof (cases "h \<in> set (nc_cache (sg_nonce_cache s))")
  case True
  assume "signer_ok s"
  then show ?thesis using True remembers_refl [of s] by (intro exI [of _ "[]"]) (simp add: check_and_add_def)
next
  case False
  assume "signer_ok s"
  then show ?thesis
    using False nonces.put_contents [of "sg_nonce_cache s" "capacity s" h] nonces.put_ok [of "sg_nonce_cache s" "capacity s" h]
    by (intro exI [of _ "[h]"]) (auto simp: check_and_add_def remembers_def signer_ok_def nonces_of_def)
qed

lemma verify_remembers: "signer_ok s \<Longrightarrow> \<exists>hs. length hs \<le> 1 \<and> remembers s hs (snd (signer_verify cr env s))"
proof -
  assume ok: "signer_ok s"
  have "snd (signer_verify cr env s) = s \<or> (\<exists>h. snd (signer_verify cr env s) = s\<lparr>sg_nonce_cache := snd (check_and_add h (sg_nonce_cache s))\<rparr>)"
    by (auto simp: signer_verify_def Let_def split: json.splits sum.splits prod.splits option.splits) (metis snd_conv)+
  then show ?thesis using check_and_add_remembers [OF ok] remembers_refl [OF ok] by (metis list.size(3) zero_le_one)
qed

lemma deserialize_remembers: "signer_ok s \<Longrightarrow> \<exists>hs. length hs \<le> 1 \<and> remembers s hs (snd (signing_deserialize cr fid now data s))"
proof -
  assume ok: "signer_ok s"
  have "snd (signing_deserialize cr fid now data s) = s \<or> (\<exists>raw. snd (signing_deserialize cr fid now data s) = snd (signer_verify cr raw s))"
    by (auto simp: signing_deserialize_def split: json.splits sum.splits prod.splits) (metis snd_conv)+
  then show ?thesis using verify_remembers [OF ok] remembers_refl [OF ok] by (metis list.size(3) zero_le_one)
qed

text \<open>A sequence of deliveries.\<close>

definition deliver_all :: "('d, 'k, 'v) crypto \<Rightarrow> string \<Rightarrow> real \<Rightarrow> 'd list \<Rightarrow> ('k, 'v) signer \<Rightarrow> ('k, 'v) signer" where
  "deliver_all cr fid now ds s = fold (\<lambda>d s. snd (signing_deserialize cr fid now d s)) ds s"

lemma deliver_all_remembers: "signer_ok s \<Longrightarrow> \<exists>hs. length hs \<le> length ds \<and> remembers s hs (deliver_all cr fid now ds s)"
proof (induction ds arbitrary: s)
  case Nil
  then show ?case using remembers_refl by (fastforce simp: deliver_all_def)
next
  case (Cons d ds)
  obtain hs where hs: "length hs \<le> 1" "remembers s hs (snd (signing_deserialize cr fid now d s))"
    using deserialize_remembers [OF Cons.prems, of cr fid now d] by blast
  obtain ks where "length ks \<le> length ds" "remembers (snd (signing_deserialize cr fid now d s)) ks
      (deliver_all cr fid now ds (snd (signing_deserialize cr fid now d s)))"
    using Cons.IH [of "snd (signing_deserialize cr fid now d s)"] remembers_fields [OF hs(2)] by blast
  then show ?case using hs remembers_trans [OF hs(2)]
    by (intro exI [of _ "hs @ ks"]) (simp add: deliver_all_def)
qed


section \<open>Envelopes that verify\<close>

text \<open>What the code relies on of Ed25519: a signature made with a private key verifies under its public
  key, and is not empty (it has 64 bytes).\<close>

definition ed25519_ok :: "('d, 'k, 'v) crypto \<Rightarrow> bool" where
  "ed25519_ok cr \<longleftrightarrow> (\<forall>k data. cr_verify cr (cr_verify_key cr k) data (cr_sign cr k data) \<and> cr_sign cr k data \<noteq> '''')"

text \<open>The envelope that the holder of key \<open>k\<close> makes for any message under the name \<open>signer\<close>.\<close>

definition envelope_by :: "('d, 'k, 'v) crypto \<Rightarrow> 'k \<Rightarrow> string \<Rightarrow> string \<Rightarrow> message \<Rightarrow> 'd" where
  "envelope_by cr k signer nonce m =
     pack (cr_codec cr) (new_envelope (JDict (to_dict m)) signer
       (cr_sign cr k (signed_bytes cr (JDict (to_dict m)) signer (JBytes nonce))) nonce)"

lemma get_or_new_envelope [simp]:
  "get_or x (new_envelope msg signer sv nonce) ''msg'' = msg"
  "get_or x (new_envelope msg signer sv nonce) ''sig'' =
     JDict [(''signer'', JStr signer), (''alg'', JStr ''ed25519''), (''value'', JBytes sv), (''nonce'', JBytes nonce)]"
  "is_v2 (new_envelope msg signer sv nonce)"
  "dget (new_envelope msg signer sv nonce) ''sig'' \<noteq> None"
  by (simp_all add: new_envelope_def is_v2_def)

lemma envelope_accepted:
  assumes "codec_ok (cr_codec cr)" "ed25519_ok cr" "kr_get (sg_registry s) signer = Some (cr_verify_key cr k)"
    and "JBytes nonce \<notin> set (nonces_of s)"
  shows "signing_deserialize cr fid now (envelope_by cr k signer nonce m) s
     = (Some (Inr m), s\<lparr>sg_nonce_cache := nc_insert (JBytes nonce) (sg_nonce_cache s)\<rparr>)"
proof -
  let ?env = "new_envelope (JDict (to_dict m)) signer
       (cr_sign cr k (signed_bytes cr (JDict (to_dict m)) signer (JBytes nonce))) nonce"
  have "signer_verify cr ?env s = (Inr (JDict (to_dict m)), s\<lparr>sg_nonce_cache := nc_insert (JBytes nonce) (sg_nonce_cache s)\<rparr>)"
    using assms(2-4)
    by (simp add: signer_verify_def as_str_def hash_key_def check_and_add_def nonces_of_def ed25519_ok_def)
  then show ?thesis
    using assms(1) by (simp add: signing_deserialize_def envelope_by_def codec_ok_def rebuild_def from_dict_to_dict)
qed

lemma envelope_replayed:
  assumes "codec_ok (cr_codec cr)" "JBytes nonce \<in> set (nonces_of s)"
  shows "signing_deserialize cr fid now (envelope_by cr k signer nonce m) s = (Some (Inl SignatureError), s)"
proof -
  have "s\<lparr>sg_nonce_cache := sg_nonce_cache s\<rparr> = s" by simp
  then show ?thesis using assms
    by (simp add: signing_deserialize_def envelope_by_def codec_ok_def signer_verify_def hash_key_def check_and_add_def nonces_of_def)
qed

lemma insert_remembers:
  "signer_ok s \<Longrightarrow> remembers s [h] (s\<lparr>sg_nonce_cache := nc_insert h (sg_nonce_cache s)\<rparr>)"
  using nonces.put_contents [of "sg_nonce_cache s" "capacity s" h] nonces.put_ok [of "sg_nonce_cache s" "capacity s" h]
  by (auto simp: remembers_def signer_ok_def nonces_of_def)

lemma sender_of_to_dict [simp]: "get_or x (to_dict m) ''sender'' = JStr (m_sender m)"
  by (simp add: to_dict_def)

lemma serialize_own:
  "dget (sg_identities a) (m_sender m) = Some i \<Longrightarrow> ed25519_ok cr \<Longrightarrow>
   signing_serialize cr nonce m a = Inr (envelope_by cr (id_signing_key i) (m_sender m) nonce m)"
  by (simp add: signing_serialize_def signer_sign_def envelope_by_def identity_sign_def as_str_def ed25519_ok_def Let_def)

section \<open>Properties\<close>

text \<open>C12. Strict verification. With \<^verbatim>\<open>require_verification\<close> and without
  \<^verbatim>\<open>allow_unsigned\<close>, which is also what a configuration gives that mentions neither, a message
  comes out of the deserializer only when its bytes were an envelope whose signature, the bytes in its field
  \<^verbatim>\<open>value\<close>, is not empty and verifies, over exactly this message, the signer name and the nonce of the envelope,
  under the key registered for that signer; the nonce was not in the cache and is now, and nothing else of the
  signer changes.\<close>

theorem accepted_messages_signed:
  assumes "strict (sg_config s) \<or> (sg_config s = signing_from_dict d \<and> dget d ''require_verification'' = None \<and> dget d ''allow_unsigned'' = None)"
    and "signing_deserialize cr fid now data s = (Some (Inr m), s')"
  shows "\<exists>raw md sig vk nonce h sv. unpack (cr_codec cr) data = Inr (JDict raw) \<and> get_or (JDict []) raw ''msg'' = JDict md
      \<and> from_dict fid now md = Some m \<and> dget raw ''sig'' = Some (JDict sig)
      \<and> kr_get (sg_registry s) (as_str (cr_str cr) (get_or (JStr '''') sig ''signer'')) = Some vk
      \<and> nonce = get_or (JBytes '''') sig ''nonce'' \<and> dget sig ''value'' = Some (JBytes sv) \<and> sv \<noteq> ''''
      \<and> cr_verify cr vk (signed_bytes cr (JDict md) (as_str (cr_str cr) (get_or (JStr '''') sig ''signer'')) nonce) sv
      \<and> hash_key nonce = Inr h \<and> h \<notin> set (nonces_of s) \<and> s' = s\<lparr>sg_nonce_cache := nc_insert h (sg_nonce_cache s)\<rparr>"
proof -
  have st: "strict (sg_config s)"
    using assms(1) by (auto simp: signing_from_dict_def strict_def get_or_def)
  obtain raw where raw: "unpack (cr_codec cr) data = Inr (JDict raw)" "is_v2 raw" "dget raw ''sig'' \<noteq> None"
    using assms(2) st by (auto simp: signing_deserialize_def split: sum.splits json.splits if_splits)
  obtain v where v: "signer_verify cr raw s = (Inr v, s')" "rebuild fid now v = Some (Inr m)"
    using assms(2) raw by (auto simp: signing_deserialize_def split: sum.splits prod.splits)
  obtain md where md: "v = JDict md" "from_dict fid now md = Some m"
    using v(2) by (auto simp: rebuild_def split: json.splits)
  obtain sig where sig: "dget raw ''sig'' = Some (JDict sig)"
    using v(1) raw(3) by (auto simp: signer_verify_def get_or_def split: json.splits option.splits)
  then have g: "get_or (JDict []) raw ''sig'' = JDict sig" by (simp add: get_or_def)
  have val: "dget sig ''value'' = Some (JBytes sv) \<and> sv \<noteq> ''''" if "get_or (JBytes '''') sig ''value'' = JBytes sv" "sv \<noteq> ''''" for sv
    using that by (auto simp: get_or_def split: option.splits)
  show ?thesis
    using v(1) raw(1) st sig md val unfolding signer_verify_def g
    by (auto simp: Let_def check_and_add_def nonces_of_def split: sum.splits if_splits option.splits json.splits)
qed


text \<open>A concrete instance of the parameters: a key signs with its own name.\<close>

definition sample_crypto :: "(json, string, string) crypto" where
  "sample_crypto =
     \<lparr>cr_codec = json_codec, cr_sign = (\<lambda>k d. ''signed by '' @ k), cr_verify_key = (\<lambda>k. k),
      cr_verify = (\<lambda>v d sv. sv = ''signed by '' @ v),
      cr_read_key = (\<lambda>s. if s = '''' then Inl ValueError else Inr s), cr_str = (\<lambda>v. '''')\<rparr>"

definition sample_signer :: "string \<Rightarrow> (string, string) signer" where
  "sample_signer n =
     new_signer [(n, \<lparr>id_name = n, id_signing_key = n\<rparr>)] [(''a'', ''a''), (''sup'', ''sup'')] (signing_from_dict [])"

lemma sample_crypto_ok [simp]: "codec_ok (cr_codec sample_crypto)" "ed25519_ok sample_crypto"
  by (simp_all add: sample_crypto_def ed25519_ok_def)

lemma sample_signer_fields [simp]:
  "signer_ok (sample_signer n)" "nonces_of (sample_signer n) = []" "capacity (sample_signer n) = 10000"
  "sg_config (sample_signer n) = signing_from_dict []" "sg_registry (sample_signer n) = [(''a'', ''a''), (''sup'', ''sup'')]"
  "sg_identities (sample_signer n) = [(n, \<lparr>id_name = n, id_signing_key = n\<rparr>)]"
  "cr_verify_key sample_crypto k = k"
  by (simp_all add: sample_signer_def new_signer_def signer_ok_def nonces_of_def new_nonce_cache_def sample_crypto_def)

theorem accepted_messages_signed_witness:
  "\<exists>md vk. kr_get (sg_registry (sample_signer ''b'')) ''a'' = Some vk
     \<and> cr_verify sample_crypto vk (signed_bytes sample_crypto (JDict md) ''a'' (JBytes ''n'')) ''signed by a''
     \<and> from_dict ''f'' 0 md = Some ((default_message ''m'' 1)\<lparr>m_sender := ''a''\<rparr>)"
proof -
  let ?m = "(default_message ''m'' 1)\<lparr>m_sender := ''a''\<rparr>" and ?s = "sample_signer ''b''"
  have acc: "signing_deserialize sample_crypto ''f'' 0 (envelope_by sample_crypto ''a'' ''a'' ''n'' ?m) ?s
      = (Some (Inr ?m), ?s\<lparr>sg_nonce_cache := nc_insert (JBytes ''n'') (sg_nonce_cache ?s)\<rparr>)"
    by (rule envelope_accepted) (simp_all add: kr_get_def)
  have cfg: "strict (sg_config ?s) \<or> sg_config ?s = signing_from_dict [] \<and> dget [] ''require_verification'' = None \<and> dget [] ''allow_unsigned'' = None"
    by simp
  have dec: "unpack (cr_codec sample_crypto) (envelope_by sample_crypto ''a'' ''a'' ''n'' ?m) = Inr (JDict (new_envelope (JDict (to_dict ?m)) ''a''
       (cr_sign sample_crypto ''a'' (signed_bytes sample_crypto (JDict (to_dict ?m)) ''a'' (JBytes ''n''))) ''n''))"
    using sample_crypto_ok(1) by (simp add: envelope_by_def codec_ok_def)
  from accepted_messages_signed [OF cfg acc] show ?thesis
    unfolding dec by (auto simp: new_envelope_def as_str_def sample_crypto_def)
qed

text \<open>C7. A signed message is delivered once. What an agent with an identity serializes, a process that
  has the agent's public key and has not seen the nonce decodes to the same message; after any further
  deliveries, fewer than the cache has places, the same bytes are refused as a replay.\<close>

theorem signed_delivery_once:
  assumes "codec_ok (cr_codec cr)" "ed25519_ok cr"
    and "dget (sg_identities a) (m_sender m) = Some i" "kr_get (sg_registry b) (m_sender m) = Some (verify_key cr i)"
    and "signer_ok b" "JBytes nonce \<notin> set (nonces_of b)" "length ds < capacity b"
  shows "\<exists>data b'. signing_serialize cr nonce m a = Inr data
      \<and> signing_deserialize cr fid now data b = (Some (Inr m), b')
      \<and> fst (signing_deserialize cr fid' now' data (deliver_all cr fid now ds b')) = Some (Inl SignatureError)"
proof -
  let ?b = "b\<lparr>sg_nonce_cache := nc_insert (JBytes nonce) (sg_nonce_cache b)\<rparr>"
  let ?data = "envelope_by cr (id_signing_key i) (m_sender m) nonce m"
  have rem: "remembers b [JBytes nonce] ?b" by (rule insert_remembers [OF assms(5)])
  obtain hs where hs: "length hs \<le> length ds" "remembers ?b hs (deliver_all cr fid now ds ?b)"
    using deliver_all_remembers [of ?b ds cr fid now] remembers_fields [OF rem] by blast
  have "nonces_of (deliver_all cr fid now ds ?b) = keep_last (capacity b) (nonces_of b @ JBytes nonce # hs)"
    using remembers_fields [OF remembers_trans [OF rem hs(2)]] by simp
  moreover have "JBytes nonce \<in> set (keep_last (capacity b) (nonces_of b @ JBytes nonce # hs))"
    using hs(1) assms(7) keep_last_append [of "capacity b" "nonces_of b" "JBytes nonce # hs"] by simp
  ultimately have "fst (signing_deserialize cr fid' now' ?data (deliver_all cr fid now ds ?b)) = Some (Inl SignatureError)"
    using envelope_replayed [OF assms(1)] by (metis fst_conv)
  moreover have "signing_deserialize cr fid now ?data b = (Some (Inr m), ?b)"
    using envelope_accepted [OF assms(1,2)] assms(4,6) by (simp add: verify_key_def)
  ultimately show ?thesis using serialize_own [OF assms(3,2)] by blast
qed

theorem signed_delivery_once_witness:
  "\<exists>data b'. signing_serialize sample_crypto ''n'' ((default_message ''m'' 1)\<lparr>m_sender := ''a''\<rparr>) (sample_signer ''a'') = Inr data
      \<and> signing_deserialize sample_crypto ''f'' 0 data (sample_signer ''b'') = (Some (Inr ((default_message ''m'' 1)\<lparr>m_sender := ''a''\<rparr>)), b')
      \<and> fst (signing_deserialize sample_crypto ''f'' 0 data (deliver_all sample_crypto ''f'' 0 (replicate 9999 JNull) b')) = Some (Inl SignatureError)"
  by (rule signed_delivery_once [where i = "\<lparr>id_name = ''a'', id_signing_key = ''a''\<rparr>"]) (simp_all add: kr_get_def verify_key_def)

text \<open>An envelope that anybody can make: a nonce and a signer nobody knows.\<close>

definition junk_envelope :: "('d, 'k, 'v) crypto \<Rightarrow> string \<Rightarrow> json \<Rightarrow> 'd" where
  "junk_envelope cr signer nonce =
     pack (cr_codec cr) [(''v'', JInt 2), (''sig'', JDict [(''signer'', JStr signer), (''nonce'', nonce)])]"

lemma junk_refused:
  assumes "codec_ok (cr_codec cr)" "strict (sg_config s)" "kr_get (sg_registry s) u = None"
    and "hash_key h = Inr h" "h \<notin> set (nonces_of s)"
  shows "signing_deserialize cr fid now (junk_envelope cr u h) s
     = (Some (Inl SignatureError), s\<lparr>sg_nonce_cache := nc_insert h (sg_nonce_cache s)\<rparr>)"
  using assms
  by (simp add: signing_deserialize_def junk_envelope_def codec_ok_def is_v2_def signer_verify_def as_str_def check_and_add_def nonces_of_def)

lemma junk_flood:
  assumes "codec_ok (cr_codec cr)" "strict (sg_config s)" "kr_get (sg_registry s) u = None" "signer_ok s"
    and "\<forall>h \<in> set hs. hash_key h = Inr h" "distinct (nonces_of s @ hs)"
  shows "remembers s hs (deliver_all cr fid now (map (junk_envelope cr u) hs) s)"
  using assms(2-6)
proof (induction hs arbitrary: s)
  case Nil
  then show ?case by (simp add: deliver_all_def remembers_refl)
next
  case (Cons h hs)
  let ?s = "s\<lparr>sg_nonce_cache := nc_insert h (sg_nonce_cache s)\<rparr>"
  have rem: "remembers s [h] ?s" by (rule insert_remembers [OF Cons.prems(3)])
  have "distinct (nonces_of ?s @ hs)"
    using remembers_fields [OF rem] Cons.prems(5) set_keep_last [of "capacity s" "nonces_of s @ [h]"]
      distinct_keep_last [of "nonces_of s @ [h]" "capacity s"]
    by auto
  then have "remembers ?s hs (deliver_all cr fid now (map (junk_envelope cr u) hs) ?s)"
    using Cons.IH [of ?s] Cons.prems remembers_fields [OF rem] by simp
  moreover have "snd (signing_deserialize cr fid now (junk_envelope cr u h) s) = ?s"
    using junk_refused [OF assms(1) Cons.prems(1,2)] Cons.prems(4,5) by simp
  ultimately show ?case using remembers_trans [OF rem] by (fastforce simp: deliver_all_def)
qed


text \<open>The cache can be emptied by anybody. Since the nonce is recorded before the signature is
  looked at, envelopes without a valid signature, as many as the cache has places, are all refused and yet
  evict every nonce: an old signed message is then accepted again.\<close>

theorem replay_after_flood:
  assumes "codec_ok (cr_codec cr)" "ed25519_ok cr" "strict (sg_config b)" "signer_ok b"
    and "kr_get (sg_registry b) signer = Some (cr_verify_key cr k)" "kr_get (sg_registry b) u = None"
    and "JBytes nonce \<notin> set (nonces_of b)" "length hs = capacity b"
    and "\<forall>h \<in> set hs. hash_key h = Inr h" "distinct (nonces_of b @ JBytes nonce # hs)"
  shows "\<exists>b1 b2. signing_deserialize cr fid now (envelope_by cr k signer nonce m) b = (Some (Inr m), b1)
      \<and> deliver_all cr fid now (map (junk_envelope cr u) hs) b1 = b2
      \<and> (\<forall>h s. sg_config s = sg_config b \<and> sg_registry s = sg_registry b \<and> h \<in> set hs \<longrightarrow>
           fst (signing_deserialize cr fid now (junk_envelope cr u h) s) = Some (Inl SignatureError))
      \<and> (\<exists>b3. signing_deserialize cr fid now (envelope_by cr k signer nonce m) b2 = (Some (Inr m), b3))"
proof -
  let ?b1 = "b\<lparr>sg_nonce_cache := nc_insert (JBytes nonce) (sg_nonce_cache b)\<rparr>"
  let ?b2 = "deliver_all cr fid now (map (junk_envelope cr u) hs) ?b1"
  have rem: "remembers b [JBytes nonce] ?b1" by (rule insert_remembers [OF assms(4)])
  note f1 = remembers_fields [OF rem]
  have "distinct (nonces_of ?b1 @ hs)"
    using f1 assms(10) set_keep_last [of "capacity b" "nonces_of b @ [JBytes nonce]"]
      distinct_keep_last [of "nonces_of b @ [JBytes nonce]" "capacity b"] by auto
  then have rem2: "remembers ?b1 hs ?b2"
    using f1 assms(3,6,9) by (intro junk_flood [OF assms(1)]) auto
  have "nonces_of ?b2 = keep_last (capacity b) (nonces_of ?b1 @ hs)"
    using remembers_fields [OF rem2] f1 by simp
  then have "nonces_of ?b2 = hs"
    using assms(8) by (simp add: keep_last_append) (simp add: keep_last_def)
  then have "JBytes nonce \<notin> set (nonces_of ?b2)" using assms(10) by auto
  then have again: "\<exists>b3. signing_deserialize cr fid now (envelope_by cr k signer nonce m) ?b2 = (Some (Inr m), b3)"
    using envelope_accepted [OF assms(1,2)] remembers_fields [OF rem2] f1 assms(5) by metis
  have junk: "fst (signing_deserialize cr fid now (junk_envelope cr u h) s) = Some (Inl SignatureError)"
    if "sg_config s = sg_config b" "sg_registry s = sg_registry b" "h \<in> set hs" for h s
    using that assms(1,3,6,9)
    by (auto simp: signing_deserialize_def junk_envelope_def codec_ok_def is_v2_def signer_verify_def as_str_def check_and_add_def)
  show ?thesis using envelope_accepted [OF assms(1,2,5,7)] again junk by blast
qed

theorem replay_after_flood_witness:
  "\<exists>b1 b3. signing_deserialize sample_crypto ''f'' 0 (envelope_by sample_crypto ''a'' ''a'' ''n'' (default_message ''m'' 1)) (sample_signer ''b'')
      = (Some (Inr (default_message ''m'' 1)), b1)
   \<and> signing_deserialize sample_crypto ''f'' 0 (envelope_by sample_crypto ''a'' ''a'' ''n'' (default_message ''m'' 1))
        (deliver_all sample_crypto ''f'' 0 (map (junk_envelope sample_crypto ''nobody'') (map (\<lambda>i. JInt (int i)) [0..<10000])) b1)
      = (Some (Inr (default_message ''m'' 1)), b3)"
proof -
  let ?hs = "map (\<lambda>i. JInt (int i)) [0..<10000]"
  have d: "distinct (nonces_of (sample_signer ''b'') @ JBytes ''n'' # ?hs)"
    by (auto simp: distinct_map inj_on_def)
  have l: "length ?hs = capacity (sample_signer ''b'')" and h: "\<forall>h \<in> set ?hs. hash_key h = Inr h"
    by (auto simp: hash_key_def)
  have s: "strict (sg_config (sample_signer ''b''))" by (simp add: signing_from_dict_def strict_def)
  show ?thesis
    using replay_after_flood [OF sample_crypto_ok s sample_signer_fields(1) _ _ _ l h d, where signer = "''a''" and k = "''a''"
        and u = "''nobody''" and fid = "''f''" and now = 0 and m = "default_message ''m'' 1"]
    by (simp add: kr_get_def) blast
qed

text \<open>A trusted key speaks for every agent. Verification compares the signature with the signer the
  envelope names, never the signer with the sender of the message, so whoever holds the key of one trusted
  agent gets any message accepted under any sender; and since withdrawing a name checks no owner either, such
  a message removes the remote agent of its choice from the routing table.\<close>

theorem trusted_signer_speaks_for_anyone:
  assumes "codec_ok (cr_codec cr)" "ed25519_ok cr" "kr_get (sg_registry s) signer = Some (cr_verify_key cr k)"
    and "JBytes nonce \<notin> set (nonces_of s)" "nd_signer nd = Some s"
  shows "fst (signing_deserialize cr fid now (envelope_by cr k signer nonce m) s) = Some (Inr m)
    \<and> (lookup (nd_registry nd) victim = Some e \<and> \<not> e_is_local e \<and> victim \<noteq> ''''
         \<and> (case dget (r_remote_epochs (nd_registry nd)) victim of None \<Rightarrow> True | Some l \<Rightarrow> l \<le> epoch)
         \<and> m_payload m = [(''name'', JStr victim), (''epoch'', JInt epoch)]
       \<longrightarrow> (\<exists>nd'. on_remote_deregister cr fid now (envelope_by cr k signer nonce m) nd = Some (Inr (), nd')
              \<and> lookup (nd_registry nd') victim = None))"
proof -
  let ?s = "s\<lparr>sg_nonce_cache := nc_insert (JBytes nonce) (sg_nonce_cache s)\<rparr>"
  have acc: "signing_deserialize cr fid now (envelope_by cr k signer nonce m) s = (Some (Inr m), ?s)"
    by (rule envelope_accepted [OF assms(1-4)])
  have gone: "lookup (deregister_remote victim epoch (nd_registry nd)) victim = None"
    if "lookup (nd_registry nd) victim = Some e" "\<not> e_is_local e"
      "case dget (r_remote_epochs (nd_registry nd)) victim of None \<Rightarrow> True | Some l \<Rightarrow> l \<le> epoch"
    using that by (auto simp: deregister_remote_def lookup_def Let_def dict_simps split: option.splits)
  show ?thesis
    using acc gone assms(5)
    by (auto simp: on_remote_deregister_def on_announcement_def node_deserialize_def apply_deregister_def int_or_zero_def int_of_json_def)
qed


definition remote_node :: "(string, string) node" where
  "remote_node =
     \<lparr>nd_signer = Some (sample_signer ''b''),
      nd_registry = (case register_remote ''w'' [] [] ''sup'' '''' 3 '''' (new_registry False) of Inr r \<Rightarrow> r | Inl e \<Rightarrow> new_registry False)\<rparr>"

theorem trusted_signer_speaks_for_anyone_witness:
  "\<exists>nd'. on_remote_deregister sample_crypto ''f'' 0 (envelope_by sample_crypto ''a'' ''a'' ''n''
        ((default_message ''m'' 1)\<lparr>m_sender := ''sup'', m_payload := [(''name'', JStr ''w''), (''epoch'', JInt 3)]\<rparr>)) remote_node = Some (Inr (), nd')
     \<and> lookup (nd_registry remote_node) ''w'' \<noteq> None \<and> lookup (nd_registry nd') ''w'' = None"
proof -
  let ?m = "(default_message ''m'' 1)\<lparr>m_sender := ''sup'', m_payload := [(''name'', JStr ''w''), (''epoch'', JInt 3)]\<rparr>"
  have "kr_get (sg_registry (sample_signer ''b'')) ''a'' = Some (cr_verify_key sample_crypto ''a'')"
    "JBytes ''n'' \<notin> set (nonces_of (sample_signer ''b''))" "nd_signer remote_node = Some (sample_signer ''b'')"
    by (simp_all add: kr_get_def remote_node_def)
  from trusted_signer_speaks_for_anyone [OF sample_crypto_ok this, of "''f''" 0 ?m "''w''" _ 3]
  show ?thesis
    by (auto simp: remote_node_def register_remote_def new_registry_def lookup_def Let_def)
qed

text \<open>The announcement of an incarnation as \<^verbatim>\<open>DynamicSupervisor\<close> publishes it.\<close>

definition is_register_of :: "message \<Rightarrow> string \<Rightarrow> string \<Rightarrow> int \<Rightarrow> bool" where
  "is_register_of m name pubkey epoch \<longleftrightarrow>
     dget (m_payload m) ''name'' = Some (JStr name) \<and> dget (m_payload m) ''pubkey'' = Some (JStr pubkey)
   \<and> dget (m_payload m) ''epoch'' = Some (JInt epoch) \<and> name \<noteq> '''' \<and> pubkey \<noteq> ''''
   \<and> announced_capabilities (m_payload m) \<noteq> None \<and> announced_metadata (m_payload m) \<noteq> None"

lemma apply_register_announcement:
  assumes "is_register_of m name pubkey epoch" "nd_signer nd = Some s" "cr_read_key cr pubkey = Inr vk"
  shows "\<exists>caps meta health. apply_register cr m nd =
     (case register_remote name caps meta (m_sender m) pubkey epoch health (nd_registry nd) of
        Inl e \<Rightarrow> Some (if e = ValueError then Inr () else Inl e, nd)
      | Inr r \<Rightarrow> Some (Inr (), nd\<lparr>nd_registry := r, nd_signer := Some (s\<lparr>sg_registry := dput name vk (sg_registry s)\<rparr>)\<rparr>))"
proof -
  obtain caps meta where "announced_capabilities (m_payload m) = Some caps" "announced_metadata (m_payload m) = Some meta"
    using assms(1) by (auto simp: is_register_of_def)
  with assms show ?thesis
    by (intro exI [of _ caps] exI [of _ meta] exI [of _ "str_or_empty cr (m_payload m) ''health_channel''"])
       (auto simp: is_register_of_def apply_register_def Let_def get_or_def int_or_zero_def int_of_json_def str_or_empty_def as_str_def
          learn_key_def kr_register_b64_def split: sum.splits)
qed

lemma node_receives:
  assumes "codec_ok (cr_codec cr)" "ed25519_ok cr" "nd_signer nd = Some s" "kr_get (sg_registry s) signer = Some (cr_verify_key cr k)"
    and "JBytes nonce \<notin> set (nonces_of s)"
  shows "on_remote_register cr fid now (envelope_by cr k signer nonce m) nd =
     apply_register cr m (nd\<lparr>nd_signer := Some (s\<lparr>sg_nonce_cache := nc_insert (JBytes nonce) (sg_nonce_cache s)\<rparr>)\<rparr>)"
  using envelope_accepted [OF assms(1,2,4,5)] assms(3)
  by (simp add: on_remote_register_def on_announcement_def node_deserialize_def)

text \<open>A stale announcement replaces the trusted key. The registry ignores an announcement whose
  epoch is older than the one it has, silently and before it looks at the owner; the handler then records
  the announced public key all the same. So after the current incarnation of a child was announced, an
  older announcement, delayed or made up by any trusted signer, leaves the routing entry with its key as it
  is, but makes the key of the announcement the one that messages of the child are verified with.\<close>

theorem stale_announcement_replaces_key:
  assumes "codec_ok (cr_codec cr)" "ed25519_ok cr" "nd_signer nd = Some s" "signer_ok s"
    and "kr_get (sg_registry s) owner = Some (cr_verify_key cr k)" "kr_get (sg_registry s) other = Some (cr_verify_key cr k')"
    and "distinct [JBytes n, JBytes n']" "JBytes n \<notin> set (nonces_of s)" "JBytes n' \<notin> set (nonces_of s)" "other \<noteq> child"
    and "is_register_of m child pk epoch" "is_register_of m' child pk' epoch'" "epoch' < epoch" "m_sender m = owner"
    and "cr_read_key cr pk = Inr v" "cr_read_key cr pk' = Inr v'"
    and "lookup (nd_registry nd) child = None" "dget (r_remote_epochs (nd_registry nd)) child = None"
  shows "\<exists>nd1 nd2 s1 s2 e. on_remote_register cr fid now (envelope_by cr k owner n m) nd = Some (Inr (), nd1)
      \<and> on_remote_register cr fid now (envelope_by cr k' other n' m') nd1 = Some (Inr (), nd2)
      \<and> nd_registry nd2 = nd_registry nd1 \<and> lookup (nd_registry nd2) child = Some e
      \<and> e_owner e = owner \<and> e_pubkey e = pk \<and> e_epoch e = epoch
      \<and> nd_signer nd1 = Some s1 \<and> kr_get (sg_registry s1) child = Some v
      \<and> nd_signer nd2 = Some s2 \<and> kr_get (sg_registry s2) child = Some v'"
proof -
  let ?s = "s\<lparr>sg_nonce_cache := nc_insert (JBytes n) (sg_nonce_cache s)\<rparr>"
  let ?nd = "nd\<lparr>nd_signer := Some ?s\<rparr>"
  note f = remembers_fields [OF insert_remembers [OF assms(4), of "JBytes n"]]
  obtain caps meta h where "apply_register cr m ?nd =
     (case register_remote child caps meta (m_sender m) pk epoch h (nd_registry ?nd) of
        Inl e \<Rightarrow> Some (if e = ValueError then Inr () else Inl e, ?nd)
      | Inr r \<Rightarrow> Some (Inr (), ?nd\<lparr>nd_registry := r, nd_signer := Some (?s\<lparr>sg_registry := dput child v (sg_registry ?s)\<rparr>)\<rparr>))"
    using apply_register_announcement [OF assms(11) _ assms(15), of ?nd ?s] by auto
  moreover obtain r where r: "register_remote child caps meta (m_sender m) pk epoch h (nd_registry ?nd) = Inr r"
    "\<exists>e. lookup r child = Some e \<and> e_owner e = owner \<and> e_pubkey e = pk \<and> e_epoch e = epoch" "dget (r_remote_epochs r) child = Some epoch"
    using assms(14,17,18) by (auto simp: register_remote_def lookup_def Let_def dict_simps)
  moreover define s1 where "s1 = ?s\<lparr>sg_registry := dput child v (sg_registry ?s)\<rparr>"
  moreover define nd1 where "nd1 = nd\<lparr>nd_registry := r, nd_signer := Some s1\<rparr>"
  ultimately have one: "on_remote_register cr fid now (envelope_by cr k owner n m) nd = Some (Inr (), nd1)"
    using node_receives [OF assms(1-3,5,8), of fid now m] by (simp add: s1_def nd1_def)
  have "JBytes n' \<notin> set (nonces_of s1)"
    using f assms(7,9) set_keep_last [of "capacity s" "nonces_of s @ [JBytes n]"] by (auto simp: s1_def nonces_of_def)
  moreover have "kr_get (sg_registry s1) other = Some (cr_verify_key cr k')"
    using assms(6,10) by (simp add: s1_def kr_get_def dict_simps)
  ultimately have two: "on_remote_register cr fid now (envelope_by cr k' other n' m') nd1 =
      apply_register cr m' (nd1\<lparr>nd_signer := Some (s1\<lparr>sg_nonce_cache := nc_insert (JBytes n') (sg_nonce_cache s1)\<rparr>)\<rparr>)"
    using node_receives [OF assms(1,2), of nd1 s1] by (simp add: nd1_def)
  let ?s2 = "s1\<lparr>sg_nonce_cache := nc_insert (JBytes n') (sg_nonce_cache s1)\<rparr>"
  have stale: "register_remote child c2 m2 w pk' epoch' h2 r = Inr r" for c2 m2 w h2
    using r(3) assms(13) by (simp add: register_remote_def)
  let ?nd2 = "nd\<lparr>nd_registry := r, nd_signer := Some (?s2\<lparr>sg_registry := dput child v' (sg_registry ?s2)\<rparr>)\<rparr>"
  have "apply_register cr m' (nd1\<lparr>nd_signer := Some ?s2\<rparr>) = Some (Inr (), ?nd2)"
    using apply_register_announcement [OF assms(12) _ assms(16), of "nd1\<lparr>nd_signer := Some ?s2\<rparr>" ?s2] stale by (auto simp: nd1_def)
  then show ?thesis
    using one two r(2) by (auto simp: nd1_def s1_def kr_get_def dict_simps)
qed


definition sample_register :: "string \<Rightarrow> string \<Rightarrow> int \<Rightarrow> message" where
  "sample_register sender pk epoch = (default_message ''m'' 1)\<lparr>m_sender := sender,
     m_payload := [(''name'', JStr ''w''), (''pubkey'', JStr pk), (''epoch'', JInt epoch)]\<rparr>"

lemma sample_register_ok: "pk \<noteq> '''' \<Longrightarrow> is_register_of (sample_register sender pk epoch) ''w'' pk epoch"
  by (simp add: sample_register_def is_register_of_def announced_capabilities_def announced_metadata_def)

theorem stale_announcement_replaces_key_witness:
  "\<exists>nd1 nd2 s2 e. on_remote_register sample_crypto ''f'' 0 (envelope_by sample_crypto ''sup'' ''sup'' ''n1'' (sample_register ''sup'' ''new'' 2))
        \<lparr>nd_signer = Some (sample_signer ''b''), nd_registry = new_registry False\<rparr> = Some (Inr (), nd1)
      \<and> on_remote_register sample_crypto ''f'' 0 (envelope_by sample_crypto ''a'' ''a'' ''n2'' (sample_register ''a'' ''old'' 1)) nd1 = Some (Inr (), nd2)
      \<and> lookup (nd_registry nd2) ''w'' = Some e \<and> e_pubkey e = ''new''
      \<and> nd_signer nd2 = Some s2 \<and> kr_get (sg_registry s2) ''w'' = Some ''old''"
proof -
  let ?nd = "\<lparr>nd_signer = Some (sample_signer ''b''), nd_registry = new_registry False\<rparr>"
  have f: "nd_signer ?nd = Some (sample_signer ''b'')" "signer_ok (sample_signer ''b'')"
    "kr_get (sg_registry (sample_signer ''b'')) ''sup'' = Some (cr_verify_key sample_crypto ''sup'')"
    "kr_get (sg_registry (sample_signer ''b'')) ''a'' = Some (cr_verify_key sample_crypto ''a'')"
    "distinct [JBytes ''n1'', JBytes ''n2'']" "JBytes ''n1'' \<notin> set (nonces_of (sample_signer ''b''))"
    "JBytes ''n2'' \<notin> set (nonces_of (sample_signer ''b''))" "''a'' \<noteq> ''w''"
    by (simp_all add: kr_get_def)
  have g: "(1 :: int) < 2" "m_sender (sample_register ''sup'' ''new'' 2) = ''sup''" "cr_read_key sample_crypto ''new'' = Inr ''new''"
    "cr_read_key sample_crypto ''old'' = Inr ''old''" "lookup (nd_registry ?nd) ''w'' = None" "dget (r_remote_epochs (nd_registry ?nd)) ''w'' = None"
    by (simp_all add: sample_register_def sample_crypto_def lookup_def new_registry_def)
  show ?thesis
    using stale_announcement_replaces_key [OF sample_crypto_ok f sample_register_ok sample_register_ok g, of "''f''" 0 "''a''"] by blast
qed

section \<open>Senders without an identity\<close>

text \<open>
  A ping of \<^verbatim>\<open>_heartbeat_loop\<close> over a signing bus: \<^verbatim>\<open>bus.request\<close> serializes the heartbeat
  first; only its timeout counts as a missed heartbeat, another exception is logged. \<open>net\<close> is the
  outcome once the bytes are sent.
\<close>

definition signed_ping ::
  "('d, 'k, 'v) crypto \<Rightarrow> string \<Rightarrow> message \<Rightarrow> ('k, 'v) signer \<Rightarrow> ('d \<Rightarrow> unit answer) \<Rightarrow> unit answer" where
  "signed_ping cr nonce hb sg net = (case signing_serialize cr nonce hb sg of Inl e \<Rightarrow> Fails | Inr d \<Rightarrow> net d)"

fun signed_pings :: "('d, 'k, 'v) crypto \<Rightarrow> string list \<Rightarrow> (string \<Rightarrow> message) \<Rightarrow> string \<Rightarrow> ('k, 'v) signer \<Rightarrow> ('d \<Rightarrow> unit answer)
    \<Rightarrow> sup_state \<Rightarrow> sup_state" where
  "signed_pings cr [] hb name sg net s = s"
| "signed_pings cr (n # ns) hb name sg net s = signed_pings cr ns hb name sg net (legacy_ping name (signed_ping cr n (hb n) sg net) s)"

lemma serialize_without_identity:
  "strict (sg_config sg) \<Longrightarrow> dget (sg_identities sg) (m_sender m) = None \<Longrightarrow> signing_serialize cr nonce m sg = Inl SignatureError"
  by (simp add: signing_serialize_def signer_sign_def as_str_def Let_def)

text \<open>Strict signing blinds a supervisor without an identity. The runtime gives identities to agents
  only; a supervisor sends its heartbeats under its own name, so in strict mode each of them fails with
  \<^verbatim>\<open>SignatureError\<close> before anything is sent. The loop does not count that: however long a remote
  child stays silent, no crash is reported. With the identity, the same silence is reported every
  \<open>threshold\<close> rounds.\<close>

theorem strict_signing_blinds_heartbeats:
  assumes "\<And>n. m_sender (hb n) = su" "\<And>d. net d = NoAck" "missed_of name s = 0" "0 < threshold_of s name" "ed25519_ok cr"
  shows "(strict (sg_config sg) \<and> dget (sg_identities sg) su = None \<longrightarrow> signed_pings cr ns hb name sg net s = s)
    \<and> (dget (sg_identities sg) su = Some i \<longrightarrow>
        int (length (su_inbox (signed_pings cr ns hb name sg net s))) = int (length (su_inbox s)) + int (length ns) div threshold_of s name)"
proof (intro conjI impI)
  show "signed_pings cr ns hb name sg net s = s" if "strict (sg_config sg) \<and> dget (sg_identities sg) su = None"
    using that assms(1) by (induction ns) (simp_all add: signed_ping_def serialize_without_identity legacy_ping_def)
next
  assume id: "dget (sg_identities sg) su = Some i"
  have "signed_pings cr ns hb name sg net t = (legacy_ping name NoAck ^^ length ns) t" for t
  proof (induction ns arbitrary: t)
    case (Cons n ns)
    have "signed_ping cr n (hb n) sg net = NoAck"
      using serialize_own [of sg "hb n" i cr n] id assms(1,2,5) by (simp add: signed_ping_def)
    then show ?case using Cons by (simp add: funpow_swap1)
  qed simp
  then show "int (length (su_inbox (signed_pings cr ns hb name sg net s))) = int (length (su_inbox s)) + int (length ns) div threshold_of s name"
    using missed_pings [OF assms(3,4)] by simp
qed


theorem strict_signing_blinds_heartbeats_witness:
  "signed_pings sample_crypto (replicate 30 ''n'') (\<lambda>n. (default_message ''hb'' 0)\<lparr>m_sender := ''root''\<rparr>) ''r'' (sample_signer ''a'') (\<lambda>d. NoAck)
      (add_remote_child ''r'' 5 2 3 (sample_sup_state ONE_FOR_ONE)) = add_remote_child ''r'' 5 2 3 (sample_sup_state ONE_FOR_ONE)
   \<and> length (su_inbox (signed_pings sample_crypto (replicate 30 ''n'') (\<lambda>n. (default_message ''hb'' 0)\<lparr>m_sender := ''root''\<rparr>) ''r''
      (sample_signer ''root'') (\<lambda>d. NoAck) (add_remote_child ''r'' 5 2 3 (sample_sup_state ONE_FOR_ONE)))) = 10"
proof -
  let ?s = "add_remote_child ''r'' 5 2 3 (sample_sup_state ONE_FOR_ONE)" and ?hb = "\<lambda>n :: string. (default_message ''hb'' 0)\<lparr>m_sender := ''root''\<rparr>"
  have s: "missed_of ''r'' ?s = 0" "0 < threshold_of ?s ''r''" "threshold_of ?s ''r'' = 3" "su_inbox ?s = []"
    by (simp_all add: add_remote_child_def missed_of_def threshold_of_def sample_sup_state_def new_sup_def dict_simps)
  have c: "strict (sg_config (sample_signer n))" for n by (simp add: signing_from_dict_def strict_def)
  have ev: "\<And>n. m_sender (?hb n) = ''root''" "\<And>d :: json. (\<lambda>d. NoAck :: unit answer) d = NoAck" by simp_all
  note bl = strict_signing_blinds_heartbeats [of ?hb, OF ev s(1,2) sample_crypto_ok(2), of _ "replicate 30 ''n''"]
  show ?thesis
    using bl [of "sample_signer ''a''"] bl [of "sample_signer ''root''" "\<lparr>id_name = ''root'', id_signing_key = ''root''\<rparr>"] c s(3,4) by simp
qed

end
