(* ===== verification/Worker.thy ===== *)
theory Worker
  imports Security Dynamic_Supervisor
begin

text \<open>
  \<^verbatim>\<open>src/civitas/worker.py\<close>: a process that hosts agents for a remote runtime. It registers and
  announces its agents, answers health probes for the whole process, restarts an agent on command and
  withdraws its agents when it stops. The transport that carries its messages is not modelled: what it
  publishes is a list of messages, which the handlers of the runtime receive.
\<close>

section \<open>State\<close>

record worker =
  wk_id :: string
  wk_classes :: "(string, agent_class) dict"
  wk_agents :: "(string, agent) dict"
  wk_restart_counts :: "(string, int) dict"
  wk_max_restarts :: int
  wk_registry :: registry
  wk_started :: bool

definition health_channel :: "string \<Rightarrow> string" where
  "health_channel wid = ''_agency.worker.'' @ wid @ ''.health''"

definition RESTART_CHANNEL :: string where
  "RESTART_CHANNEL = ''_agency.worker.restart''"

definition new_worker :: "string \<Rightarrow> (string, agent_class) dict \<Rightarrow> (string, agent) dict \<Rightarrow> int \<Rightarrow> worker" where
  "new_worker wid cls ags n =
     \<lparr>wk_id = wid, wk_classes = cls, wk_agents = ags, wk_restart_counts = map (\<lambda>(k, a). (k, 0)) ags,
      wk_max_restarts = n, wk_registry = new_registry False, wk_started = False\<rparr>"

text \<open>\<^verbatim>\<open>_agent_capabilities\<close>; \<^verbatim>\<open>None\<close> for no capabilities registers none.\<close>

definition wk_capabilities :: "agent_class \<Rightarrow> string list" where
  "wk_capabilities c =
     (if ac_is_dynamic_supervisor c \<and> DYNAMIC_SUPERVISOR_CAPABILITY \<notin> set (ac_capabilities c)
      then ac_capabilities c @ [DYNAMIC_SUPERVISOR_CAPABILITY] else ac_capabilities c)"

section \<open>Start and stop\<close>

fun register_all :: "(string \<times> string list) list \<Rightarrow> registry \<Rightarrow> registry result" where
  "register_all [] r = Inr r"
| "register_all ((n, caps) # ns) r = bind_r (register n None True caps [] r) (register_all ns)"

definition wk_register :: "worker \<Rightarrow> registry result" where
  "wk_register w =
     register_all (map (\<lambda>(n, c). (n, wk_capabilities c)) (wk_classes w) @ [(RESTART_CHANNEL, []), (health_channel (wk_id w), [])]) (wk_registry w)"

text \<open>One announcement; \<open>fid\<close> and \<open>now\<close> fill the envelope.\<close>

definition announcement_of :: "string \<Rightarrow> real \<Rightarrow> worker \<Rightarrow> string \<Rightarrow> message" where
  "announcement_of fid now w name =
     (default_message fid now)
       \<lparr>m_type := ''_agency.register'',
        m_payload := (''name'', JStr name) #
          (case dget (wk_classes w) name of
             None \<Rightarrow> []
           | Some c \<Rightarrow> [(''capabilities'', JList (map JStr (wk_capabilities c))),
                        (''capability_metadata'', JDict (ac_capability_metadata c)),
                        (''health_channel'', JStr (health_channel (wk_id w)))])\<rparr>"

definition wk_announcements :: "string \<Rightarrow> real \<Rightarrow> worker \<Rightarrow> message list" where
  "wk_announcements fid now w =
     map (announcement_of fid now w) (dkeys (wk_classes w) @ [RESTART_CHANNEL, health_channel (wk_id w)])"

text \<open>The start of the agents' loops, in order; one that raises ends the start.\<close>

fun start_all :: "sup_env \<Rightarrow> string list \<Rightarrow> (string, agent) dict \<Rightarrow> exn option \<times> (string, agent) dict" where
  "start_all env [] ags = (None, ags)"
| "start_all env (n # ns) ags =
     (case dget ags n of
        None \<Rightarrow> start_all env ns ags
      | Some a \<Rightarrow>
          (case run (se_env env n) (start_nowait (se_env env n) a) of
             (Done (Some e), a') \<Rightarrow> if e \<noteq> CancelledError then (Some e, dput n a' ags) else start_all env ns (dput n a' ags)
           | (pc, a') \<Rightarrow> start_all env ns (dput n a' ags)))"

definition wk_start :: "sup_env \<Rightarrow> bool \<Rightarrow> string \<Rightarrow> string \<Rightarrow> real \<Rightarrow> worker \<Rightarrow> message list result \<times> worker" where
  "wk_start env has_components transport fid now w =
     (if \<not> has_components \<and> transport \<notin> {''zmq'', ''nats''} then (Inl ConfigurationError, w)
      else case wk_register w of
        Inl e \<Rightarrow> (Inl e, w)
      | Inr r \<Rightarrow>
          (case start_all env (dkeys (wk_agents w)) (wk_agents w) of
             (Some e, ags) \<Rightarrow> (Inl e, w\<lparr>wk_registry := r, wk_agents := ags\<rparr>)
           | (None, ags) \<Rightarrow> (Inr (wk_announcements fid now w), w\<lparr>wk_registry := r, wk_agents := ags, wk_started := True\<rparr>)))"

definition withdrawal_of :: "string \<Rightarrow> real \<Rightarrow> string \<Rightarrow> message" where
  "withdrawal_of fid now name = (default_message fid now)\<lparr>m_type := ''_agency.deregister'', m_payload := [(''name'', JStr name)]\<rparr>"

fun stop_all :: "sup_env \<Rightarrow> string list \<Rightarrow> (string, agent) dict \<Rightarrow> world \<Rightarrow> (exn option \<times> (string, agent) dict \<times> world) option" where
  "stop_all env [] ags w = Some (None, ags, w)"
| "stop_all env (n # ns) ags w =
     (case dget ags n of
        None \<Rightarrow> stop_all env ns ags w
      | Some a \<Rightarrow>
          (case stop_agent env n a w of
             None \<Rightarrow> None
           | Some (Some e, a', w') \<Rightarrow> Some (Some e, dput n a' ags, w')
           | Some (None, a', w') \<Rightarrow> stop_all env ns (dput n a' ags) w'))"

definition wk_stop :: "sup_env \<Rightarrow> string \<Rightarrow> real \<Rightarrow> worker \<Rightarrow> world \<Rightarrow> (message list result \<times> worker \<times> world) option" where
  "wk_stop env fid now w wd =
     (if \<not> wk_started w then Some (Inr [], w, wd)
      else case stop_all env (rev (dkeys (wk_agents w))) (wk_agents w) wd of
        None \<Rightarrow> None
      | Some (Some e, ags, wd') \<Rightarrow> Some (Inl e, w\<lparr>wk_agents := ags\<rparr>, wd')
      | Some (None, ags, wd') \<Rightarrow>
          Some (Inr (map (withdrawal_of fid now) (dkeys ags)), w\<lparr>wk_agents := ags, wk_started := False\<rparr>, wd'))"

section \<open>Health probes\<close>

text \<open>\<open>alive\<close> says whether the task of an agent exists and has not ended; \<open>sample\<close> is the
  resource sample of the process, when there is one. The acknowledgement goes to the prober.\<close>

definition wk_snapshot :: "(string \<Rightarrow> bool) \<Rightarrow> worker \<Rightarrow> payload" where
  "wk_snapshot alive w =
     map (\<lambda>(n, a). (n, JDict [(''status'', JStr (status_value (a_status a))), (''task_alive'', JBool (alive n)),
                              (''mailbox_depth'', JInt (int (mb_depth (a_mailbox a))))])) (wk_agents w)"

definition health_ack :: "string \<Rightarrow> real \<Rightarrow> (string \<Rightarrow> bool) \<Rightarrow> payload option \<Rightarrow> message \<Rightarrow> worker \<Rightarrow> message" where
  "health_ack fid now alive sample probe w =
     (default_message fid now)
       \<lparr>m_type := ''_agency.health_ack'', m_sender := health_channel (wk_id w), m_recipient := reply_address probe,
        m_payload := [(''worker_id'', JStr (wk_id w)), (''agents'', JDict (wk_snapshot alive w))]
          @ (case sample of None \<Rightarrow> [] | Some p \<Rightarrow> [(''process'', JDict p)]),
        m_correlation_id := m_correlation_id probe\<rparr>"

text \<open>A malformed probe is dropped, and so is an acknowledgement nobody can receive.\<close>

definition on_health_probe ::
  "'d codec \<Rightarrow> string \<Rightarrow> real \<Rightarrow> (string \<Rightarrow> bool) \<Rightarrow> payload option \<Rightarrow> 'd \<Rightarrow> worker \<Rightarrow> message list option" where
  "on_health_probe cd fid now alive sample data w =
     (case deserialize cd fid now data of
        None \<Rightarrow> None
      | Some (Inl e) \<Rightarrow> Some []
      | Some (Inr probe) \<Rightarrow> Some [health_ack fid now alive sample probe w])"

section \<open>Restart commands\<close>

text \<open>The body of the \<^verbatim>\<open>try\<close>: the exception raised, if any, and what has changed by then; the trace gets
  the start of the fresh incarnation when it has succeeded. The wiring of the fresh incarnation
  (\<^verbatim>\<open>components.inject\<close>, \<^verbatim>\<open>bus.setup_agent\<close>) is the environment \<^const>\<open>se_env\<close> it is built with: the
  worker's bus is not part of this state, and the wiring is taken not to fail. Commands are handled one after the
  other.\<close>

definition restart_hosted :: "sup_env \<Rightarrow> string \<Rightarrow> agent \<Rightarrow> worker \<Rightarrow> world \<Rightarrow> (exn option \<times> worker \<times> world) option" where
  "restart_hosted env n a w wd =
     (case stop_agent env n a wd of
        None \<Rightarrow> None
      | Some (Some e, a1, wd1) \<Rightarrow> Some (Some e, w\<lparr>wk_agents := dput n a1 (wk_agents w)\<rparr>, wd1)
      | Some (None, a1, wd1) \<Rightarrow>
          (case se_ctor_raises env n of
             Some e \<Rightarrow> Some (Some e, w\<lparr>wk_agents := dput n a1 (wk_agents w)\<rparr>, wd1)
           | None \<Rightarrow>
               (case reregister_preserving (wk_registry w) n of
                  Inl e \<Rightarrow> Some (Some e, w\<lparr>wk_agents := dput n a1 (wk_agents w)\<rparr>, wd1)
                | Inr r \<Rightarrow>
                    (let fresh = new_agent (se_env env n) (Some r) (a_store a1) (w_now wd1)
                     in case transfer_mailbox (a_mailbox a1) (a_mailbox fresh) of
                          None \<Rightarrow> None
                        | Some (old_mb, mb) \<Rightarrow>
                            (case run (se_env env n) (start_nowait (se_env env n) (fresh\<lparr>a_mailbox := mb\<rparr>)) of
                               (pc, a2) \<Rightarrow>
                                 (let w2 = w\<lparr>wk_registry := r, wk_agents := dput n a2 (wk_agents w)\<rparr>;
                                      tid = w_next_task wd1;
                                      wd2 = sup_trace (TStarted n tid) (wd1\<lparr>w_next_task := Suc tid\<rparr>)
                                  in case pc of
                                       Done (Some e) \<Rightarrow> if e \<noteq> CancelledError then Some (Some e, w2, wd1) else Some (None, w2, wd2)
                                     | _ \<Rightarrow> Some (None, w2, wd2)))))))"

definition restarts_of :: "worker \<Rightarrow> string \<Rightarrow> int" where
  "restarts_of w n = (case dget (wk_restart_counts w) n of None \<Rightarrow> 0 | Some k \<Rightarrow> k)"

definition apply_restart :: "sup_env \<Rightarrow> string \<Rightarrow> worker \<Rightarrow> world \<Rightarrow> (worker \<times> world) option" where
  "apply_restart env n w wd =
     (case dget (wk_agents w) n of
        None \<Rightarrow> Some (w, wd)
      | Some a \<Rightarrow>
          if restarts_of w n \<ge> wk_max_restarts w then Some (w, wd)
          else case restart_hosted env n a w wd of
                 None \<Rightarrow> None
               | Some (Some e, w', wd') \<Rightarrow> Some (w', wd')
               | Some (None, w', wd') \<Rightarrow> Some (w'\<lparr>wk_restart_counts := dput n (restarts_of w n + 1) (wk_restart_counts w')\<rparr>, wd'))"

definition on_restart_command ::
  "sup_env \<Rightarrow> 'd codec \<Rightarrow> string \<Rightarrow> real \<Rightarrow> 'd \<Rightarrow> worker \<Rightarrow> world \<Rightarrow> (unit result \<times> worker \<times> world) option" where
  "on_restart_command env cd fid now data w wd =
     (case deserialize cd fid now data of
        None \<Rightarrow> None
      | Some (Inl e) \<Rightarrow> Some (Inl e, w, wd)
      | Some (Inr m) \<Rightarrow>
          (case get_or (JStr '''') (m_payload m) ''agent_name'' of
             JStr n \<Rightarrow> map_option (\<lambda>(w', wd'). (Inr (), w', wd')) (apply_restart env n w wd)
           | JList vs \<Rightarrow> Some (Inl TypeError, w, wd)
           | JDict d \<Rightarrow> Some (Inl TypeError, w, wd)
           | _ \<Rightarrow> Some (Inr (), w, wd)))"


section \<open>Announcements at the runtime\<close>

lemma str_list_map [simp]: "str_list (map JStr ss) = Some ss"
  by (induction ss) simp_all

lemma apply_worker_announcement:
  assumes "dget (wk_classes w) n = Some c" "n \<noteq> ''''"
  shows "apply_register cr (announcement_of fid now w n) nd =
     (case register_remote n (wk_capabilities c) (ac_capability_metadata c) '''' '''' 0 (health_channel (wk_id w)) (nd_registry nd) of
        Inl e \<Rightarrow> Some (if e = ValueError then Inr () else Inl e, nd)
      | Inr r \<Rightarrow> Some (Inr (), nd\<lparr>nd_registry := r\<rparr>))"
proof -
  let ?p = "m_payload (announcement_of fid now w n)"
  have p: "?p = [(''name'', JStr n), (''capabilities'', JList (map JStr (wk_capabilities c))),
      (''capability_metadata'', JDict (ac_capability_metadata c)), (''health_channel'', JStr (health_channel (wk_id w)))]"
    using assms(1) by (simp add: announcement_of_def)
  have "announced_capabilities ?p = Some (wk_capabilities c)" "announced_metadata ?p = Some (ac_capability_metadata c)"
    unfolding p by (auto simp: announced_capabilities_def announced_metadata_def Let_def)
  moreover have "m_sender (announcement_of fid now w n) = ''''" by (simp add: announcement_of_def default_message_def)
  ultimately show ?thesis
    using assms(2)
    by (simp add: apply_register_def p int_or_zero_def str_or_empty_def as_str_def health_channel_def learn_key_def Let_def split: sum.splits option.splits)
qed

lemma plain_register:
  "codec_ok (cr_codec cr) \<Longrightarrow> nd_signer nd = None \<Longrightarrow>
   on_remote_register cr fid now (serialize (cr_codec cr) m) nd = apply_register cr m nd"
  "codec_ok (cr_codec cr) \<Longrightarrow> nd_signer nd = None \<Longrightarrow>
   on_remote_deregister cr fid now (serialize (cr_codec cr) m) nd = apply_deregister m nd"
  by (simp_all add: on_remote_register_def on_remote_deregister_def on_announcement_def node_deserialize_def deserialize_serialize)

lemma first_registration:
  assumes "lookup r n = None" "dget (r_remote_epochs r) n = None"
  shows "\<exists>r1 e. register_remote n caps meta '''' '''' 0 ch r = Inr r1 \<and> lookup r1 n = Some e \<and> e_health_channel e = ch
     \<and> \<not> e_is_local e \<and> e_owner e = '''' \<and> e_pubkey e = '''' \<and> e_epoch e = 0 \<and> dget (r_remote_epochs r1) n = Some 0"
  using assms by (auto simp: register_remote_def lookup_def Let_def dict_simps)

lemma repeated_registration:
  assumes "lookup r n = Some e" "\<not> e_is_local e" "e_owner e = ''''" "e_pubkey e = ''''" "e_epoch e = 0" "dget (r_remote_epochs r) n = Some 0"
  shows "register_remote n caps meta '''' '''' 0 ch r = Inr r"
  using assms by (simp add: register_remote_def lookup_def)

section \<open>Properties\<close>

text \<open>C40. A worker cannot come back. Workers announce and withdraw their agents without an epoch, which the
  runtime reads as epoch 0; a withdrawal keeps that epoch as the floor below which announcements are
  stale. So once the agents of a worker were withdrawn in an orderly stop, the announcement of the next
  worker that hosts them is ignored: the names stay unroutable in that runtime for good.\<close>

theorem worker_cannot_rejoin:
  assumes "codec_ok (cr_codec cr)" "nd_signer nd = None" "dget (wk_classes w) n = Some c" "dget (wk_classes w') n = Some c'" "n \<noteq> ''''"
    and "lookup (nd_registry nd) n = None" "dget (r_remote_epochs (nd_registry nd)) n = None"
  shows "\<exists>nd1 nd2. on_remote_register cr fid now (serialize (cr_codec cr) (announcement_of f1 t1 w n)) nd = Some (Inr (), nd1)
      \<and> lookup (nd_registry nd1) n \<noteq> None
      \<and> on_remote_deregister cr fid now (serialize (cr_codec cr) (withdrawal_of f2 t2 n)) nd1 = Some (Inr (), nd2)
      \<and> lookup (nd_registry nd2) n = None
      \<and> on_remote_register cr fid now (serialize (cr_codec cr) (announcement_of f3 t3 w' n)) nd2 = Some (Inr (), nd2)"
proof -
  obtain r1 e where r1: "register_remote n (wk_capabilities c) (ac_capability_metadata c) '''' '''' 0 (health_channel (wk_id w)) (nd_registry nd) = Inr r1"
    "lookup r1 n = Some e" "\<not> e_is_local e" "dget (r_remote_epochs r1) n = Some 0"
    using first_registration [OF assms(6,7)] by blast
  let ?r2 = "deregister_remote n 0 r1"
  have r2: "lookup ?r2 n = None" "dget (r_remote_epochs ?r2) n = Some 0"
    using r1(2-4) by (auto simp: deregister_remote_def lookup_def Let_def dict_simps)
  have again: "register_remote n caps meta '''' '''' 0 ch ?r2 = Inr ?r2" for caps meta ch
    using r2 by (simp add: register_remote_def lookup_def)
  have "apply_deregister (withdrawal_of f2 t2 n) (nd\<lparr>nd_registry := r1\<rparr>) = Some (Inr (), nd\<lparr>nd_registry := ?r2\<rparr>)"
    using assms(5) by (simp add: apply_deregister_def withdrawal_of_def int_or_zero_def)
  moreover have "nd\<lparr>nd_registry := ?r2, nd_registry := ?r2\<rparr> = nd\<lparr>nd_registry := ?r2\<rparr>" by simp
  ultimately show ?thesis
    using assms(1,2) r1(1,2) r2(1) again
      apply_worker_announcement [OF assms(3,5), of cr f1 t1 nd] apply_worker_announcement [OF assms(4,5), of cr f3 t3 "nd\<lparr>nd_registry := ?r2\<rparr>"]
    by (intro exI [of _ "nd\<lparr>nd_registry := r1\<rparr>"] exI [of _ "nd\<lparr>nd_registry := ?r2\<rparr>"]) (simp add: plain_register)
qed

text \<open>A replacement worker is probed where its predecessor was. When a worker dies without withdrawing
  its agents and another one announces them, the announcement has the epoch of the entry and changes nothing:
  the entry keeps the health channel of the dead process. A supervisor therefore goes on probing that
  channel, and reports the children as crashed every time the threshold is reached, although the new worker
  is alive.\<close>

theorem replacement_probed_on_dead_channel:
  assumes "codec_ok (cr_codec cr)" "nd_signer nd = None" "dget (wk_classes w) n = Some c" "dget (wk_classes w') n = Some c'" "n \<noteq> ''''"
    and "lookup (nd_registry nd) n = None" "dget (r_remote_epochs (nd_registry nd)) n = None"
    and "probe_threshold s [n] = missed_of (health_channel (wk_id w)) s + 1"
  shows "\<exists>nd1. on_remote_register cr fid now (serialize (cr_codec cr) (announcement_of f1 t1 w n)) nd = Some (Inr (), nd1)
      \<and> on_remote_register cr fid now (serialize (cr_codec cr) (announcement_of f2 t2 w' n)) nd1 = Some (Inr (), nd1)
      \<and> group_by_health_channel (Some (nd_registry nd1)) [n] = ([(health_channel (wk_id w), [n])], [])
      \<and> su_inbox (probe_health_channel (health_channel (wk_id w)) [n] NoAck s) = su_inbox s @ [ChildCrashed (su_next_event s)]"
proof -
  obtain r1 e where r1: "register_remote n (wk_capabilities c) (ac_capability_metadata c) '''' '''' 0 (health_channel (wk_id w)) (nd_registry nd) = Inr r1"
    "lookup r1 n = Some e" "e_health_channel e = health_channel (wk_id w)" "\<not> e_is_local e" "e_owner e = ''''" "e_pubkey e = ''''" "e_epoch e = 0"
    "dget (r_remote_epochs r1) n = Some 0"
    using first_registration [OF assms(6,7)] by blast
  have "register_remote n caps meta '''' '''' 0 ch r1 = Inr r1" for caps meta ch
    by (rule repeated_registration) (fact r1)+
  moreover have "group_by_health_channel (Some r1) [n] = ([(health_channel (wk_id w), [n])], [])"
    using r1(2,3) by (simp add: group_by_health_channel_def channel_of_def Let_def health_channel_def)
  moreover have "su_inbox (probe_health_channel (health_channel (wk_id w)) [n] NoAck s) = su_inbox s @ [ChildCrashed (su_next_event s)]"
    using assms(8) by (simp add: probe_health_channel_def Let_def enqueue_crash_event_def)
  ultimately show ?thesis
    using assms(1,2) r1(1) apply_worker_announcement [OF assms(3,5), of cr f1 t1 nd]
      apply_worker_announcement [OF assms(4,5), of cr f2 t2 "nd\<lparr>nd_registry := r1\<rparr>"]
    by (intro exI [of _ "nd\<lparr>nd_registry := r1\<rparr>"]) (simp add: plain_register)
qed


definition sample_class :: agent_class where
  "sample_class =
     \<lparr>ac_env = base_env, ac_ctor_raises = (\<lambda>n. None), ac_is_dynamic_supervisor = False, ac_capabilities = [''ocr''], ac_capability_metadata = []\<rparr>"

definition sample_worker :: "string \<Rightarrow> worker" where
  "sample_worker wid = new_worker wid [(''scan'', sample_class)] [(''scan'', sample_agent ''scan'')] 2"

definition plain_node :: "(string, string) node" where
  "plain_node = \<lparr>nd_signer = None, nd_registry = new_registry False\<rparr>"

lemma sample_worker_facts:
  "nd_signer plain_node = None" "dget (wk_classes (sample_worker wid)) ''scan'' = Some sample_class" "''scan'' \<noteq> ''''"
  "lookup (nd_registry plain_node) ''scan'' = None" "dget (r_remote_epochs (nd_registry plain_node)) ''scan'' = None"
  by (simp_all add: plain_node_def sample_worker_def new_worker_def lookup_def new_registry_def)

theorem worker_cannot_rejoin_witness:
  "\<exists>nd1 nd2. on_remote_register sample_crypto ''f'' 0 (serialize json_codec (announcement_of ''1'' 0 (sample_worker ''w1'') ''scan'')) plain_node = Some (Inr (), nd1)
      \<and> on_remote_deregister sample_crypto ''f'' 0 (serialize json_codec (withdrawal_of ''2'' 1 ''scan'')) nd1 = Some (Inr (), nd2)
      \<and> on_remote_register sample_crypto ''f'' 0 (serialize json_codec (announcement_of ''3'' 2 (sample_worker ''w2'') ''scan'')) nd2 = Some (Inr (), nd2)
      \<and> lookup (nd_registry nd2) ''scan'' = None"
proof -
  have j: "cr_codec sample_crypto = json_codec" by (simp add: sample_crypto_def)
  from worker_cannot_rejoin [OF sample_crypto_ok(1) sample_worker_facts(1) sample_worker_facts(2) sample_worker_facts(2) sample_worker_facts(3-5),
      of "''f''" 0 "''1''" 0 "''w1''" "''2''" 1 "''3''" 2 "''w2''"] show ?thesis unfolding j by blast
qed

theorem replacement_probed_on_dead_channel_witness:
  "\<exists>nd1. on_remote_register sample_crypto ''f'' 0 (serialize json_codec (announcement_of ''1'' 0 (sample_worker ''w1'') ''scan'')) plain_node = Some (Inr (), nd1)
      \<and> on_remote_register sample_crypto ''f'' 0 (serialize json_codec (announcement_of ''2'' 1 (sample_worker ''w2'') ''scan'')) nd1 = Some (Inr (), nd1)
      \<and> group_by_health_channel (Some (nd_registry nd1)) [''scan''] = ([(''_agency.worker.w1.health'', [''scan''])], [])"
proof -
  let ?s = "(add_remote_child ''scan'' 5 2 1 (sample_sup_state ONE_FOR_ONE))"
  have j: "cr_codec sample_crypto = json_codec" by (simp add: sample_crypto_def)
  have h: "health_channel (wk_id (sample_worker ''w1'')) = ''_agency.worker.w1.health''"
    by (simp add: health_channel_def sample_worker_def new_worker_def)
  have t: "probe_threshold ?s [''scan''] = missed_of (health_channel (wk_id (sample_worker ''w1''))) ?s + 1"
    unfolding h by (simp add: probe_threshold_def threshold_of_def missed_of_def add_remote_child_def sample_sup_state_def new_sup_def dict_simps)
  from replacement_probed_on_dead_channel [OF sample_crypto_ok(1) sample_worker_facts(1) sample_worker_facts(2) sample_worker_facts(2) sample_worker_facts(3-5) t,
      of "''f''" 0 "''1''" 0 "''2''" 1 "''w2''"] show ?thesis unfolding j h by blast
qed

text \<open>A sequence of restart commands.\<close>

fun restart_run :: "sup_env \<Rightarrow> string list \<Rightarrow> worker \<Rightarrow> world \<Rightarrow> (worker \<times> world) option" where
  "restart_run env [] w wd = Some (w, wd)"
| "restart_run env (n # ns) w wd = (case apply_restart env n w wd of None \<Rightarrow> None | Some (w', wd') \<Rightarrow> restart_run env ns w' wd')"

text \<open>The starts of an agent that a trace shows, whatever the counters of the worker say.\<close>

definition starts_in :: "string \<Rightarrow> sup_event list \<Rightarrow> nat" where
  "starts_in n tr = length (filter (\<lambda>ev. \<exists>tid. ev = TStarted n tid) tr)"

lemma starts_in_simps [simp]:
  "starts_in n [] = 0" "starts_in n (tr @ tr') = starts_in n tr + starts_in n tr'"
  "starts_in n [TStopped k] = 0" "starts_in n [TStarted k tid] = (if k = n then 1 else 0)"
  "starts_in n (TStopped k # tr) = starts_in n tr" "starts_in n (TStarted k tid # tr) = (if k = n then 1 else 0) + starts_in n tr"
  by (simp_all add: starts_in_def)

lemma restart_hosted_keeps:
  "restart_hosted env n a w wd = Some (e, w', wd') \<Longrightarrow>
     wk_restart_counts w' = wk_restart_counts w \<and> wk_max_restarts w' = wk_max_restarts w \<and> wk_classes w' = wk_classes w
   \<and> (\<exists>a'. wk_agents w' = dput n a' (wk_agents w))"
  by (auto simp: restart_hosted_def Let_def split: option.splits sum.splits prod.splits if_splits task_pc.splits)

lemma stop_agent_trace:
  "stop_agent env n a wd = Some (e, a', wd') \<Longrightarrow> wd' = wd \<or> wd' = sup_trace (TStopped n) wd"
  by (auto simp: stop_agent_def split: if_splits option.splits prod.splits)

text \<open>A restart that raises starts nothing, one that returns starts the agent once.\<close>

lemma restart_hosted_trace:
  assumes "restart_hosted env n a w wd = Some (e, w', wd')"
  obtains tr where "w_trace wd' = w_trace wd @ tr" "starts_in m tr = (if e = None \<and> m = n then 1 else 0)"
proof -
  obtain e1 a1 wd1 where s: "stop_agent env n a wd = Some (e1, a1, wd1)"
    using assms by (auto simp: restart_hosted_def split: option.splits)
  then obtain t0 where t0: "w_trace wd1 = w_trace wd @ t0" "starts_in m t0 = 0"
    using stop_agent_trace [OF s] by (auto simp: sup_trace_def)
  have "(e \<noteq> None \<and> wd' = wd1) \<or> (e = None \<and> (\<exists>tid. w_trace wd' = w_trace wd1 @ [TStarted n tid]))"
    using assms s by (auto simp: restart_hosted_def Let_def sup_trace_def intro: sym split: option.splits sum.splits prod.splits if_splits task_pc.splits)
  then show ?thesis using t0 that by (elim disjE conjE exE) auto
qed

lemma apply_restart_step:
  assumes "apply_restart env n w wd = Some (w', wd')" "restarts_of w m \<le> wk_max_restarts w"
  shows "wk_max_restarts w' = wk_max_restarts w \<and> restarts_of w' m \<le> wk_max_restarts w'
     \<and> set (dkeys (wk_agents w')) = set (dkeys (wk_agents w))
     \<and> (\<forall>k. k \<noteq> n \<longrightarrow> dget (wk_agents w') k = dget (wk_agents w) k)
     \<and> (\<exists>tr. w_trace wd' = w_trace wd @ tr \<and> restarts_of w' m = restarts_of w m + int (starts_in m tr)
          \<and> starts_in m tr \<le> (if m = n then 1 else 0))"
proof (cases "dget (wk_agents w) n")
  case None
  then show ?thesis using assms by (auto simp: apply_restart_def)
next
  case (Some a)
  then have n: "n \<in> fst ` set (wk_agents w)" by (metis dget_in_set fst_conv image_eqI)
  show ?thesis
  proof (cases "restarts_of w n \<ge> wk_max_restarts w")
    case True
    then show ?thesis using assms Some by (auto simp: apply_restart_def)
  next
    case False
    then obtain e w1 where w1: "restart_hosted env n a w wd = Some (e, w1, wd')"
      "w' = (case e of Some x \<Rightarrow> w1 | None \<Rightarrow> w1\<lparr>wk_restart_counts := dput n (restarts_of w n + 1) (wk_restart_counts w1)\<rparr>)"
      using assms(1) Some by (auto simp: apply_restart_def split: option.splits)
    obtain a' where k: "wk_restart_counts w1 = wk_restart_counts w" "wk_max_restarts w1 = wk_max_restarts w" "wk_agents w1 = dput n a' (wk_agents w)"
      using restart_hosted_keeps [OF w1(1)] by auto
    obtain tr where tr: "w_trace wd' = w_trace wd @ tr" "starts_in m tr = (if e = None \<and> m = n then 1 else 0)"
      using restart_hosted_trace [OF w1(1)] .
    have "wk_max_restarts w' = wk_max_restarts w \<and> restarts_of w' m \<le> wk_max_restarts w'
       \<and> restarts_of w' m = restarts_of w m + int (starts_in m tr)
       \<and> set (dkeys (wk_agents w')) = set (dkeys (wk_agents w))
       \<and> (\<forall>k. k \<noteq> n \<longrightarrow> dget (wk_agents w') k = dget (wk_agents w) k)"
      using False assms(2) n k tr(2) unfolding w1(2)
      by (cases e) (auto simp: restarts_of_def dict_simps)
    then show ?thesis using tr by auto
  qed
qed

text \<open>C33. Restart commands are bounded. Whatever commands a worker handles one after the other, the starts of an agent that
  happen are no more than what \<^verbatim>\<open>max_restarts\<close> leaves over the restarts counted before, and no more than the
  commands that name it, and the counter grows by exactly these starts: a restart that raises is not counted. Commands
  for unknown names change nothing, no agent is added or removed, and an agent no command names is left as it was.\<close>

theorem restart_commands_bounded:
  assumes "restart_run env ns w wd = Some (w', wd')" "restarts_of w n \<le> wk_max_restarts w"
  shows "(\<exists>tr. w_trace wd' = w_trace wd @ tr
        \<and> int (starts_in n tr) \<le> wk_max_restarts w - restarts_of w n \<and> starts_in n tr \<le> count_list ns n
        \<and> restarts_of w' n = restarts_of w n + int (starts_in n tr))
     \<and> set (dkeys (wk_agents w')) = set (dkeys (wk_agents w))
     \<and> (n \<notin> set ns \<longrightarrow> dget (wk_agents w') n = dget (wk_agents w) n)"
  using assms
proof (induction ns arbitrary: w wd)
  case Nil
  then show ?case by auto
next
  case (Cons k ns)
  obtain w1 wd1 where st: "apply_restart env k w wd = Some (w1, wd1)" "restart_run env ns w1 wd1 = Some (w', wd')"
    using Cons.prems(1) by (auto split: option.splits)
  note step = apply_restart_step [OF st(1) Cons.prems(2)]
  then obtain tr where tr: "w_trace wd1 = w_trace wd @ tr" "restarts_of w1 n = restarts_of w n + int (starts_in n tr)"
    "starts_in n tr \<le> (if n = k then 1 else 0)" by blast
  have IH: "(\<exists>tr. w_trace wd' = w_trace wd1 @ tr
        \<and> int (starts_in n tr) \<le> wk_max_restarts w1 - restarts_of w1 n \<and> starts_in n tr \<le> count_list ns n
        \<and> restarts_of w' n = restarts_of w1 n + int (starts_in n tr))
     \<and> set (dkeys (wk_agents w')) = set (dkeys (wk_agents w1))
     \<and> (n \<notin> set ns \<longrightarrow> dget (wk_agents w') n = dget (wk_agents w1) n)"
    by (rule Cons.IH [OF st(2)]) (use step in simp)
  then obtain tr' where tr': "w_trace wd' = w_trace wd1 @ tr'" "int (starts_in n tr') \<le> wk_max_restarts w1 - restarts_of w1 n"
    "starts_in n tr' \<le> count_list ns n" "restarts_of w' n = restarts_of w1 n + int (starts_in n tr')" by blast
  have "\<exists>tr. w_trace wd' = w_trace wd @ tr
        \<and> int (starts_in n tr) \<le> wk_max_restarts w - restarts_of w n \<and> starts_in n tr \<le> count_list (k # ns) n
        \<and> restarts_of w' n = restarts_of w n + int (starts_in n tr)"
    using tr tr' step by (intro exI [of _ "tr @ tr'"]) auto
  then show ?case using IH step by auto
qed

lemma sample_restart: "\<exists>e w' wd'. restart_hosted sample_env ''scan'' (sample_agent ''scan'') (sample_worker ''w1'') sample_world = Some (e, w', wd')"
proof -
  obtain a1 where a1: "stop_agent sample_env ''scan'' (sample_agent ''scan'') sample_world = Some (None, a1, sup_trace (TStopped ''scan'') sample_world)"
    "a_mailbox a1 = new_mailbox 1000 100"
    by (auto simp: stop_agent_def sample_agent_def sample_env_def stop_request_def base_env_def new_agent_def new_mailbox_def mb_put_def q_full_def
        fresh_message_def)
  obtain r where r: "reregister_preserving (wk_registry (sample_worker ''w1'')) ''scan'' = Inr r"
    by (auto simp: reregister_preserving_def register_def deregister_def lookup_def sample_worker_def new_worker_def new_registry_def Let_def)
  obtain mbs where mb: "transfer_mailbox (a_mailbox a1) (a_mailbox (new_agent (se_env sample_env ''scan'') (Some r) (a_store a1) 0)) = Some mbs"
    unfolding a1(2) by (auto simp: transfer_mailbox_def mb_drain_def new_mailbox_def)
  have "se_ctor_raises sample_env ''scan'' = None" "w_now (sup_trace (TStopped ''scan'') sample_world) = 0"
    by (simp_all add: sample_env_def sample_world_def sup_trace_def)
  then show ?thesis
    unfolding restart_hosted_def Let_def using a1(1) r mb
    by (auto split: prod.splits task_pc.splits option.splits)
qed

theorem restart_commands_bounded_witness:
  "\<exists>w' wd'. restart_run sample_env [''scan'', ''ghost''] (sample_worker ''w1'') sample_world = Some (w', wd')
     \<and> restarts_of w' ''scan'' \<le> 1 \<and> set (dkeys (wk_agents w')) = {''scan''}"
proof -
  let ?w = "sample_worker ''w1''"
  have f: "dget (wk_agents ?w) ''scan'' = Some (sample_agent ''scan'')" "restarts_of ?w ''scan'' = 0" "wk_max_restarts ?w = 2"
    "set (dkeys (wk_agents ?w)) = {''scan''}"
    by (simp_all add: sample_worker_def new_worker_def restarts_of_def)
  obtain e w0 wd0 where h: "restart_hosted sample_env ''scan'' (sample_agent ''scan'') ?w sample_world = Some (e, w0, wd0)"
    using sample_restart by blast
  obtain w1 wd1 where one: "apply_restart sample_env ''scan'' ?w sample_world = Some (w1, wd1)"
    by (cases e) (simp_all add: apply_restart_def f(1-3) h)
  have "set (dkeys (wk_agents w1)) = {''scan''}" using apply_restart_step [OF one, of "''scan''"] f by simp
  then have "''ghost'' \<notin> set (dkeys (wk_agents w1))" by simp
  then have "dget (wk_agents w1) ''ghost'' = None" unfolding in_dkeys_iff by simp
  then have r: "restart_run sample_env [''scan'', ''ghost''] ?w sample_world = Some (w1, wd1)"
    using one by (simp add: apply_restart_def)
  moreover obtain tr where "w_trace wd1 = w_trace sample_world @ tr" "starts_in ''scan'' tr \<le> 1"
    "restarts_of w1 ''scan'' = int (starts_in ''scan'' tr)" "set (dkeys (wk_agents w1)) = {''scan''}"
    using restart_commands_bounded [OF r, of "''scan''"] f by auto
  ultimately show ?thesis by (intro exI [of _ w1] exI [of _ wd1]) auto
qed

end
