(* ===== verification/Observability.thy ===== *)
theory Observability
  imports Civitas_Prelude "HOL-Library.Multiset"
begin

text \<open>
  \<^verbatim>\<open>src/civitas/observability/\<close>: the queue of completed spans, the task that batches and exports
  them, the fan-out over several backends, and the in-memory span store with its queries. Backends other
  than the fan-out and the store are parameters. The task is a step function on events, one for every way
  its wait can end.
\<close>

section \<open>Spans and their queue\<close>

record span_data =
  sd_name :: string
  sd_trace_id :: string
  sd_span_id :: string
  sd_parent_span_id :: "string option"
  sd_start_time :: real
  sd_end_time :: real
  sd_attributes :: payload
  sd_status :: string
  sd_error_message :: "string option"

text \<open>\<^verbatim>\<open>asyncio.Queue\<close>: a size of zero or less means no bound.\<close>

record 'a span_queue =
  sq_items :: "'a list"
  sq_maxsize :: int

definition new_span_queue :: "int \<Rightarrow> 'a span_queue" where
  "new_span_queue n = \<lparr>sq_items = [], sq_maxsize = n\<rparr>"

definition sq_full :: "'a span_queue \<Rightarrow> bool" where
  "sq_full q \<longleftrightarrow> sq_maxsize q > 0 \<and> int (length (sq_items q)) \<ge> sq_maxsize q"

definition queue_put_nowait :: "'a \<Rightarrow> 'a span_queue \<Rightarrow> unit result \<times> 'a span_queue" where
  "queue_put_nowait x q = (if sq_full q then (Inl QueueFull, q) else (Inr (), q\<lparr>sq_items := sq_items q @ [x]\<rparr>))"

text \<open>\<^verbatim>\<open>get_nowait\<close>, where \<^const>\<open>None\<close> is \<^verbatim>\<open>QueueEmpty\<close>.\<close>

definition sq_get_nowait :: "'a span_queue \<Rightarrow> ('a \<times> 'a span_queue) option" where
  "sq_get_nowait q = (case sq_items q of [] \<Rightarrow> None | x # xs \<Rightarrow> Some (x, q\<lparr>sq_items := xs\<rparr>))"

definition sq_put_nowait :: "'a \<Rightarrow> 'a span_queue \<Rightarrow> unit result \<times> 'a span_queue" where
  "sq_put_nowait x q =
     (case queue_put_nowait x q of
        (Inl e, q1) \<Rightarrow> queue_put_nowait x (case sq_get_nowait q1 of None \<Rightarrow> q1 | Some (y, q2) \<Rightarrow> q2)
      | ok \<Rightarrow> ok)"

definition sq_empty :: "'a span_queue \<Rightarrow> bool" where
  "sq_empty q \<longleftrightarrow> sq_items q = []"

definition sq_qsize :: "'a span_queue \<Rightarrow> nat" where
  "sq_qsize q = length (sq_items q)"

section \<open>Backends\<close>

text \<open>A backend is the two methods of the protocol on a state of its own; both can raise.\<close>

record ('a, 'b) backend =
  bk_export :: "'a list \<Rightarrow> 'b \<Rightarrow> unit result \<times> 'b"
  bk_shutdown :: "'b \<Rightarrow> unit result \<times> 'b"

fun fan_out_export :: "('a, 'b) backend list \<Rightarrow> 'a list \<Rightarrow> 'b list \<Rightarrow> 'b list" where
  "fan_out_export (b # bs) spans (s # ss) = snd (bk_export b spans s) # fan_out_export bs spans ss"
| "fan_out_export _ spans ss = ss"

fun fan_out_shutdown :: "('a, 'b) backend list \<Rightarrow> 'b list \<Rightarrow> 'b list" where
  "fan_out_shutdown (b # bs) (s # ss) = snd (bk_shutdown b s) # fan_out_shutdown bs ss"
| "fan_out_shutdown _ ss = ss"

definition fan_out :: "('a, 'b) backend list \<Rightarrow> ('a, 'b list) backend" where
  "fan_out bs = \<lparr>bk_export = (\<lambda>spans ss. (Inr (), fan_out_export bs spans ss)), bk_shutdown = (\<lambda>ss. (Inr (), fan_out_shutdown bs ss))\<rparr>"

text \<open>The console backend: one log line per span, with the duration in milliseconds and the message of a
  failed span.\<close>

definition console_line :: "span_data \<Rightarrow> string \<times> real \<times> string option" where
  "console_line sp =
     (sd_name sp, (sd_end_time sp - sd_start_time sp) * 1000,
      if sd_status sp = ''error'' then Some (case sd_error_message sp of None \<Rightarrow> '''' | Some e \<Rightarrow> e) else None)"

definition console_backend :: "(span_data, (string \<times> real \<times> string option) list) backend" where
  "console_backend = \<lparr>bk_export = (\<lambda>spans out. (Inr (), out @ map console_line spans)), bk_shutdown = (\<lambda>out. (Inr (), out))\<rparr>"

section \<open>The export task\<close>

text \<open>The task waits on the queue, awaits an export, or awaits the last export after its cancellation.\<close>

datatype otel_phase = Waiting | Exporting | Closing | Stopped

record ('a, 'b) otel_state =
  ot_queue :: "'a span_queue"
  ot_pending :: "'a list"
  ot_inflight :: "'a list"
  ot_backend :: 'b
  ot_phase :: otel_phase

text \<open>\<^verbatim>\<open>_flush\<close> up to the \<^verbatim>\<open>await\<close>: the batch has left \<^verbatim>\<open>pending\<close>. After it, exceptions
  of the backend are logged and the batch is lost then.\<close>

definition ot_flush :: "otel_phase \<Rightarrow> ('a, 'b) otel_state \<Rightarrow> ('a, 'b) otel_state" where
  "ot_flush ph t =
     (if ot_pending t = [] then t
      else t\<lparr>ot_pending := [], ot_inflight := ot_pending t, ot_phase := ph\<rparr>)"

definition ot_exported :: "('a, 'b) backend \<Rightarrow> ('a, 'b) otel_state \<Rightarrow> ('a, 'b) otel_state" where
  "ot_exported bk t =
     t\<lparr>ot_inflight := [], ot_backend := snd (bk_export bk (ot_inflight t) (ot_backend t)), ot_phase := Waiting\<rparr>"

text \<open>The events: the tracer emits a span; the task takes a span from the queue; its wait times out; the export it
  awaits ends; it is cancelled at one of its awaits, and \<open>n\<close> spans are drained before the deadline.\<close>

datatype 'a otel_event = Emit 'a | Take | FlushTimer | Exported | Cancel nat

fun ot_drain :: "nat \<Rightarrow> ('a, 'b) otel_state \<Rightarrow> ('a, 'b) otel_state" where
  "ot_drain 0 t = t"
| "ot_drain (Suc n) t =
     (case sq_get_nowait (ot_queue t) of
        None \<Rightarrow> t
      | Some (x, q) \<Rightarrow> ot_drain n (t\<lparr>ot_queue := q, ot_pending := ot_pending t @ [x]\<rparr>))"

definition ot_shutdown :: "('a, 'b) backend \<Rightarrow> ('a, 'b) otel_state \<Rightarrow> ('a, 'b) otel_state" where
  "ot_shutdown bk t = t\<lparr>ot_backend := snd (bk_shutdown bk (ot_backend t)), ot_phase := Stopped\<rparr>"

text \<open>The handler of \<^verbatim>\<open>CancelledError\<close>, up to the \<^verbatim>\<open>await\<close> of its export if there is something
  to export.\<close>

definition ot_close :: "('a, 'b) backend \<Rightarrow> nat \<Rightarrow> ('a, 'b) otel_state \<Rightarrow> ('a, 'b) otel_state" where
  "ot_close bk n t =
     (let t1 = ot_flush Closing (ot_drain n t)
      in if ot_phase t1 = Closing then t1 else ot_shutdown bk t1)"

text \<open>A cancelled export: \<^verbatim>\<open>except Exception\<close> does not catch \<^verbatim>\<open>CancelledError\<close>, so the batch, already
  cleared, is not put back. \<open>abort\<close> is what the backend has made of it until then.\<close>

definition ot_abort :: "('a list \<Rightarrow> 'b \<Rightarrow> 'b) \<Rightarrow> ('a, 'b) otel_state \<Rightarrow> ('a, 'b) otel_state" where
  "ot_abort abort t = t\<lparr>ot_inflight := [], ot_backend := abort (ot_inflight t) (ot_backend t)\<rparr>"

definition otel_step ::
  "('a, 'b) backend \<Rightarrow> ('a list \<Rightarrow> 'b \<Rightarrow> 'b) \<Rightarrow> nat \<Rightarrow> 'a otel_event \<Rightarrow> ('a, 'b) otel_state \<Rightarrow> ('a, 'b) otel_state" where
  "otel_step bk abort batch_size ev t =
     (case ev of
        Emit x \<Rightarrow> t\<lparr>ot_queue := snd (sq_put_nowait x (ot_queue t))\<rparr>
      | Take \<Rightarrow>
          (if ot_phase t \<noteq> Waiting then t
           else case sq_get_nowait (ot_queue t) of
                  None \<Rightarrow> t
                | Some (x, q) \<Rightarrow>
                    (let t1 = t\<lparr>ot_queue := q, ot_pending := ot_pending t @ [x]\<rparr>
                     in if length (ot_pending t1) \<ge> batch_size then ot_flush Exporting t1 else t1))
      | FlushTimer \<Rightarrow> if ot_phase t \<noteq> Waiting then t else ot_flush Exporting t
      | Exported \<Rightarrow>
          (case ot_phase t of
             Exporting \<Rightarrow> ot_exported bk t
           | Closing \<Rightarrow> ot_shutdown bk (ot_exported bk t)
           | _ \<Rightarrow> t)
      | Cancel n \<Rightarrow>
          (case ot_phase t of
             Waiting \<Rightarrow> ot_close bk n t
           | Exporting \<Rightarrow> ot_close bk n (ot_abort abort t)
           | Closing \<Rightarrow> (ot_abort abort t)\<lparr>ot_phase := Stopped\<rparr>
           | Stopped \<Rightarrow> t))"

definition run_otel ::
  "('a, 'b) backend \<Rightarrow> ('a list \<Rightarrow> 'b \<Rightarrow> 'b) \<Rightarrow> nat \<Rightarrow> 'a otel_event list \<Rightarrow> ('a, 'b) otel_state \<Rightarrow> ('a, 'b) otel_state" where
  "run_otel bk abort batch_size evs t = fold (otel_step bk abort batch_size) evs t"

section \<open>The span store\<close>

record cost_bucket =
  cb_bucket_start :: real
  cb_agent_name :: "string option"
  cb_model :: "string option"
  cb_total_cost_usd :: real
  cb_total_tokens_in :: int
  cb_total_tokens_out :: int

record rate_bucket =
  rb_bucket_start :: real
  rb_agent_name :: "string option"
  rb_message_count :: int

record span_record =
  sr_name :: string
  sr_trace_id :: string
  sr_span_id :: string
  sr_parent_span_id :: "string option"
  sr_start_time :: real
  sr_end_time :: real
  sr_status :: string
  sr_error_message :: "string option"
  sr_agent_name :: "string option"
  sr_llm_model :: "string option"
  sr_llm_tokens_in :: "int option"
  sr_llm_tokens_out :: "int option"
  sr_llm_cost_usd :: "real option"

text \<open>The promoted columns. An attribute of another type than its column declares is left out.\<close>

definition attr_str :: "payload \<Rightarrow> string \<Rightarrow> string option" where
  "attr_str a k = (case dget a k of Some (JStr s) \<Rightarrow> Some s | _ \<Rightarrow> None)"

definition attr_int :: "payload \<Rightarrow> string \<Rightarrow> int option" where
  "attr_int a k = (case dget a k of Some (JInt i) \<Rightarrow> Some i | _ \<Rightarrow> None)"

definition attr_float :: "payload \<Rightarrow> string \<Rightarrow> real option" where
  "attr_float a k = (case dget a k of Some (JFloat r) \<Rightarrow> Some r | Some (JInt i) \<Rightarrow> Some (of_int i) | _ \<Rightarrow> None)"

definition span_columns :: "span_data \<Rightarrow> string option \<times> string option \<times> int option \<times> int option \<times> real option" where
  "span_columns sp =
     (let a = sd_attributes sp; n = sd_name sp in
      if startswith n ''civitas.agent.'' then (attr_str a ''civitas.agent.name'', None, None, None, None)
      else if n = ''civitas.llm.chat'' then
        (attr_str a ''civitas.agent.name'', attr_str a ''civitas.llm.model'', attr_int a ''civitas.llm.tokens_in'',
         attr_int a ''civitas.llm.tokens_out'', attr_float a ''civitas.llm.cost_usd'')
      else if startswith n ''llm.chat '' then
        (None, attr_str a ''llm.model'', attr_int a ''llm.tokens_in'', attr_int a ''llm.tokens_out'', attr_float a ''llm.cost_usd'')
      else if startswith n ''send '' \<or> startswith n ''recv '' then (attr_str a ''civitas.sender'', None, None, None, None)
      else if startswith n ''tool.execute'' then (attr_str a ''civitas.sender'', None, None, None, None)
      else if n = ''supervisor.restart'' then (attr_str a ''civitas.child'', None, None, None, None)
      else (None, None, None, None, None))"

definition new_span_record :: "span_data \<Rightarrow> span_record" where
  "new_span_record sp =
     (case span_columns sp of (ag, md, ti, tou, co) \<Rightarrow>
        \<lparr>sr_name = sd_name sp, sr_trace_id = sd_trace_id sp, sr_span_id = sd_span_id sp, sr_parent_span_id = sd_parent_span_id sp,
         sr_start_time = sd_start_time sp, sr_end_time = sd_end_time sp, sr_status = sd_status sp,
         sr_error_message = sd_error_message sp, sr_agent_name = ag, sr_llm_model = md, sr_llm_tokens_in = ti,
         sr_llm_tokens_out = tou, sr_llm_cost_usd = co\<rparr>)"

record span_store =
  st_maxsize :: nat
  st_spans :: "span_record list"

text \<open>\<^verbatim>\<open>xs[-n:]\<close>; for \<open>n = 0\<close> the slice is the whole list.\<close>

definition last_slice :: "nat \<Rightarrow> 'a list \<Rightarrow> 'a list" where
  "last_slice n xs = (if n = 0 then xs else keep_last n xs)"

definition store_export :: "span_data list \<Rightarrow> span_store \<Rightarrow> span_store" where
  "store_export spans st =
     (let xs = st_spans st @ map new_span_record spans
      in st\<lparr>st_spans := (if length xs > st_maxsize st then last_slice (st_maxsize st) xs else xs)\<rparr>)"

definition store_shutdown :: "span_store \<Rightarrow> span_store" where
  "store_shutdown st = st\<lparr>st_spans := []\<rparr>"

section \<open>Queries\<close>

definition in_range :: "real \<Rightarrow> real \<Rightarrow> span_record \<Rightarrow> bool" where
  "in_range since until s \<longleftrightarrow> since \<le> sr_start_time s \<and> sr_start_time s \<le> until"

definition bucket_start :: "real \<Rightarrow> int \<Rightarrow> real" where
  "bucket_start t b = of_int (trunc_real (t / of_int b)) * of_int b"

text \<open>\<^verbatim>\<open>groups.setdefault(key, [0.0, 0, 0])\<close> and the three additions.\<close>

fun cost_groups :: "real \<Rightarrow> real \<Rightarrow> int \<Rightarrow> span_record list
    \<Rightarrow> (real \<times> string option \<times> string option, real \<times> int \<times> int) dict \<Rightarrow> (real \<times> string option \<times> string option, real \<times> int \<times> int) dict" where
  "cost_groups since until b [] g = g"
| "cost_groups since until b (s # ss) g =
     cost_groups since until b ss
       (case sr_llm_cost_usd s of
          None \<Rightarrow> g
        | Some c \<Rightarrow>
            if \<not> in_range since until s then g
            else let k = (bucket_start (sr_start_time s) b, sr_agent_name s, sr_llm_model s);
                     (x, i, j) = (case dget g k of None \<Rightarrow> (0, 0, 0) | Some v \<Rightarrow> v)
                 in dput k (x + c, i + (case sr_llm_tokens_in s of None \<Rightarrow> 0 | Some n \<Rightarrow> n),
                            j + (case sr_llm_tokens_out s of None \<Rightarrow> 0 | Some n \<Rightarrow> n)) g)"

definition new_cost_bucket :: "(real \<times> string option \<times> string option) \<times> (real \<times> int \<times> int) \<Rightarrow> cost_bucket" where
  "new_cost_bucket kv =
     (case kv of ((t, a, md), (x, i, j)) \<Rightarrow>
        \<lparr>cb_bucket_start = t, cb_agent_name = a, cb_model = md, cb_total_cost_usd = x, cb_total_tokens_in = i, cb_total_tokens_out = j\<rparr>)"

text \<open>A bucket width of zero divides by zero at the first span that counts.\<close>

definition counts_cost :: "real \<Rightarrow> real \<Rightarrow> span_record \<Rightarrow> bool" where
  "counts_cost since until s \<longleftrightarrow> sr_llm_cost_usd s \<noteq> None \<and> in_range since until s"

definition cost_over_time :: "real \<Rightarrow> real \<Rightarrow> int \<Rightarrow> span_store \<Rightarrow> cost_bucket list result" where
  "cost_over_time since until b st =
     (if b = 0 \<and> (\<exists>s \<in> set (st_spans st). counts_cost since until s) then Inl ZeroDivisionError
      else Inr (sort_key cb_bucket_start (map new_cost_bucket (cost_groups since until b (st_spans st) []))))"

definition is_handle_span :: "real \<Rightarrow> real \<Rightarrow> span_record \<Rightarrow> bool" where
  "is_handle_span since until s \<longleftrightarrow> sr_name s = ''civitas.agent.handle'' \<and> in_range since until s"

fun rate_groups :: "real \<Rightarrow> real \<Rightarrow> int \<Rightarrow> span_record list \<Rightarrow> (real \<times> string option, int) dict \<Rightarrow> (real \<times> string option, int) dict" where
  "rate_groups since until b [] g = g"
| "rate_groups since until b (s # ss) g =
     rate_groups since until b ss
       (if \<not> is_handle_span since until s then g
        else let k = (bucket_start (sr_start_time s) b, sr_agent_name s)
             in dput k ((case dget g k of None \<Rightarrow> 0 | Some n \<Rightarrow> n) + 1) g)"

definition new_rate_bucket :: "(real \<times> string option) \<times> int \<Rightarrow> rate_bucket" where
  "new_rate_bucket kv = (case kv of ((t, a), n) \<Rightarrow> \<lparr>rb_bucket_start = t, rb_agent_name = a, rb_message_count = n\<rparr>)"

definition message_rate_over_time :: "real \<Rightarrow> real \<Rightarrow> int \<Rightarrow> span_store \<Rightarrow> rate_bucket list result" where
  "message_rate_over_time since until b st =
     (if b = 0 \<and> (\<exists>s \<in> set (st_spans st). is_handle_span since until s) then Inl ZeroDivisionError
      else Inr (sort_key rb_bucket_start (map new_rate_bucket (rate_groups since until b (st_spans st) []))))"

fun cost_by :: "(span_record \<Rightarrow> string option) \<Rightarrow> real \<Rightarrow> real \<Rightarrow> span_record list \<Rightarrow> (string, real) dict \<Rightarrow> (string, real) dict" where
  "cost_by f since until [] g = g"
| "cost_by f since until (s # ss) g =
     cost_by f since until ss
       (case (sr_llm_cost_usd s, f s) of
          (Some c, Some k) \<Rightarrow>
            if in_range since until s then dput k ((case dget g k of None \<Rightarrow> 0 | Some x \<Rightarrow> x) + c) g else g
        | _ \<Rightarrow> g)"

definition cost_by_agent :: "real \<Rightarrow> real \<Rightarrow> span_store \<Rightarrow> (string, real) dict" where
  "cost_by_agent since until st = cost_by sr_agent_name since until (st_spans st) []"

definition cost_by_model :: "real \<Rightarrow> real \<Rightarrow> span_store \<Rightarrow> (string, real) dict" where
  "cost_by_model since until st = cost_by sr_llm_model since until (st_spans st) []"

text \<open>\<^verbatim>\<open>rows.sort(key=..., reverse=True)\<close> keeps the order of equal keys: it sorts by the negated
  time. \<^verbatim>\<open>rows[:limit]\<close> with a negative limit drops from the end.\<close>

definition slice_to :: "int \<Rightarrow> 'a list \<Rightarrow> 'a list" where
  "slice_to n xs = (if n \<ge> 0 then take (nat n) xs else take (length xs - nat (- n)) xs)"

definition recent_spans :: "real \<Rightarrow> real \<Rightarrow> int \<Rightarrow> span_store \<Rightarrow> span_record list" where
  "recent_spans since until limit st = slice_to limit (sort_key (\<lambda>s. - sr_start_time s) (filter (in_range since until) (st_spans st)))"

definition spans_in_trace :: "string \<Rightarrow> real \<Rightarrow> real \<Rightarrow> span_store \<Rightarrow> span_record list" where
  "spans_in_trace tid since until st =
     sort_key sr_start_time (filter (\<lambda>s. sr_trace_id s = tid \<and> in_range since until s) (st_spans st))"


section \<open>Both buffers drop the oldest entry\<close>

interpretation spans: drop_oldest "nat cap" "\<lambda>x q. snd (sq_put_nowait x q)" sq_items
  "\<lambda>q. 0 < cap \<and> sq_maxsize q = cap \<and> int (length (sq_items q)) \<le> cap" for cap
proof
  fix q :: "'a span_queue" and x
  assume ok: "0 < cap \<and> sq_maxsize q = cap \<and> int (length (sq_items q)) \<le> cap"
  show "sq_items (snd (sq_put_nowait x q)) = keep_last (nat cap) (sq_items q @ [x])"
  proof (cases "int (length (sq_items q)) < cap")
    case True
    then show ?thesis using ok by (simp add: sq_put_nowait_def queue_put_nowait_def sq_full_def)
  next
    case False
    then obtain y ys where ys: "sq_items q = y # ys" using ok by (cases "sq_items q") auto
    then have "nat cap = Suc (length ys)" using ok False by auto
    then show ?thesis
      using ok False ys by (simp add: sq_put_nowait_def queue_put_nowait_def sq_get_nowait_def sq_full_def keep_last_def)
  qed
  then show "0 < cap \<and> sq_maxsize (snd (sq_put_nowait x q)) = cap \<and> int (length (sq_items (snd (sq_put_nowait x q)))) \<le> cap"
    using ok by (auto simp: sq_put_nowait_def queue_put_nowait_def sq_get_nowait_def split: list.splits)
qed

lemma subseq_tail: "subseq (tl xs) xs"
  by (cases xs) auto

text \<open>The emitter never waits and never sees an exception.\<close>

definition queue_ok :: "'a span_queue \<Rightarrow> bool" where
  "queue_ok q \<longleftrightarrow> sq_maxsize q \<le> 0 \<or> int (length (sq_items q)) \<le> sq_maxsize q"

lemma sq_put_nowait_total: "queue_ok q \<Longrightarrow> fst (sq_put_nowait x q) = Inr () \<and> queue_ok (snd (sq_put_nowait x q))"
  by (auto simp: queue_ok_def sq_put_nowait_def queue_put_nowait_def sq_get_nowait_def sq_full_def split: list.splits)

lemma sq_put_nowait_cases:
  "queue_ok q \<Longrightarrow> sq_items (snd (sq_put_nowait x q)) = sq_items q @ [x]
   \<or> (sq_full q \<and> sq_items (snd (sq_put_nowait x q)) = tl (sq_items q) @ [x])"
  by (auto simp: queue_ok_def sq_put_nowait_def queue_put_nowait_def sq_get_nowait_def sq_full_def split: list.splits)

lemma sq_put_nowait_maxsize [simp]: "sq_maxsize (snd (sq_put_nowait x q)) = sq_maxsize q"
  by (auto simp: sq_put_nowait_def queue_put_nowait_def sq_get_nowait_def split: list.splits)

section \<open>What the export task keeps\<close>

definition emitted :: "'a otel_event list \<Rightarrow> 'a list" where
  "emitted evs = concat (map (\<lambda>ev. case ev of Emit x \<Rightarrow> [x] | _ \<Rightarrow> []) evs)"

text \<open>The spans whose export a cancellation interrupts.\<close>

definition cut_spans :: "'a otel_event \<Rightarrow> ('a, 'b) otel_state \<Rightarrow> 'a list" where
  "cut_spans ev t = (case ev of Cancel k \<Rightarrow> ot_inflight t | _ \<Rightarrow> [])"

fun interrupted ::
  "('a, 'b) backend \<Rightarrow> ('a list \<Rightarrow> 'b \<Rightarrow> 'b) \<Rightarrow> nat \<Rightarrow> 'a otel_event list \<Rightarrow> ('a, 'b) otel_state \<Rightarrow> 'a list" where
  "interrupted bk abort n [] t = []"
| "interrupted bk abort n (ev # evs) t = cut_spans ev t @ interrupted bk abort n evs (otel_step bk abort n ev t)"

lemma interrupted_snoc:
  "interrupted bk abort n (evs @ [ev]) t = interrupted bk abort n evs t @ cut_spans ev (run_otel bk abort n evs t)"
  by (induction evs arbitrary: t) (simp_all add: run_otel_def)

definition otel_ok :: "nat \<Rightarrow> ('a, 'b) otel_state \<Rightarrow> bool" where
  "otel_ok n t \<longleftrightarrow> queue_ok (ot_queue t) \<and> length (ot_pending t) < n
     \<and> (ot_phase t \<in> {Waiting, Stopped} \<longrightarrow> ot_inflight t = []) \<and> (ot_phase t \<noteq> Waiting \<longrightarrow> ot_pending t = [])"

lemma ot_drain_eq:
  "ot_drain k t = t\<lparr>ot_queue := (ot_queue t)\<lparr>sq_items := drop k (sq_items (ot_queue t))\<rparr>,
     ot_pending := ot_pending t @ take k (sq_items (ot_queue t))\<rparr>"
  by (induction k t rule: ot_drain.induct) (auto simp: sq_get_nowait_def split: list.splits)

lemmas close_defs = ot_close_def Let_def ot_flush_def ot_drain_eq ot_shutdown_def

lemma step_ok:
  assumes "otel_ok n t" "0 < n"
  shows "otel_ok n (otel_step bk abort n ev t) \<and> sq_maxsize (ot_queue (otel_step bk abort n ev t)) = sq_maxsize (ot_queue t)"
proof (cases ev)
  case (Emit x)
  then show ?thesis
    using assms sq_put_nowait_total [of "ot_queue t" x] by (simp add: otel_step_def otel_ok_def)
next
  case Take
  then show ?thesis
    using assms by (auto simp: otel_step_def otel_ok_def Let_def ot_flush_def sq_get_nowait_def queue_ok_def split: list.splits)
next
  case FlushTimer
  then show ?thesis using assms by (auto simp: otel_step_def otel_ok_def ot_flush_def)
next
  case Exported
  then show ?thesis
    using assms by (auto simp: otel_step_def otel_ok_def ot_exported_def ot_shutdown_def split: otel_phase.splits)
next
  case (Cancel k)
  then show ?thesis
    using assms by (auto simp: otel_step_def otel_ok_def close_defs ot_abort_def queue_ok_def split: otel_phase.splits)
qed

text \<open>
  A backend that takes what it is given: \<open>log\<close> is what it made of the spans it received so far,
  one \<open>line\<close> for each. The spans a task accounts for are those, then the ones of the export it awaits, then the
  pending ones, then the queued ones.
\<close>

locale span_sink =
  fixes bk :: "('a, 'b) backend" and line :: "'a \<Rightarrow> 'c" and log :: "'b \<Rightarrow> 'c list"
  assumes export_logs: "log (snd (bk_export bk xs s)) = log s @ map line xs"
    and shutdown_logs: "log (snd (bk_shutdown bk s)) = log s"
begin

definition accounted :: "('a, 'b) otel_state \<Rightarrow> 'c list" where
  "accounted t = log (ot_backend t) @ map line (ot_inflight t @ ot_pending t @ sq_items (ot_queue t))"

lemma flush_accounted: "ot_inflight t = [] \<Longrightarrow> accounted (ot_flush ph t) = accounted t"
  by (simp add: accounted_def ot_flush_def)

lemma close_accounted: "ot_inflight t = [] \<Longrightarrow> accounted (ot_close bk k t) = accounted t"
proof -
  assume i: "ot_inflight t = []"
  have "map line (take k xs) @ map line (drop k xs) = map line xs" for xs by (metis append_take_drop_id map_append)
  with i show "accounted (ot_close bk k t) = accounted t"
    by (auto simp: accounted_def close_defs shutdown_logs)
qed

lemma exported_accounted: "ot_pending t = [] \<Longrightarrow> accounted (ot_exported bk t) = accounted t"
  by (simp add: accounted_def ot_exported_def export_logs)

end

text \<open>A cancelled export has delivered some of its batch, in order.\<close>

locale cancellable_sink = span_sink bk line log
  for bk :: "('a, 'b) backend" and line :: "'a \<Rightarrow> 'c" and log :: "'b \<Rightarrow> 'c list" +
  fixes abort :: "'a list \<Rightarrow> 'b \<Rightarrow> 'b"
  assumes abort_logs: "\<exists>ys. subseq ys xs \<and> log (abort xs s) = log s @ map line ys"
begin

lemma abort_accounted:
  "subseq (accounted (ot_abort abort t)) (accounted t)"
  "mset (accounted t) \<subseteq># mset (accounted (ot_abort abort t)) + mset (map line (ot_inflight t))"
proof -
  obtain ys where ys: "subseq ys (ot_inflight t)" "log (abort (ot_inflight t) (ot_backend t)) = log (ot_backend t) @ map line ys"
    using abort_logs by blast
  have "subseq (map line ys) (map line (ot_inflight t))" by (rule subseq_map [OF ys(1)])
  then show "subseq (accounted (ot_abort abort t)) (accounted t)"
    by (auto simp: accounted_def ot_abort_def ys(2) intro!: list_emb_append_mono)
  show "mset (accounted t) \<subseteq># mset (accounted (ot_abort abort t)) + mset (map line (ot_inflight t))"
    by (simp add: accounted_def ot_abort_def ys(2) subset_mset.add_increasing2 add.commute add.left_commute)
qed

lemma step_accounted:
  fixes ev
  assumes "otel_ok n t"
  defines "u \<equiv> otel_step bk abort n ev t" and "e \<equiv> (case ev of Emit x \<Rightarrow> [line x] | _ \<Rightarrow> [])"
  shows "subseq (accounted u) (accounted t @ e)"
    "\<not> (sq_full (ot_queue t) \<and> (\<exists>x. ev = Emit x)) \<Longrightarrow>
       mset (accounted t @ e) \<subseteq># mset (accounted u) + mset (map line (cut_spans ev t))"
proof -
  have q: "queue_ok (ot_queue t)" using assms(1) by (simp add: otel_ok_def)
  have "subseq (accounted u) (accounted t @ e) \<and> (\<not> (sq_full (ot_queue t) \<and> (\<exists>x. ev = Emit x)) \<longrightarrow>
       mset (accounted t @ e) \<subseteq># mset (accounted u) + mset (map line (cut_spans ev t)))"
  proof (cases ev)
    case (Emit x)
    then show ?thesis
      using sq_put_nowait_cases [OF q, of x]
      by (auto simp: u_def e_def otel_step_def accounted_def map_tl cut_spans_def intro!: list_emb_append_mono subseq_tail)
  next
    case Take
    then have "accounted u = accounted t"
      using assms(1) by (auto simp: u_def otel_step_def sq_get_nowait_def Let_def accounted_def ot_flush_def otel_ok_def split: list.splits)
    then show ?thesis by (simp add: Take e_def cut_spans_def)
  next
    case FlushTimer
    then have "accounted u = accounted t"
      using assms(1) flush_accounted [of t Exporting] by (auto simp: u_def otel_step_def otel_ok_def)
    then show ?thesis by (simp add: FlushTimer e_def cut_spans_def)
  next
    case Exported
    then have "accounted u = accounted t"
      using assms(1) exported_accounted [of t]
      by (auto simp: u_def otel_step_def otel_ok_def ot_shutdown_def accounted_def shutdown_logs split: otel_phase.splits)
    then show ?thesis by (simp add: Exported e_def cut_spans_def)
  next
    case (Cancel k)
    have ab: "ot_inflight (ot_abort abort t) = []" by (simp add: ot_abort_def)
    have st: "accounted ((ot_abort abort t)\<lparr>ot_phase := Stopped\<rparr>) = accounted (ot_abort abort t)" by (simp add: accounted_def)
    have "accounted u = accounted t \<or> accounted u = accounted (ot_abort abort t)"
      using assms(1) Cancel close_accounted [of t k] close_accounted [OF ab, of k] st
      by (auto simp: u_def otel_step_def otel_ok_def split: otel_phase.splits)
    then show ?thesis
      using abort_accounted [of t] by (auto simp: Cancel e_def cut_spans_def)
  qed
  then show "subseq (accounted u) (accounted t @ e)"
    "\<not> (sq_full (ot_queue t) \<and> (\<exists>x. ev = Emit x)) \<Longrightarrow>
       mset (accounted t @ e) \<subseteq># mset (accounted u) + mset (map line (cut_spans ev t))" by blast+
qed

lemma run_keeps:
  assumes "otel_ok n t" "0 < n"
  shows "otel_ok n (run_otel bk abort n evs t) \<and> sq_maxsize (ot_queue (run_otel bk abort n evs t)) = sq_maxsize (ot_queue t)
     \<and> subseq (accounted (run_otel bk abort n evs t)) (accounted t @ map line (emitted evs))
     \<and> (sq_maxsize (ot_queue t) \<le> 0 \<or> int (length (accounted t @ map line (emitted evs))) \<le> sq_maxsize (ot_queue t)
         \<longrightarrow> mset (accounted t @ map line (emitted evs))
               \<subseteq># mset (accounted (run_otel bk abort n evs t)) + mset (map line (interrupted bk abort n evs t)))"
proof (induction evs rule: rev_induct)
  case Nil
  then show ?case using assms by (simp add: run_otel_def emitted_def)
next
  case (snoc ev evs)
  let ?t = "run_otel bk abort n evs t" and ?u = "otel_step bk abort n ev (run_otel bk abort n evs t)"
  let ?e = "case ev of Emit x \<Rightarrow> [line x] | _ \<Rightarrow> []"
  have u: "run_otel bk abort n (evs @ [ev]) t = ?u" by (simp add: run_otel_def)
  have em: "map line (emitted (evs @ [ev])) = map line (emitted evs) @ ?e" by (simp add: emitted_def split: otel_event.split)
  have ok: "otel_ok n ?t" "sq_maxsize (ot_queue ?t) = sq_maxsize (ot_queue t)" using snoc by simp_all
  have "subseq (accounted ?t @ ?e) (accounted t @ map line (emitted evs) @ ?e)"
    using snoc list_emb_append_mono [of "(=)" "accounted ?t" "accounted t @ map line (emitted evs)" ?e ?e] by simp
  then have sub: "subseq (accounted ?u) (accounted t @ map line (emitted (evs @ [ev])))"
    using step_accounted(1) [OF ok(1), of ev] unfolding em by (rule subseq_order.order_trans [rotated])
  have "mset (accounted t @ map line (emitted (evs @ [ev]))) \<subseteq># mset (accounted ?u) + mset (map line (interrupted bk abort n (evs @ [ev]) t))"
    if room: "sq_maxsize (ot_queue t) \<le> 0 \<or> int (length (accounted t @ map line (emitted (evs @ [ev])))) \<le> sq_maxsize (ot_queue t)"
  proof -
    have "length (accounted ?t) \<le> length (accounted t @ map line (emitted evs))" using snoc by (auto dest: list_emb_length)
    then have "\<not> (sq_full (ot_queue ?t) \<and> (\<exists>x. ev = Emit x))"
      using room ok(2) unfolding em by (auto simp: sq_full_def accounted_def)
    note step = step_accounted(2) [OF ok(1) this]
    have "mset (accounted t @ map line (emitted evs)) \<subseteq># mset (accounted ?t) + mset (map line (interrupted bk abort n evs t))"
      using snoc room unfolding em by auto
    from subset_mset.add_mono [OF this step] show ?thesis
      unfolding em interrupted_snoc by (simp add: ac_simps)
  qed
  then show ?case using step_ok [OF ok(1) assms(2), of bk abort ev] ok(2) sub unfolding u by simp
qed

end

text \<open>The console backend never suspends in its export; an interrupted export of it would have delivered nothing.\<close>

interpretation console: cancellable_sink console_backend console_line "\<lambda>out. out" "\<lambda>xs out. out"
  by unfold_locales (auto simp: console_backend_def intro: exI [of _ "[]"])

definition otel_start :: "int \<Rightarrow> 'b \<Rightarrow> ('a, 'b) otel_state" where
  "otel_start cap b = \<lparr>ot_queue = new_span_queue cap, ot_pending = [], ot_inflight = [], ot_backend = b, ot_phase = Waiting\<rparr>"

lemma fan_out_export_nth:
  "length bs = length ss \<Longrightarrow> i < length ss \<Longrightarrow> fan_out_export bs xs ss ! i = snd (bk_export (bs ! i) xs (ss ! i))"
  by (induction bs xs ss arbitrary: i rule: fan_out_export.induct) (auto simp: nth_Cons split: nat.splits)

section \<open>Grouping\<close>

text \<open>
  The queries fold the spans into a dictionary: a span with a key adds its value to the entry of the key,
  which starts at \<open>zero\<close>; a span without a key changes nothing. What a client reads: an entry is the
  sum over exactly the spans with its key.
\<close>

locale grouping =
  fixes key :: "'s \<Rightarrow> 'k option" and val :: "'s \<Rightarrow> 'v" and add :: "'v \<Rightarrow> 'v \<Rightarrow> 'v" and zero :: 'v
    and acc :: "'s list \<Rightarrow> ('k, 'v) dict \<Rightarrow> ('k, 'v) dict"
  assumes acc_Nil: "acc [] g = g"
    and acc_None: "key s = None \<Longrightarrow> acc (s # ss) g = acc ss g"
    and acc_Some: "key s = Some k \<Longrightarrow>
          acc (s # ss) g = acc ss (dput k (add (case dget g k of None \<Rightarrow> zero | Some v \<Rightarrow> v) (val s)) g)"
begin

lemma acc_entry:
  "dget (acc ss g) k =
     (if \<exists>s \<in> set ss. key s = Some k
      then Some (foldl add (case dget g k of None \<Rightarrow> zero | Some v \<Rightarrow> v) (map val (filter (\<lambda>s. key s = Some k) ss)))
      else dget g k)"
proof (induction ss arbitrary: g)
  case Nil
  show ?case by (simp add: acc_Nil)
next
  case (Cons s ss)
  show ?case
    by (cases "key s") (auto simp: acc_None acc_Some Cons.IH dict_simps split: option.splits)
qed

lemma acc_ok: "dict_ok g \<Longrightarrow> dict_ok (acc ss g)"
proof (induction ss arbitrary: g)
  case (Cons s ss)
  then show ?case by (cases "key s") (auto simp: acc_None acc_Some)
qed (simp add: acc_Nil)

lemma acc_from_empty:
  "(k, v) \<in> set (acc ss []) \<longleftrightarrow>
     (\<exists>s \<in> set ss. key s = Some k) \<and> v = foldl add zero (map val (filter (\<lambda>s. key s = Some k) ss))"
  using in_set_dget [OF acc_ok, of "[]" k v ss] acc_entry [of ss "[]" k] by auto

end

definition add_cost :: "real \<times> int \<times> int \<Rightarrow> real \<times> int \<times> int \<Rightarrow> real \<times> int \<times> int" where
  "add_cost x y = (fst x + fst y, fst (snd x) + fst (snd y), snd (snd x) + snd (snd y))"

definition cost_key :: "real \<Rightarrow> real \<Rightarrow> int \<Rightarrow> span_record \<Rightarrow> (real \<times> string option \<times> string option) option" where
  "cost_key since until b s =
     (if counts_cost since until s then Some (bucket_start (sr_start_time s) b, sr_agent_name s, sr_llm_model s) else None)"

definition or_zero :: "'n :: zero option \<Rightarrow> 'n" where
  "or_zero x = (case x of None \<Rightarrow> 0 | Some n \<Rightarrow> n)"

definition cost_val :: "span_record \<Rightarrow> real \<times> int \<times> int" where
  "cost_val s = (or_zero (sr_llm_cost_usd s), or_zero (sr_llm_tokens_in s), or_zero (sr_llm_tokens_out s))"

interpretation costs: grouping "cost_key since until b" cost_val add_cost "(0, 0, 0)" "cost_groups since until b" for since until b
  by unfold_locales
     (auto simp: cost_key_def counts_cost_def cost_val_def add_cost_def or_zero_def Let_def split: if_splits option.splits)

definition rate_key :: "real \<Rightarrow> real \<Rightarrow> int \<Rightarrow> span_record \<Rightarrow> (real \<times> string option) option" where
  "rate_key since until b s =
     (if is_handle_span since until s then Some (bucket_start (sr_start_time s) b, sr_agent_name s) else None)"

interpretation rates: grouping "rate_key since until b" "\<lambda>s. 1" "(+)" 0 "rate_groups since until b" for since until b
  by unfold_locales (auto simp: rate_key_def Let_def split: if_splits)

definition by_key :: "(span_record \<Rightarrow> string option) \<Rightarrow> real \<Rightarrow> real \<Rightarrow> span_record \<Rightarrow> string option" where
  "by_key f since until s = (if counts_cost since until s then f s else None)"

interpretation totals: grouping "by_key f since until" "\<lambda>s. or_zero (sr_llm_cost_usd s)" "(+)" 0 "cost_by f since until" for f since until
  by unfold_locales (auto simp: by_key_def counts_cost_def or_zero_def split: if_splits option.splits)

lemma foldl_sum: "foldl (+) (x :: 'a :: comm_monoid_add) xs = x + sum_list xs"
  by (induction xs arbitrary: x) (simp_all add: add.assoc)

lemma foldl_add_cost:
  "foldl add_cost x ys = (fst x + sum_list (map fst ys), fst (snd x) + sum_list (map (fst \<circ> snd) ys), snd (snd x) + sum_list (map (snd \<circ> snd) ys))"
  by (induction ys arbitrary: x) (auto simp: add_cost_def)


lemma sum_dput:
  fixes f :: "'v \<Rightarrow> real"
  shows "dict_ok g \<Longrightarrow>
    sum_list (map (\<lambda>(k, v). f v) (dput k v g)) = sum_list (map (\<lambda>(k, v). f v) g) + f v - (case dget g k of None \<Rightarrow> 0 | Some w \<Rightarrow> f w)"
  by (induction g) (auto split: option.splits dest: map_of_SomeD intro: rev_image_eqI)

lemma cost_groups_total:
  "dict_ok g \<Longrightarrow> sum_list (map (\<lambda>(k, v). fst v) (cost_groups since until b ss g)) =
     sum_list (map (\<lambda>(k, v). fst v) g) + sum_list (map (or_zero \<circ> sr_llm_cost_usd) (filter (counts_cost since until) ss))"
proof (induction ss arbitrary: g)
  case Nil
  show ?case by simp
next
  case (Cons s ss)
  show ?case
  proof (cases "cost_key since until b s")
    case None
    then have "\<not> counts_cost since until s" by (simp add: cost_key_def split: if_splits)
    then show ?thesis using Cons costs.acc_None [OF None] by simp
  next
    case (Some k)
    then have c: "counts_cost since until s" by (simp add: cost_key_def split: if_splits)
    have "sum_list (map (\<lambda>(k, v). fst v) (dput k (add_cost (case dget g k of None \<Rightarrow> (0, 0, 0) | Some v \<Rightarrow> v) (cost_val s)) g)) =
        sum_list (map (\<lambda>(k, v). fst v) g) + or_zero (sr_llm_cost_usd s)"
      using sum_dput [of g fst k] Cons.prems by (auto simp: add_cost_def cost_val_def split: option.splits)
    then show ?thesis using Cons.IH [OF dict_ok_dput [OF Cons.prems]] costs.acc_Some [OF Some] c by simp
  qed
qed

lemma cost_bucket_mem:
  "x \<in> set (map new_cost_bucket (cost_groups since until b ss [])) \<longleftrightarrow>
     (let mine = filter (\<lambda>s. bucket_start (sr_start_time s) b = cb_bucket_start x \<and> sr_agent_name s = cb_agent_name x
                                 \<and> sr_llm_model s = cb_model x) (filter (counts_cost since until) ss)
          in mine \<noteq> [] \<and> cb_total_cost_usd x = sum_list (map (or_zero \<circ> sr_llm_cost_usd) mine)
             \<and> cb_total_tokens_in x = sum_list (map (or_zero \<circ> sr_llm_tokens_in) mine)
             \<and> cb_total_tokens_out x = sum_list (map (or_zero \<circ> sr_llm_tokens_out) mine))"
proof -
  let ?g = "cost_groups since until b ss []" and ?k = "(cb_bucket_start x, cb_agent_name x, cb_model x)"
  let ?v = "(cb_total_cost_usd x, cb_total_tokens_in x, cb_total_tokens_out x)"
  let ?mine = "filter (\<lambda>s. bucket_start (sr_start_time s) b = cb_bucket_start x \<and> sr_agent_name s = cb_agent_name x
                                 \<and> sr_llm_model s = cb_model x) (filter (counts_cost since until) ss)"
  have "x = new_cost_bucket kv \<longleftrightarrow> kv = (?k, ?v)" for kv
    by (cases x; cases kv) (auto simp: new_cost_bucket_def)
  then have "x \<in> set (map new_cost_bucket ?g) \<longleftrightarrow> (?k, ?v) \<in> set ?g" by (auto simp: image_iff)
  moreover have m: "filter (\<lambda>s. cost_key since until b s = Some ?k) ss = ?mine"
    unfolding filter_filter by (rule filter_cong) (auto simp: cost_key_def)
  moreover have "(\<exists>s \<in> set ss. cost_key since until b s = Some ?k) \<longleftrightarrow> ?mine \<noteq> []"
    unfolding m [symmetric] by (auto simp: filter_empty_conv)
  ultimately show ?thesis
    by (simp only: costs.acc_from_empty foldl_add_cost Let_def) (simp add: cost_val_def comp_def)
qed

section \<open>Properties\<close>

text \<open>C26. No span is duplicated or reordered, and which ones can be lost. Whatever the interleaving of emissions, batches,
  timer flushes, ends of exports and cancellations at any of the awaits of the task, with a backend that records what it
  is given: what was exported, then the batch whose export is awaited, then what waits in the batch, then what waits in the
  queue, is a subsequence of what was emitted. As long as no more spans were emitted than the queue has room for, a span
  is missing from it only if a cancellation interrupted its export; so nothing is missing when no cancellation struck an
  export. An emission never raises, and the queue and the batch stay within their bounds. A cancellation of the
  waiting task with time to drain exports the rest; one that strikes an export does not export that batch again, only
  the queue. The batch size is positive.\<close>

theorem spans_exported_in_order:
  assumes "cancellable_sink bk line logged abort" "logged b = []" "0 < n"
    and "t = run_otel bk abort n evs (otel_start cap b)"
    and "kept = logged (ot_backend t) @ map line (ot_inflight t @ ot_pending t @ sq_items (ot_queue t))"
  shows "subseq kept (map line (emitted evs))
    \<and> (cap \<le> 0 \<or> int (length (emitted evs)) \<le> cap \<longrightarrow>
         mset (map line (emitted evs)) \<subseteq># mset kept + mset (map line (interrupted bk abort n evs (otel_start cap b)))
       \<and> (interrupted bk abort n evs (otel_start cap b) = [] \<longrightarrow> kept = map line (emitted evs)))
    \<and> length (ot_pending t) < n \<and> (0 < cap \<longrightarrow> int (sq_qsize (ot_queue t)) \<le> cap)
    \<and> fst (sq_put_nowait x (ot_queue t)) = Inr ()
    \<and> (ot_phase t = Waiting \<and> sq_qsize (ot_queue t) \<le> k \<longrightarrow>
         logged (ot_backend (run_otel bk abort n [Cancel k, Exported] t)) = kept)
    \<and> (ot_phase t = Exporting \<and> sq_qsize (ot_queue t) \<le> k \<longrightarrow>
         logged (ot_backend (run_otel bk abort n [Cancel k, Exported] t))
           = logged (abort (ot_inflight t) (ot_backend t)) @ map line (sq_items (ot_queue t)))"
proof -
  have sk: "span_sink bk line logged" using assms(1) by (simp add: cancellable_sink_def)
  note sink = cancellable_sink.run_keeps [OF assms(1)] span_sink.accounted_def [OF sk]
  let ?t0 = "otel_start cap b"
  have start: "otel_ok n ?t0" "span_sink.accounted line logged ?t0 = []" "sq_maxsize (ot_queue ?t0) = cap"
    using assms(2,3) linear [of cap 0] by (simp_all add: otel_start_def new_span_queue_def otel_ok_def queue_ok_def sink(2))
  have kept: "kept = span_sink.accounted line logged t" by (simp add: assms(5) sink(2))
  have run: "otel_ok n t" "sq_maxsize (ot_queue t) = cap" "subseq kept (map line (emitted evs))"
    "cap \<le> 0 \<or> int (length (emitted evs)) \<le> cap \<Longrightarrow>
       mset (map line (emitted evs)) \<subseteq># mset kept + mset (map line (interrupted bk abort n evs ?t0))"
    using sink(1) [OF start(1) assms(3), of evs] unfolding start(2,3) kept assms(4) by simp_all
  have q: "queue_ok (ot_queue t)" "length (ot_pending t) < n" using run(1) by (simp_all add: otel_ok_def)
  have all: "kept = map line (emitted evs)"
    if "cap \<le> 0 \<or> int (length (emitted evs)) \<le> cap" "interrupted bk abort n evs ?t0 = []"
    using run(3) size_mset_mono [OF run(4) [OF that(1)]] that(2) list_emb_length [OF run(3)]
    by (auto intro: subseq_same_length)
  note logs = span_sink.export_logs [OF sk] span_sink.shutdown_logs [OF sk]
  have "logged (ot_backend (run_otel bk abort n [Cancel k, Exported] t)) = kept" if "ot_phase t = Waiting" "sq_qsize (ot_queue t) \<le> k"
    using that run(1) by (auto simp: assms(5) run_otel_def otel_step_def otel_ok_def close_defs ot_exported_def sq_qsize_def logs)
  moreover have "logged (ot_backend (run_otel bk abort n [Cancel k, Exported] t))
           = logged (abort (ot_inflight t) (ot_backend t)) @ map line (sq_items (ot_queue t))"
    if "ot_phase t = Exporting" "sq_qsize (ot_queue t) \<le> k"
    using that run(1) by (auto simp: run_otel_def otel_step_def otel_ok_def close_defs ot_abort_def ot_exported_def sq_qsize_def logs)
  moreover have "0 < cap \<longrightarrow> int (sq_qsize (ot_queue t)) \<le> cap"
    using q(1) run(2) by (auto simp: queue_ok_def sq_qsize_def)
  ultimately show ?thesis
    using run(3,4) all q(2) sq_put_nowait_total [OF q(1), of x] by blast
qed

definition sample_span :: "string \<Rightarrow> real \<Rightarrow> payload \<Rightarrow> span_data" where
  "sample_span n t a =
     \<lparr>sd_name = n, sd_trace_id = ''t'', sd_span_id = ''s'', sd_parent_span_id = None, sd_start_time = t, sd_end_time = t + 1,
      sd_attributes = a, sd_status = ''ok'', sd_error_message = None\<rparr>"

lemmas otel_eval = run_otel_def otel_start_def otel_step_def new_span_queue_def sq_put_nowait_def queue_put_nowait_def sq_full_def
  sq_get_nowait_def ot_flush_def ot_drain_eq ot_exported_def ot_close_def ot_shutdown_def cut_spans_def

theorem spans_exported_in_order_witness:
  "ot_backend (run_otel console_backend (\<lambda>xs out. out) 2 [Emit (sample_span ''a'' 0 []), Emit (sample_span ''b'' 1 []), Emit (sample_span ''c'' 2 []),
        Take, Take, Exported, Cancel 5, Exported] (otel_start 10 []))
     = map console_line [sample_span ''a'' 0 [], sample_span ''b'' 1 [], sample_span ''c'' 2 []]"
proof -
  let ?run = "\<lambda>x y z. run_otel console_backend (\<lambda>xs out. out) 2 [Emit x, Emit y, Emit z, Take, Take, Exported, Cancel 5, Exported] (otel_start 10 [])"
  let ?a = "sample_span ''a'' 0 []" and ?b = "sample_span ''b'' 1 []" and ?c = "sample_span ''c'' 2 []"
  let ?evs = "[Emit ?a, Emit ?b, Emit ?c, Take, Take, Exported, Cancel 5, Exported]"
  have left: "sq_items (ot_queue (?run x y z)) = []" "ot_pending (?run x y z) = []" "ot_inflight (?run x y z) = []"
    "interrupted console_backend (\<lambda>xs out. out) 2 [Emit x, Emit y, Emit z, Take, Take, Exported, Cancel 5, Exported] (otel_start 10 []) = []" for x y z
    by (simp_all add: otel_eval)
  have "int (length (emitted ?evs)) \<le> 10" "(0 :: nat) < 2" by (simp_all add: emitted_def)
  then show ?thesis
    using spans_exported_in_order [OF console.cancellable_sink_axioms refl _ refl refl, of 2 ?evs 10, THEN conjunct2, THEN conjunct1] left
    by (simp add: emitted_def)
qed

text \<open>The loss is real: a cancellation while the export of a full batch is under way leaves the backend with what the
  cancelled export delivered, and nothing is exported after it.\<close>

theorem interrupted_export_loses_batch:
  "run_otel bk abort 2 [Emit x, Emit y, Take, Take, Cancel 5, Exported] (otel_start 10 b)
     = (otel_start 10 b)\<lparr>ot_backend := snd (bk_shutdown bk (abort [x, y] b)), ot_phase := Stopped\<rparr>"
  by (simp add: otel_eval ot_abort_def)

text \<open>The cost report adds up. Every bucket of \<^verbatim>\<open>cost_over_time\<close> carries the costs and the tokens of
  exactly the spans in the range that have its time bucket, agent and model; there is one bucket per such triple,
  in the order of time, and together they carry the costs of all spans in the range. Only a zero width raises,
  and only when some span counts.\<close>

theorem cost_report_exact:
  assumes "counted = filter (counts_cost since until) (st_spans st)" "b \<noteq> 0 \<or> counted = []"
  shows "\<exists>bs. cost_over_time since until b st = Inr bs \<and> sorted (map cb_bucket_start bs)
    \<and> distinct (map (\<lambda>x. (cb_bucket_start x, cb_agent_name x, cb_model x)) bs)
    \<and> (\<forall>x. x \<in> set bs \<longleftrightarrow>
         (let mine = filter (\<lambda>s. bucket_start (sr_start_time s) b = cb_bucket_start x \<and> sr_agent_name s = cb_agent_name x
                                 \<and> sr_llm_model s = cb_model x) counted
          in mine \<noteq> [] \<and> cb_total_cost_usd x = sum_list (map (or_zero \<circ> sr_llm_cost_usd) mine)
             \<and> cb_total_tokens_in x = sum_list (map (or_zero \<circ> sr_llm_tokens_in) mine)
             \<and> cb_total_tokens_out x = sum_list (map (or_zero \<circ> sr_llm_tokens_out) mine)))
    \<and> sum_list (map cb_total_cost_usd bs) = sum_list (map (or_zero \<circ> sr_llm_cost_usd) counted)"
proof -
  let ?g = "cost_groups since until b (st_spans st) []"
  let ?bs = "sort_key cb_bucket_start (map new_cost_bucket ?g)"
  have ret: "cost_over_time since until b st = Inr ?bs"
    using assms by (auto simp: cost_over_time_def filter_empty_conv)
  note mem = cost_bucket_mem [of _ since until b "st_spans st", folded assms(1)]
  have "distinct (map (\<lambda>x. (cb_bucket_start x, cb_agent_name x, cb_model x)) (map new_cost_bucket ?g))"
    using costs.acc_ok [of "[]" since until b "st_spans st"] by (simp add: comp_def new_cost_bucket_def case_prod_beta)
  then have dist: "distinct (map (\<lambda>x. (cb_bucket_start x, cb_agent_name x, cb_model x)) ?bs)"
    by (rule mset_eq_imp_distinct_iff [THEN iffD2, rotated]) (simp only: mset_map mset_sort)
  have "sum_list (map cb_total_cost_usd ?bs) = sum_mset (image_mset cb_total_cost_usd (mset (map new_cost_bucket ?g)))"
    by (metis mset_map mset_sort sum_mset_sum_list)
  also have "\<dots> = sum_list (map (\<lambda>(k, v). fst v) ?g)"
    by (simp flip: mset_map add: sum_mset_sum_list comp_def new_cost_bucket_def case_prod_beta')
  finally show ?thesis
    using ret mem dist cost_groups_total [of "[]" since until b "st_spans st"]
    by (intro exI [of _ ?bs]) (simp add: assms(1))
qed


definition sample_store :: span_store where
  "sample_store = store_export
     [sample_span ''civitas.llm.chat'' 10 [(''civitas.agent.name'', JStr ''w''), (''civitas.llm.cost_usd'', JInt 2)],
      sample_span ''civitas.llm.chat'' 70 [(''civitas.agent.name'', JStr ''w''), (''civitas.llm.cost_usd'', JInt 3)],
      sample_span ''civitas.llm.chat'' 20 [(''civitas.agent.name'', JStr ''v''), (''civitas.llm.cost_usd'', JInt 5)]]
     \<lparr>st_maxsize = 10, st_spans = []\<rparr>"

lemma sample_store_counted:
  "map (or_zero \<circ> sr_llm_cost_usd) (filter (counts_cost 0 100) (st_spans sample_store)) = [2, 3, 5]"
  by (simp add: sample_store_def store_export_def new_span_record_def span_columns_def sample_span_def attr_str_def attr_float_def
      counts_cost_def in_range_def or_zero_def Let_def)

theorem cost_report_exact_witness:
  "\<exists>bs. cost_over_time 0 100 60 sample_store = Inr bs \<and> sum_list (map cb_total_cost_usd bs) = 10"
  using cost_report_exact [OF refl, of 60 0 100 sample_store] sample_store_counted by force

text \<open>The breakdowns count every span once. The cost of an agent or of a model is the sum over its spans
  in the range, with no entry for one without such a span; the message rate of an agent in a time bucket
  is the number of its \<^verbatim>\<open>handle\<close> spans there.\<close>

theorem breakdowns_exact:
  "dget (cost_by_agent since until st) a =
     (let mine = filter (\<lambda>s. counts_cost since until s \<and> sr_agent_name s = Some a) (st_spans st)
      in if mine = [] then None else Some (sum_list (map (or_zero \<circ> sr_llm_cost_usd) mine)))
 \<and> dget (cost_by_model since until st) md =
     (let mine = filter (\<lambda>s. counts_cost since until s \<and> sr_llm_model s = Some md) (st_spans st)
      in if mine = [] then None else Some (sum_list (map (or_zero \<circ> sr_llm_cost_usd) mine)))
 \<and> (case message_rate_over_time since until b st of
      Inl e \<Rightarrow> b = 0 \<and> e = ZeroDivisionError
    | Inr rs \<Rightarrow> sorted (map rb_bucket_start rs) \<and>
        (\<forall>t ag n. \<lparr>rb_bucket_start = t, rb_agent_name = ag, rb_message_count = n\<rparr> \<in> set rs \<longleftrightarrow>
           n = int (length (filter (\<lambda>s. is_handle_span since until s \<and> bucket_start (sr_start_time s) b = t \<and> sr_agent_name s = ag) (st_spans st)))
           \<and> n \<noteq> 0))"
proof -
  have tot: "dget (cost_by f since until ss []) k =
     (let mine = filter (\<lambda>s. counts_cost since until s \<and> f s = Some k) ss
      in if mine = [] then None else Some (sum_list (map (or_zero \<circ> sr_llm_cost_usd) mine)))" for f k ss
  proof -
    have "filter (\<lambda>s. by_key f since until s = Some k) ss = filter (\<lambda>s. counts_cost since until s \<and> f s = Some k) ss"
      by (rule filter_cong) (auto simp: by_key_def)
    then show ?thesis
      using totals.acc_entry [of f since until ss "[]" k]
      by (simp only: Let_def foldl_sum) (auto simp: filter_empty_conv by_key_def comp_def)
  qed
  let ?g = "rate_groups since until b (st_spans st) []"
  have "\<lparr>rb_bucket_start = t, rb_agent_name = ag, rb_message_count = n\<rparr> \<in> set (map new_rate_bucket ?g) \<longleftrightarrow>
           n = int (length (filter (\<lambda>s. is_handle_span since until s \<and> bucket_start (sr_start_time s) b = t \<and> sr_agent_name s = ag) (st_spans st)))
           \<and> n \<noteq> 0" for t ag n
  proof -
    let ?mine = "filter (\<lambda>s. is_handle_span since until s \<and> bucket_start (sr_start_time s) b = t \<and> sr_agent_name s = ag) (st_spans st)"
    have m: "filter (\<lambda>s. rate_key since until b s = Some (t, ag)) (st_spans st) = ?mine"
      by (rule filter_cong) (auto simp: rate_key_def)
    have "\<lparr>rb_bucket_start = t, rb_agent_name = ag, rb_message_count = n\<rparr> \<in> set (map new_rate_bucket ?g) \<longleftrightarrow> ((t, ag), n) \<in> set ?g"
      by (force simp: new_rate_bucket_def)
    also have "\<dots> \<longleftrightarrow> ?mine \<noteq> [] \<and> n = int (length ?mine)"
      unfolding rates.acc_from_empty m foldl_sum
      by (auto simp: filter_empty_conv sum_list_triv rate_key_def split: if_splits)
    finally show ?thesis by auto
  qed
  then show ?thesis
    using tot by (auto simp: cost_by_agent_def cost_by_model_def message_rate_over_time_def)
qed

text \<open>The feed of recent spans is the newest part of what the store holds: the spans of the range from the
  newest to the oldest, cut at the limit, so that no span left out is newer than one shown; and the store
  holds the last \<^verbatim>\<open>maxsize\<close> exported spans, however the exports were batched.\<close>

theorem recent_spans_latest:
  assumes "0 \<le> limit" "0 < cap"
  shows "(\<exists>rest. mset (recent_spans since until limit st @ rest) = mset (filter (in_range since until) (st_spans st))
      \<and> sorted_wrt (\<ge>) (map sr_start_time (recent_spans since until limit st))
      \<and> (\<forall>s \<in> set (recent_spans since until limit st). \<forall>r \<in> set rest. sr_start_time r \<le> sr_start_time s)
      \<and> length (recent_spans since until limit st) = min (nat limit) (length (filter (in_range since until) (st_spans st))))
    \<and> st_spans (fold store_export batches \<lparr>st_maxsize = cap, st_spans = []\<rparr>) = keep_last cap (map new_span_record (concat batches))"
proof (intro conjI)
  let ?xs = "sort_key (\<lambda>s. - sr_start_time s) (filter (in_range since until) (st_spans st))"
  have r: "recent_spans since until limit st = take (nat limit) ?xs" using assms(1) by (simp add: recent_spans_def slice_to_def)
  have "sorted (map (\<lambda>s. - sr_start_time s) ?xs)" by simp
  then have srt: "sorted_wrt (\<lambda>s r. sr_start_time r \<le> sr_start_time s) (take (nat limit) ?xs @ drop (nat limit) ?xs)"
    by (simp add: sorted_map)
  show "\<exists>rest. mset (recent_spans since until limit st @ rest) = mset (filter (in_range since until) (st_spans st))
      \<and> sorted_wrt (\<ge>) (map sr_start_time (recent_spans since until limit st))
      \<and> (\<forall>s \<in> set (recent_spans since until limit st). \<forall>r \<in> set rest. sr_start_time r \<le> sr_start_time s)
      \<and> length (recent_spans since until limit st) = min (nat limit) (length (filter (in_range since until) (st_spans st)))"
    unfolding r using srt [unfolded sorted_wrt_append] append_take_drop_id [of "nat limit" ?xs]
    by (intro exI [of _ "drop (nat limit) ?xs"]) (simp add: sorted_wrt_map min.commute)
  have "st_spans (fold store_export batches st) = keep_last cap (st_spans st @ map new_span_record (concat batches))"
    if "st_maxsize st = cap" "length (st_spans st) \<le> cap" for st
    using that
  proof (induction batches arbitrary: st)
    case (Cons b bs)
    have "st_spans (store_export b st) = keep_last cap (st_spans st @ map new_span_record b)" "st_maxsize (store_export b st) = cap"
      using Cons.prems assms(2) by (auto simp: store_export_def Let_def last_slice_def)
    then show ?case using Cons.IH [of "store_export b st"] by (simp add: keep_last_keep_last_append)
  qed simp
  then show "st_spans (fold store_export batches \<lparr>st_maxsize = cap, st_spans = []\<rparr>) = keep_last cap (map new_span_record (concat batches))"
    by simp
qed

theorem recent_spans_latest_witness:
  "length (recent_spans 0 50 1 sample_store) = 1
   \<and> st_spans (fold store_export [[sample_span ''a'' 0 []], [sample_span ''b'' 1 [], sample_span ''c'' 2 []]] \<lparr>st_maxsize = 2, st_spans = []\<rparr>)
       = keep_last 2 (map new_span_record [sample_span ''a'' 0 [], sample_span ''b'' 1 [], sample_span ''c'' 2 []])"
proof -
  have "length (filter (in_range 0 50) (st_spans sample_store)) = 2"
    by (simp add: sample_store_def store_export_def new_span_record_def span_columns_def sample_span_def attr_str_def attr_float_def in_range_def Let_def)
  then show ?thesis
    using recent_spans_latest [of 1 2 0 50 sample_store "[[sample_span ''a'' 0 []], [sample_span ''b'' 1 [], sample_span ''c'' 2 []]]"]
    by auto
qed

end
