(* ===== verification/State_Store.thy ===== *)
theory State_Store
  imports Civitas_Prelude
begin

text \<open>
  The stores of agent state: \<^verbatim>\<open>src/civitas/plugins/state.py\<close> and
  \<^verbatim>\<open>encrypted_store.py\<close>, the configuration of encryption in
  \<^verbatim>\<open>src/civitas/security/config.py\<close>, the keys of \<^verbatim>\<open>src/civitas/config.py\<close> and the
  construction in \<^verbatim>\<open>src/civitas/plugins/loader.py\<close>. ChaCha20-Poly1305, base64 and JSON are
  parameters; the nonce of a write is an argument. The in-memory store is modelled twice: by its values, and
  with the heap of Python objects it shares with its clients.
\<close>

section \<open>The in-memory store\<close>

type_synonym mem_store = "(string, payload) dict"

definition mem_get :: "mem_store \<Rightarrow> string \<Rightarrow> payload option result" where
  "mem_get st name = Inr (dget st name)"

definition mem_set :: "'r \<Rightarrow> string \<Rightarrow> payload \<Rightarrow> mem_store \<Rightarrow> mem_store result" where
  "mem_set r name v st = Inr (dput name v st)"

definition mem_delete :: "string \<Rightarrow> mem_store \<Rightarrow> mem_store" where
  "mem_delete name st = dpop name st"

subsection \<open>With its objects\<close>

text \<open>Dictionaries as objects: an address is an index into the heap. \<^verbatim>\<open>set\<close> copies the dictionary it
  is given, \<^verbatim>\<open>get\<close> returns the object it holds. An agent keeps the address of its
  \<^verbatim>\<open>state\<close>.\<close>

record obj_store =
  os_heap :: "payload list"
  os_data :: "(string, nat) dict"

definition obj_new :: "payload \<Rightarrow> obj_store \<Rightarrow> nat \<times> obj_store" where
  "obj_new d m = (length (os_heap m), m\<lparr>os_heap := os_heap m @ [d]\<rparr>)"

definition obj_get :: "string \<Rightarrow> obj_store \<Rightarrow> nat option" where
  "obj_get name m = dget (os_data m) name"

definition obj_set :: "string \<Rightarrow> nat \<Rightarrow> obj_store \<Rightarrow> obj_store" where
  "obj_set name a m = (case obj_new (os_heap m ! a) m of (b, m') \<Rightarrow> m'\<lparr>os_data := dput name b (os_data m')\<rparr>)"

text \<open>\<^verbatim>\<open>checkpoint\<close> and \<^verbatim>\<open>_restore_state\<close> of an agent, and an assignment
  \<^verbatim>\<open>self.state[k] = v\<close> in its code.\<close>

definition obj_checkpoint :: "string \<Rightarrow> nat \<Rightarrow> obj_store \<Rightarrow> obj_store" where
  "obj_checkpoint name self_state m = obj_set name self_state m"

definition obj_restore :: "string \<Rightarrow> nat \<Rightarrow> obj_store \<Rightarrow> nat" where
  "obj_restore name self_state m = (case obj_get name m of None \<Rightarrow> self_state | Some a \<Rightarrow> a)"

definition obj_assign :: "nat \<Rightarrow> string \<Rightarrow> json \<Rightarrow> obj_store \<Rightarrow> obj_store" where
  "obj_assign a k v m = m\<lparr>os_heap := (os_heap m)[a := dput k v (os_heap m ! a)]\<rparr>"

section \<open>The encrypting store\<close>

record codecs =
  co_encrypt :: "string \<Rightarrow> string \<Rightarrow> string \<Rightarrow> string \<Rightarrow> string"
  co_decrypt :: "string \<Rightarrow> string \<Rightarrow> string \<Rightarrow> string \<Rightarrow> string option"
  co_dumps :: "payload \<Rightarrow> string result"
  co_loads :: "string \<Rightarrow> payload result"
  co_b64encode :: "string \<Rightarrow> string"
  co_b64decode :: "string \<Rightarrow> string result"
  co_b64strict :: "string \<Rightarrow> string result"

record enc_store =
  es_keys :: "(int, string) dict"
  es_current_key_id :: int
  es_allow_plaintext_read :: bool

definition ENVELOPE_KEY :: string where
  "ENVELOPE_KEY = ''__civitas_enc__''"

definition new_encrypting_store :: "(int, string) dict \<Rightarrow> int \<Rightarrow> bool \<Rightarrow> enc_store result" where
  "new_encrypting_store keys cur allow =
     (if dget keys cur = None then Inl ConfigurationError
      else Inr \<lparr>es_keys = keys, es_current_key_id = cur, es_allow_plaintext_read = allow\<rparr>)"

text \<open>\<^verbatim>\<open>bytes([i, j])\<close> raises for a number that is not a byte. The operations of the inner store
  are arguments.\<close>

definition enc_set ::
  "codecs \<Rightarrow> enc_store \<Rightarrow> ('r \<Rightarrow> string \<Rightarrow> payload \<Rightarrow> 's \<Rightarrow> 's result) \<Rightarrow> string \<times> 'r \<Rightarrow> string \<Rightarrow> payload \<Rightarrow> 's \<Rightarrow> 's result" where
  "enc_set co es iset nr name v st =
     bind_r (co_dumps co v) (\<lambda>plaintext.
     bind_r (case dget (es_keys es) (es_current_key_id es) of None \<Rightarrow> Inl KeyError | Some k \<Rightarrow> Inr k) (\<lambda>key.
       (let nonce = fst nr; ciphertext = co_encrypt co key nonce plaintext name
        in if es_current_key_id es < 0 \<or> es_current_key_id es > 255 then Inl ValueError
           else let envelope = char_of (1 :: nat) # char_of (nat (es_current_key_id es)) # nonce @ ciphertext
                in iset (snd nr) name [(ENVELOPE_KEY, JStr (co_b64encode co envelope))] st)))"

definition enc_decrypt :: "codecs \<Rightarrow> enc_store \<Rightarrow> string \<Rightarrow> json \<Rightarrow> payload result" where
  "enc_decrypt co es name encoded =
     bind_r (case encoded of JStr s \<Rightarrow> co_b64decode co s | JBytes s \<Rightarrow> co_b64decode co s | _ \<Rightarrow> Inl TypeError) (\<lambda>envelope.
       (case envelope of
          version # key_id # rest \<Rightarrow>
            (if (of_char version :: nat) \<noteq> 1 then Inl StateDecryptionError
             else case dget (es_keys es) (int (of_char key_id)) of
               None \<Rightarrow> Inl StateDecryptionError
             | Some key \<Rightarrow>
                 (case co_decrypt co key (take 12 rest) (drop 12 rest) name of
                    None \<Rightarrow> Inl StateDecryptionError
                  | Some plaintext \<Rightarrow> co_loads co plaintext))
        | _ \<Rightarrow> Inl IndexError))"

definition enc_get :: "codecs \<Rightarrow> enc_store \<Rightarrow> ('s \<Rightarrow> string \<Rightarrow> payload option result) \<Rightarrow> 's \<Rightarrow> string \<Rightarrow> payload option result" where
  "enc_get co es iget st name =
     bind_r (iget st name) (\<lambda>raw. case raw of
        None \<Rightarrow> Inr None
      | Some r \<Rightarrow>
          (case dget r ENVELOPE_KEY of
             None \<Rightarrow> if es_allow_plaintext_read es then Inr (Some r) else Inl StateDecryptionError
           | Some encoded \<Rightarrow> map_sum id Some (enc_decrypt co es name encoded)))"

section \<open>Keys and construction\<close>

definition decode_state_key :: "codecs \<Rightarrow> string \<Rightarrow> string result" where
  "decode_state_key co v =
     (case co_b64strict co v of
        Inl e \<Rightarrow> Inl ConfigurationError
      | Inr raw \<Rightarrow> if length raw \<noteq> 32 then Inl ConfigurationError else Inr raw)"

text \<open>The default variable is read from the snapshot taken at import, any other from the environment.\<close>

definition load_state_key :: "codecs \<Rightarrow> string option \<Rightarrow> (string \<Rightarrow> string option) \<Rightarrow> string \<Rightarrow> string result" where
  "load_state_key co snapshot environ env_var =
     (case (if env_var = ''CIVITAS_STATE_KEY'' then snapshot else environ env_var) of
        None \<Rightarrow> Inl ConfigurationError
      | Some raw \<Rightarrow> if raw = '''' then Inl ConfigurationError else decode_state_key co raw)"

record state_encryption_config =
  sx_key_env :: string
  sx_current_key_id :: int
  sx_keys :: "(int, string) dict"
  sx_allow_plaintext_read :: bool

fun int_keys :: "(json \<Rightarrow> string) \<Rightarrow> payload \<Rightarrow> (int, string) dict \<Rightarrow> (int, string) dict result" where
  "int_keys py_str [] acc = Inr acc"
| "int_keys py_str ((k, v) # d) acc = bind_r (int_of_str k) (\<lambda>i. int_keys py_str d (dput i (as_str py_str v) acc))"

definition encryption_from_dict :: "(json \<Rightarrow> string) \<Rightarrow> payload \<Rightarrow> state_encryption_config result" where
  "encryption_from_dict py_str d =
     bind_r (get_block d ''keys'') (\<lambda>raw_keys.
     bind_r (int_keys py_str raw_keys []) (\<lambda>keys.
     bind_r (int_of_json (get_or (JInt 0) d ''current_key_id'')) (\<lambda>cur.
       (case get_or (JStr ''CIVITAS_STATE_KEY'') d ''key_env'' of
          JStr env \<Rightarrow> Inr \<lparr>sx_key_env = env, sx_current_key_id = cur, sx_keys = keys,
                           sx_allow_plaintext_read = truthy (get_or (JBool False) d ''allow_plaintext_read'')\<rparr>
        | _ \<Rightarrow> Inl TypeError))))"

fun load_ring :: "(string \<Rightarrow> string result) \<Rightarrow> (int, string) dict \<Rightarrow> (int, string) dict \<Rightarrow> (int, string) dict result" where
  "load_ring load [] acc = Inr acc"
| "load_ring load ((i, env) # ks) acc = bind_r (load env) (\<lambda>k. load_ring load ks (dput i k acc))"

text \<open>\<^verbatim>\<open>_build_encrypted_store\<close>; \<open>inner\<close> is \<^verbatim>\<open>load_plugin("state", type, config)\<close>.\<close>

definition build_encrypted_store ::
  "(json \<Rightarrow> string) \<Rightarrow> (string \<Rightarrow> string result) \<Rightarrow> (json \<Rightarrow> json \<Rightarrow> 'i result) \<Rightarrow> payload \<Rightarrow> ('i \<times> enc_store) result" where
  "build_encrypted_store py_str load inner cfg =
     (case dget cfg ''store'' of
        Some (JDict icfg) \<Rightarrow>
          (case dget icfg ''type'' of
             None \<Rightarrow> Inl (PluginError ''state'' ''encrypted'' ''nested store without a type'')
           | Some ty \<Rightarrow>
               bind_r (inner ty (get_or (JDict []) icfg ''config'')) (\<lambda>i.
               bind_r (encryption_from_dict py_str cfg) (\<lambda>sx.
               bind_r (load (sx_key_env sx)) (\<lambda>k.
               bind_r (load_ring load (sx_keys sx) [(sx_current_key_id sx, k)]) (\<lambda>ring.
               bind_r (new_encrypting_store ring (sx_current_key_id sx) (sx_allow_plaintext_read sx)) (\<lambda>es. Inr (i, es)))))))
      | _ \<Rightarrow> Inl (PluginError ''state'' ''encrypted'' ''no nested store''))"


section \<open>The contract of a state store\<close>

text \<open>
  The protocol \<^verbatim>\<open>StateStore\<close>: what was written for a name is read back under that name, other
  names are not affected, deleting removes. \<open>ok\<close> is the invariant of the store and \<open>storable\<close> the
  values it can keep; \<open>r\<close> is the randomness of a write. A client that writes any sequence of
  checkpoints reads the last one of each name.
\<close>

fun store_writes :: "('r \<Rightarrow> string \<Rightarrow> payload \<Rightarrow> 's \<Rightarrow> 's result) \<Rightarrow> ('r \<times> string \<times> payload) list \<Rightarrow> 's \<Rightarrow> 's result" where
  "store_writes set_state [] s = Inr s"
| "store_writes set_state ((r, n, v) # ws) s = bind_r (set_state r n v s) (store_writes set_state ws)"

locale state_store =
  fixes get :: "'s \<Rightarrow> string \<Rightarrow> payload option result"
    and set_state :: "'r \<Rightarrow> string \<Rightarrow> payload \<Rightarrow> 's \<Rightarrow> 's result"
    and delete :: "string \<Rightarrow> 's \<Rightarrow> 's"
    and rok :: "'r \<Rightarrow> bool"
    and storable :: "payload \<Rightarrow> bool"
  assumes set_get: "rok r \<Longrightarrow> storable v \<Longrightarrow>
      \<exists>s'. set_state r n v s = Inr s' \<and> get s' n = Inr (Some v) \<and> (\<forall>m. m \<noteq> n \<longrightarrow> get s' m = get s m)"
    and delete_get: "get (delete n s) m = (if m = n then Inr None else get s m)"
begin

lemma writes_read:
  "\<forall>(r, n, v) \<in> set ws. rok r \<and> storable v \<Longrightarrow>
   \<exists>s'. store_writes set_state ws s = Inr s'
     \<and> (\<forall>n. get s' n = (case dget (rev (map snd ws)) n of None \<Rightarrow> get s n | Some v \<Rightarrow> Inr (Some v)))"
proof (induction ws arbitrary: s)
  case Nil
  show ?case by simp
next
  case (Cons w ws)
  obtain r n v where w: "w = (r, n, v)" by (cases w)
  obtain s1 where s1: "set_state r n v s = Inr s1" "get s1 n = Inr (Some v)" "\<And>m. m \<noteq> n \<Longrightarrow> get s1 m = get s m"
    using set_get [of r v n s] Cons.prems by (auto simp: w)
  obtain s' where "store_writes set_state ws s1 = Inr s'"
    "\<And>n. get s' n = (case dget (rev (map snd ws)) n of None \<Rightarrow> get s1 n | Some v \<Rightarrow> Inr (Some v))"
    using Cons.IH [of s1] Cons.prems by auto
  with s1 show ?case
    by (intro exI [of _ s']) (auto simp: w bind_r_def map_add_def split: option.splits)
qed

end

interpretation memory: state_store mem_get mem_set mem_delete "\<lambda>r. True" "\<lambda>v. True"
  by unfold_locales (auto simp: mem_get_def mem_set_def mem_delete_def dict_simps)

text \<open>
  What the encrypting store relies on: decryption undoes encryption under the same key, nonce and
  associated data, and succeeds on nothing else; base64 decoding undoes encoding. A state can be kept when
  JSON gives it back.
\<close>

definition codecs_ok :: "codecs \<Rightarrow> bool" where
  "codecs_ok co \<longleftrightarrow>
     (\<forall>k n p a. co_decrypt co k n (co_encrypt co k n p a) a = Some p)
   \<and> (\<forall>k n c a p. co_decrypt co k n c a = Some p \<longrightarrow> c = co_encrypt co k n p a)
   \<and> (\<forall>s. co_b64decode co (co_b64encode co s) = Inr s)"

definition json_storable :: "codecs \<Rightarrow> payload \<Rightarrow> bool" where
  "json_storable co v \<longleftrightarrow> (\<exists>p. co_dumps co v = Inr p \<and> co_loads co p = Inr v)"

definition writable :: "enc_store \<Rightarrow> bool" where
  "writable es \<longleftrightarrow> dget (es_keys es) (es_current_key_id es) \<noteq> None \<and> 0 \<le> es_current_key_id es \<and> es_current_key_id es \<le> 255"

lemma decrypt_envelope:
  assumes "codecs_ok co" "dget (es_keys es) (int k) = Some key" "k \<le> 255" "length nonce = 12"
  shows "enc_decrypt co es name (JStr (co_b64encode co (char_of (1 :: nat) # char_of k # nonce @ co_encrypt co key nonce p name'))) =
     (case co_decrypt co key nonce (co_encrypt co key nonce p name') name of None \<Rightarrow> Inl StateDecryptionError | Some q \<Rightarrow> co_loads co q)"
proof -
  have "of_char (char_of k :: char) = k" using assms(3) by (simp add: of_char_of)
  then show ?thesis
    using assms by (simp add: enc_decrypt_def codecs_ok_def bind_r_def of_char_of split: option.splits)
qed

text \<open>The encrypting store over any store that keeps the contract keeps it too.\<close>

locale encrypted_store = inner: state_store iget iset idelete irok "\<lambda>v. True"
  for iget :: "'s \<Rightarrow> string \<Rightarrow> payload option result" and iset :: "'r \<Rightarrow> string \<Rightarrow> payload \<Rightarrow> 's \<Rightarrow> 's result"
    and idelete :: "string \<Rightarrow> 's \<Rightarrow> 's" and irok :: "'r \<Rightarrow> bool" +
  fixes co :: codecs and es :: enc_store
begin

text \<open>A write needs the laws of the codecs, a usable current key and a nonce of 12 bytes.\<close>

definition write_ok :: "string \<times> 'r \<Rightarrow> bool" where
  "write_ok nr \<longleftrightarrow> length (fst nr) = 12 \<and> irok (snd nr) \<and> codecs_ok co \<and> writable es"

lemma enc_set_get:
  assumes "write_ok (nonce, r)" "json_storable co v"
  shows "\<exists>s'. enc_set co es iset (nonce, r) n v s = Inr s' \<and> enc_get co es iget s' n = Inr (Some v)
     \<and> (\<forall>m. m \<noteq> n \<longrightarrow> enc_get co es iget s' m = enc_get co es iget s m)"
proof -
  have codecs: "codecs_ok co" and key: "writable es" and rk: "irok r" and l12: "length nonce = 12"
    using assms(1) by (simp_all add: write_ok_def)
  obtain p where p: "co_dumps co v = Inr p" "co_loads co p = Inr v" using assms(2) by (auto simp: json_storable_def)
  obtain k where k: "dget (es_keys es) (es_current_key_id es) = Some k" "0 \<le> es_current_key_id es" "nat (es_current_key_id es) \<le> 255"
    using key by (auto simp: writable_def)
  let ?env = "[(ENVELOPE_KEY, JStr (co_b64encode co (char_of (1 :: nat) # char_of (nat (es_current_key_id es)) # nonce @ co_encrypt co k nonce p n)))]"
  obtain s' where s': "iset r n ?env s = Inr s'" "iget s' n = Inr (Some ?env)" "\<And>m. m \<noteq> n \<Longrightarrow> iget s' m = iget s m"
    using inner.set_get [OF rk TrueI] by blast
  have "enc_set co es iset (nonce, r) n v s = Inr s'"
    using p(1) k s'(1) by (simp add: enc_set_def bind_r_def Let_def)
  moreover have "enc_get co es iget s' n = Inr (Some v)"
    using decrypt_envelope [OF codecs, of es "nat (es_current_key_id es)" k nonce n p n] codecs k p(2) s'(2) l12
    by (simp add: enc_get_def bind_r_def codecs_ok_def)
  moreover have "enc_get co es iget s' m = enc_get co es iget s m" if "m \<noteq> n" for m
    using s'(3) [OF that] by (simp add: enc_get_def)
  ultimately show ?thesis by blast
qed

end

sublocale encrypted_store \<subseteq> enc: state_store "enc_get co es iget" "enc_set co es iset" idelete write_ok "json_storable co"
proof
  fix nr :: "string \<times> 'r" and v n s
  assume "write_ok nr" "json_storable co v"
  then show "\<exists>s'. enc_set co es iset nr n v s = Inr s' \<and> enc_get co es iget s' n = Inr (Some v)
     \<and> (\<forall>m. m \<noteq> n \<longrightarrow> enc_get co es iget s' m = enc_get co es iget s m)"
    using enc_set_get [of "fst nr" "snd nr" v n s] by simp
next
  fix n s m
  show "enc_get co es iget (idelete n s) m = (if m = n then Inr None else enc_get co es iget s m)"
    by (simp add: enc_get_def inner.delete_get bind_r_def)
qed


interpretation encrypted_memory: encrypted_store mem_get mem_set mem_delete "\<lambda>r. True" co es for co es
  by unfold_locales


section \<open>Properties\<close>

lemma rotated_get:
  assumes "\<And>i k. dget (es_keys es) i = Some k \<Longrightarrow> dget (es_keys es') i = Some k"
    and "enc_get co es iget s n = Inr (Some d)" "\<not> es_allow_plaintext_read es"
  shows "enc_get co es' iget s n = Inr (Some d)"
proof -
  obtain raw encoded where raw: "iget s n = Inr (Some raw)" "dget raw ENVELOPE_KEY = Some encoded" "enc_decrypt co es n encoded = Inr d"
    using assms(2,3) by (auto simp: enc_get_def bind_r_def split: sum.splits option.splits)
  then have "enc_decrypt co es' n encoded = Inr d"
    using assms(1) by (auto simp: enc_decrypt_def bind_r_def split: sum.splits list.splits if_splits option.splits)
  with raw(1,2) show ?thesis by (simp add: enc_get_def bind_r_def)
qed

text \<open>C13. The encrypting store is a state store. Over the in-memory store, with a current key that is a byte
  and nonces of 12 bytes, any sequence of writes succeeds, and every name then reads the last value written
  for it, or what it read before if there was none; this remains so under every later key ring that keeps
  the old keys, whatever its current key is.\<close>

theorem encrypted_store_contract:
  assumes "codecs_ok co" "writable es" "\<not> es_allow_plaintext_read es" "\<forall>(r, n, v) \<in> set ws. length (fst r) = 12 \<and> json_storable co v"
    and "\<And>i k. dget (es_keys es) i = Some k \<Longrightarrow> dget (es_keys es') i = Some k"
  shows "\<exists>s'. store_writes (enc_set co es mem_set) ws s = Inr s'
     \<and> (\<forall>n. enc_get co es mem_get s' n = (case dget (rev (map snd ws)) n of None \<Rightarrow> enc_get co es mem_get s n | Some v \<Rightarrow> Inr (Some v))
          \<and> (\<forall>d. enc_get co es mem_get s' n = Inr (Some d) \<longrightarrow> enc_get co es' mem_get s' n = Inr (Some d)))"
proof -
  have "\<forall>(r, n, v) \<in> set ws. encrypted_memory.write_ok co es r \<and> json_storable co v"
    using assms(1,2,4) by (auto simp: encrypted_memory.write_ok_def)
  from encrypted_memory.enc.writes_read [OF this, of s]
  obtain s' where s': "store_writes (enc_set co es mem_set) ws s = Inr s'"
    "\<And>n. enc_get co es mem_get s' n = (case dget (rev (map snd ws)) n of None \<Rightarrow> enc_get co es mem_get s n | Some v \<Rightarrow> Inr (Some v))"
    by blast
  have "enc_get co es' mem_get s' n = Inr (Some d)" if "enc_get co es mem_get s' n = Inr (Some d)" for n d
    using rotated_get [of es es', OF assms(5) that assms(3)] .
  with s' show ?thesis by blast
qed

text \<open>What is read was written for this agent. Without \<^verbatim>\<open>allow_plaintext_read\<close>, a read that
  returns a state found an envelope of version 1 under the name, whose body is the encryption of the JSON text
  of exactly this state, with a key of the ring and this agent's name as associated data; a plain value, an
  envelope of another version, with an unknown key, or whose authentication fails raises
  \<^verbatim>\<open>StateDecryptionError\<close>.\<close>

theorem decrypted_state_authentic:
  assumes "codecs_ok co" "\<not> es_allow_plaintext_read es" "iget s n = Inr (Some raw)"
  shows "(enc_get co es iget s n = Inr (Some d) \<longrightarrow>
           (\<exists>encoded key_id key nonce p. dget raw ENVELOPE_KEY \<in> {Some (JStr encoded), Some (JBytes encoded)}
              \<and> co_b64decode co encoded = Inr (char_of (1 :: nat) # key_id # nonce @ co_encrypt co key nonce p n)
              \<and> dget (es_keys es) (int (of_char key_id)) = Some key \<and> co_loads co p = Inr d))
    \<and> (dget raw ENVELOPE_KEY = None \<longrightarrow> enc_get co es iget s n = Inl StateDecryptionError)
    \<and> (\<forall>encoded version key_id rest. dget raw ENVELOPE_KEY = Some (JStr encoded) \<and> co_b64decode co encoded = Inr (version # key_id # rest)
         \<and> ((of_char version :: nat) \<noteq> 1 \<or> dget (es_keys es) (int (of_char key_id)) = None
            \<or> (\<exists>key. dget (es_keys es) (int (of_char key_id)) = Some key \<and> co_decrypt co key (take 12 rest) (drop 12 rest) n = None))
         \<longrightarrow> enc_get co es iget s n = Inl StateDecryptionError)"
proof (intro conjI allI impI)
  assume "enc_get co es iget s n = Inr (Some d)"
  then obtain v where v: "dget raw ENVELOPE_KEY = Some v" "enc_decrypt co es n v = Inr d"
    using assms(2,3) by (auto simp: enc_get_def bind_r_def split: sum.splits option.splits if_splits)
  obtain encoded env where e: "v = JStr encoded \<or> v = JBytes encoded" "co_b64decode co encoded = Inr env"
    using v(2) by (auto simp: enc_decrypt_def bind_r_def split: sum.splits json.splits)
  obtain version key_id rest key p where body: "env = version # key_id # rest" "(of_char version :: nat) = 1"
    "dget (es_keys es) (int (of_char key_id)) = Some key" "co_decrypt co key (take 12 rest) (drop 12 rest) n = Some p" "co_loads co p = Inr d"
    using v(2) e by (auto simp: enc_decrypt_def bind_r_def split: sum.splits list.splits if_splits option.splits)
  have "rest = take 12 rest @ co_encrypt co key (take 12 rest) p n"
    using assms(1) body(4) append_take_drop_id [of 12 rest] by (metis codecs_ok_def)
  moreover have "version = char_of (1 :: nat)" using body(2) by (metis char_of_char)
  ultimately show "\<exists>encoded key_id key nonce p. dget raw ENVELOPE_KEY \<in> {Some (JStr encoded), Some (JBytes encoded)}
              \<and> co_b64decode co encoded = Inr (char_of (1 :: nat) # key_id # nonce @ co_encrypt co key nonce p n)
              \<and> dget (es_keys es) (int (of_char key_id)) = Some key \<and> co_loads co p = Inr d"
    using v(1) e body by (metis insert_iff)
qed (use assms(2,3) in \<open>auto simp: enc_get_def enc_decrypt_def bind_r_def split: option.splits\<close>)

text \<open>A key identifier that is not a byte. The constructor accepts every identifier of the ring, and the
  configuration every integer, but the envelope has one byte for it: with a current identifier outside
  0 to 255 every write raises \<^verbatim>\<open>ValueError\<close> and nothing is ever stored.\<close>

theorem wide_key_id_never_writes:
  assumes "dget keys cur = Some key" "cur < 0 \<or> 255 < cur" "co_dumps co v = Inr p"
  shows "\<exists>es. new_encrypting_store keys cur allow = Inr es \<and> (\<forall>nr name st. enc_set co es iset nr name v st = Inl ValueError)"
  using assms by (auto simp: new_encrypting_store_def enc_set_def bind_r_def)

lemma load_ring_lookup:
  "load_ring load ks acc = Inr ring \<Longrightarrow>
   dget ring i = (case dget (rev ks) i of None \<Rightarrow> dget acc i | Some env \<Rightarrow> (case load env of Inr k \<Rightarrow> Some k | Inl e \<Rightarrow> None))"
proof (induction ks arbitrary: acc)
  case Nil
  then show ?case by simp
next
  case (Cons e ks)
  obtain j env where e: "e = (j, env)" by (cases e)
  obtain k where k: "load env = Inr k" "load_ring load ks (dput j k acc) = Inr ring"
    using Cons.prems by (auto simp: e bind_r_def split: sum.splits)
  from Cons.IH [OF k(2)] k(1) show ?case by (auto simp: e dict_simps map_add_def split: option.splits)
qed


text \<open>A concrete instance of the codecs: encryption puts the key, the nonce and the name in front.\<close>

definition sample_codecs :: codecs where
  "sample_codecs =
     \<lparr>co_encrypt = (\<lambda>k n p a. k @ n @ a @ ''|'' @ p),
      co_decrypt = (\<lambda>k n c a. if take (length (k @ n @ a @ ''|'')) c = k @ n @ a @ ''|'' then Some (drop (length (k @ n @ a @ ''|'')) c) else None),
      co_dumps = (\<lambda>d. case d of [(k, JStr v)] \<Rightarrow> Inr (k @ ''='' @ v) | _ \<Rightarrow> Inl TypeError),
      co_loads = (\<lambda>s. Inr [(takeWhile (\<lambda>c. c \<noteq> CHR ''='') s, JStr (tl (dropWhile (\<lambda>c. c \<noteq> CHR ''='') s)))]),
      co_b64encode = (\<lambda>s. s), co_b64decode = Inr, co_b64strict = Inr\<rparr>"

lemma sample_codecs_ok [simp]: "codecs_ok sample_codecs"
proof -
  have "c = k @ n @ a @ ''|'' @ p" if "take (length (k @ n @ a @ ''|'')) c = k @ n @ a @ ''|''" "p = drop (length (k @ n @ a @ ''|'')) c" for c k n a p
    using that append_take_drop_id [of "length (k @ n @ a @ ''|'')" c] by (metis append.assoc)
  then show ?thesis by (auto simp: codecs_ok_def sample_codecs_def split: if_splits)
qed

definition sample_ring :: enc_store where
  "sample_ring = \<lparr>es_keys = [(7, ''old key'')], es_current_key_id = 7, es_allow_plaintext_read = False\<rparr>"

lemma sample_storable: "json_storable sample_codecs [(''n'', JStr ''1'')]" "json_storable sample_codecs [(''n'', JStr ''2'')]"
  by (simp_all add: json_storable_def sample_codecs_def)

theorem encrypted_store_contract_witness:
  "\<exists>s'. store_writes (enc_set sample_codecs sample_ring mem_set)
        [((''abcdefghijkl'', ()), ''a'', [(''n'', JStr ''1'')]), ((''bcdefghijklm'', ()), ''a'', [(''n'', JStr ''2'')])] [] = Inr s'
     \<and> enc_get sample_codecs (sample_ring\<lparr>es_keys := [(8, ''new key''), (7, ''old key'')], es_current_key_id := 8\<rparr>) mem_get s' ''a'' = Inr (Some [(''n'', JStr ''2'')])
     \<and> enc_get sample_codecs sample_ring mem_get s' ''b'' = Inr None"
proof -
  let ?es' = "sample_ring\<lparr>es_keys := [(8, ''new key''), (7, ''old key'')], es_current_key_id := 8\<rparr>"
  let ?ws = "[((''abcdefghijkl'', ()), ''a'', [(''n'', JStr ''1'')]), ((''bcdefghijklm'', ()), ''a'', [(''n'', JStr ''2'')])]"
  have w: "writable sample_ring" "\<not> es_allow_plaintext_read sample_ring" by (simp_all add: sample_ring_def writable_def)
  have ws: "\<forall>(r, n, v) \<in> set ?ws. length (fst r) = 12 \<and> json_storable sample_codecs v" using sample_storable by simp
  have ext: "\<And>i k. dget (es_keys sample_ring) i = Some k \<Longrightarrow> dget (es_keys ?es') i = Some k"
    by (auto simp: sample_ring_def split: if_splits)
  from encrypted_store_contract [OF sample_codecs_ok w ws, of ?es' "[]"] ext
  obtain s' where s': "store_writes (enc_set sample_codecs sample_ring mem_set) ?ws [] = Inr s'"
    "\<And>n. enc_get sample_codecs sample_ring mem_get s' n =
        (case dget (rev (map snd ?ws)) n of None \<Rightarrow> enc_get sample_codecs sample_ring mem_get [] n | Some v \<Rightarrow> Inr (Some v))"
    "\<And>n d. enc_get sample_codecs sample_ring mem_get s' n = Inr (Some d) \<Longrightarrow> enc_get sample_codecs ?es' mem_get s' n = Inr (Some d)"
    by blast
  have "enc_get sample_codecs sample_ring mem_get s' ''a'' = Inr (Some [(''n'', JStr ''2'')])"
    "enc_get sample_codecs sample_ring mem_get s' ''b'' = Inr None"
    using s'(2) [of "''a''"] s'(2) [of "''b''"] by (simp_all add: enc_get_def mem_get_def bind_r_def)
  with s'(1,3) show ?thesis by blast
qed

theorem decrypted_state_authentic_witness:
  "enc_get sample_codecs sample_ring mem_get [(''a'', [(''n'', JStr ''1'')])] ''a'' = Inl StateDecryptionError"
  using decrypted_state_authentic [OF sample_codecs_ok, of sample_ring mem_get "[(''a'', [(''n'', JStr ''1'')])]" "''a''" "[(''n'', JStr ''1'')]"]
  by (simp add: sample_ring_def mem_get_def ENVELOPE_KEY_def)

theorem wide_key_id_never_writes_witness:
  "\<exists>es. new_encrypting_store [(256, ''k'')] 256 False = Inr es
     \<and> enc_set sample_codecs es mem_set (''abcdefghijkl'', ()) ''a'' [(''n'', JStr ''1'')] [] = Inl ValueError"
proof -
  have "dget [(256 :: int, ''k'')] 256 = Some ''k''" "(256 :: int) < 0 \<or> 255 < (256 :: int)"
    "co_dumps sample_codecs [(''n'', JStr ''1'')] = Inr ''n=1''"
    by (simp_all add: sample_codecs_def)
  from wide_key_id_never_writes [OF this, of False mem_set]
  obtain es where "new_encrypting_store [(256, ''k'')] 256 False = Inr es"
    "\<And>nr name st. enc_set sample_codecs es (mem_set :: unit \<Rightarrow> _) nr name [(''n'', JStr ''1'')] st = Inl ValueError" by metis
  then show ?thesis by (intro exI [of _ es]) simp
qed

text \<open>An entry of the ring replaces the current key. The documentation of the configuration says that
  the key of \<^verbatim>\<open>key_env\<close> is always in the ring under the current identifier; the loader puts it there first
  and then assigns the entries of \<^verbatim>\<open>keys\<close>, so that an entry with the same identifier wins and the
  key of \<^verbatim>\<open>key_env\<close> is used for nothing. Without such an entry the documented key is the current one.\<close>

theorem ring_entry_replaces_current_key:
  assumes "build_encrypted_store py_str load inner cfg = Inr (i, es)"
  shows "\<exists>sx k0. encryption_from_dict py_str cfg = Inr sx \<and> load (sx_key_env sx) = Inr k0 \<and> es_current_key_id es = sx_current_key_id sx
     \<and> dget (es_keys es) (sx_current_key_id sx) =
         (case dget (rev (sx_keys sx)) (sx_current_key_id sx) of
            None \<Rightarrow> Some k0
          | Some env \<Rightarrow> (case load env of Inr k \<Rightarrow> Some k | Inl e \<Rightarrow> None))"
proof -
  obtain sx k0 ring where b: "encryption_from_dict py_str cfg = Inr sx" "load (sx_key_env sx) = Inr k0"
    "load_ring load (sx_keys sx) [(sx_current_key_id sx, k0)] = Inr ring"
    "new_encrypting_store ring (sx_current_key_id sx) (sx_allow_plaintext_read sx) = Inr es"
    using assms by (auto simp: build_encrypted_store_def bind_r_def split: sum.splits option.splits json.splits)
  have "es_keys es = ring" "es_current_key_id es = sx_current_key_id sx"
    using b(4) by (auto simp: new_encrypting_store_def split: if_splits)
  with b(1,2) load_ring_lookup [OF b(3), of "sx_current_key_id sx"] show ?thesis by (auto split: option.splits)
qed


definition sample_config :: payload where
  "sample_config = [(''store'', JDict [(''type'', JStr ''in_memory'')]), (''keys'', JDict [(''0'', JStr ''OLD'')])]"

theorem ring_entry_replaces_current_key_witness:
  "\<exists>es. build_encrypted_store (\<lambda>v. '''') (\<lambda>env. Inr (''key in '' @ env)) (\<lambda>ty c. Inr ()) sample_config = Inr ((), es)
     \<and> dget (es_keys es) 0 = Some ''key in OLD''"
proof -
  let ?load = "\<lambda>env. Inr (''key in '' @ env) :: string result"
  have i: "int_of_str ''0'' = Inr 0" by code_simp
  obtain es where es: "build_encrypted_store (\<lambda>v. '''') ?load (\<lambda>ty c. Inr ()) sample_config = Inr ((), es)"
    by (simp add: build_encrypted_store_def sample_config_def encryption_from_dict_def bind_r_def get_block_def int_of_json_def
        as_str_def new_encrypting_store_def i)
  have "encryption_from_dict (\<lambda>v. '''') sample_config =
      Inr \<lparr>sx_key_env = ''CIVITAS_STATE_KEY'', sx_current_key_id = 0, sx_keys = [(0, ''OLD'')], sx_allow_plaintext_read = False\<rparr>"
    by (simp add: sample_config_def encryption_from_dict_def bind_r_def get_block_def int_of_json_def as_str_def i)
  with ring_entry_replaces_current_key [OF es] es show ?thesis by auto
qed

text \<open>A restored state is the checkpoint itself. Before a restart an assignment to the agent's state leaves
  the checkpoint alone, because \<^verbatim>\<open>set\<close> copied it. After a restart the agent's state is the very
  object the in-memory store holds: an assignment that was never checkpointed changes the checkpoint, and the
  next restart restores it as if it had been saved.\<close>

theorem restored_state_aliases_checkpoint:
  assumes "a < length (os_heap m)"
  shows "os_heap (obj_assign a k v (obj_checkpoint n a m)) ! obj_restore n b (obj_assign a k v (obj_checkpoint n a m)) = os_heap m ! a
    \<and> (let m1 = obj_checkpoint n a m; s1 = obj_restore n b m1; m2 = obj_assign s1 k v m1
       in os_heap m1 ! s1 = os_heap m ! a \<and> os_heap m2 ! obj_restore n c m2 = dput k v (os_heap m ! a))"
  using assms
  by (auto simp: obj_checkpoint_def obj_set_def obj_new_def obj_restore_def obj_get_def obj_assign_def Let_def dict_simps nth_append)

theorem restored_state_aliases_checkpoint_witness:
  "let m1 = obj_checkpoint ''w'' 0 \<lparr>os_heap = [[(''n'', JInt 1)]], os_data = []\<rparr>; m2 = obj_assign (obj_restore ''w'' 5 m1) ''n'' (JInt 2) m1
   in os_heap m2 ! obj_restore ''w'' 6 m2 = [(''n'', JInt 2)]"
  using restored_state_aliases_checkpoint [of 0 "\<lparr>os_heap = [[(''n'', JInt 1)]], os_data = []\<rparr>" "''n''" "JInt 2" "''w''" 5 6] by (simp add: Let_def)

end
