(* ===== verification/Settings.thy ===== *)
theory Settings
  imports State_Store
begin

text \<open>
  Where configuration values come from: the substitution of environment variables in a topology file
  (\<^verbatim>\<open>src/civitas/secrets/substitution.py\<close>), the providers of secrets
  (\<^verbatim>\<open>src/civitas/secrets/providers.py\<close>), the frozen snapshot of environment variables
  (\<^verbatim>\<open>src/civitas/config.py\<close>) and the plugin loader (\<^verbatim>\<open>src/civitas/plugins/loader.py\<close>).
  The environment is a function from names to optional strings; entry points, the import of a module and the
  constructors of plugins are parameters.
\<close>

section \<open>Substitution of environment variables\<close>

text \<open>The pattern \<^verbatim>\<open>\$\{([A-Za-z_][A-Za-z0-9_]*)\}\<close>, matched at the head of a string: the name and
  what follows the match.\<close>

definition name_start :: "char \<Rightarrow> bool" where
  "name_start c = (let n = of_char c :: nat in 65 \<le> n \<and> n \<le> 90 \<or> 97 \<le> n \<and> n \<le> 122 \<or> n = 95)"

definition name_char :: "char \<Rightarrow> bool" where
  "name_char c = (name_start c \<or> (let n = of_char c :: nat in 48 \<le> n \<and> n \<le> 57))"

definition match_var :: "string \<Rightarrow> (string \<times> string) option" where
  "match_var s =
     (case s of
        c1 # c2 # r \<Rightarrow>
          (if c1 = CHR ''$'' \<and> c2 = CHR ''{'' \<and> takeWhile name_char r \<noteq> [] \<and> name_start (hd r)
           then case dropWhile name_char r of
                  c3 # rest \<Rightarrow> if c3 = CHR ''}'' then Some (takeWhile name_char r, rest) else None
                | [] \<Rightarrow> None
           else None)
      | _ \<Rightarrow> None)"

lemma match_var_shorter [termination_simp]: "match_var (c # s) = Some (v, rest) \<Longrightarrow> length rest < Suc (length s)"
  using length_dropWhile_le [of name_char "tl s"]
  by (auto simp: match_var_def split: list.splits if_splits)

text \<open>\<^verbatim>\<open>_VAR_RE.sub(_replace_var, value)\<close>: one pass from left to right; a value that was put in is not
  scanned again.\<close>

fun sub_vars :: "(string \<Rightarrow> string option) \<Rightarrow> string \<Rightarrow> string result" where
  "sub_vars env [] = Inr []"
| "sub_vars env (c # s) =
     (case match_var (c # s) of
        Some (v, rest) \<Rightarrow>
          (case env v of
             None \<Rightarrow> Inl ConfigurationError
           | Some x \<Rightarrow> map_sum id (append x) (sub_vars env rest))
      | None \<Rightarrow> map_sum id (Cons c) (sub_vars env s))"

fun substitute_vars :: "(string \<Rightarrow> string option) \<Rightarrow> json \<Rightarrow> json result"
and substitute_items :: "(string \<Rightarrow> string option) \<Rightarrow> json list \<Rightarrow> json list result"
and substitute_entries :: "(string \<Rightarrow> string option) \<Rightarrow> payload \<Rightarrow> payload result" where
  "substitute_vars env (JDict d) = map_sum id JDict (substitute_entries env d)"
| "substitute_vars env (JList xs) = map_sum id JList (substitute_items env xs)"
| "substitute_vars env (JStr s) = map_sum id JStr (sub_vars env s)"
| "substitute_vars env v = Inr v"
| "substitute_items env [] = Inr []"
| "substitute_items env (v # vs) = bind_r (substitute_vars env v) (\<lambda>v'. map_sum id (Cons v') (substitute_items env vs))"
| "substitute_entries env [] = Inr []"
| "substitute_entries env ((k, v) # d) = bind_r (substitute_vars env v) (\<lambda>v'. map_sum id (Cons (k, v')) (substitute_entries env d))"

section \<open>Secret providers\<close>

definition env_get :: "(string \<Rightarrow> string option) \<Rightarrow> string \<Rightarrow> string option" where
  "env_get environ key = environ key"

definition secret_require :: "(string \<Rightarrow> string option) \<Rightarrow> string \<Rightarrow> string result" where
  "secret_require lookup key = (case lookup key of None \<Rightarrow> Inl ConfigurationError | Some v \<Rightarrow> Inr v)"

text \<open>The file provider reads the lines of its file once; \<^const>\<open>None\<close> is a missing file.\<close>

definition secret_line :: "string \<Rightarrow> (string \<times> string) option" where
  "secret_line l =
     (let t = py_strip_ws l in
      if t = [] \<or> hd t = CHR ''#'' then None
      else case py_partition (CHR ''='') t of (k, v) \<Rightarrow> Some (py_strip_ws k, py_strip_ws v))"

definition load_secrets :: "string list option \<Rightarrow> (string, string) dict result" where
  "load_secrets file =
     (case file of
        None \<Rightarrow> Inl ConfigurationError
      | Some ls \<Rightarrow> Inr (fold (\<lambda>l d. case secret_line l of None \<Rightarrow> d | Some (k, v) \<Rightarrow> dput k v d) ls []))"

section \<open>The snapshot of the environment\<close>

record settings =
  st_serializer :: string
  st_otel_endpoint :: "string option"
  st_nats_url :: string
  st_anthropic_api_key :: "string option"
  st_openai_api_key :: "string option"
  st_gemini_api_key :: "string option"
  st_fiddler_api_key :: "string option"
  st_gateway_api_key :: "string option"
  st_jwt_jwks_url :: "string option"
  st_jwt_audience :: "string option"
  st_jwt_issuer :: "string option"
  st_jwt_algorithms :: "string list"
  st_jwt_public_key :: "string option"
  st_jwt_secret :: "string option"
  st_state_key :: "string option"
  st_gateway_mtls_allowed_dns :: "string list"

definition env_or :: "string \<Rightarrow> (string \<Rightarrow> string option) \<Rightarrow> string \<Rightarrow> string" where
  "env_or d env k = (case env k of None \<Rightarrow> d | Some v \<Rightarrow> v)"

text \<open>\<^verbatim>\<open>(a.strip() for a in raw.split(c) if a.strip())\<close>.\<close>

definition fields_of :: "char \<Rightarrow> string \<Rightarrow> string list" where
  "fields_of c raw = filter (\<lambda>a. a \<noteq> []) (map py_strip_ws (py_split c raw))"

definition new_settings :: "(string \<Rightarrow> string option) \<Rightarrow> settings result" where
  "new_settings env =
     (let raw_serializer = env_or ''msgpack'' env ''AGENCY_SERIALIZER'' in
      if raw_serializer \<notin> {''msgpack'', ''json''} then Inl ConfigurationError
      else Inr \<lparr>st_serializer = raw_serializer,
                st_otel_endpoint = env ''OTEL_EXPORTER_OTLP_ENDPOINT'',
                st_nats_url = env_or ''nats://localhost:4222'' env ''NATS_URL'',
                st_anthropic_api_key = env ''ANTHROPIC_API_KEY'',
                st_openai_api_key = env ''OPENAI_API_KEY'',
                st_gemini_api_key = env ''GEMINI_API_KEY'',
                st_fiddler_api_key = env ''FIDDLER_API_KEY'',
                st_gateway_api_key = env ''CIVITAS_GATEWAY_API_KEY'',
                st_jwt_jwks_url = env ''CIVITAS_JWT_JWKS_URL'',
                st_jwt_audience = env ''CIVITAS_JWT_AUDIENCE'',
                st_jwt_issuer = env ''CIVITAS_JWT_ISSUER'',
                st_jwt_algorithms = fields_of (CHR '','') (env_or '''' env ''CIVITAS_JWT_ALGORITHMS''),
                st_jwt_public_key = env ''CIVITAS_JWT_PUBLIC_KEY'',
                st_jwt_secret = env ''CIVITAS_JWT_SECRET'',
                st_state_key = env ''CIVITAS_STATE_KEY'',
                st_gateway_mtls_allowed_dns = remdups (fields_of (CHR '';'') (env_or '''' env ''CIVITAS_GATEWAY_MTLS_ALLOWED_DNS''))\<rparr>)"

text \<open>\<^verbatim>\<open>SecretStr\<close>: what \<^verbatim>\<open>repr\<close> and \<^verbatim>\<open>str\<close> show.\<close>

definition secret_repr :: "string option \<Rightarrow> string" where
  "secret_repr v = (case v of Some (c # s) \<Rightarrow> ''SecretStr('' @ CHR 0x27 # ''**********'' @ CHR 0x27 # '')'' | _ \<Rightarrow> ''SecretStr(None)'')"

definition secret_str :: "string option \<Rightarrow> string" where
  "secret_str v = (case v of Some (c # s) \<Rightarrow> ''**********'' | _ \<Rightarrow> '''')"

section \<open>Plugins\<close>

text \<open>\<open>'c\<close> are the classes, \<open>'p\<close> their instances. \<open>pl_entry_points\<close> lists the entry points
  of a group with what loading them gives; \<open>pl_import\<close> gives the attributes of a module, or the text of the
  import error; \<open>pl_construct\<close> calls a class with keyword arguments. \<open>pl_text\<close> is the text of an
  exception.\<close>

record ('c, 'p) plugin_env =
  pl_entry_points :: "string \<Rightarrow> (string \<times> 'c result) list"
  pl_import :: "string \<Rightarrow> string + (string \<Rightarrow> 'c option)"
  pl_construct :: "'c \<Rightarrow> payload \<Rightarrow> 'p result"
  pl_text :: "exn \<Rightarrow> string"

definition BUILTINS :: "(string, (string, string) dict) dict" where
  "BUILTINS =
     [(''model'',
        [(''anthropic'', ''civitas_contrib.plugins.anthropic.AnthropicProvider''),
         (''openai'', ''civitas_contrib.plugins.openai.OpenAIProvider''),
         (''gemini'', ''civitas_contrib.plugins.gemini.GeminiProvider''),
         (''mistral'', ''civitas_contrib.plugins.mistral.MistralProvider''),
         (''litellm'', ''civitas_contrib.plugins.litellm.LiteLLMProvider'')]),
      (''exporter'',
        [(''console'', ''civitas.observability.export_backend.ConsoleBackend''),
         (''sqlite'', ''civitas.observability.sqlite_backend.SQLiteSpanStore''),
         (''postgres'', ''civitas_contrib.plugins.postgres_span_store.PostgresSpanStore''),
         (''mysql'', ''civitas_contrib.plugins.mysql_span_store.MySQLSpanStore'')]),
      (''state'',
        [(''in_memory'', ''civitas.plugins.state.InMemoryStateStore''),
         (''sqlite'', ''civitas.plugins.sqlite_store.SQLiteStateStore''),
         (''postgres'', ''civitas_contrib.plugins.postgres_store.PostgresStateStore''),
         (''mysql'', ''civitas_contrib.plugins.mysql_store.MySQLStateStore''),
         (''encrypted'', ''civitas.plugins.encrypted_store.EncryptingStateStore'')]),
      (''transport'',
        [(''in_process'', ''civitas.transport.inprocess.InProcessTransport''),
         (''zmq'', ''civitas.transport.zmq.ZMQTransport''),
         (''nats'', ''civitas.transport.nats.NATSTransport'')])]"

definition entry_group :: "string \<Rightarrow> string" where
  "entry_group ptype =
     (case dget [(''model'', ''civitas.model''), (''exporter'', ''civitas.exporter''), (''state'', ''civitas.state''),
                 (''transport'', ''civitas.transport'')] ptype of
        Some g \<Rightarrow> g | None \<Rightarrow> ''civitas.'' @ ptype)"

definition import_dotted :: "('c, 'p) plugin_env \<Rightarrow> string \<Rightarrow> string \<Rightarrow> string \<Rightarrow> 'c result" where
  "import_dotted pe ptype name path =
     (case py_rpartition (CHR ''.'') path of (module_path, class_name) \<Rightarrow>
        if module_path = [] then Inl (PluginError ptype name ''invalid dotted path'')
        else case pl_import pe module_path of
               Inl txt \<Rightarrow> Inl (PluginError ptype name txt)
             | Inr attrs \<Rightarrow>
                 (case attrs class_name of
                    None \<Rightarrow> Inl (PluginError ptype name ''no such attribute'')
                  | Some c \<Rightarrow> Inr c))"

definition resolve_plugin_class :: "('c, 'p) plugin_env \<Rightarrow> string \<Rightarrow> string \<Rightarrow> 'c result" where
  "resolve_plugin_class pe ptype name =
     (case find (\<lambda>ep. fst ep = name) (pl_entry_points pe (entry_group ptype)) of
        Some (n, Inr c) \<Rightarrow> Inr c
      | Some (n, Inl e) \<Rightarrow> Inl (PluginError ptype name (pl_text pe e))
      | None \<Rightarrow>
          (case dget (case dget BUILTINS ptype of None \<Rightarrow> [] | Some b \<Rightarrow> b) name of
             Some path \<Rightarrow> import_dotted pe ptype name path
           | None \<Rightarrow>
               if CHR ''.'' \<in> set name then import_dotted pe ptype name name
               else Inl (PluginError ptype name ''unknown plugin'')))"

text \<open>\<^verbatim>\<open>kwargs = config or {}\<close>; a value that is not a dictionary cannot be unpacked, inside the
  \<^verbatim>\<open>try\<close>.\<close>

definition load_plugin :: "('c, 'p) plugin_env \<Rightarrow> string \<Rightarrow> string \<Rightarrow> json \<Rightarrow> 'p result" where
  "load_plugin pe ptype name cfg =
     bind_r (resolve_plugin_class pe ptype name) (\<lambda>c.
       (case (if truthy cfg then case cfg of JDict d \<Rightarrow> pl_construct pe c d | _ \<Rightarrow> Inl TypeError else pl_construct pe c []) of
          Inl TypeError \<Rightarrow> Inl (PluginError ptype name ''constructor error'')
        | r \<Rightarrow> r))"

text \<open>The loop over \<^verbatim>\<open>models\<close> and over \<^verbatim>\<open>exporters\<close>.\<close>

fun load_entries :: "('c, 'p) plugin_env \<Rightarrow> string \<Rightarrow> json list \<Rightarrow> 'p list result" where
  "load_entries pe ptype [] = Inr []"
| "load_entries pe ptype (JDict d # es) =
     (let name = get_or JNull d ''type'' in
      if \<not> truthy name then Inl (PluginError ptype ''<missing>'' ''no type'')
      else case name of
             JStr n \<Rightarrow> bind_r (load_plugin pe ptype n (get_or (JDict []) d ''config''))
                         (\<lambda>p. map_sum id (Cons p) (load_entries pe ptype es))
           | _ \<Rightarrow> Inl TypeError)"
| "load_entries pe ptype (v # es) = Inl AttributeError"

text \<open>\<^verbatim>\<open>for x in data.get(key, [])\<close>: a dictionary gives its keys, a string its characters.\<close>

definition iterate :: "json \<Rightarrow> json list result" where
  "iterate v =
     (case v of
        JList xs \<Rightarrow> Inr xs
      | JDict d \<Rightarrow> Inr (map JStr (dkeys d))
      | JStr s \<Rightarrow> Inr (map (\<lambda>c. JStr [c]) s)
      | JBytes s \<Rightarrow> Inr (map (\<lambda>c. JInt (of_char c)) s)
      | _ \<Rightarrow> Inl TypeError)"

definition get_list :: "payload \<Rightarrow> string \<Rightarrow> json list result" where
  "get_list d k = iterate (get_or (JList []) d k)"

datatype 'p store_plugin = PlainStore 'p | EncryptedStore 'p enc_store

record 'p loaded_plugins =
  lp_model_providers :: "'p list"
  lp_exporters :: "'p list"
  lp_state_store :: "'p store_plugin option"

definition load_state_plugin :: "('c, 'p) plugin_env \<Rightarrow> (json \<Rightarrow> string) \<Rightarrow> (string \<Rightarrow> string result) \<Rightarrow> json option \<Rightarrow> 'p store_plugin option result" where
  "load_state_plugin pe py_str load_key cfg =
     (case cfg of
        None \<Rightarrow> Inr None
      | Some JNull \<Rightarrow> Inr None
      | Some (JDict d) \<Rightarrow>
          (case (get_or (JStr ''in_memory'') d ''type'', get_or (JDict []) d ''config'') of
             (JStr n, c) \<Rightarrow>
               (if n = ''encrypted'' then
                  (case c of
                     JDict cd \<Rightarrow>
                       map_sum id (\<lambda>(i, es). Some (EncryptedStore i es))
                         (build_encrypted_store py_str load_key
                           (\<lambda>ty ic. case ty of JStr t \<Rightarrow> load_plugin pe ''state'' t ic | _ \<Rightarrow> Inl TypeError) cd)
                   | _ \<Rightarrow> Inl AttributeError)
                else map_sum id (Some \<circ> PlainStore) (load_plugin pe ''state'' n c))
           | _ \<Rightarrow> Inl TypeError)
      | Some v \<Rightarrow> Inl AttributeError)"

definition load_plugins_from_config ::
  "('c, 'p) plugin_env \<Rightarrow> (json \<Rightarrow> string) \<Rightarrow> (string \<Rightarrow> string result) \<Rightarrow> payload \<Rightarrow> 'p loaded_plugins result" where
  "load_plugins_from_config pe py_str load_key config =
     bind_r (get_block config ''plugins'') (\<lambda>pc.
     bind_r (bind_r (get_list pc ''models'') (load_entries pe ''model'')) (\<lambda>ms.
     bind_r (bind_r (get_list pc ''exporters'') (load_entries pe ''exporter'')) (\<lambda>es.
     bind_r (load_state_plugin pe py_str load_key (dget pc ''state'')) (\<lambda>st.
       Inr \<lparr>lp_model_providers = ms, lp_exporters = es, lp_state_store = st\<rparr>))))"

section \<open>What substitution means\<close>

text \<open>A string read as literal characters and references \<^verbatim>\<open>${NAME}\<close>; a character is literal only
  where no reference starts.\<close>

datatype piece = Lit char | Var string

definition valid_name :: "string \<Rightarrow> bool" where
  "valid_name v \<longleftrightarrow> v \<noteq> [] \<and> name_start (hd v) \<and> list_all name_char v"

definition reference :: "string \<Rightarrow> string" where
  "reference v = ''${'' @ v @ ''}''"

fun source_of :: "piece list \<Rightarrow> string" where
  "source_of [] = []"
| "source_of (Lit c # ps) = c # source_of ps"
| "source_of (Var v # ps) = reference v @ source_of ps"

fun reading :: "piece list \<Rightarrow> bool" where
  "reading [] = True"
| "reading (Lit c # ps) = ((\<nexists>v rest. valid_name v \<and> c # source_of ps = reference v @ rest) \<and> reading ps)"
| "reading (Var v # ps) = (valid_name v \<and> reading ps)"

fun vars_in :: "piece list \<Rightarrow> string list" where
  "vars_in [] = []"
| "vars_in (Lit c # ps) = vars_in ps"
| "vars_in (Var v # ps) = v # vars_in ps"

fun expand :: "(string \<Rightarrow> string option) \<Rightarrow> piece list \<Rightarrow> string" where
  "expand env [] = []"
| "expand env (Lit c # ps) = c # expand env ps"
| "expand env (Var v # ps) = the (env v) @ expand env ps"

fun strings_of :: "json \<Rightarrow> string list" where
  "strings_of (JStr s) = [s]"
| "strings_of (JList xs) = concat (map strings_of xs)"
| "strings_of (JDict d) = concat (map (\<lambda>(k, v). strings_of v) d)"
| "strings_of v = []"

fun map_strings :: "(string \<Rightarrow> string) \<Rightarrow> json \<Rightarrow> json" where
  "map_strings f (JStr s) = JStr (f s)"
| "map_strings f (JList xs) = JList (map (map_strings f) xs)"
| "map_strings f (JDict d) = JDict (map (\<lambda>(k, v). (k, map_strings f v)) d)"
| "map_strings f v = v"

lemma braces_not_names [simp]: "\<not> name_char (CHR ''}'')"
  by (simp add: name_char_def name_start_def Let_def)

lemma match_var_iff: "match_var s = Some (v, rest) \<longleftrightarrow> valid_name v \<and> s = reference v @ rest"
proof
  assume "match_var s = Some (v, rest)"
  then obtain r where s: "s = ''${'' @ r" and v: "v = takeWhile name_char r" "v \<noteq> []" "name_start (hd r)"
    and d: "dropWhile name_char r = CHR ''}'' # rest"
    by (auto simp: match_var_def split: list.splits if_splits)
  have "r = v @ CHR ''}'' # rest" using takeWhile_dropWhile_id [of name_char r] v(1) d by simp
  moreover have "hd v = hd r" using v(1,2) by (cases r) (auto split: if_splits)
  ultimately show "valid_name v \<and> s = reference v @ rest"
    using s v by (auto simp: valid_name_def reference_def list_all_iff dest: set_takeWhileD)
next
  assume *: "valid_name v \<and> s = reference v @ rest"
  then have "takeWhile name_char (v @ ''}'' @ rest) = v" "dropWhile name_char (v @ ''}'' @ rest) = CHR ''}'' # rest"
    by (auto simp: valid_name_def list_all_iff takeWhile_append2 dropWhile_append2)
  with * show "match_var s = Some (v, rest)" by (simp add: match_var_def reference_def valid_name_def hd_append)
qed

lemma match_var_None: "match_var s = None \<longleftrightarrow> (\<nexists>v rest. valid_name v \<and> s = reference v @ rest)"
  using match_var_iff [of s] by (metis not_None_eq prod.exhaust)

lemma reference_not_Nil [simp]: "reference v \<noteq> []"
  by (simp add: reference_def)

lemma reading_exists: "\<exists>ps. reading ps \<and> source_of ps = s"
proof (induction s rule: length_induct)
  case (1 s)
  show ?case
  proof (cases s)
    case Nil
    then show ?thesis by (intro exI [of _ "[]"]) simp
  next
    case (Cons c t)
    show ?thesis
    proof (cases "match_var s")
      case None
      then show ?thesis using 1 [rule_format, of t] Cons unfolding match_var_None
        by (metis length_Cons lessI reading.simps(2) source_of.simps(2))
    next
      case (Some m)
      obtain v rest where "m = (v, rest)" by (cases m)
      with Some have "valid_name v" "s = reference v @ rest" by (simp_all add: match_var_iff)
      then obtain ps where "reading ps" "source_of ps = rest" using 1 [rule_format, of rest] by auto
      with \<open>valid_name v\<close> \<open>s = reference v @ rest\<close> show ?thesis by (intro exI [of _ "Var v # ps"]) simp
    qed
  qed
qed

lemma sub_vars_reading:
  "reading ps \<Longrightarrow> sub_vars env (source_of ps) = (if \<forall>v \<in> set (vars_in ps). env v \<noteq> None then Inr (expand env ps) else Inl ConfigurationError)"
proof (induction ps)
  case (Cons p ps)
  show ?case
  proof (cases p)
    case (Lit c)
    then have "match_var (c # source_of ps) = None" using Cons.prems by (simp add: match_var_None)
    then show ?thesis using Cons Lit by auto
  next
    case (Var v)
    then have "match_var (reference v @ source_of ps) = Some (v, source_of ps)" using Cons.prems by (simp add: match_var_iff)
    moreover obtain c t where "reference v @ source_of ps = c # t" by (metis append_is_Nil_conv neq_Nil_conv reference_not_Nil)
    ultimately show ?thesis using Cons Var by (auto split: option.split)
  qed
qed simp

lemma reading_unique: "reading ps \<Longrightarrow> reading qs \<Longrightarrow> source_of ps = source_of qs \<Longrightarrow> ps = qs"
proof (induction ps arbitrary: qs)
  case Nil
  then show ?case by (cases qs rule: reading.cases) auto
next
  case (Cons p ps)
  show ?case
  proof (cases p)
    case (Lit c)
    show ?thesis
    proof (cases qs rule: reading.cases)
      case (2 b qs')
      have "c = b" "ps = qs'"
        using Cons.prems unfolding Lit 2 reading.simps source_of.simps list.inject by (blast, blast intro: Cons.IH)
      then show ?thesis unfolding Lit 2 by simp
    next
      case (3 w qs')
      then show ?thesis using Cons.prems unfolding Lit 3 reading.simps source_of.simps by blast
    qed (use Cons.prems(3) Lit in simp)
  next
    case (Var v)
    show ?thesis
    proof (cases qs rule: reading.cases)
      case (3 w qs')
      then have "match_var (reference v @ source_of ps) = Some (w, source_of qs')" "match_var (reference v @ source_of ps) = Some (v, source_of ps)"
        using Cons.prems unfolding Var 3 by (simp_all add: match_var_iff)
      then have "v = w" "source_of ps = source_of qs'" by simp_all
      then show ?thesis using Cons.IH [of qs'] Cons.prems unfolding Var 3 by simp
    next
      case (2 b qs')
      show ?thesis using Cons.prems unfolding Var 2 reading.simps source_of.simps by (metis (no_types))
    qed (use Cons.prems(3) Var in simp)
  qed
qed

lemma substitute_strings:
  "substitute_vars env j =
     (if \<forall>s \<in> set (strings_of j). \<not> isl (sub_vars env s) then Inr (map_strings (\<lambda>s. projr (sub_vars env s)) j) else Inl ConfigurationError)"
  "substitute_items env xs =
     (if \<forall>j \<in> set xs. \<forall>s \<in> set (strings_of j). \<not> isl (sub_vars env s) then Inr (map (map_strings (\<lambda>s. projr (sub_vars env s))) xs) else Inl ConfigurationError)"
  "substitute_entries env d =
     (if \<forall>(k, j) \<in> set d. \<forall>s \<in> set (strings_of j). \<not> isl (sub_vars env s)
      then Inr (map (\<lambda>(k, v). (k, map_strings (\<lambda>s. projr (sub_vars env s)) v)) d) else Inl ConfigurationError)"
proof (induction env j and env xs and env d rule: substitute_vars_substitute_items_substitute_entries.induct)
  case (3 env s)
  obtain ps where "reading ps" "source_of ps = s" using reading_exists by blast
  then show ?case using sub_vars_reading [of ps env] by auto
qed (auto simp: bind_r_def)

section \<open>A file of secrets\<close>

definition clean :: "string \<Rightarrow> bool" where
  "clean s \<longleftrightarrow> s = [] \<or> \<not> is_space (hd s) \<and> \<not> is_space (last s)"

lemma strip_clean [simp]: "clean s \<Longrightarrow> py_strip_ws s = s"
  using dropWhile_eq_self_iff [of is_space s] dropWhile_eq_self_iff [of is_space "rev s"]
  by (auto simp: clean_def py_strip_ws_def hd_rev)

lemma partition_append: "c \<notin> set k \<Longrightarrow> py_partition c (k @ c # v) = (k, v)"
  by (induction k) (auto simp: py_partition_def)

definition secret_ok :: "string \<times> string \<Rightarrow> bool" where
  "secret_ok kv \<longleftrightarrow> fst kv \<noteq> [] \<and> clean (fst kv) \<and> clean (snd kv) \<and> CHR ''='' \<notin> set (fst kv) \<and> hd (fst kv) \<noteq> CHR ''#''"

lemma secret_line_read:
  assumes "secret_ok (k, v)"
  shows "secret_line (k @ CHR ''='' # v) = Some (k, v)"
proof -
  have "\<not> is_space (CHR ''='')" by (simp add: is_space_def Let_def)
  then have "clean (k @ CHR ''='' # v)" using assms by (cases v) (auto simp: clean_def secret_ok_def hd_append)
  moreover have "py_partition (CHR ''='') (k @ CHR ''='' # v) = (k, v)"
    using assms by (simp add: partition_append secret_ok_def)
  ultimately show ?thesis using assms by (simp add: secret_line_def secret_ok_def)
qed

lemma secrets_roundtrip:
  assumes "list_all secret_ok d" "dict_ok d"
  shows "load_secrets (Some (map (\<lambda>(k, v). k @ CHR ''='' # v) d)) = Inr d"
proof -
  have step: "fold (\<lambda>l e. case secret_line l of None \<Rightarrow> e | Some (k, v) \<Rightarrow> dput k v e) (map (\<lambda>(k, v). k @ CHR ''='' # v) d) acc = acc @ d"
    if "list_all secret_ok d" "distinct (map fst (acc @ d))" for acc
    using that
  proof (induction d arbitrary: acc)
    case (Cons kv d)
    obtain k v where kv: "kv = (k, v)" by (cases kv)
    have "dput k v acc = acc @ [(k, v)]" using Cons.prems(2) unfolding kv by (induction acc) auto
    then show ?case using Cons.prems Cons.IH [of "acc @ [(k, v)]"] by (simp add: kv secret_line_read)
  qed simp
  show ?thesis using step [of "[]"] assms by (simp add: load_secrets_def)
qed

section \<open>Properties\<close>

text \<open>C28. What substitution does. Every string has exactly one reading as literal characters and references
  \<^verbatim>\<open>${NAME}\<close>. Substituting in a string whose references are all set replaces each reference by its
  value and nothing else, so that a value is never scanned again, and raises when a reference is not set. In a
  configuration it acts on the string values, at any depth, and leaves keys, numbers and structure alone.\<close>

theorem substitution_exact:
  shows "(\<exists>!ps. reading ps \<and> source_of ps = s)
    \<and> (reading ps \<longrightarrow> sub_vars env (source_of ps) =
         (if \<forall>v \<in> set (vars_in ps). env v \<noteq> None then Inr (expand env ps) else Inl ConfigurationError))
    \<and> substitute_vars env j =
         (if \<forall>t \<in> set (strings_of j). \<not> isl (sub_vars env t) then Inr (map_strings (\<lambda>t. projr (sub_vars env t)) j)
          else Inl ConfigurationError)"
  using reading_exists [of s] reading_unique sub_vars_reading [of ps env] substitute_strings(1) [of env j] by blast

theorem substitution_exact_witness:
  "reading [Lit CHR ''$'', Var ''KEY'', Lit CHR ''}''] \<and> source_of [Lit CHR ''$'', Var ''KEY'', Lit CHR ''}''] = ''$${KEY}}''
   \<and> sub_vars [''KEY'' \<mapsto> ''${KEY}''] ''$${KEY}}'' = Inr ''$${KEY}}''
   \<and> substitute_vars Map.empty (JDict [(''${A}'', JList [JInt 1, JStr ''b''])]) = Inr (JDict [(''${A}'', JList [JInt 1, JStr ''b''])])"
proof -
  let ?ps = "[Lit CHR ''$'', Var ''KEY'', Lit CHR ''}'']"
  have r: "reading ?ps"
    by (auto simp: reference_def valid_name_def name_start_def name_char_def Let_def)
  have src: "source_of ?ps = ''$${KEY}}''" by (simp add: reference_def)
  show ?thesis
    using substitution_exact [of "''x''" ?ps "[''KEY'' \<mapsto> ''${KEY}'']" "JNull"] r src
      substitution_exact [of "''x''" "[Lit CHR ''b'']" Map.empty "JDict [(''${A}'', JList [JInt 1, JStr ''b''])]"]
    by (simp add: match_var_def reference_def)
qed

end
