(* ===== verification/Audit_Sinks.thy ===== *)
theory Audit_Sinks
  imports Civitas_Prelude "HOL-Library.Multiset"
begin

text \<open>
  \<^verbatim>\<open>src/civitas/audit/sinks.py\<close>: the sink that appends audit events to a JSONL file through a
  queue and a background task, the null sink and the choice of a sink from the configuration. Events are the
  lines \<^verbatim>\<open>json.dumps\<close> makes of them. The syslog and OTLP sinks only call their libraries.
  The file is the list of its lines; rotation reopens the same path for appending and loses none.
\<close>

section \<open>The JSONL sink\<close>

text \<open>\<open>js_batch\<close> is the local variable of the drain task; \<^const>\<open>None\<close> in the queue is the sentinel of
  \<^verbatim>\<open>close\<close>.\<close>

record jsonl_sink =
  js_batch_size :: int
  js_queue :: "string option list"
  js_batch :: "string list"
  js_task :: bool
  js_rotate_flag :: bool
  js_rotations :: nat
  js_file :: "string list"
  js_open :: bool

definition new_jsonl_sink :: "int \<Rightarrow> jsonl_sink" where
  "new_jsonl_sink n =
     \<lparr>js_batch_size = n, js_queue = [], js_batch = [], js_task = False, js_rotate_flag = False, js_rotations = 0,
      js_file = [], js_open = True\<rparr>"

definition write_batch :: "string list \<Rightarrow> jsonl_sink \<Rightarrow> jsonl_sink" where
  "write_batch ls s = s\<lparr>js_file := js_file s @ ls\<rparr>"

definition js_rotate :: "jsonl_sink \<Rightarrow> jsonl_sink" where
  "js_rotate s = (if js_rotate_flag s then s\<lparr>js_rotate_flag := False, js_rotations := js_rotations s + 1\<rparr> else s)"

text \<open>The end of a pass of the drain loop: the batch is written, a requested rotation happens.\<close>

definition pass_end :: "jsonl_sink \<Rightarrow> jsonl_sink" where
  "pass_end s =
     js_rotate (if js_batch s \<noteq> [] then write_batch (js_batch s) (s\<lparr>js_batch := []\<rparr>) else s)"

text \<open>The task takes the next item: the sentinel ends it, after a last write; a full batch ends the pass. With a batch size of
  zero or less a pass takes nothing. Errors of the file are not modelled.\<close>

definition js_take :: "jsonl_sink \<Rightarrow> jsonl_sink" where
  "js_take s =
     (if \<not> js_task s \<or> js_batch_size s \<le> 0 then s
      else case js_queue s of
        [] \<Rightarrow> s
      | None # q \<Rightarrow>
          (let s1 = s\<lparr>js_queue := q, js_task := False, js_batch := []\<rparr>
           in if js_batch s \<noteq> [] then write_batch (js_batch s) s1 else s1)
      | Some l # q \<Rightarrow>
          (let s1 = s\<lparr>js_queue := q, js_batch := js_batch s @ [l]\<rparr>
           in if int (length (js_batch s1)) < js_batch_size s then s1 else pass_end s1))"

definition js_deadline :: "jsonl_sink \<Rightarrow> jsonl_sink" where
  "js_deadline s = (if js_task s then pass_end s else s)"

definition js_emit :: "string \<Rightarrow> jsonl_sink \<Rightarrow> jsonl_sink" where
  "js_emit l s = s\<lparr>js_queue := js_queue s @ [Some l], js_task := True\<rparr>"

text \<open>\<^verbatim>\<open>flush\<close> takes what is queued, up to a sentinel, which it queues again behind the rest.\<close>

fun js_collect :: "string option list \<Rightarrow> string list \<times> string option list" where
  "js_collect [] = ([], [])"
| "js_collect (None # q) = ([], q @ [None])"
| "js_collect (Some l # q) = (case js_collect q of (ls, r) \<Rightarrow> (l # ls, r))"

definition js_flush :: "jsonl_sink \<Rightarrow> jsonl_sink" where
  "js_flush s =
     (case js_collect (js_queue s) of (ls, q) \<Rightarrow>
        (if ls \<noteq> [] then write_batch ls (s\<lparr>js_queue := q\<rparr>) else s\<lparr>js_queue := q\<rparr>))"

text \<open>\<^verbatim>\<open>close\<close> queues the sentinel, lets the task run for at most \<open>n\<close> items (five seconds), cancels it
  if it has not ended, flushes and closes the file.\<close>

definition js_close :: "nat \<Rightarrow> jsonl_sink \<Rightarrow> jsonl_sink" where
  "js_close n s =
     (let s1 = (js_take ^^ n) (s\<lparr>js_queue := js_queue s @ [None]\<rparr>);
          s2 = (if js_task s1 then s1\<lparr>js_task := False, js_batch := []\<rparr> else s1)
      in (js_flush s2)\<lparr>js_open := False\<rparr>)"

datatype audit_event = AEmit string | ATake | ADeadline | AFlush | ASighup

fun audit_step :: "audit_event \<Rightarrow> jsonl_sink \<Rightarrow> jsonl_sink" where
  "audit_step (AEmit l) s = js_emit l s"
| "audit_step ATake s = js_take s"
| "audit_step ADeadline s = js_deadline s"
| "audit_step AFlush s = js_flush s"
| "audit_step ASighup s = s\<lparr>js_rotate_flag := True\<rparr>"

section \<open>Choice of the sink\<close>

datatype sink = NullSink | JsonlFileSink json json json json | SyslogSink json | OtlpSink json json

definition sink_from_config :: "payload \<Rightarrow> sink" where
  "sink_from_config cfg =
     (let kind = get_or (JStr ''null'') cfg ''sink'' in
      if kind = JStr ''jsonl'' then
        JsonlFileSink (get_or (JStr ''civitas_audit.jsonl'') cfg ''path'') (get_or (JBool False) cfg ''sync_writes'')
          (get_or (JInt 100) cfg ''batch_size'') (get_or (JFloat (1 / 10)) cfg ''flush_interval'')
      else if kind = JStr ''syslog'' then
        SyslogSink (let a = get_or JNull cfg ''address'' in if truthy a then a else JNull)
      else if kind = JStr ''otlp'' then
        OtlpSink (get_or (JStr ''http://localhost:4317'') cfg ''endpoint'') (get_or (JStr ''civitas'') cfg ''service_name'')
      else NullSink)"

section \<open>No line is lost\<close>

definition pending_lines :: "jsonl_sink \<Rightarrow> string list" where
  "pending_lines s = js_batch s @ List.map_filter id (js_queue s)"

definition audit_lines :: "jsonl_sink \<Rightarrow> string list" where
  "audit_lines s = js_file s @ pending_lines s"

definition emitted_lines :: "audit_event list \<Rightarrow> string list" where
  "emitted_lines evs = List.map_filter (\<lambda>e. case e of AEmit l \<Rightarrow> Some l | _ \<Rightarrow> None) evs"

lemmas line_defs = audit_lines_def pending_lines_def write_batch_def js_rotate_def map_filter_simps

lemma pass_end_lines [simp]: "audit_lines (pass_end s) = audit_lines s"
  by (simp add: pass_end_def line_defs)

lemma take_lines [simp]: "audit_lines (js_take s) = audit_lines s"
  by (auto simp: js_take_def Let_def line_defs pass_end_def split: list.splits option.splits)

lemma deadline_lines [simp]: "audit_lines (js_deadline s) = audit_lines s"
  by (simp add: js_deadline_def)

lemma emit_lines [simp]: "audit_lines (js_emit l s) = audit_lines s @ [l]"
  by (simp add: js_emit_def audit_lines_def pending_lines_def map_filter_def)

lemma sighup_lines [simp]: "audit_lines (s\<lparr>js_rotate_flag := b\<rparr>) = audit_lines s"
  by (simp add: audit_lines_def pending_lines_def)

lemma collect_lines: "List.map_filter id q = fst (js_collect q) @ List.map_filter id (snd (js_collect q))"
  by (induction q rule: js_collect.induct) (auto simp: map_filter_simps map_filter_def split: prod.splits)

lemma flush_file: "js_file (js_flush s) = js_file s @ fst (js_collect (js_queue s))"
  by (simp add: js_flush_def write_batch_def split: prod.splits)

lemma flush_pending: "pending_lines (js_flush s) = js_batch s @ List.map_filter id (snd (js_collect (js_queue s)))"
  by (simp add: js_flush_def write_batch_def pending_lines_def split: prod.splits)

lemma flush_mset [simp]: "mset (audit_lines (js_flush s)) = mset (audit_lines s)"
  using collect_lines [of "js_queue s"] by (simp add: audit_lines_def flush_file flush_pending) (simp add: pending_lines_def)

lemma flush_lines: "js_batch s = [] \<Longrightarrow> audit_lines (js_flush s) = audit_lines s"
  using collect_lines [of "js_queue s"] by (simp add: audit_lines_def flush_file flush_pending) (simp add: pending_lines_def)

text \<open>A run in which \<^verbatim>\<open>flush\<close> is only called while the task holds no batch.\<close>

fun quiet_flushes :: "audit_event list \<Rightarrow> jsonl_sink \<Rightarrow> bool" where
  "quiet_flushes [] s = True"
| "quiet_flushes (e # es) s = ((e = AFlush \<longrightarrow> js_batch s = []) \<and> quiet_flushes es (audit_step e s))"

lemma run_lines_mset: "mset (audit_lines (fold audit_step evs s)) = mset (audit_lines s @ emitted_lines evs)"
proof (induction evs arbitrary: s)
  case (Cons e es)
  then show ?case by (cases e) (auto simp: emitted_lines_def map_filter_simps)
qed (simp add: emitted_lines_def map_filter_simps)

lemma run_lines: "quiet_flushes evs s \<Longrightarrow> audit_lines (fold audit_step evs s) = audit_lines s @ emitted_lines evs"
proof (induction evs arbitrary: s)
  case (Cons e es)
  then show ?case
    by (cases e) (auto simp: emitted_lines_def map_filter_simps flush_lines)
qed (simp add: emitted_lines_def map_filter_simps)


section \<open>Closing\<close>

text \<open>While the task runs it takes one item after the other; the sentinel is the last.\<close>

lemma takes_drain:
  assumes "js_task s" "js_queue s = map Some ls @ [None]" "0 < js_batch_size s"
  shows "\<not> js_task ((js_take ^^ Suc (length ls)) s) \<and> js_queue ((js_take ^^ Suc (length ls)) s) = [] \<and> js_batch ((js_take ^^ Suc (length ls)) s) = []"
  using assms
proof (induction ls arbitrary: s)
  case Nil
  then show ?case by (simp add: js_take_def Let_def write_batch_def)
next
  case (Cons l ls)
  have "js_task (js_take s)" "js_queue (js_take s) = map Some ls @ [None]" "0 < js_batch_size (js_take s)"
    using Cons.prems by (auto simp: js_take_def Let_def pass_end_def write_batch_def js_rotate_def)
  from Cons.IH [OF this] show ?case by (simp add: funpow_swap1)
qed

lemma takes_idle: "\<not> js_task s \<or> js_batch_size s \<le> 0 \<Longrightarrow> (js_take ^^ n) s = s"
  by (induction n) (simp_all add: js_take_def)

lemma takes_lines [simp]: "audit_lines ((js_take ^^ n) s) = audit_lines s"
  by (induction n) simp_all

definition sink_ok :: "jsonl_sink \<Rightarrow> bool" where
  "sink_ok s \<longleftrightarrow> None \<notin> set (js_queue s) \<and> (\<not> js_task s \<longrightarrow> js_queue s = [] \<and> js_batch s = [])
     \<and> (js_batch_size s \<le> 0 \<longrightarrow> js_batch s = [])"

lemma collect_no_sentinel: "None \<notin> set q \<Longrightarrow> js_collect q = (List.map_filter id q, [])"
  by (induction q rule: js_collect.induct) (auto simp: map_filter_simps)

lemma step_sink_ok: "sink_ok s \<Longrightarrow> sink_ok (audit_step e s)"
  by (cases e) (auto simp: sink_ok_def js_emit_def js_take_def js_deadline_def pass_end_def write_batch_def js_rotate_def js_flush_def
      collect_no_sentinel Let_def split: list.splits option.splits)

lemma run_sink_ok: "sink_ok s \<Longrightarrow> sink_ok (fold audit_step evs s)"
  by (induction evs arbitrary: s) (simp_all add: step_sink_ok)

lemma close_writes_all:
  assumes "sink_ok s" "length (js_queue s) < n"
  shows "js_file (js_close n s) = audit_lines s \<and> pending_lines (js_close n s) = []"
proof (cases "js_task s \<and> 0 < js_batch_size s")
  case True
  obtain ls where ls: "js_queue s = map Some ls" using assms(1) unfolding sink_ok_def
    by (metis ex_map_conv not_None_eq)
  let ?s0 = "s\<lparr>js_queue := js_queue s @ [None]\<rparr>"
  have d: "\<not> js_task ((js_take ^^ Suc (length ls)) ?s0) \<and> js_queue ((js_take ^^ Suc (length ls)) ?s0) = [] \<and> js_batch ((js_take ^^ Suc (length ls)) ?s0) = []"
    by (rule takes_drain) (use True ls in simp_all)
  have "n = (n - Suc (length ls)) + Suc (length ls)" using assms(2) ls by simp
  then have "(js_take ^^ n) ?s0 = (js_take ^^ Suc (length ls)) ?s0"
    using takes_idle [of "(js_take ^^ Suc (length ls)) ?s0" "n - Suc (length ls)"] d by (metis comp_apply funpow_add)
  moreover have "audit_lines ?s0 = audit_lines s" by (simp add: audit_lines_def pending_lines_def map_filter_def)
  ultimately have "\<not> js_task ((js_take ^^ n) ?s0)" "js_queue ((js_take ^^ n) ?s0) = []" "js_batch ((js_take ^^ n) ?s0) = []"
    "js_file ((js_take ^^ n) ?s0) = audit_lines s"
    using d takes_lines [of n ?s0] by (simp_all add: audit_lines_def pending_lines_def map_filter_simps)
  then show ?thesis by (simp add: js_close_def Let_def js_flush_def pending_lines_def map_filter_simps)
next
  case False
  then have b: "js_batch s = []" "js_task s \<or> js_queue s = []" using assms(1) by (auto simp: sink_ok_def)
  obtain ls where ls: "js_queue s = map Some ls" using assms(1) unfolding sink_ok_def
    by (metis ex_map_conv not_None_eq)
  have c: "js_collect (map Some ls @ [None]) = (ls, [None])" by (induction ls) simp_all
  have m: "List.map_filter id (map Some ls) = ls" by (induction ls) (simp_all add: map_filter_simps)
  show ?thesis using b ls c m False takes_idle [of "s\<lparr>js_queue := js_queue s @ [None]\<rparr>" n]
    by (auto simp: js_close_def Let_def js_flush_def write_batch_def audit_lines_def pending_lines_def map_filter_simps)
qed

section \<open>Properties\<close>

text \<open>C27. Every audit event is written exactly once. Whatever the interleaving of events, takes, deadlines,
  flushes and rotations, the file, the batch and the queue together hold exactly the emitted lines; when
  \<^verbatim>\<open>flush\<close> is not called while a batch is being collected, they hold them in the order of
  emission; and a \<^verbatim>\<open>close\<close> whose five seconds suffice leaves them all in the file.\<close>

theorem audit_lines_conserved:
  assumes "s = fold audit_step evs (new_jsonl_sink n)"
  shows "mset (js_file s @ pending_lines s) = mset (emitted_lines evs)
    \<and> (quiet_flushes evs (new_jsonl_sink n) \<longrightarrow> js_file s @ pending_lines s = emitted_lines evs)
    \<and> (length (js_queue s) < k \<longrightarrow> mset (js_file (js_close k s)) = mset (emitted_lines evs) \<and> pending_lines (js_close k s) = [])"
proof -
  have new: "audit_lines (new_jsonl_sink n) = []" "sink_ok (new_jsonl_sink n)"
    by (simp_all add: new_jsonl_sink_def audit_lines_def pending_lines_def map_filter_simps sink_ok_def)
  show ?thesis
    using run_lines_mset [of evs "new_jsonl_sink n"] run_lines [of evs "new_jsonl_sink n"] close_writes_all [OF run_sink_ok [OF new(2)]] new(1)
    by (auto simp: assms audit_lines_def)
qed

theorem audit_lines_conserved_witness:
  "mset (js_file (js_close 5 (fold audit_step [AEmit ''a'', ATake, AEmit ''b'', ASighup, ADeadline, AEmit ''c''] (new_jsonl_sink 100)))) = mset [''a'', ''b'', ''c'']"
proof -
  let ?evs = "[AEmit ''a'', ATake, AEmit ''b'', ASighup, ADeadline, AEmit ''c'']"
  have "length (js_queue (fold audit_step ?evs (new_jsonl_sink 100))) < 5"
    by (simp add: new_jsonl_sink_def js_emit_def js_take_def js_deadline_def pass_end_def write_batch_def js_rotate_def Let_def)
  with audit_lines_conserved [OF refl, of ?evs 100 5] show ?thesis by (simp add: emitted_lines_def map_filter_simps)
qed

text \<open>\<^verbatim>\<open>flush\<close> overtakes the batch. Events the drain task has already taken are neither written by
  \<^verbatim>\<open>flush\<close> nor before what it writes: when it returns they are still only in memory, and they reach the
  file after the later events that \<^verbatim>\<open>flush\<close> wrote.\<close>

theorem flush_overtakes_batch:
  assumes "js_task s" "js_batch s \<noteq> []" "js_queue s = map Some ls"
  shows "js_file (js_flush s) = js_file s @ ls \<and> js_batch (js_flush s) = js_batch s
    \<and> js_file (js_deadline (js_flush s)) = js_file s @ ls @ js_batch s"
proof -
  have "js_collect (map Some ls) = (ls, [])" by (induction ls) simp_all
  then show ?thesis
    using assms by (auto simp: js_flush_def js_deadline_def pass_end_def write_batch_def js_rotate_def)
qed

theorem flush_overtakes_batch_witness:
  "js_file (js_deadline (js_flush (fold audit_step [AEmit ''first'', ATake, AEmit ''second''] (new_jsonl_sink 100)))) = [''second'', ''first'']"
proof -
  let ?s = "fold audit_step [AEmit ''first'', ATake, AEmit ''second''] (new_jsonl_sink 100)"
  have "js_task ?s" "js_batch ?s = [''first'']" "js_queue ?s = map Some [''second'']" "js_file ?s = []"
    by (simp_all add: new_jsonl_sink_def js_emit_def js_take_def Let_def)
  with flush_overtakes_batch [of ?s "[''second'']"] show ?thesis by simp
qed

end
