(* ===== verification/Topology_Config.thy ===== *)
theory Topology_Config
  imports Settings Security Audit_Sinks Gateway Dynamic_Supervisor Eval_Agent "HOL-Library.Multiset"
begin

text \<open>
  From a topology file to a runtime: \<^verbatim>\<open>Runtime.from_config_dict\<close> of
  \<^verbatim>\<open>src/civitas/runtime.py\<close> with its helpers, and the worker side of \<^verbatim>\<open>civitas run\<close>
  (\<^verbatim>\<open>src/civitas/cli/run.py\<close>). A parsed file is a \<^typ>\<open>json\<close> value. Importing a class and calling
  a constructor of application code are parameters. The constructors of the framework do not check the types of
  their arguments; here a value that is not of the annotated type is a \<^const>\<open>TypeError\<close> at the place where it
  is read. MCP server entries are left out.
\<close>

section \<open>Reading values\<close>

definition as_dict :: "json \<Rightarrow> payload result" where
  "as_dict v = (case v of JDict d \<Rightarrow> Inr d | _ \<Rightarrow> Inl AttributeError)"

definition item :: "payload \<Rightarrow> string \<Rightarrow> json result" where
  "item d k = (case dget d k of None \<Rightarrow> Inl KeyError | Some v \<Rightarrow> Inr v)"

definition str_of :: "json \<Rightarrow> string result" where
  "str_of v = (case v of JStr s \<Rightarrow> Inr s | _ \<Rightarrow> Inl TypeError)"

definition int_of :: "json \<Rightarrow> int result" where
  "int_of v = (case v of JInt i \<Rightarrow> Inr i | _ \<Rightarrow> Inl TypeError)"

definition real_of :: "json \<Rightarrow> real result" where
  "real_of v = (case v of JFloat r \<Rightarrow> Inr r | JInt i \<Rightarrow> Inr (of_int i) | _ \<Rightarrow> Inl TypeError)"

definition opt_of :: "(json \<Rightarrow> 'x result) \<Rightarrow> json \<Rightarrow> 'x option result" where
  "opt_of rd v = (case v of JNull \<Rightarrow> Inr None | _ \<Rightarrow> map_sum id Some (rd v))"

definition strs_of :: "json \<Rightarrow> string list result" where
  "strs_of v = (case v of JList vs \<Rightarrow> (case str_list vs of None \<Rightarrow> Inl TypeError | Some ss \<Rightarrow> Inr ss) | _ \<Rightarrow> Inl TypeError)"

definition upper_of :: "json \<Rightarrow> string result" where
  "upper_of v = (case v of JStr s \<Rightarrow> Inr (py_upper s) | _ \<Rightarrow> Inl AttributeError)"

section \<open>What is built\<close>

record dyn_params =
  dp_max_children :: "int option"
  dp_max_total_spawns :: "int option"
  dp_max_children_per_spawner :: "int option"
  dp_max_total_spawns_per_spawner :: "int option"
  dp_restart_mode :: restart_mode
  dp_max_restarts :: int
  dp_restart_window :: real

datatype eval_exporter = EvalExporter string payload

datatype 'a built =
    BSupervisor string sup_state "'a built list"
  | BTopology string
  | BGateway string gateway_config "route_entry list"
  | BDynamic string dyn_params
  | BEval string int real "eval_exporter list"
  | BAgent string 'a

record ('c, 'a) build_env =
  bl_classes :: "(string, 'c) dict"
  bl_import :: "string \<Rightarrow> string \<Rightarrow> 'c option result"       \<comment> \<open>\<^const>\<open>None\<close>: no such module or attribute\<close>
  bl_construct :: "'c \<Rightarrow> string \<Rightarrow> real option \<Rightarrow> 'a result"
  bl_contrib :: bool                                       \<comment> \<open>\<^verbatim>\<open>civitas_contrib\<close> is installed\<close>
  bl_py_str :: "json \<Rightarrow> string"
  bl_float :: "json \<Rightarrow> real result"
  bl_valid_cidr :: "string \<Rightarrow> bool"

definition resolve_class :: "('c, 'a) build_env \<Rightarrow> string \<Rightarrow> 'c result" where
  "resolve_class env type_str =
     (case dget (bl_classes env) type_str of
        Some c \<Rightarrow> Inr c
      | None \<Rightarrow>
          (case py_rpartition (CHR ''.'') type_str of (module_path, class_name) \<Rightarrow>
             if module_path = [] then Inl ValueError
             else case bl_import env module_path class_name of
                    Inl e \<Rightarrow> Inl e
                  | Inr None \<Rightarrow> Inl ConfigurationError
                  | Inr (Some c) \<Rightarrow> Inr c))"

section \<open>Leaf nodes\<close>

text \<open>\<^verbatim>\<open>_build_exporters\<close>: the keyword arguments of an exporter with their defaults; an unknown kind is
  skipped.\<close>

fun required :: "payload \<Rightarrow> string list \<Rightarrow> payload result" where
  "required cfg [] = Inr []"
| "required cfg (k # ks) = bind_r (item cfg k) (\<lambda>v. map_sum id (Cons (k, v)) (required cfg ks))"

definition exporter_args :: "payload \<Rightarrow> string \<Rightarrow> payload option result" where
  "exporter_args cfg kind =
     (if kind = ''arize'' then
        Inr (Some [(''endpoint'', get_or (JStr ''http://localhost:6006/v1/traces'') cfg ''endpoint''),
                   (''service_name'', get_or (JStr ''civitas'') cfg ''service_name'')])
      else if kind = ''langfuse'' then
        map_sum id (\<lambda>kw. Some (kw @ [(''host'', get_or (JStr ''https://cloud.langfuse.com'') cfg ''host'')]))
          (required cfg [''public_key'', ''secret_key''])
      else if kind = ''braintrust'' \<or> kind = ''langsmith'' then
        map_sum id (\<lambda>kw. Some (kw @ [(''project'', get_or (JStr ''civitas'') cfg ''project'')])) (required cfg [''api_key''])
      else if kind = ''fiddler'' then
        map_sum id Some (required cfg [''url'', ''token'', ''org_id'', ''project_id'', ''model_id''])
      else Inr None)"

fun build_exporters :: "bool \<Rightarrow> json list \<Rightarrow> eval_exporter list result" where
  "build_exporters contrib [] = Inr []"
| "build_exporters contrib (c # cs) =
     bind_r (as_dict c) (\<lambda>cfg.
     if \<not> contrib then Inl ConfigurationError
     else bind_r (case get_or (JStr '''') cfg ''type'' of
                    JStr kind \<Rightarrow> map_sum id (map_option (EvalExporter kind)) (exporter_args cfg kind)
                  | _ \<Rightarrow> Inr None)
            (\<lambda>x. map_sum id (\<lambda>xs. case x of None \<Rightarrow> xs | Some e \<Rightarrow> e # xs) (build_exporters contrib cs)))"

record gateway_auth_config =
  gx_tls_ca_cert :: "string option"
  gx_client_cert_mode :: string
  gx_mtls_source :: string
  gx_trusted_proxy_cidrs :: "string list"

definition gateway_auth_from_dict :: "payload \<Rightarrow> gateway_auth_config result" where
  "gateway_auth_from_dict data =
     bind_r (get_block data ''mtls'') (\<lambda>m.
     bind_r (opt_of str_of (if truthy (get_or JNull m ''ca_cert'') then get_or JNull m ''ca_cert'' else get_or JNull m ''tls_ca_cert'')) (\<lambda>ca.
     bind_r (str_of (get_or (JStr ''none'') m ''client_cert_mode'')) (\<lambda>mode.
     bind_r (str_of (get_or (JStr ''direct'') m ''mtls_source'')) (\<lambda>src.
     bind_r (strs_of (get_or (JList []) m ''trusted_proxy_cidrs'')) (\<lambda>cidrs.
       Inr \<lparr>gx_tls_ca_cert = ca, gx_client_cert_mode = mode, gx_mtls_source = src, gx_trusted_proxy_cidrs = remdups cidrs\<rparr>)))))"

text \<open>An entry of \<^verbatim>\<open>routes\<close>; a missing key raises when the route table is made.\<close>

definition key_of :: "(json \<Rightarrow> 'x result) \<Rightarrow> payload \<Rightarrow> string \<Rightarrow> 'x option result" where
  "key_of rd d k = (case dget d k of None \<Rightarrow> Inr None | Some v \<Rightarrow> map_sum id Some (rd v))"

definition route_decl_of :: "json \<Rightarrow> route_decl result" where
  "route_decl_of v =
     (case v of
        JDict d \<Rightarrow>
          bind_r (key_of str_of d ''method'') (\<lambda>me.
          bind_r (key_of str_of d ''path'') (\<lambda>pa.
          bind_r (key_of str_of d ''agent'') (\<lambda>ag.
          bind_r (key_of str_of d ''mode'') (\<lambda>mo.
          bind_r (key_of strs_of d ''middleware'') (\<lambda>mw.
            Inr \<lparr>rd_method = me, rd_path = pa, rd_agent = ag, rd_mode = mo, rd_middleware = mw\<rparr>)))))
      | _ \<Rightarrow> Inl TypeError)"

fun route_decls_of :: "json list \<Rightarrow> route_decl list result" where
  "route_decls_of [] = Inr []"
| "route_decls_of (v # vs) = bind_r (route_decl_of v) (\<lambda>r. map_sum id (Cons r) (route_decls_of vs))"

definition new_gateway :: "('c, 'a) build_env \<Rightarrow> string \<Rightarrow> gateway_config \<Rightarrow> 'a built result" where
  "new_gateway env name c0 =
     bind_r (post_init (bl_valid_cidr env) c0) (\<lambda>c. map_sum id (BGateway name c) (gateway_routes c))"

definition new_supervisor :: "string \<Rightarrow> 'a built list \<Rightarrow> string \<Rightarrow> int \<Rightarrow> real \<Rightarrow> string \<Rightarrow> real \<Rightarrow> real \<Rightarrow> 'a built result" where
  "new_supervisor name children strategy max_restarts window backoff base bmax =
     bind_r (case dget [(''ONE_FOR_ONE'', ONE_FOR_ONE), (''ONE_FOR_ALL'', ONE_FOR_ALL), (''REST_FOR_ONE'', REST_FOR_ONE)] strategy of
               None \<Rightarrow> Inl ValueError | Some st \<Rightarrow> Inr st) (\<lambda>st.
     bind_r (case dget [(''CONSTANT'', CONSTANT), (''LINEAR'', LINEAR), (''EXPONENTIAL'', EXPONENTIAL)] backoff of
               None \<Rightarrow> Inl ValueError | Some b \<Rightarrow> Inr b) (\<lambda>b.
       Inr (BSupervisor name (new_sup st max_restarts window b base bmax) children)))"

definition restart_mode_of :: "string \<Rightarrow> restart_mode result" where
  "restart_mode_of s =
     (case dget [(''permanent'', PERMANENT), (''transient'', TRANSIENT), (''never'', NEVER)] s of
        None \<Rightarrow> Inl ValueError | Some m \<Rightarrow> Inr m)"

definition build_topology_server :: "('c, 'a) build_env \<Rightarrow> payload \<Rightarrow> 'a built result" where
  "build_topology_server env node =
     bind_r (get_block node ''config'') (\<lambda>cfg.
     bind_r (str_of (get_or (JStr ''topology_server'') node ''name'')) (\<lambda>agent_name.
     if truthy (get_or JNull cfg ''attach_to'') then Inr (BTopology agent_name)
     else
       bind_r (get_block cfg ''auth'') (\<lambda>auth_block.
       bind_r (gateway_auth_from_dict auth_block) (\<lambda>ax.
       bind_r (str_of (get_or (JStr ''127.0.0.1'') cfg ''host'')) (\<lambda>host.
       bind_r (int_of (get_or (JInt 6789) cfg ''port'')) (\<lambda>port.
       bind_r (opt_of str_of (get_or JNull cfg ''tls_cert'')) (\<lambda>cert.
       bind_r (opt_of str_of (get_or JNull cfg ''tls_key'')) (\<lambda>key.
       bind_r (str_of (get_or (JStr '''') cfg ''prefix'')) (\<lambda>pfx.
       bind_r (strs_of (get_or (JList []) auth_block ''middleware'')) (\<lambda>mw.
       bind_r (new_gateway env (agent_name @ ''_gateway'')
                (default_config
                   \<lparr>gc_host := host, gc_port := port, gc_tls_cert := cert, gc_tls_key := key,
                    gc_tls_ca_cert := gx_tls_ca_cert ax, gc_client_cert_mode := gx_client_cert_mode ax,
                    gc_mtls_source := gx_mtls_source ax, gc_trusted_proxy_cidrs := gx_trusted_proxy_cidrs ax,
                    gc_topology_agent := Some agent_name, gc_topology_prefix := pfx, gc_topology_middleware := mw,
                    gc_docs_enabled := Some False\<rparr>)) (\<lambda>gw.
         new_supervisor (agent_name @ ''_supervisor'') [BTopology agent_name, gw] ''ONE_FOR_ONE'' 3 60 ''CONSTANT'' 1 60)))))))))))"

definition dyn_params_of :: "payload \<Rightarrow> dyn_params result" where
  "dyn_params_of node =
     bind_r (opt_of int_of (get_or JNull node ''max_children'')) (\<lambda>mc.
     bind_r (opt_of int_of (get_or JNull node ''max_total_spawns'')) (\<lambda>ms.
     bind_r (opt_of int_of (get_or JNull node ''max_children_per_spawner'')) (\<lambda>pc.
     bind_r (opt_of int_of (get_or JNull node ''max_total_spawns_per_spawner'')) (\<lambda>ps.
     bind_r (str_of (get_or (JStr ''transient'') node ''restart'')) (\<lambda>r.
     bind_r (int_of (get_or (JInt 3) node ''max_restarts'')) (\<lambda>mr.
     bind_r (real_of (get_or (JFloat 60) node ''restart_window'')) (\<lambda>w.
     bind_r (restart_mode_of r) (\<lambda>mode.
       Inr \<lparr>dp_max_children = mc, dp_max_total_spawns = ms, dp_max_children_per_spawner = pc,
            dp_max_total_spawns_per_spawner = ps, dp_restart_mode = mode, dp_max_restarts = mr, dp_restart_window = w\<rparr>))))))))"

definition build_dynamic :: "payload \<Rightarrow> 'a built result" where
  "build_dynamic node =
     bind_r (bind_r (item node ''name'') str_of) (\<lambda>n. map_sum id (BDynamic n) (dyn_params_of node))"

definition build_eval :: "('c, 'a) build_env \<Rightarrow> payload \<Rightarrow> 'a built result" where
  "build_eval env node =
     bind_r (bind_r (item node ''name'') str_of) (\<lambda>n.
     bind_r (int_of (get_or (JInt 10) node ''max_corrections_per_window'')) (\<lambda>mx.
     bind_r (real_of (get_or (JFloat 60) node ''window_seconds'')) (\<lambda>w.
     bind_r (bind_r (get_list node ''exporters'') (build_exporters (bl_contrib env))) (\<lambda>xs. Inr (BEval n mx w xs)))))"

definition build_http_gateway :: "('c, 'a) build_env \<Rightarrow> payload \<Rightarrow> 'a built result" where
  "build_http_gateway env node =
     bind_r (get_block node ''config'') (\<lambda>cfg.
     bind_r (bind_r (get_block cfg ''auth'') gateway_auth_from_dict) (\<lambda>ax.
     bind_r (get_block cfg ''docs'') (\<lambda>docs.
     bind_r (str_of (get_or (JStr ''0.0.0.0'') cfg ''host'')) (\<lambda>host.
     bind_r (int_of (get_or (JInt 8080) cfg ''port'')) (\<lambda>port.
     bind_r (opt_of int_of (get_or JNull cfg ''port_quic'')) (\<lambda>quic.
     bind_r (opt_of str_of (get_or JNull cfg ''tls_cert'')) (\<lambda>cert.
     bind_r (opt_of str_of (get_or JNull cfg ''tls_key'')) (\<lambda>key.
     bind_r (real_of (get_or (JFloat 30) cfg ''request_timeout'')) (\<lambda>to.
     bind_r (bind_r (get_list cfg ''routes'') route_decls_of) (\<lambda>routes.
     bind_r (strs_of (get_or (JList []) cfg ''middleware'')) (\<lambda>mw.
     bind_r (str_of (get_or (JStr ''/docs'') docs ''path'')) (\<lambda>dpath.
     bind_r (opt_of str_of (get_or JNull cfg ''topology_agent'')) (\<lambda>ta.
     bind_r (str_of (get_or (JStr '''') cfg ''topology_prefix'')) (\<lambda>tp.
     bind_r (strs_of (get_or (JList []) cfg ''topology_middleware'')) (\<lambda>tm.
     bind_r (bind_r (item node ''name'') str_of) (\<lambda>name.
       new_gateway env name
         (default_config
            \<lparr>gc_host := host, gc_port := port, gc_port_quic := quic, gc_tls_cert := cert, gc_tls_key := key,
             gc_tls_ca_cert := gx_tls_ca_cert ax, gc_client_cert_mode := gx_client_cert_mode ax,
             gc_mtls_source := gx_mtls_source ax, gc_trusted_proxy_cidrs := gx_trusted_proxy_cidrs ax,
             gc_request_timeout := to, gc_enable_http3 := truthy (get_or (JBool False) cfg ''enable_http3''),
             gc_routes := routes, gc_middleware := mw,
             gc_docs_enabled := (case get_or JNull docs ''enabled'' of JNull \<Rightarrow> None | v \<Rightarrow> Some (truthy v)),
             gc_docs_path := dpath, gc_topology_agent := ta, gc_topology_prefix := tp, gc_topology_middleware := tm\<rparr>)))))))))))))))))"

definition build_agent :: "('c, 'a) build_env \<Rightarrow> json \<Rightarrow> 'a built result" where
  "build_agent env v =
     bind_r (as_dict v) (\<lambda>cfg.
     bind_r (bind_r (bind_r (item cfg ''type'') str_of) (resolve_class env)) (\<lambda>c.
     bind_r (bind_r (item cfg ''name'') str_of) (\<lambda>n.
     bind_r (case dget cfg ''handle_timeout'' of None \<Rightarrow> Inr None | Some t \<Rightarrow> map_sum id Some (bl_float env t)) (\<lambda>to.
       map_sum id (BAgent n) (bl_construct env c n to)))))"

text \<open>The two flat forms: \<^verbatim>\<open>module\<close> with \<^verbatim>\<open>class\<close>, and a dotted
  \<^verbatim>\<open>type\<close>.\<close>

definition build_flat :: "('c, 'a) build_env \<Rightarrow> string \<Rightarrow> payload \<Rightarrow> 'a built result" where
  "build_flat env cls_path node =
     bind_r (resolve_class env cls_path) (\<lambda>c.
     bind_r (bind_r (item node ''name'') str_of) (\<lambda>n. map_sum id (BAgent n) (bl_construct env c n None)))"

definition build_leaf :: "('c, 'a) build_env \<Rightarrow> payload \<Rightarrow> 'a built result" where
  "build_leaf env node =
     (let ty = get_or JNull node ''type''; named = dget node ''name'' \<noteq> None in
      if ty = JStr ''topology_server'' then build_topology_server env node
      else if ty = JStr ''dynamic_supervisor'' \<and> named then build_dynamic node
      else if ty = JStr ''eval_agent'' \<and> named then build_eval env node
      else if ty = JStr ''http_gateway'' \<and> named then build_http_gateway env node
      else case dget node ''agent'' of
        Some v \<Rightarrow> build_agent env v
      | None \<Rightarrow>
          (case (dget node ''module'', dget node ''class'') of
             (Some m, Some c) \<Rightarrow>
               if ty = JStr ''gen_server'' \<or> ty = JStr ''agent''
               then build_flat env (as_str (bl_py_str env) m @ ''.'' @ as_str (bl_py_str env) c) node
               else if dget node ''type'' \<noteq> None \<and> named then bind_r (str_of ty) (\<lambda>t. build_flat env t node)
               else Inl ValueError
           | _ \<Rightarrow>
               if dget node ''type'' \<noteq> None \<and> named then bind_r (str_of ty) (\<lambda>t. build_flat env t node)
               else Inl ValueError))"

section \<open>The tree\<close>

text \<open>\<^verbatim>\<open>_node_process_tag\<close> and \<^verbatim>\<open>_node_belongs_to\<close>; a filter is
  \<^const>\<open>None\<close>, a name or \<^verbatim>\<open>"*"\<close>.\<close>

definition node_process_tag :: "(json \<Rightarrow> string) \<Rightarrow> payload \<Rightarrow> string option result" where
  "node_process_tag py_str node =
     map_sum id (\<lambda>tag. if tag = JNull then None else Some (as_str py_str tag))
       (case dget node ''agent'' of
          Some v \<Rightarrow> map_sum id (\<lambda>d. get_or JNull d ''process'') (as_dict v)
        | None \<Rightarrow> Inr (get_or JNull node ''process''))"

definition node_belongs_to :: "(json \<Rightarrow> string) \<Rightarrow> string option \<Rightarrow> payload \<Rightarrow> bool result" where
  "node_belongs_to py_str flt node =
     (if flt = Some ''*'' then Inr True else map_sum id (\<lambda>t. t = flt) (node_process_tag py_str node))"

text \<open>What a node that is not a dictionary raises: \<^verbatim>\<open>in\<close> looks for a substring or an element.\<close>

definition bad_node :: "string option \<Rightarrow> json \<Rightarrow> exn" where
  "bad_node flt v =
     (case v of
        JStr s \<Rightarrow>
          if list_ex (prefix ''supervisor'') (suffixes s) \<or> flt \<noteq> Some ''*'' \<and> list_ex (prefix ''agent'') (suffixes s)
          then TypeError else AttributeError
      | JList xs \<Rightarrow>
          if JStr ''supervisor'' \<in> set xs \<or> flt \<noteq> Some ''*'' \<and> JStr ''agent'' \<in> set xs then TypeError else AttributeError
      | _ \<Rightarrow> TypeError)"

text \<open>The loop over \<^verbatim>\<open>children\<close>; the children of anything but a list are not nodes.\<close>

definition children_of :: "string option \<Rightarrow> payload \<Rightarrow> json list result" where
  "children_of flt cfg =
     (case get_or (JList []) cfg ''children'' of
        JList cs \<Rightarrow> Inr cs
      | v \<Rightarrow> (case iterate v of Inl e \<Rightarrow> Inl e | Inr [] \<Rightarrow> Inr [] | Inr (c # cs) \<Rightarrow> Inl (bad_node flt c)))"

definition sup_of_cfg :: "json result \<Rightarrow> 'a built list \<Rightarrow> payload \<Rightarrow> 'a built result" where
  "sup_of_cfg name children cfg =
     bind_r (bind_r name str_of) (\<lambda>n.
     bind_r (upper_of (get_or (JStr ''ONE_FOR_ONE'') cfg ''strategy'')) (\<lambda>st.
     bind_r (int_of (get_or (JInt 3) cfg ''max_restarts'')) (\<lambda>mr.
     bind_r (real_of (get_or (JFloat 60) cfg ''restart_window'')) (\<lambda>w.
     bind_r (upper_of (get_or (JStr ''CONSTANT'') cfg ''backoff'')) (\<lambda>bk.
     bind_r (real_of (get_or (JFloat 1) cfg ''backoff_base'')) (\<lambda>bb.
     bind_r (real_of (get_or (JFloat 60) cfg ''backoff_max'')) (\<lambda>bm. new_supervisor n children st mr w bk bb bm)))))))"

lemma size_dget: "dget d k = Some v \<Longrightarrow> size v < size (JDict d)"
  by (induction d) (auto split: if_splits)

lemma children_of_size: "children_of flt cfg = Inr cs \<Longrightarrow> size_list size cs \<le> size (JDict cfg)"
  using size_dget [of cfg "''children''"]
  by (auto simp: children_of_def get_or_def iterate_def split: option.splits json.splits list.splits sum.splits)

function (sequential) build_node :: "('c, 'a) build_env \<Rightarrow> string option \<Rightarrow> json \<Rightarrow> 'a built option result"
and build_nodes :: "('c, 'a) build_env \<Rightarrow> string option \<Rightarrow> json list \<Rightarrow> 'a built list result" where
  "build_node env flt (JDict node) =
     (case dget node ''supervisor'' of
        Some (JDict cfg) \<Rightarrow>
          (case children_of flt cfg of
             Inl e \<Rightarrow> Inl e
           | Inr cs \<Rightarrow>
               (case build_nodes env flt cs of
                  Inl e \<Rightarrow> Inl e
                | Inr bs \<Rightarrow> map_sum id Some (sup_of_cfg (item cfg ''name'') bs cfg)))
      | Some v \<Rightarrow> Inl AttributeError
      | None \<Rightarrow>
          (case node_belongs_to (bl_py_str env) flt node of
             Inl e \<Rightarrow> Inl e
           | Inr b \<Rightarrow> if b then map_sum id Some (build_leaf env node) else Inr None))"
| "build_node env flt v = Inl (bad_node flt v)"
| "build_nodes env flt [] = Inr []"
| "build_nodes env flt (c # cs) =
     (case build_node env flt c of
        Inl e \<Rightarrow> Inl e
      | Inr b \<Rightarrow>
          (case build_nodes env flt cs of
             Inl e \<Rightarrow> Inl e
           | Inr bs \<Rightarrow> Inr (case b of None \<Rightarrow> bs | Some x \<Rightarrow> x # bs)))"
  by pat_completeness auto
termination
proof (relation "measure (case_sum (\<lambda>(env, flt, v). size v) (\<lambda>(env, flt, cs). size_list size cs))", goal_cases)
  case (2 env flt node sc cfg cs)
  then show ?case using children_of_size [of flt cfg cs] size_dget [of node "''supervisor''" sc] by auto
qed auto

section \<open>Tables read from the tree\<close>

text \<open>The three \<^verbatim>\<open>_scan\<close> functions walk the tree alike; \<open>wrapped\<close> reads the block of an
  \<^verbatim>\<open>agent\<close> node, \<open>flat\<close> any other node.\<close>

function (sequential) scan :: "(payload \<Rightarrow> 'd \<Rightarrow> 'd result) \<Rightarrow> (payload \<Rightarrow> 'd \<Rightarrow> 'd result) \<Rightarrow> json \<Rightarrow> 'd \<Rightarrow> 'd result"
and scans :: "(payload \<Rightarrow> 'd \<Rightarrow> 'd result) \<Rightarrow> (payload \<Rightarrow> 'd \<Rightarrow> 'd result) \<Rightarrow> json list \<Rightarrow> 'd \<Rightarrow> 'd result" where
  "scan wrapped flat (JDict node) acc =
     (case dget node ''agent'' of
        Some (JDict cfg) \<Rightarrow> wrapped cfg acc
      | Some v \<Rightarrow> Inl AttributeError
      | None \<Rightarrow>
          (case dget node ''supervisor'' of
             Some (JDict cfg) \<Rightarrow>
               (case children_of None cfg of Inl e \<Rightarrow> Inl e | Inr cs \<Rightarrow> scans wrapped flat cs acc)
           | Some v \<Rightarrow> Inl AttributeError
           | None \<Rightarrow> flat node acc))"
| "scan wrapped flat v acc = Inl TypeError"
| "scans wrapped flat [] acc = Inr acc"
| "scans wrapped flat (c # cs) acc =
     (case scan wrapped flat c acc of Inl e \<Rightarrow> Inl e | Inr acc' \<Rightarrow> scans wrapped flat cs acc')"
  by pat_completeness auto
termination
proof (relation "measure (case_sum (\<lambda>(w, f, v, acc). size v) (\<lambda>(w, f, cs, acc). size_list size cs))", goal_cases)
  case (2 w f node acc sc cfg cs)
  then show ?case using children_of_size [of None cfg cs] size_dget [of node "''supervisor''" sc] by auto
qed auto

definition scan_config :: "(payload \<Rightarrow> ('k, 'v) dict \<Rightarrow> ('k, 'v) dict result) \<Rightarrow> (payload \<Rightarrow> ('k, 'v) dict \<Rightarrow> ('k, 'v) dict result) \<Rightarrow> payload \<Rightarrow> ('k, 'v) dict result" where
  "scan_config wrapped flat config =
     (let sup = (if truthy (get_or JNull config ''supervision'') then get_or JNull config ''supervision''
                 else get_or (JDict []) config ''supervisor'')
      in case sup of
           JDict d \<Rightarrow> bind_r (children_of None d) (\<lambda>cs. scans wrapped flat cs [])
         | _ \<Rightarrow> Inr [])"

definition named_entry :: "payload \<Rightarrow> 'v \<Rightarrow> (string, 'v) dict \<Rightarrow> (string, 'v) dict result" where
  "named_entry cfg v acc = map_sum id (\<lambda>n. dput n v acc) (bind_r (item cfg ''name'') str_of)"

definition has_keys :: "string list \<Rightarrow> payload \<Rightarrow> bool" where
  "has_keys ks d \<longleftrightarrow> list_all (\<lambda>k. dget d k \<noteq> None) ks"

definition extract_public_keys :: "payload \<Rightarrow> (string, json) dict result" where
  "extract_public_keys =
     scan_config
       (\<lambda>cfg acc. case dget cfg ''public_key'' of None \<Rightarrow> Inr acc | Some k \<Rightarrow> named_entry cfg k acc)
       (\<lambda>node acc. if has_keys [''public_key'', ''name''] node then named_entry node (the (dget node ''public_key'')) acc else Inr acc)"

definition extract_agent_credentials :: "(json \<Rightarrow> string) \<Rightarrow> payload \<Rightarrow> (string, (string, string) dict) dict result" where
  "extract_agent_credentials py_str =
     scan_config
       (\<lambda>cfg acc. case get_or JNull cfg ''credentials'' of
          JDict (c # cs) \<Rightarrow> named_entry cfg (map (\<lambda>(k, v). (k, as_str py_str v)) (c # cs)) acc
        | _ \<Rightarrow> Inr acc)
       (\<lambda>node acc. if has_keys [''credentials'', ''name''] node
          then case get_or JNull node ''credentials'' of
                 JDict cs \<Rightarrow> named_entry node (map (\<lambda>(k, v). (k, as_str py_str v)) cs) acc
               | _ \<Rightarrow> Inr acc
          else Inr acc)"

definition metadata_of :: "payload \<Rightarrow> payload result" where
  "metadata_of d =
     (let meta = get_or (JDict []) d ''capability_metadata''
      in if truthy meta then case meta of JDict m \<Rightarrow> Inr m | _ \<Rightarrow> Inl TypeError else Inr [])"

definition extract_agent_capabilities :: "(json \<Rightarrow> string) \<Rightarrow> payload \<Rightarrow> (string, string list \<times> payload) dict result" where
  "extract_agent_capabilities py_str =
     scan_config
       (\<lambda>cfg acc. case get_or JNull cfg ''capabilities'' of
          JList (c # cs) \<Rightarrow> bind_r (metadata_of cfg) (\<lambda>m. named_entry cfg (map (as_str py_str) (c # cs), m) acc)
        | _ \<Rightarrow> Inr acc)
       (\<lambda>node acc. if has_keys [''capabilities'', ''name''] node
          then case get_or JNull node ''capabilities'' of
                 JList cs \<Rightarrow> bind_r (metadata_of node) (\<lambda>m. named_entry node (map (as_str py_str) cs, m) acc)
               | _ \<Rightarrow> Inr acc
          else Inr acc)"

section \<open>The runtime's configuration\<close>

definition KNOWN_CONFIG_KEYS :: "string list" where
  "KNOWN_CONFIG_KEYS = [''transport'', ''plugins'', ''supervision'', ''supervisor'', ''mcp'', ''security'', ''audit'', ''presidium'']"

record transport_options =
  to_type :: json
  to_options :: payload

text \<open>The options of a transport that are passed on, when they are present.\<close>

definition transport_of :: "payload \<Rightarrow> transport_options result" where
  "transport_of config =
     bind_r (get_block config ''transport'') (\<lambda>t.
       (let ty = get_or (JStr ''in_process'') t ''type'';
            pass = (\<lambda>ks. List.map_filter (\<lambda>(k, kw). map_option (Pair kw) (dget t k)) ks)
        in Inr \<lparr>to_type = ty,
                to_options =
                  (if ty = JStr ''zmq'' then
                     pass [(''pub_addr'', ''zmq_pub_addr''), (''sub_addr'', ''zmq_sub_addr''), (''start_proxy'', ''zmq_start_proxy'')]
                   else if ty = JStr ''nats'' then
                     pass [(''servers'', ''nats_servers''), (''jetstream'', ''nats_jetstream''), (''stream_name'', ''nats_stream_name'')]
                   else [])\<rparr>))"

record ('a, 'p) runtime_config =
  rc_root :: "'a built"
  rc_transport :: transport_options
  rc_plugins :: "'p loaded_plugins option"
  rc_credentials :: "(string, (string, string) dict) dict"
  rc_capabilities :: "(string, string list \<times> payload) dict"
  rc_security :: "security_config option"
  rc_transport_security :: "transport_security_config option"
  rc_public_keys :: "(string, json) dict"
  rc_audit_sink :: "sink option"

definition build_root :: "('c, 'a) build_env \<Rightarrow> string option \<Rightarrow> payload \<Rightarrow> 'a built result" where
  "build_root env flt config =
     (let sup = (if truthy (get_or JNull config ''supervision'') then get_or JNull config ''supervision''
                 else get_or JNull config ''supervisor'')
      in if \<not> truthy sup then Inl ConfigurationError
         else bind_r (as_dict sup) (\<lambda>cfg.
              bind_r (children_of flt cfg) (\<lambda>cs.
              bind_r (build_nodes env flt cs) (\<lambda>bs. sup_of_cfg (Inr (get_or (JStr ''root'') cfg ''name'')) bs cfg))))"

definition from_config_dict ::
  "('c, 'a) build_env \<Rightarrow> (payload \<Rightarrow> 'p loaded_plugins result) \<Rightarrow> string option \<Rightarrow> payload \<Rightarrow> ('a, 'p) runtime_config result" where
  "from_config_dict env load_plugins flt config =
     (if \<not> list_all (\<lambda>k. k \<in> set KNOWN_CONFIG_KEYS) (dkeys config) then Inl ConfigurationError
      else
        bind_r (build_root env flt config) (\<lambda>root.
        bind_r (transport_of config) (\<lambda>tr.
        bind_r (if dget config ''plugins'' = None then Inr None else map_sum id Some (load_plugins config)) (\<lambda>pl.
        bind_r (extract_agent_credentials (bl_py_str env) config) (\<lambda>cr.
        bind_r (extract_agent_capabilities (bl_py_str env) config) (\<lambda>ca.
        bind_r (if truthy (get_or JNull config ''security'')
                then bind_r (as_dict (get_or JNull config ''security'')) (\<lambda>sd.
                     bind_r (security_from_dict sd) (\<lambda>sec.
                     bind_r (extract_public_keys config) (\<lambda>ks. Inr (Some sec, sd, ks))))
                else Inr (None, [], [])) (\<lambda>(sec, sd, ks).
        bind_r (if truthy (get_or JNull config ''audit'')
                then map_sum id (Some \<circ> sink_from_config) (as_dict (get_or JNull config ''audit''))
                else Inr None) (\<lambda>au.
        bind_r (if truthy (get_or (JDict []) sd ''transport'')
                then map_sum id Some (bind_r (as_dict (get_or JNull sd ''transport'')) transport_from_dict)
                else Inr None) (\<lambda>ts.
          Inr \<lparr>rc_root = root, rc_transport = tr, rc_plugins = pl, rc_credentials = cr, rc_capabilities = ca,
               rc_security = sec, rc_transport_security = ts, rc_public_keys = ks, rc_audit_sink = au\<rparr>)))))))))"

text \<open>\<^verbatim>\<open>from_config\<close> substitutes the environment first.\<close>

definition from_config_file ::
  "(string \<Rightarrow> string option) \<Rightarrow> ('c, 'a) build_env \<Rightarrow> (payload \<Rightarrow> 'p loaded_plugins result) \<Rightarrow> string option \<Rightarrow> json \<Rightarrow> ('a, 'p) runtime_config result" where
  "from_config_file environ env load_plugins flt yaml =
     bind_r (substitute_vars environ yaml) (\<lambda>v. bind_r (as_dict v) (from_config_dict env load_plugins flt))"

section \<open>The worker side of the command line\<close>

definition process_is :: "string \<Rightarrow> payload \<Rightarrow> bool" where
  "process_is p d = (get_or JNull d ''process'' = JStr p)"

function (sequential) walk_process :: "string \<Rightarrow> json \<Rightarrow> payload list result"
and walk_processes :: "string \<Rightarrow> json list \<Rightarrow> payload list result" where
  "walk_process p (JDict node) =
     (case dget node ''supervisor'' of
        Some (JDict cfg) \<Rightarrow> (case children_of (Some p) cfg of Inl e \<Rightarrow> Inl e | Inr cs \<Rightarrow> walk_processes p cs)
      | Some v \<Rightarrow> Inl AttributeError
      | None \<Rightarrow>
          (case dget node ''agent'' of
             Some (JDict acfg) \<Rightarrow> Inr (if process_is p acfg then [acfg] else [])
           | Some v \<Rightarrow> Inl AttributeError
           | None \<Rightarrow>
               Inr (if get_or JNull node ''type'' = JStr ''dynamic_supervisor'' \<and> process_is p node then [node] else [])))"
| "walk_process p v = Inl (bad_node (Some p) v)"
| "walk_processes p [] = Inr []"
| "walk_processes p (c # cs) =
     (case walk_process p c of
        Inl e \<Rightarrow> Inl e
      | Inr xs \<Rightarrow> (case walk_processes p cs of Inl e \<Rightarrow> Inl e | Inr ys \<Rightarrow> Inr (xs @ ys)))"
  by pat_completeness auto
termination
proof (relation "measure (case_sum (\<lambda>(p, v). size v) (\<lambda>(p, cs). size_list size cs))", goal_cases)
  case (2 p node sc cfg cs)
  then show ?case using children_of_size [of "Some p" cfg cs] size_dget [of node "''supervisor''" sc] by auto
qed auto

definition find_process_agents :: "payload \<Rightarrow> string \<Rightarrow> payload list result" where
  "find_process_agents config p =
     (let sup = (case dget config ''supervision'' of Some v \<Rightarrow> v | None \<Rightarrow> get_or (JDict []) config ''supervisor'')
      in bind_r (as_dict sup) (\<lambda>cfg. bind_r (children_of (Some p) cfg) (walk_processes p)))"

text \<open>\<^verbatim>\<open>_build_worker_agent\<close> with \<^verbatim>\<open>_resolve_agent_class\<close>; \<open>Exit\<close> is the end of the
  program with a message.\<close>

abbreviation Exit :: exn where "Exit \<equiv> UserError ''Exit(1)''"

definition resolve_agent_class :: "('c, 'a) build_env \<Rightarrow> string \<Rightarrow> 'c result" where
  "resolve_agent_class env type_str =
     (case py_rpartition (CHR ''.'') type_str of (module_path, class_name) \<Rightarrow>
        if module_path = [] then Inl Exit
        else case bl_import env module_path class_name of Inl e \<Rightarrow> Inl e | Inr None \<Rightarrow> Inl Exit | Inr (Some c) \<Rightarrow> Inr c)"

definition worker_dyn_params :: "payload \<Rightarrow> dyn_params result" where
  "worker_dyn_params acfg =
     bind_r (opt_of int_of (get_or JNull acfg ''max_children'')) (\<lambda>mc.
     bind_r (opt_of int_of (get_or JNull acfg ''max_total_spawns'')) (\<lambda>ms.
     bind_r (str_of (get_or (JStr ''transient'') acfg ''restart'')) (\<lambda>r.
     bind_r (int_of (get_or (JInt 3) acfg ''max_restarts'')) (\<lambda>mr.
     bind_r (real_of (get_or (JFloat 60) acfg ''restart_window'')) (\<lambda>w.
     bind_r (restart_mode_of r) (\<lambda>mode.
       Inr \<lparr>dp_max_children = mc, dp_max_total_spawns = ms, dp_max_children_per_spawner = None,
            dp_max_total_spawns_per_spawner = None, dp_restart_mode = mode, dp_max_restarts = mr, dp_restart_window = w\<rparr>))))))"

definition build_worker_agent :: "('c, 'a) build_env \<Rightarrow> payload \<Rightarrow> 'a built result" where
  "build_worker_agent env acfg =
     (if get_or JNull acfg ''type'' = JStr ''dynamic_supervisor'' then
        bind_r (bind_r (item acfg ''name'') str_of) (\<lambda>n. map_sum id (BDynamic n) (worker_dyn_params acfg))
      else
        bind_r (bind_r (bind_r (item acfg ''type'') str_of) (resolve_agent_class env)) (\<lambda>c.
        bind_r (bind_r (item acfg ''name'') str_of) (\<lambda>n. map_sum id (BAgent n) (bl_construct env c n None))))"

section \<open>Leaves\<close>

text \<open>The nodes of a topology that are not supervisors, in order, and what they build.\<close>

lemma children_of_filter: "children_of flt cfg = Inr cs \<Longrightarrow> children_of flt' cfg = Inr cs"
  by (auto simp: children_of_def split: json.splits sum.splits list.splits)

function (sequential) leaf_nodes :: "json \<Rightarrow> payload list" where
  "leaf_nodes (JDict node) =
     (case dget node ''supervisor'' of
        None \<Rightarrow> [node]
      | Some (JDict cfg) \<Rightarrow> (case children_of None cfg of Inl e \<Rightarrow> [] | Inr cs \<Rightarrow> concat (map leaf_nodes cs))
      | Some v \<Rightarrow> [])"
| "leaf_nodes v = []"
  by pat_completeness auto
termination
proof (relation "measure size", goal_cases)
  case (2 node sc cfg cs c)
  then have "size c \<le> size_list size cs" using size_list_estimation' [of c cs "size c" size] by simp
  then show ?case using 2 children_of_size [of None cfg cs] size_dget [of node "''supervisor''" sc] by auto
qed auto

fun built_leaves :: "'a built \<Rightarrow> 'a built list" where
  "built_leaves (BSupervisor n s cs) = concat (map built_leaves cs)"
| "built_leaves b = [b]"

definition leaves_of :: "('c, 'a) build_env \<Rightarrow> payload \<Rightarrow> 'a built list" where
  "leaves_of env node = (case build_leaf env node of Inl e \<Rightarrow> [] | Inr b \<Rightarrow> built_leaves b)"

definition tagged :: "('c, 'a) build_env \<Rightarrow> string option \<Rightarrow> payload \<Rightarrow> bool" where
  "tagged env t node \<longleftrightarrow> node_process_tag (bl_py_str env) node = Inr t"

definition selects :: "('c, 'a) build_env \<Rightarrow> string option \<Rightarrow> payload \<Rightarrow> bool" where
  "selects env flt node \<longleftrightarrow> flt = Some ''*'' \<or> tagged env flt node"

lemma bind_r_simps [simp]: "bind_r (Inl e) f = Inl e" "bind_r (Inr x) f = f x"
  by (simp_all add: bind_r_def)

lemma bind_r_eq_Inr: "bind_r r f = Inr y \<longleftrightarrow> (\<exists>x. r = Inr x \<and> f x = Inr y)"
  by (cases r) simp_all

lemma new_supervisor_Inr:
  "new_supervisor n bs st mr w bk bb bm = Inr (b :: 'a built) \<Longrightarrow> \<exists>s. b = BSupervisor n s bs \<and> (\<forall>cs :: 'a built list. new_supervisor n cs st mr w bk bb bm = Inr (BSupervisor n s cs))"
  unfolding new_supervisor_def bind_r_eq_Inr by fastforce

lemma sup_of_cfg_Inr:
  "sup_of_cfg nm bs cfg = Inr (b :: 'a built) \<Longrightarrow> \<exists>n s. b = BSupervisor n s bs \<and> (\<forall>cs :: 'a built list. sup_of_cfg nm cs cfg = Inr (BSupervisor n s cs))"
  unfolding sup_of_cfg_def bind_r_eq_Inr using new_supervisor_Inr by fastforce

lemma belongs_selects: "tagged env t node \<Longrightarrow> node_belongs_to (bl_py_str env) flt node = Inr (selects env flt node)"
  by (auto simp: node_belongs_to_def selects_def tagged_def)

lemma build_node_filter:
  "build_node env (Some ''*'') j = Inr b0 \<Longrightarrow> \<forall>n \<in> set (leaf_nodes j). \<exists>t. tagged env t n \<Longrightarrow>
     \<exists>b. build_node env flt j = Inr b
       \<and> concat (map built_leaves (case b of None \<Rightarrow> [] | Some x \<Rightarrow> [x])) = concat (map (leaves_of env) (filter (selects env flt) (leaf_nodes j)))"
  "build_nodes env (Some ''*'') js = Inr bs0 \<Longrightarrow> \<forall>j \<in> set js. \<forall>n \<in> set (leaf_nodes j). \<exists>t. tagged env t n \<Longrightarrow>
     \<exists>bs. build_nodes env flt js = Inr bs
       \<and> concat (map built_leaves bs) = concat (map (leaves_of env) (filter (selects env flt) (concat (map leaf_nodes js))))"
proof (induction env "Some ''*''" j and env "Some ''*''" js arbitrary: b0 and bs0 rule: build_node_build_nodes.induct)
  case (1 env node)
  show ?case
  proof (cases "dget node ''supervisor''")
    case None
    obtain t where t: "tagged env t node" using 1 None by auto
    obtain b where "build_leaf env node = Inr b" using 1 None belongs_selects [OF t, of "Some ''*''"] by (auto simp: selects_def)
    then show ?thesis using None belongs_selects [OF t, of flt] by (auto simp: leaves_of_def)
  next
    case (Some v)
    obtain cfg cs bs where v: "v = JDict cfg" and cs: "children_of (Some ''*'') cfg = Inr cs" and bs: "build_nodes env (Some ''*'') cs = Inr bs"
      and sup: "sup_of_cfg (item cfg ''name'') bs cfg = Inr (the b0)"
      using 1 Some by (cases v) (auto split: sum.splits)
    have lv: "leaf_nodes (JDict node) = concat (map leaf_nodes cs)" using Some v children_of_filter [OF cs, of None] by simp
    obtain bs' where "build_nodes env flt cs = Inr bs'"
      "concat (map built_leaves bs') = concat (map (leaves_of env) (filter (selects env flt) (concat (map leaf_nodes cs))))"
      using 1(1) [OF Some v cs bs] 1(3) lv by auto
    moreover obtain n s where ns: "sup_of_cfg (item cfg ''name'') bs' cfg = Inr (BSupervisor n s bs')" using sup_of_cfg_Inr [OF sup] by auto
    ultimately show ?thesis unfolding lv
      by (intro exI [of _ "Some (BSupervisor n s bs')"]) (simp add: Some v ns children_of_filter [OF cs, of flt])
  qed
next
  case (4 env c cs)
  obtain b where b: "build_node env (Some ''*'') c = Inr b" using 4 by (auto split: sum.splits)
  obtain bs where bs: "build_nodes env (Some ''*'') cs = Inr bs" using 4 b by (auto split: sum.splits)
  show ?case using 4(1) [OF b] 4(2) [OF b bs] 4(4) by (auto split: option.splits)
qed simp_all

definition top_block :: "payload \<Rightarrow> json" where
  "top_block config =
     (if truthy (get_or JNull config ''supervision'') then get_or JNull config ''supervision'' else get_or JNull config ''supervisor'')"

definition config_leaves :: "payload \<Rightarrow> payload list" where
  "config_leaves config =
     (case top_block config of
        JDict cfg \<Rightarrow> (case children_of None cfg of Inl e \<Rightarrow> [] | Inr cs \<Rightarrow> concat (map leaf_nodes cs))
      | _ \<Rightarrow> [])"

lemma build_root_Inr:
  assumes "build_root env flt config = Inr r0"
  obtains cfg cs bs where "top_block config = JDict cfg" "cfg \<noteq> []" "children_of flt cfg = Inr cs" "build_nodes env flt cs = Inr bs"
    "sup_of_cfg (Inr (get_or (JStr ''root'') cfg ''name'')) bs cfg = Inr r0"
proof -
  have t: "truthy (top_block config)" using assms by (auto simp: build_root_def top_block_def Let_def split: if_splits)
  then obtain cfg where cfg: "top_block config = JDict cfg" "cfg \<noteq> []"
    using assms by (cases "top_block config") (auto simp: build_root_def top_block_def Let_def as_dict_def split: if_splits)
  have "bind_r (children_of flt cfg) (\<lambda>cs. bind_r (build_nodes env flt cs) (\<lambda>bs. sup_of_cfg (Inr (get_or (JStr ''root'') cfg ''name'')) bs cfg)) = Inr r0"
    using assms t cfg(1) unfolding build_root_def top_block_def [symmetric] Let_def by (simp add: as_dict_def)
  then show ?thesis using that [OF cfg] by (auto simp: bind_r_eq_Inr)
qed

lemma build_root_filter:
  assumes "build_root env (Some ''*'') config = Inr r0" "\<forall>n \<in> set (config_leaves config). \<exists>t. tagged env t n"
  shows "\<exists>r. build_root env flt config = Inr r \<and> built_leaves r = concat (map (leaves_of env) (filter (selects env flt) (config_leaves config)))"
proof -
  obtain cfg cs bs where c: "top_block config = JDict cfg" "cfg \<noteq> []" "children_of (Some ''*'') cfg = Inr cs" "build_nodes env (Some ''*'') cs = Inr bs"
    "sup_of_cfg (Inr (get_or (JStr ''root'') cfg ''name'')) bs cfg = Inr r0"
    using assms(1) by (rule build_root_Inr)
  have lv: "config_leaves config = concat (map leaf_nodes cs)"
    using c(1) children_of_filter [OF c(3), of None] by (simp add: config_leaves_def)
  obtain bs' where bs': "build_nodes env flt cs = Inr bs'"
    "concat (map built_leaves bs') = concat (map (leaves_of env) (filter (selects env flt) (config_leaves config)))"
    using build_node_filter(2) [OF c(4), of flt] assms(2) unfolding lv by auto
  obtain n s where "sup_of_cfg (Inr (get_or (JStr ''root'') cfg ''name'')) bs' cfg = Inr (BSupervisor n s bs')"
    using sup_of_cfg_Inr [OF c(5)] by auto
  with bs' c show ?thesis unfolding build_root_def top_block_def [symmetric] Let_def
    by (simp add: as_dict_def children_of_filter [OF c(3), of flt])
qed

lemma mset_by_tag:
  assumes "distinct fs" "\<forall>n \<in> set ns. \<exists>!f. f \<in> set fs \<and> P f n"
  shows "mset (concat (map L ns)) = (\<Sum>f \<in> set fs. mset (concat (map L (filter (P f) ns))))"
  using assms(2)
proof (induction ns)
  case (Cons n ns)
  then obtain f0 where "f0 \<in> set fs" and u: "\<And>f. f \<in> set fs \<Longrightarrow> P f n \<longleftrightarrow> f = f0" by (metis list.set_intros(1))
  have "(\<Sum>f \<in> set fs. mset (concat (map L (filter (P f) (n # ns))))) =
    (\<Sum>f \<in> set fs. (if f = f0 then mset (L n) else {#}) + mset (concat (map L (filter (P f) ns))))"
    by (rule sum.cong) (auto simp: u)
  also have "\<dots> = mset (L n) + (\<Sum>f \<in> set fs. mset (concat (map L (filter (P f) ns))))"
    using \<open>f0 \<in> set fs\<close> by (simp add: sum.distrib)
  finally show ?case using Cons by simp
qed simp

section \<open>What a worker hosts\<close>

text \<open>A node the command line can host in a worker, and the block it passes on.\<close>

definition hostable :: "payload \<Rightarrow> bool" where
  "hostable node \<longleftrightarrow> dget node ''agent'' \<noteq> None \<or> get_or JNull node ''type'' = JStr ''dynamic_supervisor''"

definition worker_block :: "payload \<Rightarrow> payload" where
  "worker_block node = (case dget node ''agent'' of Some (JDict d) \<Rightarrow> d | _ \<Rightarrow> node)"

text \<open>Tags that are strings: the command line compares the value itself, the runtime its text.\<close>

definition string_tag :: "payload \<Rightarrow> bool" where
  "string_tag node \<longleftrightarrow>
     (case dget node ''agent'' of
        Some (JDict d) \<Rightarrow> get_or JNull d ''process'' = JNull \<or> (\<exists>s. get_or JNull d ''process'' = JStr s)
      | Some v \<Rightarrow> False
      | None \<Rightarrow> get_or JNull node ''process'' = JNull \<or> (\<exists>s. get_or JNull node ''process'' = JStr s))"

lemma string_tag_tagged: "string_tag node \<Longrightarrow> \<exists>t. tagged env t node"
  by (auto simp: string_tag_def tagged_def node_process_tag_def as_dict_def split: option.splits json.splits)

lemma process_is_tagged: "string_tag node \<Longrightarrow> process_is p (worker_block node) \<longleftrightarrow> tagged env (Some p) node"
proof (cases "dget node ''agent''")
  case None
  then show ?thesis if "string_tag node"
    using that by (auto simp: string_tag_def worker_block_def process_is_def tagged_def node_process_tag_def as_str_def)
next
  case (Some v)
  then show ?thesis if "string_tag node"
    using that
    by (cases v) (auto simp: string_tag_def worker_block_def process_is_def tagged_def node_process_tag_def as_dict_def as_str_def)
qed

lemma walk_process_leaf:
  assumes "dget node ''supervisor'' = None" "string_tag node"
  shows "walk_process p (JDict node) = Inr (map worker_block (filter (\<lambda>n. tagged env (Some p) n \<and> hostable n) [node]))"
  using assms process_is_tagged [OF assms(2), of p env]
  by (auto simp: hostable_def worker_block_def string_tag_def split: option.splits json.splits)

lemma walk_process_leaves:
  "build_node env (Some ''*'') j = Inr b \<Longrightarrow> \<forall>n \<in> set (leaf_nodes j). string_tag n \<Longrightarrow>
     walk_process p j = Inr (map worker_block (filter (\<lambda>n. tagged env (Some p) n \<and> hostable n) (leaf_nodes j)))"
  "build_nodes env (Some ''*'') js = Inr bs \<Longrightarrow> \<forall>j \<in> set js. \<forall>n \<in> set (leaf_nodes j). string_tag n \<Longrightarrow>
     walk_processes p js = Inr (map worker_block (filter (\<lambda>n. tagged env (Some p) n \<and> hostable n) (concat (map leaf_nodes js))))"
proof (induction env "Some ''*''" j and env "Some ''*''" js arbitrary: b and bs rule: build_node_build_nodes.induct)
  case (1 env node)
  show ?case
  proof (cases "dget node ''supervisor''")
    case None
    then have lv: "leaf_nodes (JDict node) = [node]" by simp
    show ?thesis unfolding lv by (rule walk_process_leaf [OF None]) (use 1(3) lv in simp)
  next
    case (Some v)
    obtain cfg cs bs where v: "v = JDict cfg" and cs: "children_of (Some ''*'') cfg = Inr cs" and bs: "build_nodes env (Some ''*'') cs = Inr bs"
      using 1 Some by (cases v) (auto split: sum.splits)
    have lv: "leaf_nodes (JDict node) = concat (map leaf_nodes cs)" using Some v children_of_filter [OF cs, of None] by simp
    have "walk_processes p cs = Inr (map worker_block (filter (\<lambda>n. tagged env (Some p) n \<and> hostable n) (concat (map leaf_nodes cs))))"
      using 1(1) [OF Some v cs bs] 1(3) lv by simp
    then show ?thesis unfolding lv by (simp add: Some v children_of_filter [OF cs, of "Some p"])
  qed
next
  case (4 env c cs)
  obtain b where b: "build_node env (Some ''*'') c = Inr b" using 4 by (auto split: sum.splits)
  obtain bs where bs: "build_nodes env (Some ''*'') cs = Inr bs" using 4 b by (auto split: sum.splits)
  show ?case using 4(1) [OF b] 4(2) [OF b bs] 4(4) by simp
qed simp_all

section \<open>Properties\<close>

definition sample_build :: "(unit, unit) build_env" where
  "sample_build =
     \<lparr>bl_classes = [], bl_import = (\<lambda>m c. Inr (Some ())), bl_construct = (\<lambda>c n t. Inr ()), bl_contrib = False,
      bl_py_str = (\<lambda>v. ''?''), bl_float = (\<lambda>v. Inl ValueError), bl_valid_cidr = (\<lambda>s. True)\<rparr>"

definition sample_topology :: payload where
  "sample_topology =
     [(''supervision'', JDict [(''children'', JList
        [JDict [(''agent'', JDict [(''type'', JStr ''app.A''), (''name'', JStr ''a'')])],
         JDict [(''supervisor'', JDict [(''name'', JStr ''pool''), (''children'', JList
           [JDict [(''agent'', JDict [(''type'', JStr ''app.B''), (''name'', JStr ''b''), (''process'', JStr ''w'')])],
            JDict [(''type'', JStr ''app.Srv''), (''name'', JStr ''srv''), (''process'', JStr ''w'')]])])]])])]"

lemmas build_defs = build_root_def build_leaf_def build_agent_def build_flat_def node_belongs_to_def node_process_tag_def
  sup_of_cfg_def new_supervisor_def resolve_class_def children_of_def as_dict_def item_def str_of_def int_of_def real_of_def
  upper_of_def as_str_def py_rpartition_def py_upper_def upper_char_def Let_def

lemma sample_builds:
  "config_leaves sample_topology =
     [[(''agent'', JDict [(''type'', JStr ''app.A''), (''name'', JStr ''a'')])],
      [(''agent'', JDict [(''type'', JStr ''app.B''), (''name'', JStr ''b''), (''process'', JStr ''w'')])],
      [(''type'', JStr ''app.Srv''), (''name'', JStr ''srv''), (''process'', JStr ''w'')]]"
  "\<exists>r. build_root sample_build (Some ''*'') sample_topology = Inr r \<and> built_leaves r = [BAgent ''a'' (), BAgent ''b'' (), BAgent ''srv'' ()]"
  by (simp_all add: sample_topology_def sample_build_def config_leaves_def top_block_def build_defs)

lemma sample_tags:
  "\<forall>n \<in> set (config_leaves sample_topology). string_tag n"
  "tagged sample_build None [(''agent'', JDict [(''type'', JStr ''app.A''), (''name'', JStr ''a'')])]"
  "tagged sample_build (Some ''w'') [(''agent'', JDict [(''type'', JStr ''app.B''), (''name'', JStr ''b''), (''process'', JStr ''w'')])]"
  "tagged sample_build (Some ''w'') [(''type'', JStr ''app.Srv''), (''name'', JStr ''srv''), (''process'', JStr ''w'')]"
  by (simp_all add: sample_builds(1) string_tag_def tagged_def sample_build_def build_defs)

lemma sample_leaves:
  "concat (map (leaves_of sample_build) (filter (tagged sample_build None) (config_leaves sample_topology))) = [BAgent ''a'' ()]"
  "concat (map (leaves_of sample_build) (filter (tagged sample_build (Some ''w'')) (config_leaves sample_topology))) = [BAgent ''b'' (), BAgent ''srv'' ()]"
  by (simp_all add: sample_builds(1) leaves_of_def tagged_def sample_build_def build_defs)

text \<open>C14. Process filters partition a topology. If the whole topology builds and \<open>fs\<close> are the different tags its
  leaves have (\<^const>\<open>None\<close> for no tag), then building it under each of these filters succeeds and gives exactly
  the leaves with that tag, in order, and the processes together have every leaf exactly once.\<close>

theorem process_filters_partition:
  assumes "build_root env (Some ''*'') config = Inr r0" "distinct fs" "Some ''*'' \<notin> set fs"
    and "\<forall>n \<in> set (config_leaves config). \<exists>f \<in> set fs. tagged env f n"
  shows "(\<forall>f \<in> set fs. \<exists>r. build_root env f config = Inr r
            \<and> built_leaves r = concat (map (leaves_of env) (filter (tagged env f) (config_leaves config))))
    \<and> mset (built_leaves r0) = (\<Sum>f \<in> set fs. mset (built_leaves (projr (build_root env f config))))"
proof -
  have t: "\<forall>n \<in> set (config_leaves config). \<exists>t. tagged env t n" using assms(4) by blast
  have each: "\<exists>r. build_root env f config = Inr r \<and> built_leaves r = concat (map (leaves_of env) (filter (tagged env f) (config_leaves config)))"
    if "f \<in> set fs" for f
  proof -
    have "selects env f = tagged env f" using that assms(3) by (auto simp: selects_def fun_eq_iff)
    then show ?thesis using build_root_filter [OF assms(1) t, of f] by simp
  qed
  have "built_leaves r0 = concat (map (leaves_of env) (config_leaves config))"
    using build_root_filter [OF assms(1) t, of "Some ''*''"] assms(1) by (auto simp: selects_def)
  moreover have "\<forall>n \<in> set (config_leaves config). \<exists>!f. f \<in> set fs \<and> tagged env f n" using assms(4) by (auto simp: tagged_def)
  ultimately have "mset (built_leaves r0) = (\<Sum>f \<in> set fs. mset (concat (map (leaves_of env) (filter (tagged env f) (config_leaves config)))))"
    by (simp add: mset_by_tag [OF assms(2)])
  also have "\<dots> = (\<Sum>f \<in> set fs. mset (built_leaves (projr (build_root env f config))))"
    by (rule sum.cong) (use each in force)+
  finally show ?thesis using each by blast
qed

theorem process_filters_partition_witness:
  "built_leaves (projr (build_root sample_build None sample_topology)) = [BAgent ''a'' ()]
   \<and> built_leaves (projr (build_root sample_build (Some ''w'') sample_topology)) = [BAgent ''b'' (), BAgent ''srv'' ()]"
proof -
  obtain r where r: "build_root sample_build (Some ''*'') sample_topology = Inr r" using sample_builds(2) by blast
  have "distinct [None, Some ''w'']" "Some ''*'' \<notin> set [None, Some ''w'']" by simp_all
  moreover have "\<forall>n \<in> set (config_leaves sample_topology). \<exists>f \<in> set [None, Some ''w'']. tagged sample_build f n"
    using sample_tags by (auto simp: sample_builds(1))
  ultimately show ?thesis
    using process_filters_partition [OF r, of "[None, Some ''w'']"] sample_leaves by auto
qed

text \<open>C37. Where the nodes of a topology run under \<^verbatim>\<open>civitas run\<close>. The supervisor process builds exactly the
  leaves without a tag. A worker process hosts exactly the leaves with its tag that are \<^verbatim>\<open>agent\<close> blocks or
  dynamic supervisors: a leaf of another form that has a tag runs nowhere.\<close>

theorem topology_deployment:
  assumes "build_root env (Some ''*'') config = Inr r0" "\<forall>n \<in> set (config_leaves config). string_tag n"
    and "truthy (get_or JNull config ''supervision'')"
  shows "(\<exists>r. build_root env None config = Inr r
            \<and> built_leaves r = concat (map (leaves_of env) (filter (tagged env None) (config_leaves config))))
    \<and> find_process_agents config p =
        Inr (map worker_block (filter (\<lambda>n. tagged env (Some p) n \<and> hostable n) (config_leaves config)))"
proof
  have "\<forall>n \<in> set (config_leaves config). \<exists>t. tagged env t n" using assms(2) string_tag_tagged by blast
  moreover have "selects env None = tagged env None" by (simp add: selects_def fun_eq_iff)
  ultimately show "\<exists>r. build_root env None config = Inr r
      \<and> built_leaves r = concat (map (leaves_of env) (filter (tagged env None) (config_leaves config)))"
    using build_root_filter [OF assms(1), of None] by simp
  obtain cfg cs bs where c: "top_block config = JDict cfg" "children_of (Some ''*'') cfg = Inr cs" "build_nodes env (Some ''*'') cs = Inr bs"
    using assms(1) by (rule build_root_Inr)
  have lv: "config_leaves config = concat (map leaf_nodes cs)"
    using c(1) children_of_filter [OF c(2), of None] by (simp add: config_leaves_def)
  have "dget config ''supervision'' = Some (JDict cfg)"
    using c(1) assms(3) by (auto simp: top_block_def get_or_def split: option.splits)
  then show "find_process_agents config p =
      Inr (map worker_block (filter (\<lambda>n. tagged env (Some p) n \<and> hostable n) (config_leaves config)))"
    using walk_process_leaves(2) [OF c(3)] assms(2) children_of_filter [OF c(2), of "Some p"]
    by (simp add: find_process_agents_def lv as_dict_def)
qed

lemma sup_present: "truthy (get_or JNull sample_topology ''supervision'')"
  by (simp add: sample_topology_def)

lemma sample_not_tagged: "\<not> tagged sample_build (Some ''w'') [(''agent'', JDict [(''type'', JStr ''app.A''), (''name'', JStr ''a'')])]"
  by (simp add: tagged_def sample_build_def build_defs)

theorem topology_deployment_witness:
  "find_process_agents sample_topology ''w'' = Inr [[(''type'', JStr ''app.B''), (''name'', JStr ''b''), (''process'', JStr ''w'')]]"
proof -
  obtain r where r: "build_root sample_build (Some ''*'') sample_topology = Inr r" using sample_builds(2) by blast
  show ?thesis
    using topology_deployment [OF r sample_tags(1), of "''w''"]
    by (simp add: sample_builds(1) sample_tags sup_present) (simp add: sample_not_tagged hostable_def worker_block_def)
qed

text \<open>A dynamic supervisor hosted by a worker has no limits per spawner: the command line passes on every
  setting of the node but these two.\<close>

theorem worker_drops_spawner_limits:
  fixes env :: "('c, 'a) build_env"
  assumes "build_leaf env node = Inr (BDynamic n d)" "get_or JNull node ''type'' = JStr ''dynamic_supervisor''"
  shows "build_worker_agent env node = Inr (BDynamic n (d\<lparr>dp_max_children_per_spawner := None, dp_max_total_spawns_per_spawner := None\<rparr>))"
proof -
  have named: "dget node ''name'' \<noteq> None"
    using assms by (auto simp: build_leaf_def Let_def build_agent_def build_flat_def bind_r_eq_Inr item_def split: option.splits if_splits)
  have "bind_r (bind_r (item node ''name'') str_of) (\<lambda>n. map_sum id (BDynamic n) (dyn_params_of node)) = Inr (BDynamic n d :: 'a built)"
    using assms named by (auto simp: build_leaf_def Let_def build_dynamic_def)
  then show ?thesis
    using assms(2) by (auto simp: build_dynamic_def dyn_params_of_def build_worker_agent_def worker_dyn_params_def bind_r_eq_Inr)
qed

theorem worker_drops_spawner_limits_witness:
  "build_worker_agent sample_build [(''type'', JStr ''dynamic_supervisor''), (''name'', JStr ''pool''), (''max_children_per_spawner'', JInt 2)]
   = Inr (BDynamic ''pool'' \<lparr>dp_max_children = None, dp_max_total_spawns = None, dp_max_children_per_spawner = None,
       dp_max_total_spawns_per_spawner = None, dp_restart_mode = TRANSIENT, dp_max_restarts = 3, dp_restart_window = 60\<rparr>)"
proof -
  let ?n = "[(''type'', JStr ''dynamic_supervisor''), (''name'', JStr ''pool''), (''max_children_per_spawner'', JInt 2)]"
  have "build_leaf sample_build ?n = Inr (BDynamic ''pool'' \<lparr>dp_max_children = None, dp_max_total_spawns = None, dp_max_children_per_spawner = Some 2,
       dp_max_total_spawns_per_spawner = None, dp_restart_mode = TRANSIENT, dp_max_restarts = 3, dp_restart_window = 60\<rparr>)"
    by (simp add: build_leaf_def build_dynamic_def dyn_params_of_def opt_of_def restart_mode_of_def item_def str_of_def int_of_def real_of_def)
  from worker_drops_spawner_limits [OF this] show ?thesis by simp
qed

lemma topology_route_middleware:
  assumes "r \<in> set (build_topology_routes agent pfx mw)"
  shows "rt_agent r = agent
    \<and> (rt_middleware r = mw \<or> rt_middleware r = [] \<and> rt_method r = ''GET'' \<and> rt_payload_extra r = [(''__op__'', JStr ''health'')])"
  using assms
  by (auto simp: build_topology_routes_def Let_def topology_read_route_def topology_write_route_def new_route_def
      TOPOLOGY_ROUTE_SPECS_def TOPOLOGY_WRITE_ROUTE_SPECS_def py_upper_def upper_char_def)

lemma strs_of_map [simp]: "strs_of (JList (map JStr ss)) = Inr ss"
proof -
  have "str_list (map JStr ss) = Some ss" by (induction ss) simp_all
  then show ?thesis by (simp add: strs_of_def)
qed

text \<open>The control plane of a topology file is guarded. The gateway that a \<^verbatim>\<open>topology_server\<close> node gets
  with an \<^verbatim>\<open>auth\<close> block has the middleware of this block on every route of its table but the health
  check, serves no documentation, and all its routes address the topology agent beside it.\<close>

theorem topology_server_guarded:
  assumes "build_leaf env node = Inr b" "dget node ''type'' = Some (JStr ''topology_server'')"
    and "dget node ''config'' = Some (JDict cfg)" "\<not> truthy (get_or JNull cfg ''attach_to'')"
    and "dget cfg ''auth'' = Some (JDict auth)" "dget auth ''middleware'' = Some (JList (map JStr ms))"
  shows "\<exists>n s a g c table. b = BSupervisor n s [BTopology a, BGateway g c table]
    \<and> gc_topology_agent c = Some a \<and> gc_docs_enabled c = Some False \<and> gateway_routes c = Inr table
    \<and> (\<forall>r \<in> set table. rt_agent r = a
         \<and> (rt_middleware r = ms \<or> rt_middleware r = [] \<and> rt_method r = ''GET'' \<and> rt_payload_extra r = [(''__op__'', JStr ''health'')]))"
proof -
  have "build_topology_server env node = Inr b"
    using assms(1,2) by (simp add: build_leaf_def get_or_def)
  then obtain a and ax :: gateway_auth_config and host port cert key pfx gw c0 where c0: "c0 = default_config
       \<lparr>gc_host := host, gc_port := port, gc_tls_cert := cert, gc_tls_key := key,
        gc_tls_ca_cert := gx_tls_ca_cert ax, gc_client_cert_mode := gx_client_cert_mode ax,
        gc_mtls_source := gx_mtls_source ax, gc_trusted_proxy_cidrs := gx_trusted_proxy_cidrs ax,
        gc_topology_agent := Some a, gc_topology_prefix := pfx, gc_topology_middleware := ms,
        gc_docs_enabled := Some False\<rparr>"
    and gw: "new_gateway env (a @ ''_gateway'') c0 = Inr gw"
    and b: "new_supervisor (a @ ''_supervisor'') [BTopology a, gw] ''ONE_FOR_ONE'' 3 60 ''CONSTANT'' 1 60 = Inr b"
    using assms(3-6) unfolding build_topology_server_def bind_r_eq_Inr by (auto simp: get_block_def get_or_def bind_r_eq_Inr)
  obtain c table where c: "post_init (bl_valid_cidr env) c0 = Inr c" "gateway_routes c = Inr table" "gw = BGateway (a @ ''_gateway'') c table"
    using gw by (auto simp: new_gateway_def bind_r_eq_Inr)
  have "c = c0" using post_init_Inr(5) [OF c(1)] by (simp add: c0)
  moreover have "rt_agent r = a \<and> (rt_middleware r = ms \<or> rt_middleware r = [] \<and> rt_method r = ''GET'' \<and> rt_payload_extra r = [(''__op__'', JStr ''health'')])"
    if "r \<in> set table" for r
    using that c(2) topology_route_middleware [of r a pfx ms] unfolding \<open>c = c0\<close>
    by (auto simp: gateway_routes_def c0 default_config_def split: if_splits)
  ultimately show ?thesis using c new_supervisor_Inr [OF b] by (auto simp: c0)
qed

theorem topology_server_guarded_witness:
  "\<exists>n s a g c table. build_leaf sample_build
       [(''type'', JStr ''topology_server''), (''name'', JStr ''topo''), (''config'', JDict [(''auth'', JDict [(''middleware'', JList [JStr ''app.auth''])])])]
     = Inr (BSupervisor n s [BTopology a, BGateway g c table]) \<and> (\<forall>r \<in> set table. rt_method r = ''POST'' \<longrightarrow> rt_middleware r = [''app.auth''])"
proof -
  let ?n = "[(''type'', JStr ''topology_server''), (''name'', JStr ''topo''), (''config'', JDict [(''auth'', JDict [(''middleware'', JList [JStr ''app.auth''])])])]"
  have strs: "strs_of (JList [JStr ''app.auth'']) = Inr [''app.auth'']" "strs_of (JList []) = Inr []"
    using strs_of_map [of "[''app.auth'']"] strs_of_map [of "[]"] by simp_all
  have "\<exists>b. build_leaf sample_build ?n = Inr b"
    by (simp add: build_leaf_def build_topology_server_def get_block_def gateway_auth_from_dict_def str_of_def int_of_def opt_of_def strs
        new_gateway_def post_init_def gateway_routes_def default_config_def new_supervisor_def)
  then obtain b where b: "build_leaf sample_build ?n = Inr b" by blast
  obtain n s a g c table where "b = BSupervisor n s [BTopology a, BGateway g c table]"
    "\<forall>r \<in> set table. rt_agent r = a \<and> (rt_middleware r = [''app.auth''] \<or> rt_middleware r = [] \<and> rt_method r = ''GET'' \<and> rt_payload_extra r = [(''__op__'', JStr ''health'')])"
    using topology_server_guarded [OF b, of "[(''auth'', JDict [(''middleware'', JList [JStr ''app.auth''])])]" "[(''middleware'', JList [JStr ''app.auth''])]" "[''app.auth'']"]
    by auto
  with b show ?thesis by fastforce
qed

end
