(* ===== verification/Runtime.thy ===== *)
theory Runtime
  imports Topology_Config
begin

text \<open>
  The class \<^verbatim>\<open>Runtime\<close> of \<^verbatim>\<open>src/civitas/runtime.py\<close> after its configuration: what
  \<^verbatim>\<open>start\<close> makes of the tree (identities and trusted keys, the dynamic supervisor each agent spawns into,
  the entries of the registry), the display of the tree, and the public operations, which are messages with the
  sender \<^verbatim>\<open>_runtime\<close> on the bus of \<^verbatim>\<open>Message_Bus\<close>. The attributes of application classes and the
  key files are parameters. Agents of application classes are no introspection units.
\<close>

section \<open>The tree\<close>

record 'a agent_attrs =
  aa_capabilities :: "'a \<Rightarrow> string list"
  aa_metadata :: "'a \<Rightarrow> payload"
  aa_dynamic :: "'a \<Rightarrow> bool"                  \<comment> \<open>a subclass of \<^verbatim>\<open>DynamicSupervisor\<close>\<close>
  aa_gen_server :: "'a \<Rightarrow> bool"
  aa_status :: "string \<Rightarrow> string"

fun built_name :: "'a built \<Rightarrow> string" where
  "built_name (BSupervisor n s cs) = n"
| "built_name (BTopology n) = n"
| "built_name (BGateway n c t) = n"
| "built_name (BDynamic n d) = n"
| "built_name (BEval n m w xs) = n"
| "built_name (BAgent n a) = n"

fun is_supervisor :: "'a built \<Rightarrow> bool" where
  "is_supervisor (BSupervisor n s cs) = True"
| "is_supervisor b = False"

fun is_dynamic :: "'a agent_attrs \<Rightarrow> 'a built \<Rightarrow> bool" where
  "is_dynamic att (BDynamic n d) = True"
| "is_dynamic att (BAgent n a) = aa_dynamic att a"
| "is_dynamic att b = False"

fun tree_agents :: "'a built \<Rightarrow> 'a built list" where
  "tree_agents (BSupervisor n s cs) = concat (map (\<lambda>c. if is_supervisor c then tree_agents c else [c]) cs)"
| "tree_agents b = []"

fun tree_supervisors :: "'a built \<Rightarrow> string list" where
  "tree_supervisors (BSupervisor n s cs) = n # concat (map tree_supervisors cs)"
| "tree_supervisors b = []"

section \<open>Display\<close>

definition strategy_value :: "restart_strategy \<Rightarrow> string" where
  "strategy_value st = (case st of ONE_FOR_ONE \<Rightarrow> ''ONE_FOR_ONE'' | ONE_FOR_ALL \<Rightarrow> ''ONE_FOR_ALL'' | REST_FOR_ONE \<Rightarrow> ''REST_FOR_ONE'')"

fun tree_label :: "'a agent_attrs \<Rightarrow> 'a built \<Rightarrow> string" where
  "tree_label att (BSupervisor n s cs) = ''[sup] '' @ n @ '' ('' @ strategy_value (su_strategy s) @ '')''"
| "tree_label att b =
     (let status = aa_status att (built_name b);
          tag = (if is_dynamic att b then ''[dyn]''
                 else case b of
                   BTopology n \<Rightarrow> ''[topo]''
                 | BEval n m w xs \<Rightarrow> ''[eval]''
                 | BGateway n c t \<Rightarrow> ''[http]''
                 | BAgent n a \<Rightarrow> if aa_gen_server att a then ''[srv]'' else ''[agent]''
                 | _ \<Rightarrow> ''[agent]'')
      in tag @ '' '' @ built_name b @ '' ('' @ status @ '')'')"

text \<open>A line is its indentation, one flag per level saying whether the ancestor was the last child, the flag of
  the node itself, and the label; the characters for them do not matter.\<close>

fun print_walk :: "'a agent_attrs \<Rightarrow> bool list \<Rightarrow> bool \<Rightarrow> 'a built \<Rightarrow> (bool list \<times> bool \<times> string) list"
and print_children :: "'a agent_attrs \<Rightarrow> bool list \<Rightarrow> 'a built list \<Rightarrow> (bool list \<times> bool \<times> string) list" where
  "print_walk att pre is_last (BSupervisor n s cs) =
     (pre, is_last, tree_label att (BSupervisor n s cs)) # print_children att (pre @ [is_last]) cs"
| "print_walk att pre is_last b = [(pre, is_last, tree_label att b)]"
| "print_children att pre [] = []"
| "print_children att pre (c # cs) = print_walk att pre (cs = []) c @ print_children att pre cs"

definition print_tree :: "'a agent_attrs \<Rightarrow> 'a built \<Rightarrow> string \<times> (bool list \<times> bool \<times> string) list" where
  "print_tree att root_node =
     (tree_label att root_node, case root_node of BSupervisor n s cs \<Rightarrow> print_children att [] cs | _ \<Rightarrow> [])"

section \<open>Identities and keys\<close>

text \<open>The introspection unit, a topology agent and a gateway that hosts one, gets no identity. \<open>load\<close> is
  \<^verbatim>\<open>load_or_generate\<close> or \<^verbatim>\<open>load\<close>, by the mode of the configuration.\<close>

fun needs_identity :: "'a built \<Rightarrow> bool" where
  "needs_identity (BTopology n) = False"
| "needs_identity (BGateway n c t) = (gc_topology_agent c = None)"
| "needs_identity b = True"

fun load_identities :: "(string \<Rightarrow> 'k identity result) \<Rightarrow> 'a built list \<Rightarrow> (string, 'k identity) dict \<Rightarrow> (string, 'k identity) dict result" where
  "load_identities load [] acc = Inr acc"
| "load_identities load (b # bs) acc =
     (if needs_identity b then bind_r (load (built_name b)) (\<lambda>i. load_identities load bs (dput (built_name b) i acc))
      else load_identities load bs acc)"

fun add_public_keys :: "('d, 'k, 'v) crypto \<Rightarrow> (string, json) dict \<Rightarrow> 'v key_registry \<Rightarrow> 'v key_registry result" where
  "add_public_keys cr [] r = Inr r"
| "add_public_keys cr ((n, k) # ks) r =
     (if kr_get r n \<noteq> None then add_public_keys cr ks r
      else bind_r (bind_r (str_of k) (\<lambda>b64. kr_register_b64 cr n b64 r)) (add_public_keys cr ks))"

definition build_signer ::
  "('d, 'k, 'v) crypto \<Rightarrow> (string \<Rightarrow> 'k identity result) \<Rightarrow> security_config \<Rightarrow> (string, json) dict \<Rightarrow> 'a built list \<Rightarrow> ('k, 'v) signer result" where
  "build_signer cr load sec pub agents =
     bind_r (load_identities load agents []) (\<lambda>ids.
     bind_r (add_public_keys cr pub (fold (\<lambda>(n, i) r. kr_register n (verify_key cr i) r) ids [])) (\<lambda>reg.
       Inr (new_signer ids reg (se_signing sec))))"

definition start_signing ::
  "('d, 'k, 'v) crypto \<Rightarrow> (string \<Rightarrow> 'k identity result) \<Rightarrow> security_config option \<Rightarrow> json \<Rightarrow> (string, json) dict \<Rightarrow> 'a built list
     \<Rightarrow> ('k, 'v) signer option result" where
  "start_signing cr load sec transport_type pub agents =
     (case sec of
        None \<Rightarrow> Inr None
      | Some sc \<Rightarrow>
          if truthy (sc_enabled (se_signing sc)) \<and> transport_type \<noteq> JStr ''in_process''
          then map_sum id Some (build_signer cr load sc pub agents)
          else Inr None)"

section \<open>Where an agent spawns\<close>

definition dyn_child :: "'a agent_attrs \<Rightarrow> 'a built list \<Rightarrow> string option" where
  "dyn_child att cs = map_option built_name (find (is_dynamic att) cs)"

fun wire_dyn_sup :: "'a agent_attrs \<Rightarrow> string option \<Rightarrow> 'a built \<Rightarrow> (string \<times> string option) list" where
  "wire_dyn_sup att nearest (BSupervisor n s cs) =
     (let new_nearest = (case dyn_child att cs of Some d \<Rightarrow> Some d | None \<Rightarrow> nearest)
      in concat (map (wire_dyn_sup att new_nearest) cs))"
| "wire_dyn_sup att nearest b = [(built_name b, if is_dynamic att b then Some (built_name b) else nearest)]"

section \<open>Registration\<close>

abbreviation SUPERVISOR_CAPABILITY :: string where
  "SUPERVISOR_CAPABILITY \<equiv> ''_agency.supervisor''"

fun class_capabilities :: "'a agent_attrs \<Rightarrow> 'a built \<Rightarrow> string list \<times> payload" where
  "class_capabilities att (BAgent n a) = (aa_capabilities att a, aa_metadata att a)"
| "class_capabilities att b = ([], [])"

definition start_capabilities :: "'a agent_attrs \<Rightarrow> (string, string list \<times> payload) dict \<Rightarrow> 'a built \<Rightarrow> string list \<times> payload" where
  "start_capabilities att yaml b =
     (case (case dget yaml (built_name b) of Some cm \<Rightarrow> cm | None \<Rightarrow> class_capabilities att b) of
        (caps, meta) \<Rightarrow>
          (if is_dynamic att b \<and> DYNAMIC_SUPERVISOR_CAPABILITY \<notin> set caps then caps @ [DYNAMIC_SUPERVISOR_CAPABILITY] else caps, meta))"

fun register_names :: "(string \<times> string list \<times> payload) list \<Rightarrow> registry \<Rightarrow> registry result" where
  "register_names [] r = Inr r"
| "register_names ((n, caps, meta) # es) r = bind_r (register n None True caps meta r) (register_names es)"

text \<open>The registrations of \<^verbatim>\<open>start\<close> in their order: agents, the sink of the runtime, supervisors.\<close>

definition start_entries :: "'a agent_attrs \<Rightarrow> (string, string list \<times> payload) dict \<Rightarrow> 'a built \<Rightarrow> (string \<times> string list \<times> payload) list" where
  "start_entries att yaml root_node =
     map (\<lambda>b. (built_name b, start_capabilities att yaml b)) (tree_agents root_node)
     @ [(''_runtime'', [], [])]
     @ map (\<lambda>n. (n, [SUPERVISOR_CAPABILITY], [])) (tree_supervisors root_node)"

definition start_registry :: "'a agent_attrs \<Rightarrow> (string, string list \<times> payload) dict \<Rightarrow> 'a built \<Rightarrow> registry \<Rightarrow> registry result" where
  "start_registry att yaml root_node r = register_names (start_entries att yaml root_node) r"

section \<open>Operations\<close>

text \<open>Identifiers and time of a message that is about to be sent; \<open>started\<close> is whether \<^verbatim>\<open>start\<close> has
  run.\<close>

record message_ids =
  mi_id :: string
  mi_now :: real
  mi_trace :: string
  mi_span :: string
  mi_correlation :: string

definition runtime_message :: "message_ids \<Rightarrow> string \<Rightarrow> string \<Rightarrow> payload \<Rightarrow> message" where
  "runtime_message ids ty recipient p =
     (default_message (mi_id ids) (mi_now ids))
       \<lparr>m_type := ty, m_sender := ''_runtime'', m_recipient := recipient, m_payload := p,
        m_trace_id := mi_trace ids, m_span_id := mi_span ids\<rparr>"

definition rt_send ::
  "bool \<Rightarrow> 'd bus_env \<Rightarrow> message_ids \<Rightarrow> string \<Rightarrow> payload \<Rightarrow> string \<Rightarrow> 'd bus \<Rightarrow> (unit result \<times> 'd bus) option" where
  "rt_send started env ids agent_name p ty b =
     (if \<not> started then Some (Inl RuntimeError, b) else bus_route env (runtime_message ids ty agent_name p) b)"

definition rt_cast :: "bool \<Rightarrow> 'd bus_env \<Rightarrow> message_ids \<Rightarrow> string \<Rightarrow> payload \<Rightarrow> 'd bus \<Rightarrow> (unit result \<times> 'd bus) option" where
  "rt_cast started env ids agent_name p b = rt_send started env ids agent_name (dput ''__cast__'' (JBool True) p) ''message'' b"

text \<open>\<^verbatim>\<open>ask\<close> up to the wait; the answer is that of \<^const>\<open>request_finish\<close>.\<close>

definition rt_ask ::
  "bool \<Rightarrow> 'd bus_env \<Rightarrow> message_ids \<Rightarrow> string \<Rightarrow> bool \<Rightarrow> string \<Rightarrow> payload \<Rightarrow> string \<Rightarrow> 'd bus \<Rightarrow> (unit result \<times> 'd bus) option" where
  "rt_ask started env ids raddr fail_if_suspended agent_name p ty b =
     (if \<not> started then Some (Inl RuntimeError, b)
      else request_send env raddr fail_if_suspended
             ((runtime_message ids ty agent_name p)\<lparr>m_correlation_id := Some (mi_correlation ids)\<rparr>) b)"

definition rt_call_answer :: "message \<Rightarrow> payload" where
  "rt_call_answer rep = m_payload rep"

definition spawn_payload :: "string \<Rightarrow> string \<Rightarrow> payload \<Rightarrow> bool \<Rightarrow> string \<Rightarrow> payload" where
  "spawn_payload class_path name config wait spawn_id =
     [(''class_path'', JStr class_path), (''name'', JStr name), (''config'', JDict config),
      (''spawner'', JStr ''_runtime''), (''wait'', JBool wait), (''spawn_id'', JStr spawn_id)]"

definition rt_spawn ::
  "bool \<Rightarrow> 'd bus_env \<Rightarrow> message_ids \<Rightarrow> string \<Rightarrow> string \<Rightarrow> string \<Rightarrow> string \<Rightarrow> payload \<Rightarrow> bool \<Rightarrow> string \<Rightarrow> 'd bus \<Rightarrow> (unit result \<times> 'd bus) option" where
  "rt_spawn started env ids raddr supervisor class_path name config wait spawn_id b =
     rt_ask started env ids raddr False supervisor (spawn_payload class_path name config wait spawn_id) ''civitas.dynamic.spawn'' b"

definition spawn_answer :: "(json \<Rightarrow> string) \<Rightarrow> string \<Rightarrow> message \<Rightarrow> string result" where
  "spawn_answer py_str name rep =
     (let p = m_payload rep in
      if get_or JNull p ''status'' = JStr ''ok'' then Inr name
      else Inl (SpawnError (as_str py_str
        (if truthy (get_or JNull p ''reason'') then get_or JNull p ''reason''
         else if truthy (get_or JNull p ''error'') then get_or JNull p ''error'' else JStr ''spawn failed''))))"

text \<open>\<^verbatim>\<open>despawn\<close> and \<^verbatim>\<open>stop_agent\<close> differ in the message and in the default text.\<close>

definition dyn_answer :: "(json \<Rightarrow> string) \<Rightarrow> string \<Rightarrow> message \<Rightarrow> unit result" where
  "dyn_answer py_str default_text rep =
     (let p = m_payload rep in
      if get_or JNull p ''status'' = JStr ''ok'' then Inr ()
      else Inl (SpawnError (as_str py_str (get_or (JStr default_text) p ''reason''))))"

definition rt_despawn :: "bool \<Rightarrow> 'd bus_env \<Rightarrow> message_ids \<Rightarrow> string \<Rightarrow> string \<Rightarrow> string \<Rightarrow> 'd bus \<Rightarrow> (unit result \<times> 'd bus) option" where
  "rt_despawn started env ids raddr supervisor name b =
     rt_ask started env ids raddr False supervisor [(''name'', JStr name)] ''civitas.dynamic.despawn'' b"

definition rt_stop_agent :: "bool \<Rightarrow> 'd bus_env \<Rightarrow> message_ids \<Rightarrow> string \<Rightarrow> string \<Rightarrow> string \<Rightarrow> string \<Rightarrow> real \<Rightarrow> 'd bus \<Rightarrow> (unit result \<times> 'd bus) option" where
  "rt_stop_agent started env ids raddr supervisor name drain_mode timeout b =
     rt_ask started env ids raddr False supervisor [(''name'', JStr name), (''drain'', JStr drain_mode), (''timeout'', JFloat timeout)]
       ''civitas.dynamic.stop'' b"

definition rt_control :: "bool \<Rightarrow> 'd bus_env \<Rightarrow> message_ids \<Rightarrow> string \<Rightarrow> string \<Rightarrow> payload \<Rightarrow> 'd bus \<Rightarrow> (unit result \<times> 'd bus) option" where
  "rt_control started env ids ty name p b =
     (if \<not> started then Some (Inl RuntimeError, b)
      else bus_route env ((runtime_message ids ty name p)\<lparr>m_priority := 1\<rparr>) b)"

definition rt_suspend :: "bool \<Rightarrow> 'd bus_env \<Rightarrow> message_ids \<Rightarrow> string \<Rightarrow> string \<Rightarrow> string \<Rightarrow> 'd bus \<Rightarrow> (unit result \<times> 'd bus) option" where
  "rt_suspend started env ids name reason category b =
     rt_control started env ids ''_agency.suspend'' name [(''reason'', JStr reason), (''category'', JStr category)] b"

definition rt_resume :: "bool \<Rightarrow> 'd bus_env \<Rightarrow> message_ids \<Rightarrow> string \<Rightarrow> string \<Rightarrow> 'd bus \<Rightarrow> (unit result \<times> 'd bus) option" where
  "rt_resume started env ids name approver b =
     (if approver = '''' then Some (Inl ValueError, b)
      else rt_control started env ids ''_agency.resume'' name [(''approver'', JStr approver)] b)"

definition rt_restart_agent :: "bool \<Rightarrow> 'd bus_env \<Rightarrow> message_ids \<Rightarrow> string \<Rightarrow> string \<Rightarrow> string \<Rightarrow> 'd bus \<Rightarrow> (unit result \<times> 'd bus) option" where
  "rt_restart_agent started env ids name reason initiated_by b =
     rt_control started env ids ''_agency.force_restart'' name [(''reason'', JStr reason), (''initiated_by'', JStr initiated_by)] b"

section \<open>Registration is exact\<close>

definition fresh_names :: "(string \<times> string list \<times> payload) list \<Rightarrow> registry \<Rightarrow> bool" where
  "fresh_names es r \<longleftrightarrow> distinct (map fst es) \<and> list_all (\<lambda>e. lookup r (fst e) = None) es"

lemma register_fresh_iff: "lookup r n = None \<longleftrightarrow> (\<exists>r'. register n a l c m r = Inr r')"
  using register_error_iff [of n a l c m r] by (cases "register n a l c m r") auto

lemma fresh_names_Cons:
  "register n None True caps meta r = Inr r1 \<Longrightarrow> fresh_names ((n, caps, meta) # es) r \<longleftrightarrow> fresh_names es r1"
  using register_fresh_iff [of r n None True caps meta] register_lookup [of n None True caps meta r r1]
  by (auto simp: fresh_names_def list_all_iff)

lemma register_names_fails: "\<not> fresh_names es r \<Longrightarrow> register_names es r = Inl ValueError"
proof (induction es arbitrary: r)
  case (Cons e es)
  obtain n caps meta where e: "e = (n, caps, meta)" by (cases e)
  show ?case
  proof (cases "register n None True caps meta r")
    case (Inl x)
    then show ?thesis using register_error_iff [of n None True caps meta r x] by (simp add: e)
  next
    case (Inr r1)
    then show ?thesis using Cons fresh_names_Cons [OF Inr, of es] by (simp add: e)
  qed
qed (simp add: fresh_names_def)

lemma register_names_succeeds:
  "fresh_names es r \<Longrightarrow> \<exists>r'. register_names es r = Inr r'
     \<and> (\<forall>n. lookup r' n = (case dget es n of None \<Rightarrow> lookup r n | Some (caps, meta) \<Rightarrow> Some (local_entry n None True caps meta)))"
proof (induction es arbitrary: r)
  case (Cons e es)
  obtain n caps meta where e: "e = (n, caps, meta)" by (cases e)
  obtain r1 where r1: "register n None True caps meta r = Inr r1"
    using Cons.prems register_fresh_iff [of r n None True caps meta] by (auto simp: e fresh_names_def)
  obtain r' where r': "register_names es r1 = Inr r'"
    "\<And>m. lookup r' m = (case dget es m of None \<Rightarrow> lookup r1 m | Some (caps, meta) \<Rightarrow> Some (local_entry m None True caps meta))"
    using Cons fresh_names_Cons [OF r1, of es] by (auto simp: e)
  have "dget es n = None" using Cons.prems by (auto simp: e fresh_names_def map_of_eq_None_iff)
  then show ?case using r' register_lookup [OF r1] r1 by (intro exI [of _ r']) (auto simp: e split: option.split)
qed simp

section \<open>Keys\<close>

lemma load_identities_spec:
  assumes "load_identities load bs acc = Inr ids"
  shows "(dict_ok acc \<longrightarrow> dict_ok ids)
    \<and> (\<forall>n. if \<exists>b \<in> set bs. needs_identity b \<and> built_name b = n then \<exists>i. load n = Inr i \<and> dget ids n = Some i else dget ids n = dget acc n)"
  using assms
proof (induction bs arbitrary: acc)
  case (Cons b bs)
  show ?case
  proof (cases "needs_identity b")
    case True
    then obtain i where i: "load (built_name b) = Inr i" "load_identities load bs (dput (built_name b) i acc) = Inr ids"
      using Cons.prems by (auto simp: bind_r_eq_Inr)
    note IH = Cons.IH [OF i(2)]
    have "dict_ok acc \<longrightarrow> dict_ok ids" using IH by (auto simp: dict_simps)
    moreover have "if \<exists>c \<in> set (b # bs). needs_identity c \<and> built_name c = n then \<exists>i. load n = Inr i \<and> dget ids n = Some i else dget ids n = dget acc n" for n
      using spec [OF conjunct2 [OF IH], of n] i(1) True by (auto simp: dict_simps split: if_splits)
    ultimately show ?thesis by blast
  next
    case False
    then show ?thesis using Cons.IH [of acc] Cons.prems by simp
  qed
qed simp

lemma register_identities:
  assumes "dict_ok ids"
  shows "kr_get (fold (\<lambda>(n, i) r. kr_register n (verify_key cr i) r) ids r0) n =
    (case dget ids n of None \<Rightarrow> kr_get r0 n | Some i \<Rightarrow> Some (verify_key cr i))"
  using assms
proof (induction ids arbitrary: r0)
  case (Cons e ids)
  obtain m i where e: "e = (m, i)" by (cases e)
  have "dget ids m = None" using Cons.prems by (auto simp: e map_of_eq_None_iff)
  then show ?case using Cons by (auto simp: e kr_get_def kr_register_def dict_simps split: option.split)
qed simp

lemma add_public_keys_spec:
  "add_public_keys cr ks r = Inr r' \<Longrightarrow>
   (kr_get r n \<noteq> None \<longrightarrow> kr_get r' n = kr_get r n)
 \<and> (kr_get r n = None \<longrightarrow> (case dget ks n of
       None \<Rightarrow> kr_get r' n = None
     | Some k \<Rightarrow> \<exists>b64 vk. k = JStr b64 \<and> cr_read_key cr b64 = Inr vk \<and> kr_get r' n = Some vk))"
proof (induction ks arbitrary: r)
  case (Cons e ks)
  obtain m k where e: "e = (m, k)" by (cases e)
  show ?case
  proof (cases "kr_get r m")
    case None
    then obtain b64 vk where k: "k = JStr b64" "cr_read_key cr b64 = Inr vk" "add_public_keys cr ks (dput m vk r) = Inr r'"
      using Cons.prems by (auto simp: e bind_r_eq_Inr str_of_def kr_register_b64_def split: json.splits)
    show ?thesis using Cons.IH [OF k(3)] None k by (auto simp: e kr_get_def dict_simps split: option.splits if_splits)
  next
    case (Some v)
    then show ?thesis using Cons by (auto simp: e split: option.splits)
  qed
qed simp

section \<open>Paths\<close>

text \<open>A leaf with the child lists of the supervisors above it, the innermost first.\<close>

fun leaf_paths :: "'a built list list \<Rightarrow> 'a built \<Rightarrow> ('a built list list \<times> 'a built) list" where
  "leaf_paths path (BSupervisor n s cs) = concat (map (leaf_paths (cs # path)) cs)"
| "leaf_paths path b = [(path, b)]"

definition nearest_dynamic :: "'a agent_attrs \<Rightarrow> 'a built list list \<Rightarrow> string option" where
  "nearest_dynamic att path =
     (case find (\<lambda>cs. dyn_child att cs \<noteq> None) path of None \<Rightarrow> None | Some cs \<Rightarrow> dyn_child att cs)"

lemma nearest_Cons: "nearest_dynamic att (cs # path) = (case dyn_child att cs of Some d \<Rightarrow> Some d | None \<Rightarrow> nearest_dynamic att path)"
  by (simp add: nearest_dynamic_def split: option.split)

lemma wire_dyn_sup_paths:
  "wire_dyn_sup att (nearest_dynamic att path) b =
     map (\<lambda>(path, l). (built_name l, if is_dynamic att l then Some (built_name l) else nearest_dynamic att path)) (leaf_paths path b)"
proof (induction b arbitrary: path)
  case (BSupervisor n s cs)
  then have "map (wire_dyn_sup att (nearest_dynamic att (cs # path))) cs =
    map (\<lambda>c. map (\<lambda>(path, l). (built_name l, if is_dynamic att l then Some (built_name l) else nearest_dynamic att path)) (leaf_paths (cs # path) c)) cs"
    by simp
  then show ?case
    by (simp only: wire_dyn_sup.simps leaf_paths.simps Let_def nearest_Cons [symmetric] map_concat map_map comp_def)
qed simp_all

lemma paths_leaves: "map snd (leaf_paths path b) = built_leaves b"
proof (induction b arbitrary: path)
  case (BSupervisor n s cs)
  then have "map (\<lambda>c. map snd (leaf_paths (cs # path) c)) cs = map built_leaves cs" by simp
  then show ?case by (simp only: leaf_paths.simps built_leaves.simps map_concat map_map comp_def)
qed simp_all

lemma tree_agents_leaves: "is_supervisor b \<Longrightarrow> tree_agents b = built_leaves b"
proof (induction b)
  case (BSupervisor n s cs)
  have "(if is_supervisor c then tree_agents c else [c]) = built_leaves c" if "c \<in> set cs" for c
    using BSupervisor.IH [OF that] by (cases c) simp_all
  then show ?case by (simp cong: map_cong)
qed simp_all

section \<open>Properties\<close>

text \<open>How an entry of the registry is to look for an agent whose source of capabilities gives \<open>caps\<close> and \<open>meta\<close>: local,
  under its own address, with exactly these, a dynamic supervisor with its marker at the end when it is not among
  them.\<close>

definition registered_with :: "registry \<Rightarrow> bool \<Rightarrow> string \<Rightarrow> string list \<Rightarrow> payload \<Rightarrow> bool" where
  "registered_with r dynamic n caps meta \<longleftrightarrow>
     (\<exists>cs. lookup r n = Some (local_entry n None True cs meta)
        \<and> (if dynamic \<and> DYNAMIC_SUPERVISOR_CAPABILITY \<notin> set caps
           then cs = caps @ [DYNAMIC_SUPERVISOR_CAPABILITY] else cs = caps))"

lemma start_registry_entries:
  assumes "start_registry att yaml t (new_registry l) = Inr r"
  shows "distinct (map built_name (tree_agents t) @ ''_runtime'' # tree_supervisors t)"
    "(n, caps, meta) \<in> set (start_entries att yaml t) \<Longrightarrow> lookup r n = Some (local_entry n None True caps meta)"
    "lookup r n \<noteq> None \<longleftrightarrow> n \<in> set (map built_name (tree_agents t) @ ''_runtime'' # tree_supervisors t)"
proof -
  let ?es = "start_entries att yaml t"
  have nm: "map fst ?es = map built_name (tree_agents t) @ ''_runtime'' # tree_supervisors t"
    by (simp add: start_entries_def comp_def)
  have new: "lookup (new_registry l) = (\<lambda>n. None)" by (simp add: lookup_def new_registry_def fun_eq_iff)
  have f: "fresh_names ?es (new_registry l)"
    using assms register_names_fails [of ?es "new_registry l"] by (auto simp: start_registry_def)
  then show d: "distinct (map built_name (tree_agents t) @ ''_runtime'' # tree_supervisors t)"
    unfolding nm [symmetric] by (simp add: fresh_names_def)
  have r: "lookup r n = (case dget ?es n of None \<Rightarrow> None | Some (caps, meta) \<Rightarrow> Some (local_entry n None True caps meta))" for n
    using register_names_succeeds [OF f, unfolded new] assms by (auto simp: start_registry_def)
  show "(n, caps, meta) \<in> set ?es \<Longrightarrow> lookup r n = Some (local_entry n None True caps meta)"
    using d unfolding nm [symmetric] by (simp add: r)
  show "lookup r n \<noteq> None \<longleftrightarrow> n \<in> set (map built_name (tree_agents t) @ ''_runtime'' # tree_supervisors t)"
    unfolding nm [symmetric] using map_of_eq_None_iff [of ?es n] by (auto simp: r split: option.split)
qed

lemma start_registry_agent:
  assumes "start_registry att yaml t (new_registry l) = Inr r" "b \<in> set (tree_agents t)"
    and "(case dget yaml (built_name b) of Some cm \<Rightarrow> cm | None \<Rightarrow> class_capabilities att b) = (caps, meta)"
  shows "registered_with r (is_dynamic att b) (built_name b) caps meta"
proof -
  have "(built_name b, start_capabilities att yaml b) \<in> set (start_entries att yaml t)"
    using assms(2) by (auto simp: start_entries_def)
  then have "lookup r (built_name b) =
      Some (local_entry (built_name b) None True (fst (start_capabilities att yaml b)) (snd (start_capabilities att yaml b)))"
    using start_registry_entries(2) [OF assms(1)] by simp
  then show ?thesis using assms(3) by (simp add: registered_with_def start_capabilities_def)
qed

text \<open>C34. Starting registers the tree. When the names of the agents, of the supervisors and \<^verbatim>\<open>_runtime\<close> are
  distinct, the registry has exactly these names after the start, all local. An agent that the topology file gives
  capabilities and metadata has exactly those; another agent has those of its class; a dynamic supervisor has its
  marker added when it is not among them. The sink \<^verbatim>\<open>_runtime\<close> has no capabilities, a supervisor the marker of
  supervisors alone. When a name occurs twice, the start raises \<^verbatim>\<open>ValueError\<close>.\<close>

theorem start_registers_tree:
  assumes "names = map built_name (tree_agents t) @ ''_runtime'' # tree_supervisors t"
  shows "(distinct names \<longrightarrow>
      (\<exists>r. start_registry att yaml t (new_registry l) = Inr r
        \<and> (\<forall>b \<in> set (tree_agents t).
              (\<forall>caps meta. dget yaml (built_name b) = Some (caps, meta) \<longrightarrow>
                 registered_with r (is_dynamic att b) (built_name b) caps meta)
            \<and> (\<forall>n a. dget yaml (built_name b) = None \<and> b = BAgent n a \<longrightarrow>
                 registered_with r (is_dynamic att b) n (aa_capabilities att a) (aa_metadata att a))
            \<and> (dget yaml (built_name b) = None \<and> (\<nexists>n a. b = BAgent n a) \<longrightarrow>
                 registered_with r (is_dynamic att b) (built_name b) [] []))
        \<and> lookup r ''_runtime'' = Some (local_entry ''_runtime'' None True [] [])
        \<and> (\<forall>n \<in> set (tree_supervisors t). lookup r n = Some (local_entry n None True [SUPERVISOR_CAPABILITY] []))
        \<and> (\<forall>n. lookup r n \<noteq> None \<longleftrightarrow> n \<in> set names)))
    \<and> (\<not> distinct names \<longrightarrow> start_registry att yaml t (new_registry l) = Inl ValueError)"
    (is "(_ \<longrightarrow> (\<exists>r. ?P r)) \<and> _")
proof -
  let ?es = "start_entries att yaml t"
  have nm: "map fst ?es = names" by (simp add: start_entries_def assms comp_def)
  have fresh: "fresh_names ?es (new_registry l) \<longleftrightarrow> distinct names"
    by (simp add: fresh_names_def nm list_all_iff lookup_def new_registry_def)
  have fails: "\<not> distinct names \<longrightarrow> start_registry att yaml t (new_registry l) = Inl ValueError"
    using register_names_fails [of ?es "new_registry l"] fresh by (simp add: start_registry_def)
  have ex: "\<exists>r. start_registry att yaml t (new_registry l) = Inr r" if "distinct names"
    using register_names_succeeds [of ?es "new_registry l"] fresh that by (auto simp: start_registry_def)
  have cls: "class_capabilities att b = ([], [])" if "\<nexists>n a. b = BAgent n a" for b using that by (cases b) auto
  have agents: "registered_with r (is_dynamic att b) (built_name b) caps meta"
    if "start_registry att yaml t (new_registry l) = Inr r" "b \<in> set (tree_agents t)"
       "(case dget yaml (built_name b) of Some cm \<Rightarrow> cm | None \<Rightarrow> class_capabilities att b) = (caps, meta)" for r b caps meta
    by (rule start_registry_agent [OF that])
  have others: "(''_runtime'', [], []) \<in> set ?es" "n \<in> set (tree_supervisors t) \<Longrightarrow> (n, [SUPERVISOR_CAPABILITY], []) \<in> set ?es" for n
    by (auto simp: start_entries_def)
  show ?thesis
  proof (rule conjI [OF impI fails])
    assume "distinct names"
    then obtain r where r: "start_registry att yaml t (new_registry l) = Inr r" using ex by blast
    show "\<exists>r. ?P r"
    proof (intro exI [of _ r] conjI ballI allI impI)
      fix b n a assume b: "b \<in> set (tree_agents t)" "dget yaml (built_name b) = None \<and> b = BAgent n a"
      show "registered_with r (is_dynamic att b) n (aa_capabilities att a) (aa_metadata att a)"
        using agents [OF r b(1), of "aa_capabilities att a" "aa_metadata att a"] conjunct1 [OF b(2)]
        by (simp add: conjunct2 [OF b(2)])
    next
      fix b assume b: "b \<in> set (tree_agents t)" "dget yaml (built_name b) = None \<and> (\<nexists>n a. b = BAgent n a)"
      show "registered_with r (is_dynamic att b) (built_name b) [] []" using agents [OF r b(1)] b(2) cls by simp
    qed (use r agents [OF r] others start_registry_entries(2,3) [OF r] assms in simp_all)
  qed
qed


text \<open>Two agents and a dynamic supervisor below the root of a tree.\<close>

definition sample_attrs :: "unit agent_attrs" where
  "sample_attrs =
     \<lparr>aa_capabilities = (\<lambda>a. [''work'']), aa_metadata = (\<lambda>a. []), aa_dynamic = (\<lambda>a. False), aa_gen_server = (\<lambda>a. False),
      aa_status = (\<lambda>n. ''running'')\<rparr>"

definition sample_params :: dyn_params where
  "sample_params =
     \<lparr>dp_max_children = None, dp_max_total_spawns = None, dp_max_children_per_spawner = None, dp_max_total_spawns_per_spawner = None,
      dp_restart_mode = TRANSIENT, dp_max_restarts = 3, dp_restart_window = 60\<rparr>"

definition sample_tree :: "unit built" where
  "sample_tree =
     BSupervisor ''root'' (new_sup ONE_FOR_ONE 3 60 CONSTANT 1 60)
       [BDynamic ''pool'' sample_params, BSupervisor ''sub'' (new_sup ONE_FOR_ALL 3 60 CONSTANT 1 60) [BAgent ''a'' ()], BAgent ''b'' ()]"

theorem start_registers_tree_witness:
  "\<exists>r. start_registry sample_attrs [(''pool'', ([''x''], []))] sample_tree (new_registry True) = Inr r
     \<and> lookup r ''pool'' = Some (local_entry ''pool'' None True [''x'', DYNAMIC_SUPERVISOR_CAPABILITY] [])
     \<and> lookup r ''a'' = Some (local_entry ''a'' None True [''work''] [])"
proof -
  let ?y = "[(''pool'', ([''x''], []))] :: (string, string list \<times> payload) dict"
  have "distinct (map built_name (tree_agents sample_tree) @ ''_runtime'' # tree_supervisors sample_tree)"
    by (simp add: sample_tree_def)
  from conjunct1 [OF start_registers_tree [OF refl, of sample_tree sample_attrs ?y True], rule_format, OF this]
  obtain r where r: "start_registry sample_attrs ?y sample_tree (new_registry True) = Inr r"
    and b: "\<forall>b \<in> set (tree_agents sample_tree).
              (\<forall>caps meta. dget ?y (built_name b) = Some (caps, meta) \<longrightarrow>
                 registered_with r (is_dynamic sample_attrs b) (built_name b) caps meta)
            \<and> (\<forall>n a. dget ?y (built_name b) = None \<and> b = BAgent n a \<longrightarrow>
                 registered_with r (is_dynamic sample_attrs b) n (aa_capabilities sample_attrs a) (aa_metadata sample_attrs a))
            \<and> (dget ?y (built_name b) = None \<and> (\<nexists>n a. b = BAgent n a) \<longrightarrow>
                 registered_with r (is_dynamic sample_attrs b) (built_name b) [] [])"
    by blast
  have "lookup r ''pool'' = Some (local_entry ''pool'' None True [''x'', DYNAMIC_SUPERVISOR_CAPABILITY] [])"
    using bspec [OF b, of "BDynamic ''pool'' sample_params"] by (simp add: sample_tree_def registered_with_def)
  moreover have "lookup r ''a'' = Some (local_entry ''a'' None True [''work''] [])"
    using bspec [OF b, of "BAgent ''a'' ()"] by (simp add: sample_tree_def registered_with_def sample_attrs_def)
  ultimately show ?thesis using r by blast
qed

text \<open>An agent spawns into the nearest dynamic supervisor. The walk of the start gives a dynamic supervisor its own
  name, and every other agent the first dynamic supervisor among the children of the innermost supervisor above it
  that has one; it does so for every agent of the tree, in the order of the tree.\<close>

theorem spawn_target_nearest:
  assumes "is_supervisor t"
  shows "wire_dyn_sup att None t =
      map (\<lambda>(path, l). (built_name l, if is_dynamic att l then Some (built_name l) else nearest_dynamic att path)) (leaf_paths [] t)
    \<and> map snd (leaf_paths [] t) = tree_agents t"
  using wire_dyn_sup_paths [of att "[]" t] paths_leaves [of "[]" t] tree_agents_leaves [OF assms] by (simp add: nearest_dynamic_def)

theorem spawn_target_nearest_witness:
  "wire_dyn_sup sample_attrs None sample_tree = [(''pool'', Some ''pool''), (''a'', Some ''pool''), (''b'', Some ''pool'')]"
proof -
  have "is_supervisor sample_tree" by (simp add: sample_tree_def)
  from spawn_target_nearest [OF this, of sample_attrs] show ?thesis
    by (simp add: sample_tree_def nearest_dynamic_def dyn_child_def sample_attrs_def)
qed

text \<open>C18. A local identity is trusted before any key of the topology file. Of the signer that the start builds, every
  agent but the introspection unit has its own identity, and the key registered under its name is the one of this
  identity, whatever the file says; a name without a local identity has the key of the file, or none.\<close>

theorem local_keys_win:
  assumes "build_signer cr load sec pub agents = Inr s"
  shows "(\<forall>b \<in> set agents. needs_identity b \<longrightarrow>
            (\<exists>i. load (built_name b) = Inr i \<and> dget (sg_identities s) (built_name b) = Some i
               \<and> kr_get (sg_registry s) (built_name b) = Some (verify_key cr i)))
    \<and> (\<forall>n. (\<forall>b \<in> set agents. needs_identity b \<longrightarrow> built_name b \<noteq> n) \<longrightarrow>
            dget (sg_identities s) n = None
          \<and> (case dget pub n of
               None \<Rightarrow> kr_get (sg_registry s) n = None
             | Some k \<Rightarrow> \<exists>b64 vk. k = JStr b64 \<and> cr_read_key cr b64 = Inr vk \<and> kr_get (sg_registry s) n = Some vk))"
proof -
  obtain ids reg where ids: "load_identities load agents [] = Inr ids"
    and reg: "add_public_keys cr pub (fold (\<lambda>(n, i) r. kr_register n (verify_key cr i) r) ids []) = Inr reg"
    and s: "sg_identities s = ids" "sg_registry s = reg"
    using assms by (auto simp: build_signer_def bind_r_eq_Inr new_signer_def)
  have ok: "dict_ok ids" using load_identities_spec [OF ids] by simp
  have start: "kr_get (fold (\<lambda>(n, i) r. kr_register n (verify_key cr i) r) ids []) n = map_option (verify_key cr) (dget ids n)" for n
    using register_identities [OF ok, of cr "[]" n] by (simp add: kr_get_def split: option.split)
  show ?thesis
  proof (intro conjI ballI allI impI)
    fix b assume b: "b \<in> set agents" "needs_identity b"
    then have "\<exists>b' \<in> set agents. needs_identity b' \<and> built_name b' = built_name b" by blast
    then obtain i where i: "load (built_name b) = Inr i" "dget ids (built_name b) = Some i"
      using spec [OF conjunct2 [OF load_identities_spec [OF ids]], of "built_name b"] by (auto split: if_splits)
    then show "\<exists>i. load (built_name b) = Inr i \<and> dget (sg_identities s) (built_name b) = Some i
               \<and> kr_get (sg_registry s) (built_name b) = Some (verify_key cr i)"
      using add_public_keys_spec [OF reg, of "built_name b"] start [of "built_name b"] s by simp
  next
    fix n assume n: "\<forall>b \<in> set agents. needs_identity b \<longrightarrow> built_name b \<noteq> n"
    then have none: "dget ids n = None"
      using spec [OF conjunct2 [OF load_identities_spec [OF ids]], of n] by (auto split: if_splits)
    then show "dget (sg_identities s) n = None" by (simp add: s)
    show "case dget pub n of
               None \<Rightarrow> kr_get (sg_registry s) n = None
             | Some k \<Rightarrow> \<exists>b64 vk. k = JStr b64 \<and> cr_read_key cr b64 = Inr vk \<and> kr_get (sg_registry s) n = Some vk"
      using add_public_keys_spec [OF reg, of n] start [of n] none unfolding s by simp
  qed
qed

definition sample_security :: "payload \<Rightarrow> security_config" where
  "sample_security d = \<lparr>se_identity = \<lparr>ic_mode = JStr ''auto'', ic_key_dir = ''k''\<rparr>, se_signing = signing_from_dict d,
     se_transport = \<lparr>ts_zmq = zmq_from_dict [],
       ts_nats = \<lparr>nt_enabled = JBool False, nt_cert = None, nt_key = None, nt_ca = None, nt_nkey_seed = JStr ''x''\<rparr>\<rparr>\<rparr>"

lemma sample_security_signing [simp]: "se_signing (sample_security d) = signing_from_dict d"
  by (simp add: sample_security_def)

theorem local_keys_win_witness:
  "\<exists>s. build_signer sample_crypto (\<lambda>n. Inr \<lparr>id_name = n, id_signing_key = n\<rparr>)
         (sample_security []) [(''a'', JStr ''forged''), (''far'', JStr ''kf'')] [BAgent ''a'' ()] = Inr s
     \<and> kr_get (sg_registry s) ''a'' = Some (cr_verify_key sample_crypto ''a'')"
proof -
  let ?sec = "sample_security []"
  let ?load = "\<lambda>n. Inr \<lparr>id_name = n, id_signing_key = n\<rparr>"
  have "\<exists>s. build_signer sample_crypto ?load ?sec [(''a'', JStr ''forged''), (''far'', JStr ''kf'')] [BAgent ''a'' ()] = Inr s"
    by (simp add: build_signer_def kr_get_def kr_register_def str_of_def kr_register_b64_def sample_crypto_def)
  then obtain s where s: "build_signer sample_crypto ?load ?sec [(''a'', JStr ''forged''), (''far'', JStr ''kf'')] [BAgent ''a'' ()] = Inr s" by blast
  from local_keys_win [OF s] show ?thesis using s by (auto simp: verify_key_def)
qed

section \<open>Control messages\<close>

text \<open>The message at the end of the priority queue.\<close>

definition queued :: "message \<Rightarrow> agent \<Rightarrow> agent" where
  "queued m a = a\<lparr>a_mailbox := (a_mailbox a)\<lparr>mb_priority_queue := mb_priority_queue (a_mailbox a) @ [m], mb_notify := True\<rparr>\<rparr>"

lemma receive_control:
  assumes "m_correlation_id m = None" "0 < m_priority m" "\<not> q_full (mb_priority_maxsize (a_mailbox a)) (mb_priority_queue (a_mailbox a))"
  shows "receive py_str m a = Some (queued m a)"
  using assms by (simp add: receive_def consume_stream_frame_def mb_put_def queued_def)

lemma rt_control_delivers:
  assumes "codec_ok (be_codec env)" "lookup (b_registry b) n = Some e" "dget (t_reply_queues (b_transport b)) (e_address e) = None"
    and "dget (t_handlers (b_transport b)) (e_address e) = Some h" "dget (b_local_agents b) h = Some a"
    and "\<not> q_full (mb_priority_maxsize (a_mailbox a)) (mb_priority_queue (a_mailbox a))" "ty \<in> set SYSTEM_MESSAGE_TYPES"
  shows "rt_control True env ids ty n p b = Some (Inr (),
    audit_route env (stamp env ((runtime_message ids ty n p)\<lparr>m_priority := 1\<rparr>))
      (b\<lparr>b_local_agents := dput h (queued (stamp env ((runtime_message ids ty n p)\<lparr>m_priority := 1\<rparr>)) a) (b_local_agents b)\<rparr>))"
proof -
  let ?m = "(runtime_message ids ty n p)\<lparr>m_priority := 1\<rparr>"
  have "receive (be_py_str env) (stamp env ?m) a = Some (queued (stamp env ?m) a)"
    by (rule receive_control) (use assms(6) in \<open>simp_all add: stamp_def runtime_message_def default_message_def\<close>)
  moreover have "m_recipient ?m = n" "m_type ?m = ty" by (simp_all add: runtime_message_def)
  ultimately show ?thesis using assms run_handler_delivers [OF assms(1,5), of "stamp env ?m"]
    by (simp add: rt_control_def bus_route_def validate_message_type_def route_address_def publish_def Let_def)
qed

text \<open>C20. The operations of the runtime reach the agent. Suspending, resuming and restarting a local agent by name puts
  exactly one control message of the runtime, with the arguments of the call, at the end of the agent's priority
  queue, and changes no other agent and no business queue; a resume without an approver raises and does nothing, a
  name nobody registered raises, and before the start every operation raises.\<close>

theorem runtime_control_delivered:
  assumes "codec_ok (be_codec env)" "lookup (b_registry b) n = Some e" "dget (t_reply_queues (b_transport b)) (e_address e) = None"
    and "dget (t_handlers (b_transport b)) (e_address e) = Some h" "dget (b_local_agents b) h = Some a"
    and "\<not> q_full (mb_priority_maxsize (a_mailbox a)) (mb_priority_queue (a_mailbox a))" "approver \<noteq> ''''"
    and "lookup (b_registry b) u = None" "\<not> has_reply_address u (b_transport b)" "\<not> startswith u ''_reply.''"
    and sent: "\<And>ty p. sent ty p = stamp env ((runtime_message ids ty n p)\<lparr>m_priority := 1\<rparr>)"
    and after: "\<And>ty p. after ty p = audit_route env (sent ty p) (b\<lparr>b_local_agents := dput h (queued (sent ty p) a) (b_local_agents b)\<rparr>)"
  shows "rt_suspend True env ids n reason cat b = Some (Inr (), after ''_agency.suspend'' [(''reason'', JStr reason), (''category'', JStr cat)])
    \<and> rt_resume True env ids n approver b = Some (Inr (), after ''_agency.resume'' [(''approver'', JStr approver)])
    \<and> rt_restart_agent True env ids n reason by_whom b = Some (Inr (), after ''_agency.force_restart'' [(''reason'', JStr reason), (''initiated_by'', JStr by_whom)])
    \<and> rt_resume started env ids m '''' b = Some (Inl ValueError, b)
    \<and> rt_suspend True env ids u reason cat b = Some (Inl MessageRoutingError, b)
    \<and> rt_suspend False env ids n reason cat b = Some (Inl RuntimeError, b)
    \<and> rt_resume False env ids n approver b = Some (Inl RuntimeError, b)
    \<and> rt_restart_agent False env ids n reason by_whom b = Some (Inl RuntimeError, b)"
proof -
  have sys: "{''_agency.suspend'', ''_agency.resume'', ''_agency.force_restart''} \<subseteq> set SYSTEM_MESSAGE_TYPES"
    by (simp add: SYSTEM_MESSAGE_TYPES_def)
  have del: "rt_control True env ids ty n p b = Some (Inr (), after ty p)" if "ty \<in> set SYSTEM_MESSAGE_TYPES" for ty p
    unfolding after sent by (rule rt_control_delivers [OF assms(1-6) that])
  have "rt_suspend True env ids u reason cat b = Some (Inl MessageRoutingError, b)"
    using assms(8-10) sys by (simp add: rt_suspend_def rt_control_def bus_route_def route_address_def validate_message_type_def runtime_message_def)
  then show ?thesis
    using del sys assms(7) by (simp add: rt_suspend_def rt_resume_def rt_restart_agent_def) (simp add: rt_control_def)
qed

theorem runtime_control_delivered_witness:
  "\<exists>b'. rt_suspend True plain_bus_env \<lparr>mi_id = ''i'', mi_now = 0, mi_trace = ''t'', mi_span = ''s'', mi_correlation = ''c''\<rparr> ''w'' ''why'' ''other'' sample_bus
     = Some (Inr (), b') \<and> length (mb_priority_queue (a_mailbox (the (dget (b_local_agents b') ''w'')))) = 1"
proof -
  let ?ids = "\<lparr>mi_id = ''i'', mi_now = 0, mi_trace = ''t'', mi_span = ''s'', mi_correlation = ''c''\<rparr>"
  let ?a = "new_agent (base_env ''w'') None None 0"
  let ?sent = "\<lambda>ty p. stamp plain_bus_env ((runtime_message ?ids ty ''w'' p)\<lparr>m_priority := 1\<rparr>)"
  let ?after = "\<lambda>ty p. audit_route plain_bus_env (?sent ty p) (sample_bus\<lparr>b_local_agents := dput ''w'' (queued (?sent ty p) ?a) (b_local_agents sample_bus)\<rparr>)"
  have *: "rt_suspend True plain_bus_env ?ids ''w'' ''why'' ''other'' sample_bus
      = Some (Inr (), ?after ''_agency.suspend'' [(''reason'', JStr ''why''), (''category'', JStr ''other'')])"
    by (rule conjunct1 [OF runtime_control_delivered [where e = "local_entry ''w'' None True [] []" and h = "''w''" and a = ?a and approver = "''x''"
          and u = "''nobody''" and sent = ?sent and after = ?after]])
       (simp_all add: plain_bus_env_def sample_bus_def setup_agent_def subscribe_def new_transport_def lookup_def local_entry_def
          has_reply_address_def q_full_def new_agent_def new_mailbox_def base_env_def)
  have "length (mb_priority_queue (a_mailbox (queued m ?a))) = 1" for m
    by (simp add: queued_def new_agent_def new_mailbox_def)
  then show ?thesis unfolding * by (simp add: dict_simps)
qed

text \<open>The dynamic supervisor reads from a spawn request of the runtime exactly what the caller gave.\<close>

lemma spawn_request_parsed:
  "parse_spawn (spawn_payload class_path name config wait spawn_id) =
     \<lparr>sq_class_path = class_path, sq_name = name, sq_config = config, sq_spawner = ''_runtime'', sq_wait = wait, sq_spawn_id = spawn_id\<rparr>"
  by (simp add: parse_spawn_def spawn_payload_def get_str_def)


section \<open>Who can speak under strict signing\<close>

lemma build_signer_identities:
  assumes "build_signer cr load sec pub agents = Inr s"
  shows "sg_config s = se_signing sec"
    and "dget (sg_identities s) n \<noteq> None \<longleftrightarrow> (\<exists>b \<in> set agents. needs_identity b \<and> built_name b = n)"
proof -
  obtain ids where ids: "load_identities load agents [] = Inr ids" and s: "sg_identities s = ids" "sg_config s = se_signing sec"
    using assms by (auto simp: build_signer_def bind_r_eq_Inr new_signer_def)
  show "sg_config s = se_signing sec" by (rule s(2))
  show "dget (sg_identities s) n \<noteq> None \<longleftrightarrow> (\<exists>b \<in> set agents. needs_identity b \<and> built_name b = n)"
    using spec [OF conjunct2 [OF load_identities_spec [OF ids]], of n] unfolding s by (auto split: if_splits)
qed

text \<open>C38. Under strict signing only agents with an identity can send. With the serializer that the start installs, a
  message can be serialized exactly when its sender is the name of an agent that got an identity; every other message
  raises before anything is sent. So no operation of the runtime (\<^verbatim>\<open>send\<close>, \<^verbatim>\<open>ask\<close>, \<^verbatim>\<open>suspend\<close>, \<^verbatim>\<open>resume\<close>,
  \<^verbatim>\<open>restart_agent\<close>) can be sent, as no agent is named \<^verbatim>\<open>_runtime\<close>, and neither can anything that a topology agent
  or the gateway in front of it sends.\<close>

theorem strict_signing_senders:
  assumes "start_signing cr load (Some sec) transport_type pub agents = Inr (Some s)" "strict (se_signing sec)" "ed25519_ok cr"
    and "''_runtime'' \<notin> built_name ` set agents" "distinct (map built_name agents)"
  shows "((\<exists>d. signing_serialize cr nonce m s = Inr d) \<longleftrightarrow> (\<exists>b \<in> set agents. needs_identity b \<and> built_name b = m_sender m))
    \<and> ((\<nexists>b. b \<in> set agents \<and> needs_identity b \<and> built_name b = m_sender m) \<longrightarrow> signing_serialize cr nonce m s = Inl SignatureError)
    \<and> signing_serialize cr nonce (runtime_message ids ty n p) s = Inl SignatureError
    \<and> signing_serialize cr nonce ((runtime_message ids ty n p)\<lparr>m_priority := 1\<rparr>) s = Inl SignatureError
    \<and> signing_serialize cr nonce ((runtime_message ids ty n p)\<lparr>m_correlation_id := Some (mi_correlation ids)\<rparr>) s = Inl SignatureError
    \<and> (\<forall>b \<in> set agents. \<not> needs_identity b \<and> m_sender m = built_name b \<longrightarrow> signing_serialize cr nonce m s = Inl SignatureError)"
proof -
  have b: "build_signer cr load sec pub agents = Inr s"
    using assms(1) by (auto simp: start_signing_def map_sum_eq_Inr split: if_splits)
  note conf = build_signer_identities(1) [OF b] and has = build_signer_identities(2) [OF b]
  have none: "signing_serialize cr nonce m' s = Inl SignatureError"
    if "\<nexists>b. b \<in> set agents \<and> needs_identity b \<and> built_name b = m_sender m'" for m'
  proof (rule serialize_without_identity)
    show "strict (sg_config s)" using assms(2) conf by simp
    show "dget (sg_identities s) (m_sender m') = None" using has [of "m_sender m'"] that by blast
  qed
  have some: "\<exists>d. signing_serialize cr nonce m s = Inr d" if "b \<in> set agents" "needs_identity b" "built_name b = m_sender m" for b
    using has [of "m_sender m"] that serialize_own [of s m _ cr nonce] assms(3) by auto
  have rt: "\<nexists>b. b \<in> set agents \<and> needs_identity b \<and> built_name b = ''_runtime''" using assms(4) by force
  have same: "b = b'" if "b \<in> set agents" "b' \<in> set agents" "built_name b = built_name b'" for b b'
    using assms(5) that by (auto simp: distinct_map inj_on_def)
  have "signing_serialize cr nonce m s = Inl SignatureError" if "b \<in> set agents" "\<not> needs_identity b" "m_sender m = built_name b" for b
    using none [of m] same that by metis
  moreover have "\<exists>b \<in> set agents. needs_identity b \<and> built_name b = m_sender m" if "signing_serialize cr nonce m s = Inr d" for d
    using none [of m] that by fastforce
  ultimately show ?thesis using none some rt by (auto simp: runtime_message_def)
qed

theorem strict_signing_senders_witness:
  "\<exists>s. start_signing sample_crypto (\<lambda>n. Inr \<lparr>id_name = n, id_signing_key = n\<rparr>)
         (Some (sample_security [(''enabled'', JBool True)])) (JStr ''zmq'') [] [BAgent ''a'' (), BTopology ''topo''] = Inr (Some s)
     \<and> signing_serialize sample_crypto ''n''
         (runtime_message \<lparr>mi_id = ''i'', mi_now = 0, mi_trace = ''t'', mi_span = ''s'', mi_correlation = ''c''\<rparr> ''message'' ''a'' []) s = Inl SignatureError"
proof -
  let ?sec = "sample_security [(''enabled'', JBool True)]"
  let ?load = "\<lambda>n. Inr \<lparr>id_name = n, id_signing_key = n\<rparr>"
  have "\<exists>s. start_signing sample_crypto ?load (Some ?sec) (JStr ''zmq'') [] [BAgent ''a'' (), BTopology ''topo''] = Inr (Some s)"
    by (simp add: start_signing_def build_signer_def signing_from_dict_def)
  then obtain s where s: "start_signing sample_crypto ?load (Some ?sec) (JStr ''zmq'') [] [BAgent ''a'' (), BTopology ''topo''] = Inr (Some s)" by blast
  have "strict (se_signing ?sec)" by (simp add: strict_def signing_from_dict_def)
  from strict_signing_senders [OF s this sample_crypto_ok(2)] show ?thesis using s by auto
qed

end
