(* ===== verification/Agent_Spawn.thy ===== *)
theory Agent_Spawn
  imports Runtime
begin

text \<open>
  How an agent uses dynamic supervisors: \<^verbatim>\<open>spawn_into\<close>, \<^verbatim>\<open>spawn\<close>, \<^verbatim>\<open>despawn\<close> and \<^verbatim>\<open>stop\<close> of
  \<^verbatim>\<open>src/civitas/process.py\<close>, the payloads with which a dynamic supervisor answers, and the composition of
  both sides. The bus is a function from the request and the state of the other side to the answer.
\<close>

section \<open>The agent\<close>

definition agent_ask ::
  "agent_env \<Rightarrow> (message \<Rightarrow> 'w \<Rightarrow> message result \<times> 'w) \<Rightarrow> string \<Rightarrow> payload \<Rightarrow> string \<Rightarrow> agent \<times> 'w \<Rightarrow> message result \<times> agent \<times> 'w" where
  "agent_ask env request recipient p ty aw =
     (case ask_message env recipient p ty (fst aw) of
        (Inl e, a) \<Rightarrow> (Inl e, a, snd aw)
      | (Inr m, a) \<Rightarrow> (case request m (snd aw) of (r, w) \<Rightarrow> (r, a, w)))"

text \<open>The checks of \<^verbatim>\<open>spawn_into\<close> before anything is sent.\<close>

definition spawn_target_error :: "agent_env \<Rightarrow> string \<Rightarrow> agent \<Rightarrow> string option" where
  "spawn_target_error env supervisor a =
     (if supervisor = c_name env then Some ''cannot spawn into self''
      else case a_registry a of
             None \<Rightarrow> None
           | Some r \<Rightarrow>
               (case lookup r supervisor of
                  None \<Rightarrow> Some (''no such supervisor '' @ [CHR 39] @ supervisor @ [CHR 39])
                | Some e \<Rightarrow>
                    if DYNAMIC_SUPERVISOR_CAPABILITY \<notin> set (e_capabilities e)
                    then Some ([CHR 39] @ supervisor @ [CHR 39] @ '' is not a DynamicSupervisor'') else None))"

definition agent_spawn_payload :: "agent_env \<Rightarrow> string \<Rightarrow> string \<Rightarrow> payload \<Rightarrow> bool \<Rightarrow> string \<Rightarrow> payload" where
  "agent_spawn_payload env class_path name config wait spawn_id =
     [(''class_path'', JStr class_path), (''name'', JStr name), (''config'', JDict config),
      (''spawner'', JStr (c_name env)), (''wait'', JBool wait), (''spawn_id'', JStr spawn_id)]"

text \<open>\<open>texts\<close> is the text of an exception.\<close>

definition spawn_into ::
  "agent_env \<Rightarrow> (json \<Rightarrow> string) \<Rightarrow> (exn \<Rightarrow> string) \<Rightarrow> (message \<Rightarrow> 'w \<Rightarrow> message result \<times> 'w)
     \<Rightarrow> string \<Rightarrow> string \<Rightarrow> string \<Rightarrow> payload \<Rightarrow> bool \<Rightarrow> agent \<times> 'w \<Rightarrow> string result \<times> agent \<times> 'w" where
  "spawn_into env py_str texts request supervisor class_path name config wait aw =
     (case spawn_target_error env supervisor (fst aw) of
        Some reason \<Rightarrow> (Inl (SpawnError reason), aw)
      | None \<Rightarrow>
          (case agent_ask env request supervisor
                  (agent_spawn_payload env class_path name config wait (e_uuid env (a_uid (fst aw))))
                  ''civitas.dynamic.spawn'' (tick_uid (fst aw), snd aw) of
             (Inl MessageRoutingError, aw1) \<Rightarrow>
               (Inl (SpawnError (''cannot route spawn to '' @ [CHR 39] @ supervisor @ [CHR 39] @ '': '' @ texts MessageRoutingError)), aw1)
           | (Inl TimeoutError, aw1) \<Rightarrow>
               (Inl (SpawnError (''spawn into '' @ [CHR 39] @ supervisor @ [CHR 39] @ '' timed out (target unresponsive)'')), aw1)
           | (Inl e, aw1) \<Rightarrow> (Inl e, aw1)
           | (Inr rep, aw1) \<Rightarrow> (spawn_answer py_str name rep, aw1)))"

text \<open>\<open>dyn\<close> is \<^verbatim>\<open>self._dynamic_supervisor_name\<close>, which the start of the runtime sets.\<close>

abbreviation NO_DYN :: exn where
  "NO_DYN \<equiv> SpawnError ''No DynamicSupervisor ancestor found in supervision tree''"

definition agent_spawn ::
  "agent_env \<Rightarrow> (json \<Rightarrow> string) \<Rightarrow> (exn \<Rightarrow> string) \<Rightarrow> (message \<Rightarrow> 'w \<Rightarrow> message result \<times> 'w)
     \<Rightarrow> string option \<Rightarrow> string \<Rightarrow> string \<Rightarrow> payload \<Rightarrow> bool \<Rightarrow> agent \<times> 'w \<Rightarrow> string result \<times> agent \<times> 'w" where
  "agent_spawn env py_str texts request dyn class_path name config wait aw =
     (case dyn of
        None \<Rightarrow> (Inl NO_DYN, aw)
      | Some supervisor \<Rightarrow> spawn_into env py_str texts request supervisor class_path name config wait aw)"

definition agent_spawn_nowait ::
  "agent_env \<Rightarrow> (json \<Rightarrow> string) \<Rightarrow> (exn \<Rightarrow> string) \<Rightarrow> (message \<Rightarrow> 'w \<Rightarrow> message result \<times> 'w)
     \<Rightarrow> string option \<Rightarrow> string \<Rightarrow> string \<Rightarrow> payload \<Rightarrow> agent \<times> 'w \<Rightarrow> string result \<times> agent \<times> 'w" where
  "agent_spawn_nowait env py_str texts request dyn class_path name config aw =
     agent_spawn env py_str texts request dyn class_path name config False aw"

definition agent_despawn ::
  "agent_env \<Rightarrow> (json \<Rightarrow> string) \<Rightarrow> (message \<Rightarrow> 'w \<Rightarrow> message result \<times> 'w) \<Rightarrow> string option \<Rightarrow> string \<Rightarrow> agent \<times> 'w
     \<Rightarrow> unit result \<times> agent \<times> 'w" where
  "agent_despawn env py_str request dyn name aw =
     (case dyn of
        None \<Rightarrow> (Inl NO_DYN, aw)
      | Some supervisor \<Rightarrow>
          (case agent_ask env request supervisor [(''name'', JStr name)] ''civitas.dynamic.despawn'' aw of
             (Inl e, aw1) \<Rightarrow> (Inl e, aw1)
           | (Inr rep, aw1) \<Rightarrow> (dyn_answer py_str ''despawn failed'' rep, aw1)))"

definition agent_stop ::
  "agent_env \<Rightarrow> (json \<Rightarrow> string) \<Rightarrow> (message \<Rightarrow> 'w \<Rightarrow> message result \<times> 'w) \<Rightarrow> string option \<Rightarrow> string \<Rightarrow> string \<Rightarrow> real
     \<Rightarrow> agent \<times> 'w \<Rightarrow> unit result \<times> agent \<times> 'w" where
  "agent_stop env py_str request dyn name drain_mode timeout aw =
     (case dyn of
        None \<Rightarrow> (Inl NO_DYN, aw)
      | Some supervisor \<Rightarrow>
          (case agent_ask env request supervisor
                  [(''name'', JStr name), (''drain'', JStr drain_mode), (''timeout'', JFloat timeout)] ''civitas.dynamic.stop'' aw of
             (Inl e, aw1) \<Rightarrow> (Inl e, aw1)
           | (Inr rep, aw1) \<Rightarrow> (dyn_answer py_str ''stop failed'' rep, aw1)))"

section \<open>The answers of the supervisor\<close>

record dyn_texts =
  dt_int :: "int \<Rightarrow> string"
  dt_import :: "string \<Rightarrow> string"                \<comment> \<open>why the class path cannot be imported\<close>
  dt_error :: "exn option \<Rightarrow> string"             \<comment> \<open>\<^verbatim>\<open>repr\<close>\<close>

definition quoted :: "string \<Rightarrow> string" where
  "quoted x = [CHR 39] @ x @ [CHR 39]"

fun reason_text :: "dyn_texts \<Rightarrow> spawn_reason \<Rightarrow> string" where
  "reason_text tx (AlreadyRunning n) = ''agent '' @ quoted n @ '' already running''"
| "reason_text tx (AlreadyRegistered n) = ''name '' @ quoted n @ '' already registered''"
| "reason_text tx (MaxChildren k) = ''max_children ('' @ dt_int tx k @ '') reached''"
| "reason_text tx (MaxTotalSpawns k) = ''max_total_spawns ('' @ dt_int tx k @ '') reached''"
| "reason_text tx (MaxChildrenPerSpawner k s) = ''max_children_per_spawner ('' @ dt_int tx k @ '') reached for spawner '' @ quoted s"
| "reason_text tx (MaxTotalSpawnsPerSpawner k s) = ''max_total_spawns_per_spawner ('' @ dt_int tx k @ '') reached for spawner '' @ quoted s"
| "reason_text tx (InvalidClassPath c) = ''invalid class path: '' @ quoted c"
| "reason_text tx (CannotImport c) = ''cannot import '' @ quoted c @ '': '' @ dt_import tx c"
| "reason_text tx (SpawnerNotAllowed s) = ''spawner '' @ quoted s @ '' not allowed''"
| "reason_text tx DeniedByGovernance = ''spawn denied by governance policy''"
| "reason_text tx (NoDynamicAgent n) = ''no dynamic agent '' @ quoted n"

fun reply_payload :: "dyn_texts \<Rightarrow> ds_reply \<Rightarrow> payload" where
  "reply_payload tx (ReplySpawned n ready st) =
     [(''status'', JStr ''ok''), (''name'', JStr n), (''ready'', JBool ready), (''state'', JStr (status_value st))]"
| "reply_payload tx ReplyOk = [(''status'', JStr ''ok'')]"
| "reply_payload tx (ReplyError r) = [(''status'', JStr ''error''), (''reason'', JStr (reason_text tx r))]"
| "reply_payload tx (ReplyStartFailed n phase err) =
     [(''status'', JStr ''error''), (''name'', JStr n), (''phase'', JStr phase), (''error'', JStr (dt_error tx err))]"

text \<open>
  A spawn request served by a dynamic supervisor, as the caller's \<^verbatim>\<open>ask\<close> with its
  \<^verbatim>\<open>_SPAWN_ASK_TIMEOUT\<close> sees it. A request that waits is answered by the continuation of the spawn,
  once the task of the child has made it ready or has ended: with \<open>InTime ag err\<close> this happens before the
  timeout, while the supervisor serves nothing else, and \<open>ag\<close> and \<open>err\<close> are the child and the exception
  then. With \<open>Late\<close> the request has been handled when the timeout strikes and no answer has come: the spawn stays
  pending. With \<open>Unserved\<close> the request is still in the mailbox of the supervisor. What the caller sees of an
  exception in the handler is \<open>fault\<close>.
\<close>

datatype spawn_timing = InTime agent "exn option" | Late | Unserved

definition serve_spawn ::
  "agent_env \<Rightarrow> agent \<Rightarrow> dyn_texts \<Rightarrow> dyn_env \<Rightarrow> (exn \<Rightarrow> exn) \<Rightarrow> spawn_timing \<Rightarrow> message \<Rightarrow> dyn_sup \<Rightarrow> message result \<times> dyn_sup" where
  "serve_spawn senv sa tx denv fault timing msg s =
     (case timing of
        Unserved \<Rightarrow> (Inl TimeoutError, s)
      | Late \<Rightarrow> (Inl TimeoutError, snd (handle_spawn denv msg s))
      | InTime ag err \<Rightarrow>
          (case handle_spawn denv msg s of
             (Inl e, s1) \<Rightarrow> (Inl (fault e), s1)
           | (Inr (Some r), s1) \<Rightarrow> (Inr (reply_to_message senv msg (reply_payload tx r) sa), s1)
           | (Inr None, s1) \<Rightarrow>
               (case last (ds_pending s1) of
                  PendReply m n tid d caps meta pk ep \<Rightarrow>
                    (let s2 = finish_spawn denv ag err m n d caps meta pk ep (s1\<lparr>ds_pending := butlast (ds_pending s1)\<rparr>)
                     in case last (ds_events s2) of
                          DSReply m' r \<Rightarrow> (Inr (reply_to_message senv m' (reply_payload tx r) sa), s2)
                        | _ \<Rightarrow> (Inl TimeoutError, s2))
                | _ \<Rightarrow> (Inl TimeoutError, s1))))"

definition serve_despawn ::
  "agent_env \<Rightarrow> agent \<Rightarrow> dyn_texts \<Rightarrow> dyn_env \<Rightarrow> message \<Rightarrow> dyn_sup \<Rightarrow> message result \<times> dyn_sup" where
  "serve_despawn senv sa tx denv msg s =
     (case handle_despawn denv (get_str (m_payload msg) ''name'' '''') s of
        (r, s1) \<Rightarrow> (Inr (reply_to_message senv msg (reply_payload tx r) sa), s1))"

section \<open>Both sides together\<close>

lemma parse_agent_spawn [simp]:
  "parse_spawn (agent_spawn_payload env class_path name config wait spawn_id) =
     \<lparr>sq_class_path = class_path, sq_name = name, sq_config = config, sq_spawner = c_name env, sq_wait = wait, sq_spawn_id = spawn_id\<rparr>"
  by (simp add: parse_spawn_def agent_spawn_payload_def get_str_def)

lemma ask_dynamic:
  assumes "c_has_bus env" "ty \<in> {''civitas.dynamic.spawn'', ''civitas.dynamic.despawn''}"
  obtains m a' where "ask_message env supervisor p ty a = (Inr m, a')" "m_payload m = p"
  using assms by (auto simp: ask_message_def reject_reserved_type_def with_trace_def Let_def split: option.splits)

lemma payload_reply [simp]: "m_payload (reply_to_message env m p a) = p"
  by (simp add: reply_to_message_def)

text \<open>The child of a spawn: its record carries the identifier of the request, and the spawner is the sender.\<close>

definition spawned_by :: "string \<Rightarrow> string \<Rightarrow> string \<Rightarrow> dyn_sup \<Rightarrow> bool" where
  "spawned_by spawner name spawn_id s \<longleftrightarrow>
     (\<exists>rec. dget (ds_children s) name = Some rec \<and> cr_spawn_id rec = spawn_id) \<and> dget (ds_spawner_names s) name = Some spawner"

lemma admit_cases:
  assumes "admit env msg q c s = (r, s')"
  obtains "r = Some (ReplyError (AlreadyRegistered (sq_name q)))" "s' = s"
  | st where "\<not> sq_wait q" "r = Some (ReplySpawned (sq_name q) False st)" "spawned_by (sq_spawner q) (sq_name q) (sq_spawn_id q) s'"
  | ps tid d caps meta pk ep where "sq_wait q" "r = None" "spawned_by (sq_spawner q) (sq_name q) (sq_spawn_id q) s'"
      "ds_pending s' = ps @ [PendReply msg (sq_name q) tid d caps meta pk ep]"
proof (cases "case ds_registry s of None \<Rightarrow> Inr None
     | Some r \<Rightarrow> (case register (sq_name q) None True
          (if ac_is_dynamic_supervisor c then [DYNAMIC_SUPERVISOR_CAPABILITY] else []) [] r of
         Inl e \<Rightarrow> Inl e | Inr r' \<Rightarrow> Inr (Some r'))")
  case (Inl e)
  then show ?thesis using assms that(1) by (simp add: admit_def Let_def)
next
  case (Inr reg)
  have rs: "r = fst (admit env msg q c s)" "s' = snd (admit env msg q c s)" using assms by simp_all
  have sp: "spawned_by (sq_spawner q) (sq_name q) (sq_spawn_id q) s'"
    unfolding rs(2) by (simp add: admit_def Inr Let_def ds_log_def spawned_by_def dict_simps)
  show ?thesis
  proof (cases "sq_wait q")
    case True
    have "r = None" unfolding rs(1) by (simp add: admit_def Inr Let_def True)
    moreover have "\<exists>ps tid d caps meta pk ep. ds_pending s' = ps @ [PendReply msg (sq_name q) tid d caps meta pk ep]"
      unfolding rs(2) by (simp add: admit_def Inr Let_def True ds_log_def)
    ultimately show ?thesis using True sp that(3) by blast
  next
    case False
    have "\<exists>st. r = Some (ReplySpawned (sq_name q) False st)" unfolding rs(1) by (simp add: admit_def Inr Let_def False)
    then show ?thesis using False sp that(2) by blast
  qed
qed

lemma dget_update_rec: "dget (ds_children (update_rec ep f s)) n = map_option (\<lambda>r. if cr_epoch r = ep then f r else r) (dget (ds_children s) n)"
  using map_of_map [of "\<lambda>r. if cr_epoch r = ep then f r else r" "ds_children s"] by (simp add: update_rec_def)

lemma spawned_by_update: "(\<And>r. cr_spawn_id (f r) = cr_spawn_id r) \<Longrightarrow> spawned_by sp n i (update_rec ep f s) = spawned_by sp n i s"
  by (auto simp: spawned_by_def dget_update_rec) (auto simp: update_rec_def)

lemma spawned_by_other [simp]:
  "spawned_by sp n i (ds_log ev s) = spawned_by sp n i s"
  "spawned_by sp n i (announce_child env x caps meta pk ep s) = spawned_by sp n i s"
  "spawned_by sp n i (s\<lparr>ds_pending := ps\<rparr>) = spawned_by sp n i s"
  by (simp_all add: spawned_by_def ds_log_def announce_child_def)

lemma finish_ready:
  assumes "a_status ag \<in> {RUNNING, SUSPENDED}" "d_has_bus env" "s2 = finish_spawn env ag err m n d caps meta pk ep s"
  shows "last (ds_events s2) = DSReply m (ReplySpawned n True (a_status ag))" "spawned_by sp x i s2 = spawned_by sp x i s"
  using assms by (auto simp: finish_spawn_def Let_def spawned_by_update) (auto simp: ds_log_def)

lemma finish_failed:
  assumes "a_status ag \<notin> {RUNNING, SUSPENDED}" "d_has_bus env" "s2 = finish_spawn env ag err m n d caps meta pk ep s"
  shows "last (ds_events s2) = DSReply m (ReplyStartFailed n (a_start_phase ag) err)" "dget (ds_children s2) n = None"
  using assms by (auto simp: finish_spawn_def terminal_cleanup_def ds_log_def remove_child_def Let_def dict_simps)

lemma hook_keeps_free:
  assumes "hook_adds_nothing env" "dget (ds_children s) n = None" "d_on_spawn_requested env c n cfg (s\<lparr>ds_current_spawner := sp\<rparr>) = (r, s1)"
  shows "dget (ds_children s1) n = None"
proof -
  have "snd (d_on_spawn_requested env c n cfg (s\<lparr>ds_current_spawner := sp\<rparr>)) = s1" using assms(3) by simp
  then show ?thesis using assms(1,2) unfolding hook_adds_nothing_def Let_def by (metis dyn_sup.ext_inject dyn_sup.surjective dyn_sup.update_convs(9))
qed

lemma handle_spawn_new:
  fixes msg defines "q \<equiv> parse_spawn (m_payload msg)"
  assumes "hook_adds_nothing env" "dget (ds_children s) (sq_name q) = None" "handle_spawn env msg s = (r, s')"
  obtains e where "r = Inl e" "dget (ds_children s') (sq_name q) = None"
  | reason where "r = Inr (Some (ReplyError reason))" "dget (ds_children s') (sq_name q) = None"
  | st where "r = Inr (Some (ReplySpawned (sq_name q) False st))" "spawned_by (sq_spawner q) (sq_name q) (sq_spawn_id q) s'" "\<not> sq_wait q"
  | ps tid d caps meta pk ep where "r = Inr None" "spawned_by (sq_spawner q) (sq_name q) (sq_spawn_id q) s'"
      "ds_pending s' = ps @ [PendReply msg (sq_name q) tid d caps meta pk ep]"
proof (cases "admission_error env q s")
  case (Some reason)
  then show ?thesis using assms(3,4) that(2) by (auto simp: handle_spawn_def q_def [symmetric] Let_def)
next
  case adm: None
  show ?thesis
  proof (cases "Dynamic_Supervisor.resolve_class env (sq_class_path q)")
    case (Inl reason)
    then show ?thesis using assms(3,4) adm that(2) by (auto simp: handle_spawn_def q_def [symmetric] Let_def)
  next
    case (Inr c)
    obtain h s1 where h: "d_on_spawn_requested env c (sq_name q) (sq_config q) (s\<lparr>ds_current_spawner := Some (sq_spawner q)\<rparr>) = (h, s1)"
      by (metis surj_pair)
    note free = hook_keeps_free [OF assms(2,3) h]
    show ?thesis
    proof (cases "(case d_spawner_allowlist env of None \<Rightarrow> False | Some w \<Rightarrow> sq_spawner q \<notin> w) \<or> h \<noteq> Inr True \<or> ac_ctor_raises c (sq_name q) \<noteq> None")
      case True
      then have "(\<exists>e. r = Inl e) \<or> (\<exists>reason. r = Inr (Some (ReplyError reason)))" "dget (ds_children s') (sq_name q) = None"
        using assms(3,4) adm Inr h free
        by (auto simp: handle_spawn_def q_def [symmetric] Let_def split: if_splits sum.splits bool.splits option.splits)
      then show ?thesis using that(1,2) by blast
    next
      case False
      then obtain r1 where "admit env msg q c (s1\<lparr>ds_current_spawner := None\<rparr>) = (r1, s')" "r = Inr r1"
        using assms(3,4) adm Inr h
        by (auto simp: handle_spawn_def q_def [symmetric] Let_def split: if_splits option.splits prod.splits)
      then show ?thesis using that(2-4) free by (auto elim!: admit_cases)
    qed
  qed
qed

lemma reason_text_not_empty [simp]: "reason_text tx reason \<noteq> []"
  by (cases reason) simp_all

lemma serve_spawn_new:
  fixes msg defines "q \<equiv> parse_spawn (m_payload msg)"
  assumes "hook_adds_nothing denv" "d_has_bus denv" "dget (ds_children s) (sq_name q) = None"
    and "serve_spawn senv sa tx denv fault (InTime ag err) msg s = (r, s')"
  obtains e where "r = Inl (fault e)" "dget (ds_children s') (sq_name q) = None"
  | rep where "r = Inr rep" "get_or JNull (m_payload rep) ''status'' = JStr ''error''" "dget (ds_children s') (sq_name q) = None"
  | rep where "r = Inr rep" "get_or JNull (m_payload rep) ''status'' = JStr ''ok''" "spawned_by (sq_spawner q) (sq_name q) (sq_spawn_id q) s'"
proof -
  obtain r1 s1 where h: "handle_spawn denv msg s = (r1, s1)" by (metis surj_pair)
  from assms(2) assms(4) [unfolded q_def] h show ?thesis
  proof (cases rule: handle_spawn_new)
    case (4 ps tid d caps meta pk ep)
    let ?s2 = "finish_spawn denv ag err msg (sq_name q) d caps meta pk ep (s1\<lparr>ds_pending := ps\<rparr>)"
    have sv: "(case last (ds_events ?s2) of
          DSReply m' rp \<Rightarrow> (Inr (reply_to_message senv m' (reply_payload tx rp) sa), ?s2) | _ \<Rightarrow> (Inl TimeoutError, ?s2)) = (r, s')"
      using assms(5) h 4 unfolding q_def by (simp add: serve_spawn_def Let_def)
    show ?thesis
    proof (cases "a_status ag \<in> {RUNNING, SUSPENDED}")
      case True
      then show ?thesis using sv finish_ready [OF True assms(3) refl] 4(2) that(3) by (auto simp: q_def)
    next
      case False
      then show ?thesis using sv finish_failed [OF False assms(3) refl] that(2) by auto
    qed
  qed (use assms(5) h that in \<open>auto simp: serve_spawn_def q_def\<close>)
qed

text \<open>After the timeout of the caller: no child, or the child of the request, whose start is still pending when the request
  waits; a start that succeeds later keeps it.\<close>

definition spawn_pending :: "dyn_env \<Rightarrow> string \<Rightarrow> string \<Rightarrow> string \<Rightarrow> dyn_sup \<Rightarrow> bool" where
  "spawn_pending denv sp n i s \<longleftrightarrow>
     (\<exists>ps m tid d caps meta pk ep. ds_pending s = ps @ [PendReply m n tid d caps meta pk ep]
        \<and> (\<forall>ag err. a_status ag \<in> {RUNNING, SUSPENDED} \<longrightarrow>
             spawned_by sp n i (finish_spawn denv ag err m n d caps meta pk ep (s\<lparr>ds_pending := ps\<rparr>))))"

lemma handle_spawn_late:
  fixes msg defines "q \<equiv> parse_spawn (m_payload msg)"
  assumes "hook_adds_nothing denv" "d_has_bus denv" "dget (ds_children s) (sq_name q) = None"
    and "s' = snd (handle_spawn denv msg s)" "dget (ds_children s') (sq_name q) \<noteq> None"
  shows "spawned_by (sq_spawner q) (sq_name q) (sq_spawn_id q) s'"
    "sq_wait q \<Longrightarrow> spawn_pending denv (sq_spawner q) (sq_name q) (sq_spawn_id q) s'"
proof -
  obtain r1 where h: "handle_spawn denv msg s = (r1, s')" using assms(5) by (metis prod.collapse)
  have "spawned_by (sq_spawner q) (sq_name q) (sq_spawn_id q) s' \<and>
      (sq_wait q \<longrightarrow> spawn_pending denv (sq_spawner q) (sq_name q) (sq_spawn_id q) s')"
    using assms(2) assms(4) [unfolded q_def] h
  proof (cases rule: handle_spawn_new)
    case (3 st)
    then show ?thesis by (simp add: q_def)
  next
    case (4 ps tid d caps meta pk ep)
    then show ?thesis
      using finish_ready(2) [OF _ assms(3) refl] unfolding spawn_pending_def q_def
      by (metis (no_types, lifting) spawned_by_other(3))
  qed (use assms(6) in \<open>simp_all add: q_def\<close>)
  then show "spawned_by (sq_spawner q) (sq_name q) (sq_spawn_id q) s'"
    "sq_wait q \<Longrightarrow> spawn_pending denv (sq_spawner q) (sq_name q) (sq_spawn_id q) s'" by blast+
qed

text \<open>C19. What a spawn tells its caller. An agent that spawns a free name into a dynamic supervisor gets the name back only
  when the supervisor then has a child of this name, which carries the identifier of this request and has the agent as
  its spawner. When the supervisor answers in time, the name comes back exactly then: whatever is raised, no such child is
  left behind, with or without waiting for the start of the child, under every admission limit and every outcome of the
  governance hook, and with the text of the refused admission as the error. When the answer does not come within the
  timeout of the request, \<^verbatim>\<open>SpawnError\<close> says no more than that: the request, if it has been
  handled, is not undone, an admitted child stays in the table as the child of this request, and a start that succeeds
  later keeps it.\<close>

theorem spawn_end_to_end:
  assumes "hook_adds_nothing denv" "d_has_bus denv" "dget (ds_children s) name = None" "c_has_bus env"
    and "spawn_target_error env supervisor a = None"
    and "spawn_into env py_str texts (serve_spawn senv sa tx denv fault timing) supervisor class_path name config wait (a, s) = (r, a', s')"
  shows "(\<forall>n. r = Inr n \<longrightarrow> n = name \<and> spawned_by (c_name env) name (e_uuid env (a_uid a)) s')
    \<and> (timing \<notin> {Late, Unserved} \<longrightarrow>
         (r = Inr name \<longleftrightarrow> dget (ds_children s') name \<noteq> None)
       \<and> (\<forall>reason. admission_error denv (parse_spawn (agent_spawn_payload env class_path name config wait (e_uuid env (a_uid a)))) s = Some reason
            \<longrightarrow> r = Inl (SpawnError (reason_text tx reason)) \<and> s' = s))
    \<and> (timing \<in> {Late, Unserved} \<longrightarrow>
         r = Inl (SpawnError (''spawn into '' @ quoted supervisor @ '' timed out (target unresponsive)''))
       \<and> (timing = Unserved \<longrightarrow> s' = s)
       \<and> (timing = Late \<longrightarrow> (\<exists>m. m_payload m = agent_spawn_payload env class_path name config wait (e_uuid env (a_uid a))
            \<and> s' = snd (handle_spawn denv m s)))
       \<and> (dget (ds_children s') name \<noteq> None \<longrightarrow> spawned_by (c_name env) name (e_uuid env (a_uid a)) s'
            \<and> (wait \<longrightarrow> spawn_pending denv (c_name env) name (e_uuid env (a_uid a)) s')))"
    (is "?A \<and> ?B \<and> ?C")
proof -
  let ?p = "agent_spawn_payload env class_path name config wait (e_uuid env (a_uid a))"
  obtain m a1 where m: "ask_message env supervisor ?p ''civitas.dynamic.spawn'' (tick_uid a) = (Inr m, a1)" "m_payload m = ?p"
    using ask_dynamic [OF assms(4), of "''civitas.dynamic.spawn''" supervisor ?p "tick_uid a"] by auto
  have free: "dget (ds_children s) (sq_name (parse_spawn (m_payload m))) = None" using assms(3) m by simp
  show ?thesis
  proof (cases timing)
    case (InTime ag err)
    obtain r1 where r1: "serve_spawn senv sa tx denv fault (InTime ag err) m s = (r1, s')"
      and r: "r = fst (spawn_into env py_str texts (serve_spawn senv sa tx denv fault timing) supervisor class_path name config wait (a, s))"
      using assms(5,6) m unfolding InTime by (auto simp: spawn_into_def agent_ask_def split: sum.splits exn.splits prod.splits)
    have err: "\<exists>e. r = Inl e" if "r1 = Inl e" for e
      using that r assms(5) m r1 InTime by (auto simp: spawn_into_def agent_ask_def split: exn.splits)
    have ans: "r = spawn_answer py_str name rep" if "r1 = Inr rep" for rep
      using that r assms(5) m r1 InTime by (simp add: spawn_into_def agent_ask_def)
    have main: "(r = Inr name \<and> spawned_by (c_name env) name (e_uuid env (a_uid a)) s') \<or> ((\<exists>e. r = Inl e) \<and> dget (ds_children s') name = None)"
      using assms(1,2) free r1
    proof (cases rule: serve_spawn_new)
      case (2 rep)
      then show ?thesis using ans [OF 2(1)] m by (auto simp: spawn_answer_def Let_def)
    next
      case (3 rep)
      then show ?thesis using ans [OF 3(1)] m by (auto simp: spawn_answer_def Let_def)
    qed (use err m in auto)
    have "r = Inl (SpawnError (reason_text tx reason)) \<and> s' = s" if "admission_error denv (parse_spawn ?p) s = Some reason" for reason
    proof -
      have "serve_spawn senv sa tx denv fault (InTime ag err) m s = (Inr (reply_to_message senv m (reply_payload tx (ReplyError reason)) sa), s)"
        using that assms(3) m by (simp add: serve_spawn_def handle_spawn_def)
      then show ?thesis using ans r1 by (auto simp: spawn_answer_def as_str_def Let_def)
    qed
    then show ?thesis using main InTime by (auto simp: spawned_by_def)
  next
    case Late
    then have s': "s' = snd (handle_spawn denv m s)"
      and r: "r = Inl (SpawnError (''spawn into '' @ quoted supervisor @ '' timed out (target unresponsive)''))"
      using assms(5,6) m by (auto simp: spawn_into_def agent_ask_def serve_spawn_def quoted_def)
    show ?thesis
      using handle_spawn_late [OF assms(1,2) free s'] m(2) r s' Late by (auto simp del: not_None_eq)
  next
    case Unserved
    then show ?thesis
      using assms(3,5,6) m by (auto simp: spawn_into_def agent_ask_def serve_spawn_def quoted_def)
  qed
qed

lemma sample_spawn_admitted:
  "m_payload m = agent_spawn_payload (base_env ''boss'') ''pkg.Agent'' ''w'' [] True i \<Longrightarrow>
   dget (ds_children (snd (handle_spawn (open_dyn_env TRANSIENT) m (new_dyn_sup (Some (new_registry True)) 0)))) ''w'' \<noteq> None"
  by (simp add: handle_spawn_def admission_error_def admit_def Let_def new_dyn_sup_def reached_def open_dyn_env_def ds_log_def
      new_registry_def lookup_def register_def Dynamic_Supervisor.resolve_class_def py_rpartition_def base_class_def dict_simps)

text \<open>A spawn answered in time, and one whose child is still starting when the caller gives up.\<close>

theorem spawn_end_to_end_witness:
  "(\<exists>a' s'. spawn_into (base_env ''boss'') (\<lambda>v. []) (\<lambda>e. []) (serve_spawn (base_env ''dyn'') (new_agent (base_env ''dyn'') None None 0)
        \<lparr>dt_int = (\<lambda>i. []), dt_import = (\<lambda>c. []), dt_error = (\<lambda>e. [])\<rparr> (open_dyn_env TRANSIENT) (\<lambda>e. e)
        (InTime (new_agent (base_env ''w'') None None 0) None)) ''dyn'' ''pkg.Agent'' ''w'' [] False
      (new_agent (base_env ''boss'') None None 0, new_dyn_sup (Some (new_registry True)) 0) = (Inr ''w'', a', s')
    \<and> spawned_by ''boss'' ''w'' (e_uuid (base_env ''boss'') 0) s')
   \<and> (\<exists>reason a' s'. spawn_into (base_env ''boss'') (\<lambda>v. []) (\<lambda>e. []) (serve_spawn (base_env ''dyn'') (new_agent (base_env ''dyn'') None None 0)
        \<lparr>dt_int = (\<lambda>i. []), dt_import = (\<lambda>c. []), dt_error = (\<lambda>e. [])\<rparr> (open_dyn_env TRANSIENT) (\<lambda>e. e) Late)
        ''dyn'' ''pkg.Agent'' ''w'' [] True
      (new_agent (base_env ''boss'') None None 0, new_dyn_sup (Some (new_registry True)) 0) = (Inl (SpawnError reason), a', s')
    \<and> spawn_pending (open_dyn_env TRANSIENT) ''boss'' ''w'' (e_uuid (base_env ''boss'') 0) s')"
proof (rule conjI)
  let ?env = "base_env ''boss''" and ?a = "new_agent (base_env ''boss'') None None 0" and ?s = "new_dyn_sup (Some (new_registry True)) 0"
  let ?serve = "serve_spawn (base_env ''dyn'') (new_agent (base_env ''dyn'') None None 0)
        \<lparr>dt_int = (\<lambda>i. []), dt_import = (\<lambda>c. []), dt_error = (\<lambda>e. [])\<rparr> (open_dyn_env TRANSIENT) (\<lambda>e. e)
        (InTime (new_agent (base_env ''w'') None None 0) None)"
  obtain r a' s' where sp: "spawn_into ?env (\<lambda>v. []) (\<lambda>e. []) ?serve ''dyn'' ''pkg.Agent'' ''w'' [] False (?a, ?s) = (r, a', s')"
    by (metis surj_pair)
  have h: "hook_adds_nothing (open_dyn_env TRANSIENT)"
    using hook_adds_nothing_open [of None TRANSIENT] by (simp add: open_dyn_env_def)
  have bus: "c_has_bus ?env" "c_name ?env = ''boss''" "a_uid ?a = 0" "spawn_target_error ?env ''dyn'' ?a = None"
    by (simp_all add: base_env_def new_agent_def spawn_target_error_def)
  have free: "dget (ds_children ?s) ''w'' = None" by (simp add: new_dyn_sup_def)
  have "r = Inr ''w''"
  proof -
    obtain m a1 where m: "ask_message ?env ''dyn'' (agent_spawn_payload ?env ''pkg.Agent'' ''w'' [] False (e_uuid ?env 0)) ''civitas.dynamic.spawn'' (tick_uid ?a) = (Inr m, a1)"
      "m_payload m = agent_spawn_payload ?env ''pkg.Agent'' ''w'' [] False (e_uuid ?env 0)"
      using ask_dynamic [OF bus(1), of "''civitas.dynamic.spawn''" "''dyn''" "agent_spawn_payload ?env ''pkg.Agent'' ''w'' [] False (e_uuid ?env 0)" "tick_uid ?a"] by auto
    have "\<exists>st s1. handle_spawn (open_dyn_env TRANSIENT) m ?s = (Inr (Some (ReplySpawned ''w'' False st)), s1)"
      using m(2) free by (simp add: handle_spawn_def admission_error_def admit_def Let_def new_dyn_sup_def reached_def open_dyn_env_def
          new_registry_def lookup_def register_def Dynamic_Supervisor.resolve_class_def py_rpartition_def base_class_def)
    then obtain st s1 where "handle_spawn (open_dyn_env TRANSIENT) m ?s = (Inr (Some (ReplySpawned ''w'' False st)), s1)" by blast
    then have "fst (spawn_into ?env (\<lambda>v. []) (\<lambda>e. []) ?serve ''dyn'' ''pkg.Agent'' ''w'' [] False (?a, ?s)) = Inr ''w''"
      using m bus by (simp add: spawn_into_def agent_ask_def serve_spawn_def spawn_answer_def)
    then show ?thesis using sp by simp
  qed
  moreover from spawn_end_to_end [OF h open_dyn_env_fields(2) free bus(1,4) sp]
  have "\<forall>n. r = Inr n \<longrightarrow> spawned_by ''boss'' ''w'' (e_uuid ?env 0) s'" unfolding bus(2,3) by blast
  ultimately show "\<exists>a' s'. spawn_into ?env (\<lambda>v. []) (\<lambda>e. []) ?serve ''dyn'' ''pkg.Agent'' ''w'' [] False (?a, ?s) = (Inr ''w'', a', s')
      \<and> spawned_by ''boss'' ''w'' (e_uuid ?env 0) s'" using sp by blast
  let ?late = "serve_spawn (base_env ''dyn'') (new_agent (base_env ''dyn'') None None 0)
        \<lparr>dt_int = (\<lambda>i. []), dt_import = (\<lambda>c. []), dt_error = (\<lambda>e. [])\<rparr> (open_dyn_env TRANSIENT) (\<lambda>e. e) Late"
  obtain q b s2 where sp2: "spawn_into ?env (\<lambda>v. []) (\<lambda>e. []) ?late ''dyn'' ''pkg.Agent'' ''w'' [] True (?a, ?s) = (q, b, s2)"
    by (metis surj_pair)
  note late = spawn_end_to_end [OF h open_dyn_env_fields(2) free bus(1,4) sp2, unfolded bus(2,3)]
  then obtain m where "m_payload m = agent_spawn_payload ?env ''pkg.Agent'' ''w'' [] True (e_uuid ?env 0)"
    "s2 = snd (handle_spawn (open_dyn_env TRANSIENT) m ?s)" by blast
  then have "dget (ds_children s2) ''w'' \<noteq> None" using sample_spawn_admitted by simp
  with late sp2 show "\<exists>reason a' s'. spawn_into ?env (\<lambda>v. []) (\<lambda>e. []) ?late ''dyn'' ''pkg.Agent'' ''w'' [] True (?a, ?s) = (Inl (SpawnError reason), a', s')
      \<and> spawn_pending (open_dyn_env TRANSIENT) ''boss'' ''w'' (e_uuid ?env 0) s'" by blast
qed

section \<open>Where a started runtime lets agents spawn\<close>

lemma start_registry_dynamic:
  assumes "start_registry att yaml t (new_registry l) = Inr r" "b \<in> set (tree_agents t)" "is_dynamic att b"
  shows "\<exists>e. lookup r (built_name b) = Some e \<and> DYNAMIC_SUPERVISOR_CAPABILITY \<in> set (e_capabilities e)"
  using start_registry_agent [OF assms(1,2) surjective_pairing] assms(3)
  by (auto simp: registered_with_def local_entry_def split: if_splits)

lemma wired_to_dynamic:
  assumes "(n, Some d) \<in> set (wire_dyn_sup att nearest b)"
  shows "nearest = Some d \<or> (\<exists>x \<in> set (built_leaves b). is_dynamic att x \<and> built_name x = d)"
  using assms
proof (induction b arbitrary: nearest)
  case (BSupervisor m s cs)
  define nn where "nn = (case dyn_child att cs of Some d \<Rightarrow> Some d | None \<Rightarrow> nearest)"
  from BSupervisor.prems obtain c where c: "c \<in> set cs" "(n, Some d) \<in> set (wire_dyn_sup att nn c)" by (auto simp: nn_def)
  from BSupervisor.IH [OF c] show ?case
  proof
    assume n: "nn = Some d"
    show ?thesis
    proof (cases "dyn_child att cs")
      case (Some d')
      moreover from this n have "d' = d" by (simp add: nn_def)
      ultimately obtain x where "find (is_dynamic att) cs = Some x" "built_name x = d" by (auto simp: dyn_child_def)
      then have x: "x \<in> set cs" "is_dynamic att x" "built_name x = d" by (auto simp: find_Some_iff)
      have "x \<in> set (built_leaves x)" using x(2) by (cases x) simp_all
      then show ?thesis using x by auto
    qed (use n in \<open>simp add: nn_def\<close>)
  qed (use c in auto)
qed (auto split: if_splits)

lemma leaf_path_agent:
  assumes "is_supervisor t" "(path, b) \<in> set (leaf_paths [] t)"
  shows "b \<in> set (tree_agents t)"
  using assms(2) paths_leaves [of "[]" t] tree_agents_leaves [OF assms(1)] by (metis image_eqI set_map snd_conv)

lemma leaf_by_name:
  assumes "start_registry att yaml t (new_registry l) = Inr r" "b \<in> set (tree_agents t)" "x \<in> set (tree_agents t)" "built_name x = built_name b"
  shows "x = b"
proof -
  have "inj_on built_name (set (tree_agents t))"
    using start_registry_entries(1) [OF assms(1)] by (simp add: distinct_map)
  then show ?thesis using assms(2-4) by (simp add: inj_on_def)
qed

lemma nearest_dynamic_find:
  "nearest_dynamic att path = (case find (\<lambda>cs. \<exists>c \<in> set cs. is_dynamic att c) path of
      None \<Rightarrow> None | Some cs \<Rightarrow> map_option built_name (find (is_dynamic att) cs))"
proof -
  have "(dyn_child att cs \<noteq> None) = (\<exists>c \<in> set cs. is_dynamic att c)" for cs
    by (auto simp: dyn_child_def find_None_iff)
  then show ?thesis by (simp add: nearest_dynamic_def) (simp add: dyn_child_def split: option.split)
qed

text \<open>Distinct names: the wiring of an agent is unique.\<close>

lemma wired_once:
  assumes "is_supervisor t" "start_registry att yaml t (new_registry l) = Inr r" "(path, b) \<in> set (leaf_paths [] t)"
  shows "\<forall>d. (built_name b, d) \<in> set (wire_dyn_sup att None t) \<longleftrightarrow>
      d = (if is_dynamic att b then Some (built_name b) else nearest_dynamic att path)"
proof -
  let ?f = "\<lambda>(path, l). (built_name l, if is_dynamic att l then Some (built_name l) else nearest_dynamic att path)"
  have w: "wire_dyn_sup att None t = map ?f (leaf_paths [] t)"
    using wire_dyn_sup_paths [of att "[]" t] by (simp add: nearest_dynamic_def)
  have "map fst (map ?f (leaf_paths [] t)) = map built_name (map snd (leaf_paths [] t))" by (simp add: comp_def split_def)
  then have d: "distinct (map fst (wire_dyn_sup att None t))"
    using start_registry_entries(1) [OF assms(2)] by (simp add: w paths_leaves tree_agents_leaves [OF assms(1)] del: map_map)
  have "?f (path, b) \<in> set (wire_dyn_sup att None t)" unfolding w set_map by (rule imageI [OF assms(3)])
  then have e: "(built_name b, if is_dynamic att b then Some (built_name b) else nearest_dynamic att path) \<in> set (wire_dyn_sup att None t)"
    by simp
  show ?thesis using e eq_key_imp_eq_value [OF d e] by metis
qed

text \<open>A spawn whose target passes the checks is one request, in the name of the agent.\<close>

lemma spawn_into_sends:
  assumes "c_has_bus env" "spawn_target_error env d a = None"
  shows "\<exists>m. m_recipient m = d \<and> m_sender m = c_name env \<and> m_type m = ''civitas.dynamic.spawn''
      \<and> m_payload m = agent_spawn_payload env class_path name config wait (e_uuid env (a_uid a))
      \<and> snd (snd (spawn_into env py_str texts request d class_path name config wait (a, w))) = snd (request m w)"
proof -
  let ?p = "agent_spawn_payload env class_path name config wait (e_uuid env (a_uid a))"
  have "\<exists>m a1. ask_message env d ?p ''civitas.dynamic.spawn'' (tick_uid a) = (Inr m, a1) \<and> m_recipient m = d
      \<and> m_sender m = c_name env \<and> m_type m = ''civitas.dynamic.spawn'' \<and> m_payload m = ?p"
    using assms(1) by (auto simp: ask_message_def reject_reserved_type_def with_trace_def Let_def split: option.splits)
  then obtain m a1 where m: "ask_message env d ?p ''civitas.dynamic.spawn'' (tick_uid a) = (Inr m, a1)" "m_recipient m = d"
    "m_sender m = c_name env" "m_type m = ''civitas.dynamic.spawn''" "m_payload m = ?p" by blast
  then have "snd (snd (spawn_into env py_str texts request d class_path name config wait (a, w))) = snd (request m w)"
    using assms(2) by (auto simp: spawn_into_def agent_ask_def split: prod.splits sum.splits exn.splits)
  then show ?thesis using m by blast
qed

text \<open>C35. Where the start lets agents spawn. The start wires every agent of the tree to exactly one target. A dynamic
  supervisor is wired to itself, so each of its own spawns is refused and nothing is sent. Every other agent is wired to
  the first dynamic supervisor among the children of the innermost supervisor above it that has one: this target passes
  the checks of its spawns, which are sent to it as one request in the name of the agent. An agent without such a
  supervisor has every spawn refused and nothing is sent.\<close>

theorem wired_spawn_target:
  assumes "is_supervisor t" "start_registry att yaml t (new_registry l) = Inr r"
    and "(path, b) \<in> set (leaf_paths [] t)" "c_name env = built_name b" "a_registry a = Some r" "c_has_bus env"
  shows "\<exists>dyn. (\<forall>d. (built_name b, d) \<in> set (wire_dyn_sup att None t) \<longleftrightarrow> d = dyn)
    \<and> (is_dynamic att b \<longrightarrow> dyn = Some (built_name b)
         \<and> agent_spawn env py_str texts request dyn class_path name config wait (a, w) = (Inl (SpawnError ''cannot spawn into self''), a, w))
    \<and> (\<not> is_dynamic att b \<longrightarrow>
        (case find (\<lambda>cs. \<exists>c \<in> set cs. is_dynamic att c) path of
           None \<Rightarrow> dyn = None
             \<and> agent_spawn env py_str texts request dyn class_path name config wait (a, w) = (Inl NO_DYN, a, w)
         | Some cs \<Rightarrow> (\<exists>d. find (is_dynamic att) cs = Some d \<and> dyn = Some (built_name d)
             \<and> spawn_target_error env (built_name d) a = None
             \<and> (\<exists>m. m_recipient m = built_name d \<and> m_sender m = built_name b \<and> m_type m = ''civitas.dynamic.spawn''
                  \<and> m_payload m = agent_spawn_payload env class_path name config wait (e_uuid env (a_uid a))
                  \<and> snd (snd (agent_spawn env py_str texts request dyn class_path name config wait (a, w))) = snd (request m w)))))"
    (is "\<exists>dyn. ?once dyn \<and> ?self dyn \<and> (\<not> is_dynamic att b \<longrightarrow> ?other dyn)")
proof -
  define dyn where "dyn = (if is_dynamic att b then Some (built_name b) else nearest_dynamic att path)"
  have wired: "(\<forall>d. (built_name b, d) \<in> set (wire_dyn_sup att None t) \<longleftrightarrow> d = dyn)"
    unfolding dyn_def by (rule wired_once [OF assms(1-3)])
  have self: "agent_spawn env py_str texts request (Some (built_name b)) class_path name config wait (a, w) = (Inl (SpawnError ''cannot spawn into self''), a, w)"
    using assms(4) by (simp add: agent_spawn_def spawn_into_def spawn_target_error_def)
  have target: "spawn_target_error env d a = None" if d: "dyn = Some d" "\<not> is_dynamic att b" for d
  proof -
    obtain x where x: "x \<in> set (tree_agents t)" "is_dynamic att x" "built_name x = d"
      using wired_to_dynamic [OF iffD2 [OF spec [OF wired] d(1) [symmetric]]] tree_agents_leaves [OF assms(1)] by auto
    have "d \<noteq> built_name b"
      using leaf_by_name [OF assms(2) leaf_path_agent [OF assms(1,3)] x(1)] x(2,3) d(2) by blast
    then show ?thesis
      using start_registry_dynamic [OF assms(2) x(1,2)] assms(4,5) x(3) by (auto simp: spawn_target_error_def)
  qed
  have near: "nearest_dynamic att path = (case find (\<lambda>cs. \<exists>c \<in> set cs. is_dynamic att c) path of
      None \<Rightarrow> None | Some cs \<Rightarrow> map_option built_name (find (is_dynamic att) cs))"
    by (rule nearest_dynamic_find)
  show ?thesis
  proof (intro exI [of _ dyn] conjI impI)
    assume nd: "\<not> is_dynamic att b"
    show "?other dyn"
    proof (cases "find (\<lambda>cs. \<exists>c \<in> set cs. is_dynamic att c) path")
      case None
      then show ?thesis using nd near by (simp add: dyn_def agent_spawn_def)
    next
      case (Some cs)
      then have "find (is_dynamic att) cs \<noteq> None" by (auto simp: find_Some_iff find_None_iff)
      then obtain d where d: "find (is_dynamic att) cs = Some d" by blast
      then have "dyn = Some (built_name d)" using nd near Some by (simp add: dyn_def)
      note dyn = this and ok = target [OF this nd]
      from spawn_into_sends [OF assms(6) ok] d ok show ?thesis
        unfolding dyn agent_spawn_def Some by (simp add: assms(4))
    qed
  qed (use wired self in \<open>simp_all add: dyn_def\<close>)
qed

theorem wired_spawn_target_witness:
  "\<exists>r. start_registry sample_attrs [] sample_tree (new_registry True) = Inr r
     \<and> spawn_target_error (base_env ''a'') ''pool'' (new_agent (base_env ''a'') (Some r) None 0) = None
     \<and> (''a'', Some ''pool'') \<in> set (wire_dyn_sup sample_attrs None sample_tree)
     \<and> (''pool'', Some ''pool'') \<in> set (wire_dyn_sup sample_attrs None sample_tree)
     \<and> agent_spawn (base_env ''pool'') (\<lambda>v. []) (\<lambda>e. []) (\<lambda>m w. (Inr m, w)) (Some ''pool'') ''pkg.Agent'' ''w'' [] True
         (new_agent (base_env ''pool'') (Some r) None 0, ()) = (Inl (SpawnError ''cannot spawn into self''), new_agent (base_env ''pool'') (Some r) None 0, ())"
proof -
  have "fresh_names (start_entries sample_attrs [] sample_tree) (new_registry True)"
    by (simp add: fresh_names_def start_entries_def sample_tree_def lookup_def new_registry_def)
  then obtain r where r: "start_registry sample_attrs [] sample_tree (new_registry True) = Inr r"
    using register_names_succeeds by (fastforce simp: start_registry_def)
  have t: "is_supervisor sample_tree" by (simp add: sample_tree_def)
  obtain pa pp where p: "(pa, BAgent ''a'' ()) \<in> set (leaf_paths [] sample_tree)" "(pp, BDynamic ''pool'' sample_params) \<in> set (leaf_paths [] sample_tree)"
    and f: "find (\<lambda>cs. \<exists>c \<in> set cs. is_dynamic sample_attrs c) pa = Some [BDynamic ''pool'' sample_params,
        BSupervisor ''sub'' (new_sup ONE_FOR_ALL 3 60 CONSTANT 1 60) [BAgent ''a'' ()], BAgent ''b'' ()]"
    by (simp add: sample_tree_def sample_attrs_def)
  have e: "c_name (base_env ''a'') = built_name (BAgent ''a'' ())" "c_name (base_env ''pool'') = built_name (BDynamic ''pool'' sample_params)"
    "c_has_bus (base_env n)" for n by (simp_all add: base_env_def)
  have g: "a_registry (new_agent e (Some r) None 0) = Some r" for e by (simp add: new_agent_def)
  have nd: "\<not> is_dynamic sample_attrs (BAgent ''a'' ())" by (simp add: sample_attrs_def)
  show ?thesis
    using wired_spawn_target [OF t r p(1) e(1) g e(3), where py_str = "\<lambda>v. []" and texts = "\<lambda>e. []"
          and request = "\<lambda>m w. (Inr m, w)" and class_path = "''pkg.Agent''" and name = "''w''" and config = "[]" and wait = True and w = "()"] f nd
      wired_spawn_target [OF t r p(2) e(2) g e(3), where py_str = "\<lambda>v. []" and texts = "\<lambda>e. []"
          and request = "\<lambda>m w. (Inr m, w)" and class_path = "''pkg.Agent''" and name = "''w''" and config = "[]" and wait = True and w = "()"] r
    by auto
qed

text \<open>A despawn succeeds exactly when the child was there, and the child is gone in both cases.\<close>

lemma despawn_end_to_end:
  assumes "c_has_bus env" "agent_despawn env py_str (serve_despawn senv sa tx denv) (Some supervisor) name (a, s) = (r, a', s')"
  shows "(r = Inr () \<longleftrightarrow> dget (ds_children s) name \<noteq> None) \<and> dget (ds_children s') name = None
    \<and> (dget (ds_children s) name = None \<longrightarrow> r = Inl (SpawnError (reason_text tx (NoDynamicAgent name))) \<and> s' = s)"
proof -
  obtain m a1 where m: "ask_message env supervisor [(''name'', JStr name)] ''civitas.dynamic.despawn'' a = (Inr m, a1)"
    "m_payload m = [(''name'', JStr name)]"
    using ask_dynamic [OF assms(1), of "''civitas.dynamic.despawn''" supervisor "[(''name'', JStr name)]" a] by auto
  show ?thesis
  proof (cases "dget (ds_children s) name")
    case None
    then show ?thesis
      using assms(2) m by (auto simp: agent_despawn_def agent_ask_def serve_despawn_def handle_despawn_def dyn_answer_def get_str_def as_str_def Let_def)
  next
    case (Some rec)
    then have "r = Inr ()" "s' = snd (handle_despawn denv name s)"
      using assms(2) m by (auto simp: agent_despawn_def agent_ask_def serve_despawn_def handle_despawn_def dyn_answer_def get_str_def Let_def)
    then show ?thesis using Some by (simp add: handle_despawn_def dict_simps)
  qed
qed

end
