(* ===== verification/Topology_Tools.thy ===== *)
theory Topology_Tools
  imports Agent_Spawn "HOL-Library.List_Lexorder" "HOL-Library.Char_ord"
begin

text \<open>
  The commands on topology files of \<^verbatim>\<open>src/civitas/cli/topology.py\<close>: the checks of \<^verbatim>\<open>validate\<close>, the
  counts, the discovery of the introspection endpoint (\<^verbatim>\<open>cli/_topology_discovery.py\<close>), the headers of
  \<^verbatim>\<open>show\<close> and the comparison of \<^verbatim>\<open>diff\<close>. The trees that \<^verbatim>\<open>show\<close> prints are left out.
\<close>

section \<open>Validation\<close>

type_synonym check = "string \<times> string \<times> bool"       \<comment> \<open>category, message, passed\<close>

record validation =
  va_checks :: "check list"
  va_agents :: "json list"
  va_supervisors :: "json list"
  va_empty :: bool

definition ok_check :: "string \<Rightarrow> string \<Rightarrow> validation \<Rightarrow> validation" where
  "ok_check category msg r = r\<lparr>va_checks := va_checks r @ [(category, msg, True)]\<rparr>"

definition fail_check :: "string \<Rightarrow> string \<Rightarrow> validation \<Rightarrow> validation" where
  "fail_check category msg r = r\<lparr>va_checks := va_checks r @ [(category, msg, False)]\<rparr>"

definition fail_if :: "bool \<Rightarrow> string \<Rightarrow> string \<Rightarrow> validation \<Rightarrow> validation" where
  "fail_if b category msg r = (if b then fail_check category msg r else r)"

definition passed :: "validation \<Rightarrow> bool" where
  "passed r \<longleftrightarrow> list_all (\<lambda>c. snd (snd c)) (va_checks r)"

definition error_count :: "validation \<Rightarrow> nat" where
  "error_count r = length (filter (\<lambda>c. \<not> snd (snd c)) (va_checks r))"

definition VALID_STRATEGIES :: "string list" where
  "VALID_STRATEGIES = [''ONE_FOR_ALL'', ''ONE_FOR_ONE'', ''REST_FOR_ONE'']"

definition VALID_BACKOFF :: "string list" where
  "VALID_BACKOFF = [''CONSTANT'', ''LINEAR'', ''EXPONENTIAL'']"

definition VALID_TRANSPORTS :: "string list" where
  "VALID_TRANSPORTS = [''in_process'', ''zmq'', ''nats'']"

text \<open>\<^verbatim>\<open>isinstance(v, int) and v >= 0\<close>; a Boolean is an integer.\<close>

definition non_negative_int :: "json \<Rightarrow> bool" where
  "non_negative_int v = (case v of JInt i \<Rightarrow> i \<ge> 0 | JBool b \<Rightarrow> True | _ \<Rightarrow> False)"

text \<open>Equality of keys: numbers compare by their value.\<close>

definition key_form :: "json \<Rightarrow> json" where
  "key_form v = (case hash_key v of Inr h \<Rightarrow> h | Inl e \<Rightarrow> v)"

definition has_key :: "payload \<Rightarrow> string \<Rightarrow> bool" where
  "has_key d k \<longleftrightarrow> dget d k \<noteq> None"

text \<open>The name of an agent block or of a typed node.\<close>

definition record_name :: "json \<Rightarrow> validation \<Rightarrow> validation" where
  "record_name name r = (if truthy name then r\<lparr>va_agents := va_agents r @ [name]\<rparr> else r)"

definition validate_leaf :: "(json \<Rightarrow> string) \<Rightarrow> payload \<Rightarrow> string \<Rightarrow> validation \<Rightarrow> validation result" where
  "validate_leaf py_str node path r =
     (let ty = get_or JNull node ''type''; name = get_or JNull node ''name'' in
      case dget node ''agent'' of
        Some v \<Rightarrow>
          bind_r (as_dict v) (\<lambda>a.
            Inr (record_name (get_or JNull a ''name'')
              (fail_if (\<not> truthy (get_or JNull a ''type'')) ''Naming'' (path @ '': agent missing '' @ quoted ''type'')
              (fail_if (\<not> truthy (get_or JNull a ''name'')) ''Naming'' (path @ '': agent missing '' @ quoted ''name'') r))))
      | None \<Rightarrow>
          if ty \<in> {JStr ''gen_server'', JStr ''agent''} \<and> has_key node ''module'' \<and> has_key node ''class''
             \<or> ty \<in> {JStr ''dynamic_supervisor'', JStr ''topology_server'', JStr ''eval_agent'', JStr ''http_gateway''}
             \<or> has_key node ''type'' \<and> has_key node ''name''
          then Inr (record_name name (fail_if (\<not> truthy name) ''Naming''
                 (path @ '': '' @ as_str py_str ty @ '' missing '' @ quoted ''name'') r))
          else Inr (fail_check ''Structure'' (path @ '': node is neither '' @ quoted ''supervisor'' @ '' nor '' @ quoted ''agent'') r))"

definition validate_policy :: "string \<Rightarrow> payload \<Rightarrow> validation \<Rightarrow> validation result" where
  "validate_policy at_path s r =
     bind_r (upper_of (get_or (JStr ''one_for_one'') s ''strategy'')) (\<lambda>strategy.
     bind_r (upper_of (get_or (JStr ''constant'') s ''backoff'')) (\<lambda>backoff.
       Inr (fail_if (backoff \<notin> set VALID_BACKOFF) ''Configuration'' (at_path @ '': invalid backoff '' @ quoted backoff)
           (fail_if (strategy \<notin> set VALID_STRATEGIES) ''Configuration'' (at_path @ '': invalid strategy '' @ quoted strategy) r))))"

definition mark_empty :: "payload \<Rightarrow> validation \<Rightarrow> validation" where
  "mark_empty s r = (if truthy (get_or (JList []) s ''children'') then r else r\<lparr>va_empty := True\<rparr>)"

function (sequential) validate_node :: "(json \<Rightarrow> string) \<Rightarrow> json \<Rightarrow> string \<Rightarrow> validation \<Rightarrow> validation result"
and validate_nodes :: "(json \<Rightarrow> string) \<Rightarrow> json list \<Rightarrow> string \<Rightarrow> validation \<Rightarrow> validation result" where
  "validate_node py_str (JDict node) path r =
     (case dget node ''supervisor'' of
        Some (JDict s) \<Rightarrow>
          (let name = get_or (JStr ''<unnamed>'') s ''name'';
               at_path = path @ ''.'' @ as_str py_str name in
           case validate_policy at_path s (r\<lparr>va_supervisors := va_supervisors r @ [name]\<rparr>) of
             Inl e \<Rightarrow> Inl e
           | Inr r1 \<Rightarrow>
               (let r2 = mark_empty s (fail_if (\<not> non_negative_int (get_or (JInt 3) s ''max_restarts'')) ''Configuration''
                           (at_path @ '': max_restarts must be non-negative int'') r1) in
                case children_of None s of
                  Inl e \<Rightarrow> Inl e
                | Inr cs \<Rightarrow> validate_nodes py_str cs at_path r2))
      | Some v \<Rightarrow> Inl AttributeError
      | None \<Rightarrow> validate_leaf py_str node path r)"
| "validate_node py_str v path r = Inl (bad_node None v)"
| "validate_nodes py_str [] path r = Inr r"
| "validate_nodes py_str (c # cs) path r =
     (case validate_node py_str c path r of Inl e \<Rightarrow> Inl e | Inr r1 \<Rightarrow> validate_nodes py_str cs path r1)"
  by pat_completeness auto
termination
proof (relation "measure (case_sum (\<lambda>(p, v, path, r). size v) (\<lambda>(p, cs, path, r). size_list size cs))", goal_cases)
  case (2 p node path r sc s)
  then show ?case using children_of_size [of None s] size_dget [of node "''supervisor''" sc] by fastforce
qed auto

text \<open>\<^verbatim>\<open>_collect_strategies\<close> visits the supervisor blocks below a node; the texts were read before.\<close>

function (sequential) sup_blocks :: "json \<Rightarrow> payload list" where
  "sup_blocks (JDict node) =
     (case dget node ''supervisor'' of
        Some (JDict s) \<Rightarrow> s # (case children_of None s of Inl e \<Rightarrow> [] | Inr cs \<Rightarrow> concat (map sup_blocks cs))
      | _ \<Rightarrow> [])"
| "sup_blocks v = []"
  by pat_completeness auto
termination
proof (relation "measure size", goal_cases)
  case (2 node v s cs c)
  then have "size c \<le> size_list size cs" by (meson size_list_estimation' order_refl)
  then show ?case using 2 children_of_size [of None s cs] size_dget [of node "''supervisor''" v] by simp
qed simp

definition strategy_of :: "payload \<Rightarrow> string" where
  "strategy_of s = (case get_or (JStr ''one_for_one'') s ''strategy'' of JStr x \<Rightarrow> py_upper x | _ \<Rightarrow> '''')"

text \<open>\<^verbatim>\<open>all(a.get("name") ...)\<close> over the agent blocks directly below the root.\<close>

fun all_named :: "json list \<Rightarrow> bool result" where
  "all_named [] = Inr True"
| "all_named (c # cs) =
     (case c of
        JDict node \<Rightarrow>
          (let a = get_or JNull node ''agent'' in
           if \<not> truthy a then all_named cs
           else bind_r (as_dict a) (\<lambda>d. if truthy (get_or JNull d ''name'') then all_named cs else Inr False))
      | _ \<Rightarrow> Inl AttributeError)"

fun find_duplicates :: "(json \<Rightarrow> string) \<Rightarrow> json list \<Rightarrow> json set \<Rightarrow> validation \<Rightarrow> (bool \<times> validation) result" where
  "find_duplicates py_str [] seen r = Inr (False, r)"
| "find_duplicates py_str (n # ns) seen r =
     bind_r (hash_key n) (\<lambda>h.
       if h \<in> seen
       then map_sum id (\<lambda>p. (True, snd p))
              (find_duplicates py_str ns seen (fail_check ''Naming'' (''Duplicate agent name: '' @ quoted (as_str py_str n)) r))
       else find_duplicates py_str ns (insert h seen) r)"

fun find_conflicts :: "(json \<Rightarrow> string) \<Rightarrow> json list \<Rightarrow> json list \<Rightarrow> validation \<Rightarrow> bool \<times> validation" where
  "find_conflicts py_str sups [] r = (False, r)"
| "find_conflicts py_str sups (n # ns) r =
     (if key_form n \<in> key_form ` set sups
      then (True, snd (find_conflicts py_str sups ns (fail_check ''Naming'' (''Agent/supervisor name conflict: '' @ quoted (as_str py_str n)) r)))
      else find_conflicts py_str sups ns r)"

definition ok_unless :: "bool \<Rightarrow> string \<Rightarrow> string \<Rightarrow> validation \<Rightarrow> validation" where
  "ok_unless b category msg r = (if b then r else ok_check category msg r)"

definition validate_transport :: "(json \<Rightarrow> string) \<Rightarrow> payload \<Rightarrow> validation \<Rightarrow> validation result" where
  "validate_transport py_str config r =
     (let cfg = get_or (JDict []) config ''transport'' in
      if truthy cfg then
        bind_r (as_dict cfg) (\<lambda>t.
        bind_r (hash_key (get_or (JStr ''in_process'') t ''type'')) (\<lambda>ty.
          Inr (if ty \<in> JStr ` set VALID_TRANSPORTS
               then ok_check ''Configuration'' (''Transport config valid - '' @ as_str py_str ty) r
               else fail_check ''Configuration'' (''Invalid transport type: '' @ quoted (as_str py_str (get_or (JStr ''in_process'') t ''type''))) r)))
      else Inr (ok_check ''Configuration'' ''Transport config valid - in_process'' r))"

definition mentions_backoff :: "check \<Rightarrow> bool" where
  "mentions_backoff c \<longleftrightarrow> list_ex (prefix ''backoff'') (suffixes (py_lower (fst (snd c))))"

fun join_text :: "string \<Rightarrow> string list \<Rightarrow> string" where
  "join_text sep [] = []"
| "join_text sep [x] = x"
| "join_text sep (x # y # xs) = x @ sep @ join_text sep (y # xs)"

text \<open>After the tree was visited: naming and configuration as a whole.\<close>

definition validate_rest :: "(json \<Rightarrow> string) \<Rightarrow> payload \<Rightarrow> payload \<Rightarrow> json list \<Rightarrow> validation \<Rightarrow> validation result" where
  "validate_rest py_str config s cs r =
     (let r1 = (if va_empty r then fail_check ''Structure'' ''Supervisor with no children'' r
                else ok_check ''Structure'' ''No empty supervisors'' r);
          r2 = ok_unless (list_ex (\<lambda>c. fst c = ''Structure'' \<and> \<not> snd (snd c)) (va_checks r1)) ''Structure'' ''Supervision tree well-formed'' r1
      in bind_r (all_named cs) (\<lambda>named.
         bind_r (find_duplicates py_str (va_agents r) {} (ok_unless (\<not> named) ''Naming'' ''All agents named'' r2)) (\<lambda>(dupe, r3).
         case find_conflicts py_str (va_supervisors r) (va_agents r) (ok_unless dupe ''Naming'' ''No duplicate names'' r3) of
           (conflict, r4) \<Rightarrow>
             (let used = strategy_of s # map strategy_of (concat (map sup_blocks cs));
                  r5 = ok_unless conflict ''Naming'' ''No agent/supervisor name conflicts'' r4;
                  r6 = ok_unless (\<not> set used \<subseteq> set VALID_STRATEGIES) ''Configuration''
                         (''Strategies valid ('' @ join_text '', '' (filter (\<lambda>x. x \<in> set used) VALID_STRATEGIES) @ '')'') r5;
                  r7 = ok_unless (list_ex (\<lambda>c. mentions_backoff c \<and> \<not> snd (snd c)) (va_checks r6)) ''Configuration'' ''Backoff policies valid'' r6
              in validate_transport py_str config r7))))"

definition validate_topology :: "(json \<Rightarrow> string) \<Rightarrow> payload \<Rightarrow> validation result" where
  "validate_topology py_str config =
     (let r0 = ok_check ''Structure'' ''YAML syntax'' \<lparr>va_checks = [], va_agents = [], va_supervisors = [], va_empty = False\<rparr>;
          top = (case dget config ''supervision'' of Some v \<Rightarrow> v | None \<Rightarrow> get_or JNull config ''supervisor'')
      in if top = JNull then Inr (fail_check ''Structure'' (''Missing '' @ quoted ''supervision'' @ '' section'') r0)
         else bind_r (as_dict top) (\<lambda>s.
              bind_r (validate_policy ''root'' s
                        ((ok_check ''Structure'' ''Supervision section present'' r0)\<lparr>va_supervisors := [get_or (JStr ''root'') s ''name'']\<rparr>)) (\<lambda>r1.
              bind_r (children_of None s) (\<lambda>cs.
              bind_r (validate_nodes py_str cs ''root'' (mark_empty s r1)) (validate_rest py_str config s cs)))))"

section \<open>Counting\<close>

function (sequential) count_agents :: "payload \<Rightarrow> int" where
  "count_agents s =
     (case children_of None s of
        Inl e \<Rightarrow> 0
      | Inr cs \<Rightarrow> sum_list (map (\<lambda>c. case c of
            JDict node \<Rightarrow>
              if dget node ''agent'' \<noteq> None then 1
              else (case dget node ''supervisor'' of Some (JDict b) \<Rightarrow> count_agents b | _ \<Rightarrow> 0)
          | _ \<Rightarrow> 0) cs))"
  by pat_completeness auto
termination
proof (relation "measure (\<lambda>s. size (JDict s))", goal_cases)
  case (2 s cs c node v b)
  then have "size c \<le> size_list size cs" by (meson size_list_estimation' order_refl)
  then show ?case using 2 children_of_size [of None s cs] size_dget [of node "''supervisor''" v] by simp
qed simp

function (sequential) count_supervisors :: "payload \<Rightarrow> int" where
  "count_supervisors s =
     1 + (case children_of None s of
        Inl e \<Rightarrow> 0
      | Inr cs \<Rightarrow> sum_list (map (\<lambda>c. case c of
            JDict node \<Rightarrow> (case dget node ''supervisor'' of Some (JDict b) \<Rightarrow> count_supervisors b | _ \<Rightarrow> 0)
          | _ \<Rightarrow> 0) cs))"
  by pat_completeness auto
termination
proof (relation "measure (\<lambda>s. size (JDict s))", goal_cases)
  case (2 s cs c node v b)
  then have "size c \<le> size_list size cs" by (meson size_list_estimation' order_refl)
  then show ?case using 2 children_of_size [of None s cs] size_dget [of node "''supervisor''" v] by simp
qed simp

declare count_agents.simps [simp del] count_supervisors.simps [simp del]

section \<open>Discovery and headers\<close>

function (sequential) scan_server :: "json \<Rightarrow> (json \<times> json) option result"
and scan_servers :: "json list \<Rightarrow> (json \<times> json) option result" where
  "scan_server (JDict node) =
     (if get_or JNull node ''type'' = JStr ''topology_server'' then
        map_sum id (\<lambda>cfg. Some (get_or (JStr ''127.0.0.1'') cfg ''host'', get_or (JInt 6789) cfg ''port'')) (get_block node ''config'')
      else case dget node ''supervisor'' of
        None \<Rightarrow> Inr None
      | Some (JDict s) \<Rightarrow>
          (case get_or (JList []) s ''children'' of
             JList cs \<Rightarrow> scan_servers cs
           | v \<Rightarrow> (case iterate v of Inl e \<Rightarrow> Inl e | Inr [] \<Rightarrow> Inr None | Inr (x # xs) \<Rightarrow> Inl AttributeError))
      | Some v \<Rightarrow> Inl AttributeError)"
| "scan_server v = Inl AttributeError"
| "scan_servers [] = Inr None"
| "scan_servers (c # cs) =
     (case scan_server c of
        Inl e \<Rightarrow> Inl e
      | Inr (Some hit) \<Rightarrow> Inr (Some hit)
      | Inr None \<Rightarrow> scan_servers cs)"
  by pat_completeness auto
termination
proof (relation "measure (case_sum size (size_list size))", goal_cases)
  case (2 node v s cs)
  then have "JList cs = get_or (JList []) s ''children''" by simp
  then have "size (JList cs) < size (JDict s) \<or> cs = []" using size_dget [of s "''children''"] by (auto simp: get_or_def split: option.splits)
  then show ?case using 2 size_dget [of node "''supervisor''" v] by auto
qed auto

definition find_topology_server :: "payload \<Rightarrow> (json \<times> json) option result" where
  "find_topology_server config =
     bind_r (as_dict (case dget config ''supervision'' of Some v \<Rightarrow> v | None \<Rightarrow> get_or (JDict []) config ''supervisor'')) (\<lambda>s.
       case get_or (JList []) s ''children'' of
         JList cs \<Rightarrow> scan_servers cs
       | v \<Rightarrow> (case iterate v of Inl e \<Rightarrow> Inl e | Inr [] \<Rightarrow> Inr None | Inr (x # xs) \<Rightarrow> Inl AttributeError))"

fun parse_headers :: "string list \<Rightarrow> (string, string) dict \<Rightarrow> (string, string) dict result" where
  "parse_headers [] acc = Inr acc"
| "parse_headers (raw # hs) acc =
     (case py_partition (CHR '':'') raw of
        (name, value) \<Rightarrow>
          if CHR '':'' \<notin> set raw \<or> py_strip_ws name = [] then Inl Exit
          else parse_headers hs (dput (py_strip_ws name) (py_strip_ws value) acc))"

section \<open>Comparison\<close>

type_synonym flat = "(string, json) dict"

text \<open>A child that is no dictionary is only searched for the two words.\<close>

definition flatten_other :: "json \<Rightarrow> flat \<Rightarrow> flat result" where
  "flatten_other v acc = (if bad_node None v = TypeError then Inl TypeError else Inr acc)"

fun flatten_others :: "json list \<Rightarrow> flat \<Rightarrow> flat result" where
  "flatten_others [] acc = Inr acc"
| "flatten_others (v # vs) acc = bind_r (flatten_other v acc) (flatten_others vs)"

definition put_text :: "string \<Rightarrow> string \<Rightarrow> flat \<Rightarrow> flat" where
  "put_text k x acc = dput k (JStr x) acc"

definition flatten_agent :: "(json \<Rightarrow> string) \<Rightarrow> payload \<Rightarrow> string \<Rightarrow> flat \<Rightarrow> flat" where
  "flatten_agent py_str a path acc =
     (let p = path @ ''/'' @ as_str py_str (get_or (JStr ''?'') a ''name'');
          acc1 = dput (p @ ''/@class'') (get_or (JStr ''?'') a ''type'') (put_text (p @ ''/@type'') ''agent'' acc)
      in case dget a ''process'' of None \<Rightarrow> acc1 | Some v \<Rightarrow> dput (p @ ''/@process'') v acc1)"

function (sequential) flatten_node :: "(json \<Rightarrow> string) \<Rightarrow> json \<Rightarrow> string \<Rightarrow> flat \<Rightarrow> flat result"
and flatten_nodes :: "(json \<Rightarrow> string) \<Rightarrow> json list \<Rightarrow> string \<Rightarrow> flat \<Rightarrow> flat result" where
  "flatten_node py_str (JDict node) path acc =
     (case dget node ''supervisor'' of
        Some (JDict s) \<Rightarrow>
          (let p = path @ ''/'' @ as_str py_str (get_or (JStr ''?'') s ''name'') in
           case upper_of (get_or (JStr ''ONE_FOR_ONE'') s ''strategy'') of
             Inl e \<Rightarrow> Inl e
           | Inr st \<Rightarrow>
               (case upper_of (get_or (JStr ''CONSTANT'') s ''backoff'') of
                  Inl e \<Rightarrow> Inl e
                | Inr bk \<Rightarrow>
                    (let acc1 = put_text (p @ ''/@backoff'') bk
                                 (put_text (p @ ''/@max_restarts'') (as_str py_str (get_or (JInt 3) s ''max_restarts''))
                                 (put_text (p @ ''/@strategy'') st (put_text (p @ ''/@type'') ''supervisor'' acc)))
                     in case get_or (JList []) s ''children'' of
                          JList cs \<Rightarrow> flatten_nodes py_str cs p acc1
                        | v \<Rightarrow> bind_r (iterate v) (\<lambda>xs. flatten_others xs acc1))))
      | Some v \<Rightarrow> Inl AttributeError
      | None \<Rightarrow>
          (case dget node ''agent'' of
             None \<Rightarrow> Inr acc
           | Some (JDict a) \<Rightarrow> Inr (flatten_agent py_str a path acc)
           | Some v \<Rightarrow> Inl AttributeError))"
| "flatten_node py_str v path acc = flatten_other v acc"
| "flatten_nodes py_str [] path acc = Inr acc"
| "flatten_nodes py_str (c # cs) path acc =
     (case flatten_node py_str c path acc of Inl e \<Rightarrow> Inl e | Inr acc1 \<Rightarrow> flatten_nodes py_str cs path acc1)"
  by pat_completeness auto
termination
proof (relation "measure (case_sum (\<lambda>(p, v, path, acc). size v) (\<lambda>(p, cs, path, acc). size_list size cs))", goal_cases)
  case (2 py_str node path acc v s p st bk acc1 cs)
  then have "JList cs = get_or (JList []) s ''children''" by simp
  then have "size (JList cs) < size (JDict s) \<or> cs = []" using size_dget [of s "''children''"] by (auto simp: get_or_def split: option.splits)
  then show ?case using 2 size_dget [of node "''supervisor''" v] by auto
qed auto

definition flatten_transport :: "(json \<Rightarrow> string) \<Rightarrow> payload \<Rightarrow> flat \<Rightarrow> flat result" where
  "flatten_transport py_str config acc =
     (let cfg = get_or (JDict []) config ''transport'' in
      if \<not> truthy cfg then Inr acc
      else bind_r (as_dict cfg) (\<lambda>t.
        Inr (fold (\<lambda>(k, v) d. if k \<noteq> ''type'' then put_text (''transport/@'' @ k) (as_str py_str v) d else d) t
              (dput ''transport/@type'' (get_or (JStr ''in_process'') t ''type'') acc))))"

fun flatten_entries :: "(json \<Rightarrow> string) \<Rightarrow> string \<Rightarrow> nat \<Rightarrow> json list \<Rightarrow> flat \<Rightarrow> flat result" where
  "flatten_entries py_str sect i [] acc = Inr acc"
| "flatten_entries py_str sect i (p # ps) acc =
     bind_r (as_dict p) (\<lambda>d. flatten_entries py_str sect (Suc i) ps
       (dput (''plugins/'' @ sect @ ''['' @ py_str (JInt (int i)) @ '']/@type'') (get_or (JStr ''?'') d ''type'') acc))"

fun flatten_plugins :: "(json \<Rightarrow> string) \<Rightarrow> payload \<Rightarrow> flat \<Rightarrow> flat result" where
  "flatten_plugins py_str [] acc = Inr acc"
| "flatten_plugins py_str ((sect, v) # ss) acc =
     (case v of
        JList ps \<Rightarrow> bind_r (flatten_entries py_str sect 0 ps acc) (flatten_plugins py_str ss)
      | JDict d \<Rightarrow> flatten_plugins py_str ss (dput (''plugins/'' @ sect @ ''/@type'') (get_or (JStr ''?'') d ''type'') acc)
      | _ \<Rightarrow> flatten_plugins py_str ss acc)"

definition flatten_topology :: "(json \<Rightarrow> string) \<Rightarrow> payload \<Rightarrow> flat result" where
  "flatten_topology py_str config =
     bind_r (as_dict (case dget config ''supervision'' of Some v \<Rightarrow> v | None \<Rightarrow> get_or (JDict []) config ''supervisor'')) (\<lambda>s.
     bind_r (upper_of (get_or (JStr ''ONE_FOR_ONE'') s ''strategy'')) (\<lambda>st.
       (let p = ''/'' @ as_str py_str (get_or (JStr ''root'') s ''name'');
            acc = put_text (p @ ''/@max_restarts'') (as_str py_str (get_or (JInt 3) s ''max_restarts''))
                    (put_text (p @ ''/@strategy'') st (put_text (p @ ''/@type'') ''supervisor'' []))
        in bind_r (case get_or (JList []) s ''children'' of
                     JList cs \<Rightarrow> flatten_nodes py_str cs p acc
                   | v \<Rightarrow> bind_r (iterate v) (\<lambda>xs. flatten_others xs acc)) (\<lambda>acc1.
           bind_r (flatten_transport py_str config acc1) (\<lambda>acc2.
           bind_r (get_block config ''plugins'') (\<lambda>pl. flatten_plugins py_str pl acc2))))))"

definition categorize_key :: "string \<Rightarrow> string" where
  "categorize_key k =
     (if startswith k ''transport/'' then ''Transport'' else if startswith k ''plugins/'' then ''Plugins'' else ''Supervision'')"

text \<open>\<^verbatim>\<open>flat.get(key)\<close>: a value of \<^verbatim>\<open>None\<close> is like no value.\<close>

definition flat_get :: "flat \<Rightarrow> string \<Rightarrow> json option" where
  "flat_get f k = (case dget f k of Some JNull \<Rightarrow> None | x \<Rightarrow> x)"

datatype change = Added json | Removed json | Changed json json

definition change_of :: "flat \<Rightarrow> flat \<Rightarrow> string \<Rightarrow> change option" where
  "change_of fa fb k =
     (case (flat_get fa k, flat_get fb k) of
        (None, None) \<Rightarrow> None
      | (None, Some b) \<Rightarrow> Some (Added b)
      | (Some a, None) \<Rightarrow> Some (Removed a)
      | (Some a, Some b) \<Rightarrow> if key_form a = key_form b then None else Some (Changed a b))"

definition topology_diff :: "flat \<Rightarrow> flat \<Rightarrow> (string \<times> string \<times> change) list" where
  "topology_diff fa fb =
     List.map_filter (\<lambda>k. map_option (\<lambda>c. (categorize_key k, k, c)) (change_of fa fb k)) (sort (remdups (dkeys fa @ dkeys fb)))"

section \<open>What a passed validation promises\<close>

lemma grows_refl [simp]: "\<exists>cs. va_checks r = va_checks r @ cs" by simp

lemma fail_if_simps [simp]:
  "va_agents (fail_if b c m r) = va_agents r" "va_supervisors (fail_if b c m r) = va_supervisors r"
  "passed (fail_if b c m r) \<longleftrightarrow> passed r \<and> \<not> b" "va_empty (fail_if b c m r) = va_empty r"
  by (simp_all add: fail_if_def fail_check_def passed_def)

lemma fail_check_simps [simp]: "\<not> passed (fail_check c m r)"
  by (simp add: fail_check_def passed_def)

lemma ok_simps [simp]:
  "passed (ok_check c m r) = passed r" "passed (ok_unless b c m r) = passed r"
  "va_agents (ok_check c m r) = va_agents r" "va_supervisors (ok_check c m r) = va_supervisors r"
  by (simp_all add: ok_check_def ok_unless_def passed_def)

lemma other_simps [simp]:
  "passed (record_name n r) = passed r" "passed (mark_empty s r) = passed r"
  "va_agents (mark_empty s r) = va_agents r" "va_supervisors (mark_empty s r) = va_supervisors r"
  "va_supervisors (record_name n r) = va_supervisors r"
  "va_agents (record_name n r) = va_agents r @ (if truthy n then [n] else [])"
  by (simp_all add: record_name_def mark_empty_def passed_def)

lemma passed_update [simp]: "passed (r\<lparr>va_supervisors := ss\<rparr>) = passed r"
  by (simp add: passed_def)

text \<open>A leaf that the validation and the runtime read alike: not both forms at once, and no introspection unit,
  which adds a gateway and a supervisor of its own.\<close>

definition plain_leaf :: "payload \<Rightarrow> bool" where
  "plain_leaf node \<longleftrightarrow> (dget node ''agent'' = None \<or> dget node ''type'' = None) \<and> get_or JNull node ''type'' \<noteq> JStr ''topology_server''"

definition leaf_name :: "payload \<Rightarrow> json" where
  "leaf_name node = (case dget node ''agent'' of Some (JDict a) \<Rightarrow> get_or JNull a ''name'' | _ \<Rightarrow> get_or JNull node ''name'')"

lemma item_name: "bind_r (item d ''name'') str_of = Inr n \<longleftrightarrow> get_or JNull d ''name'' = JStr n"
  by (auto simp: item_def str_of_def get_or_def split: option.splits json.splits)

lemma item_nameI: "item d ''name'' = Inr v \<Longrightarrow> str_of v = Inr n \<Longrightarrow> get_or JNull d ''name'' = JStr n"
  using item_name [of d n] by simp

definition simple_leaf :: "string \<Rightarrow> 'a built \<Rightarrow> bool" where
  "simple_leaf n b \<longleftrightarrow> built_name b = n \<and> built_leaves b = [b] \<and> tree_supervisors b = []"

lemma leaf_builders:
  "build_dynamic node = Inr b \<Longrightarrow> \<exists>n. get_or JNull node ''name'' = JStr n \<and> simple_leaf n b"
  "build_eval env node = Inr b \<Longrightarrow> \<exists>n. get_or JNull node ''name'' = JStr n \<and> simple_leaf n b"
  "build_http_gateway env node = Inr b \<Longrightarrow> \<exists>n. get_or JNull node ''name'' = JStr n \<and> simple_leaf n b"
  "build_flat env path node = Inr b \<Longrightarrow> \<exists>n. get_or JNull node ''name'' = JStr n \<and> simple_leaf n b"
  "build_agent env v = Inr b \<Longrightarrow> \<exists>n a. v = JDict a \<and> get_or JNull a ''name'' = JStr n \<and> simple_leaf n b"
proof -
  show "\<exists>n. get_or JNull node ''name'' = JStr n \<and> simple_leaf n b" if "build_dynamic node = Inr b"
    using that by (auto simp: build_dynamic_def bind_r_eq_Inr [of "bind_r _ _"] item_name simple_leaf_def)
  show "\<exists>n. get_or JNull node ''name'' = JStr n \<and> simple_leaf n b" if "build_eval env node = Inr b"
    using that unfolding build_eval_def bind_r_eq_Inr [of "bind_r (item _ _) _"] item_name
    by (auto simp: bind_r_eq_Inr simple_leaf_def)
  show "\<exists>n. get_or JNull node ''name'' = JStr n \<and> simple_leaf n b" if "build_flat env path node = Inr b"
    using that unfolding build_flat_def bind_r_eq_Inr [of "bind_r (item _ _) _"] item_name
    by (auto simp: bind_r_eq_Inr simple_leaf_def intro: item_nameI)
  show "\<exists>n a. v = JDict a \<and> get_or JNull a ''name'' = JStr n \<and> simple_leaf n b" if "build_agent env v = Inr b"
    using that by (auto simp: build_agent_def bind_r_eq_Inr simple_leaf_def as_dict_def split: json.splits intro: item_nameI)
  show "\<exists>n. get_or JNull node ''name'' = JStr n \<and> simple_leaf n b" if "build_http_gateway env node = Inr b"
    using that unfolding build_http_gateway_def
    by (auto simp: bind_r_eq_Inr new_gateway_def simple_leaf_def item_name [symmetric] Let_def)
qed

lemma leaf_built:
  assumes "build_leaf env node = Inr b" "plain_leaf node"
  shows "\<exists>n. leaf_name node = JStr n \<and> simple_leaf n b"
proof (cases "dget node ''agent''")
  case (Some v)
  then have "dget node ''type'' = None" using assms(2) by (auto simp: plain_leaf_def)
  then have "build_agent env v = Inr b" using assms(1) Some by (simp add: build_leaf_def get_or_def)
  from leaf_builders(5) [OF this] Some show ?thesis by (auto simp: leaf_name_def)
next
  case None
  have "get_or JNull node ''type'' \<noteq> JStr ''topology_server''" using assms(2) by (simp add: plain_leaf_def)
  then have "build_dynamic node = Inr b \<or> build_eval env node = Inr b \<or> build_http_gateway env node = Inr b \<or> (\<exists>p. build_flat env p node = Inr b)"
    using assms(1) None
    by (auto simp: build_leaf_def Let_def bind_r_eq_Inr split: if_splits option.splits)
  then show ?thesis using leaf_builders(1-4) None by (fastforce simp: leaf_name_def)
qed

lemma leaf_validated:
  assumes "validate_leaf py_str node path r = Inr r'" "passed r'" "leaf_name node = JStr n"
  shows "passed r" "va_agents r' = va_agents r @ [JStr n]" "va_supervisors r' = va_supervisors r"
  using assms
  by (auto simp: validate_leaf_def Let_def leaf_name_def as_dict_def bind_r_eq_Inr split: option.splits json.splits if_splits)

lemma policy_validated:
  assumes "validate_policy p s r = Inr r'"
  shows "va_agents r' = va_agents r" "va_supervisors r' = va_supervisors r" "passed r' \<Longrightarrow> passed r"
  using assms by (auto simp: validate_policy_def bind_r_eq_Inr)

abbreviation leaf_names :: "'a built list \<Rightarrow> json list" where
  "leaf_names bs \<equiv> map (\<lambda>b. JStr (built_name b)) (concat (map built_leaves bs))"

abbreviation sup_names :: "'a built list \<Rightarrow> json list" where
  "sup_names bs \<equiv> map JStr (concat (map tree_supervisors bs))"

lemma validated_names:
  "build_node env (Some ''*'') j = Inr b \<Longrightarrow> \<forall>n \<in> set (leaf_nodes j). plain_leaf n \<Longrightarrow> validate_node py_str j path r = Inr r' \<Longrightarrow> passed r' \<Longrightarrow>
     \<exists>x. b = Some x \<and> passed r \<and> va_agents r' = va_agents r @ leaf_names [x] \<and> va_supervisors r' = va_supervisors r @ sup_names [x]"
  "build_nodes env (Some ''*'') js = Inr bs \<Longrightarrow> \<forall>j \<in> set js. \<forall>n \<in> set (leaf_nodes j). plain_leaf n \<Longrightarrow> validate_nodes py_str js path r = Inr r' \<Longrightarrow> passed r' \<Longrightarrow>
     passed r \<and> va_agents r' = va_agents r @ leaf_names bs \<and> va_supervisors r' = va_supervisors r @ sup_names bs"
proof (induction env "Some ''*''" j and env "Some ''*''" js arbitrary: b path r r' and bs path r r' rule: build_node_build_nodes.induct)
  case (1 env node)
  show ?case
  proof (cases "dget node ''supervisor''")
    case None
    then obtain x where x: "b = Some x" "build_leaf env node = Inr x"
      using "1.prems"(1) by (auto simp: node_belongs_to_def)
    have lv: "plain_leaf node" "validate_leaf py_str node path r = Inr r'" using "1.prems"(2,3) None by simp_all
    obtain n where n: "leaf_name node = JStr n" "simple_leaf n x" using leaf_built [OF x(2) lv(1)] by blast
    show ?thesis using leaf_validated [OF lv(2) "1.prems"(4) n(1)] n(2) x(1) by (simp add: simple_leaf_def)
  next
    case (Some v)
    obtain s cs bs where v: "v = JDict s" and cs: "children_of (Some ''*'') s = Inr cs" and bs: "build_nodes env (Some ''*'') cs = Inr bs"
      and b: "map_sum id Some (sup_of_cfg (item s ''name'') bs s) = Inr b"
      using "1.prems"(1) Some by (cases v) (auto split: sum.splits)
    have cs': "children_of None s = Inr cs" by (rule children_of_filter [OF cs])
    obtain x where x: "b = Some x" "sup_of_cfg (item s ''name'') bs s = Inr x" using b by auto
    have "\<exists>n. get_or JNull s ''name'' = JStr n \<and> (\<exists>st. x = BSupervisor n st bs)"
      using x(2) by (auto simp: sup_of_cfg_def new_supervisor_def bind_r_eq_Inr intro: item_nameI)
    then obtain n st where n: "get_or JNull s ''name'' = JStr n" "x = BSupervisor n st bs" by blast
    have nm: "get_or (JStr ''<unnamed>'') s ''name'' = JStr n" using n(1) by (auto simp: get_or_def split: option.splits)
    have lv: "\<forall>j \<in> set cs. \<forall>n \<in> set (leaf_nodes j). plain_leaf n" using "1.prems"(2) Some v cs' by simp
    obtain r1 where r1: "validate_policy (path @ ''.'' @ n) s (r\<lparr>va_supervisors := va_supervisors r @ [JStr n]\<rparr>) = Inr r1"
      and r2: "validate_nodes py_str cs (path @ ''.'' @ n) (mark_empty s (fail_if (\<not> non_negative_int (get_or (JInt 3) s ''max_restarts'')) ''Configuration''
                           ((path @ ''.'' @ n) @ '': max_restarts must be non-negative int'') r1)) = Inr r'"
      using "1.prems"(3) Some v nm cs' by (auto simp: as_str_def Let_def split: sum.splits)
    show ?thesis using 1(1) [OF Some v cs bs lv r2 "1.prems"(4)] policy_validated [OF r1] n(2) x(1) by auto
  qed
next
  case (4 env c cs)
  obtain b where b: "build_node env (Some ''*'') c = Inr b" using "4.prems"(1) by (auto split: sum.splits)
  obtain bs' where bs': "build_nodes env (Some ''*'') cs = Inr bs'" using "4.prems"(1) b by (auto split: sum.splits)
  obtain r1 where r1: "validate_node py_str c path r = Inr r1" "validate_nodes py_str cs path r1 = Inr r'"
    using "4.prems"(3) by (auto split: sum.splits)
  have rest: "passed r1 \<and> va_agents r' = va_agents r1 @ leaf_names bs' \<and> va_supervisors r' = va_supervisors r1 @ sup_names bs'"
    using 4(2) [OF b bs' _ r1(2) "4.prems"(4)] "4.prems"(2) by simp
  obtain x where "b = Some x" "passed r \<and> va_agents r1 = va_agents r @ leaf_names [x] \<and> va_supervisors r1 = va_supervisors r @ sup_names [x]"
    using 4(1) [OF b _ r1(1)] "4.prems"(2) rest by auto
  then show ?case using rest b bs' "4.prems"(1) by auto
qed auto

lemma key_form_str [simp]: "key_form (JStr x) = JStr x"
  by (simp add: key_form_def hash_key_def)

lemma no_duplicates:
  "find_duplicates py_str ns seen r = Inr (d, r') \<Longrightarrow> passed r' \<Longrightarrow>
     passed r \<and> distinct (map key_form ns) \<and> key_form ` set ns \<inter> seen = {}"
proof (induction ns arbitrary: seen r d)
  case (Cons n ns)
  obtain h where h: "hash_key n = Inr h" "key_form n = h" using Cons.prems(1) by (cases "hash_key n") (auto simp: key_form_def)
  show ?case
  proof (cases "h \<in> seen")
    case True
    then obtain d' m where "find_duplicates py_str ns seen (fail_check ''Naming'' m r) = Inr (d', r')" using Cons.prems(1) h by auto
    from Cons.IH [OF this Cons.prems(2)] show ?thesis by simp
  next
    case False
    then have "find_duplicates py_str ns (insert h seen) r = Inr (d, r')" using Cons.prems(1) h by simp
    from Cons.IH [OF this Cons.prems(2)] show ?thesis using False h by auto
  qed
qed simp

lemma no_conflicts:
  "find_conflicts py_str sups ns r = (c, r') \<Longrightarrow> passed r' \<Longrightarrow> passed r \<and> key_form ` set ns \<inter> key_form ` set sups = {}"
proof (induction ns arbitrary: r c)
  case (Cons n ns)
  show ?case
  proof (cases "key_form n \<in> key_form ` set sups")
    case True
    then obtain m where "snd (find_conflicts py_str sups ns (fail_check ''Naming'' m r)) = r'" using Cons.prems(1) by auto
    then have "find_conflicts py_str sups ns (fail_check ''Naming'' m r) = (fst (find_conflicts py_str sups ns (fail_check ''Naming'' m r)), r')"
      by (metis prod.collapse)
    from Cons.IH [OF this Cons.prems(2)] show ?thesis by simp
  next
    case False
    then have "find_conflicts py_str sups ns r = (c, r')" using Cons.prems(1) by simp
    from Cons.IH [OF this Cons.prems(2)] show ?thesis using False by simp
  qed
qed simp

lemma transport_validated: "validate_transport py_str config r = Inr r' \<Longrightarrow> passed r' \<Longrightarrow> passed r"
  by (auto simp: validate_transport_def Let_def bind_r_eq_Inr split: if_splits)

lemma rest_validated:
  assumes "validate_rest py_str config s cs r = Inr v" "passed v"
  shows "passed r \<and> \<not> va_empty r \<and> distinct (map key_form (va_agents r)) \<and> key_form ` set (va_agents r) \<inter> key_form ` set (va_supervisors r) = {}"
proof -
  let ?r1 = "if va_empty r then fail_check ''Structure'' ''Supervisor with no children'' r else ok_check ''Structure'' ''No empty supervisors'' r"
  obtain b1 m1 b2 m2 dupe r3 where r3: "find_duplicates py_str (va_agents r) {} (ok_unless b2 ''Naming'' m2 (ok_unless b1 ''Structure'' m1 ?r1)) = Inr (dupe, r3)"
    and tail: "(case find_conflicts py_str (va_supervisors r) (va_agents r) (ok_unless dupe ''Naming'' ''No duplicate names'' r3) of
           (conflict, r4) \<Rightarrow>
             (let used = strategy_of s # map strategy_of (concat (map sup_blocks cs));
                  r5 = ok_unless conflict ''Naming'' ''No agent/supervisor name conflicts'' r4;
                  r6 = ok_unless (\<not> set used \<subseteq> set VALID_STRATEGIES) ''Configuration''
                         (''Strategies valid ('' @ join_text '', '' (filter (\<lambda>x. x \<in> set used) VALID_STRATEGIES) @ '')'') r5;
                  r7 = ok_unless (list_ex (\<lambda>c. mentions_backoff c \<and> \<not> snd (snd c)) (va_checks r6)) ''Configuration'' ''Backoff policies valid'' r6
              in validate_transport py_str config r7)) = Inr v"
    using assms(1) unfolding validate_rest_def Let_def by (auto simp: bind_r_eq_Inr)
  obtain conflict r4 where r4: "find_conflicts py_str (va_supervisors r) (va_agents r) (ok_unless dupe ''Naming'' ''No duplicate names'' r3) = (conflict, r4)"
    by (metis surj_pair)
  have "passed r4" using transport_validated [OF tail [unfolded r4 Let_def prod.case] assms(2)] by simp
  from no_conflicts [OF r4 this] have c: "passed r3" "key_form ` set (va_agents r) \<inter> key_form ` set (va_supervisors r) = {}" by simp_all
  from no_duplicates [OF r3 c(1)] have "passed ?r1" "distinct (map key_form (va_agents r))" by simp_all
  then show ?thesis using c by (auto split: if_splits)
qed

lemma start_registry_iff:
  "(\<exists>r. start_registry att yaml t (new_registry l) = Inr r) \<longleftrightarrow> distinct (map built_name (tree_agents t) @ ''_runtime'' # tree_supervisors t)"
proof -
  let ?es = "start_entries att yaml t"
  have "fresh_names ?es (new_registry l) \<longleftrightarrow> distinct (map built_name (tree_agents t) @ ''_runtime'' # tree_supervisors t)"
    by (simp add: fresh_names_def start_entries_def comp_def list_all_iff lookup_def new_registry_def)
  moreover have "(\<exists>r. start_registry att yaml t (new_registry l) = Inr r) \<longleftrightarrow> fresh_names ?es (new_registry l)"
    unfolding start_registry_def
    using register_names_fails [of ?es "new_registry l"] register_names_succeeds [of ?es "new_registry l"] by fastforce
  ultimately show ?thesis by (rule trans [rotated])
qed

lemma validated_tree:
  assumes "validate_topology py_str config = Inr v" "passed v" "build_root env (Some ''*'') config = Inr t" "\<forall>n \<in> set (config_leaves config). plain_leaf n"
  shows "is_supervisor t \<and> distinct (map built_name (tree_agents t)) \<and> set (map built_name (tree_agents t)) \<inter> set (tree_supervisors t) = {}"
proof -
  obtain s cs bs where b: "top_block config = JDict s" "s \<noteq> []" "children_of (Some ''*'') s = Inr cs" "build_nodes env (Some ''*'') cs = Inr bs"
    "sup_of_cfg (Inr (get_or (JStr ''root'') s ''name'')) bs s = Inr t"
    using assms(3) by (rule build_root_Inr)
  obtain n st where n: "get_or (JStr ''root'') s ''name'' = JStr n" "t = BSupervisor n st bs"
    using b(5) by (auto simp: sup_of_cfg_def new_supervisor_def bind_r_eq_Inr str_of_def split: json.splits)
  let ?top = "case dget config ''supervision'' of Some w \<Rightarrow> w | None \<Rightarrow> get_or JNull config ''supervisor''"
  have "?top \<noteq> JNull" using assms(1,2) by (auto simp: validate_topology_def Let_def)
  then obtain s' r1 cs' r2 where v: "?top = JDict s'"
    "validate_policy ''root'' s' ((ok_check ''Structure'' ''Supervision section present''
       (ok_check ''Structure'' ''YAML syntax'' \<lparr>va_checks = [], va_agents = [], va_supervisors = [], va_empty = False\<rparr>))
         \<lparr>va_supervisors := [get_or (JStr ''root'') s' ''name'']\<rparr>) = Inr r1"
    "children_of None s' = Inr cs'" "validate_nodes py_str cs' ''root'' (mark_empty s' r1) = Inr r2" "validate_rest py_str config s' cs' r2 = Inr v"
    using assms(1) unfolding validate_topology_def Let_def by (auto simp: bind_r_eq_Inr as_dict_def split: json.splits)
  have r1: "va_agents r1 = []" "va_supervisors r1 = [get_or (JStr ''root'') s' ''name'']" using policy_validated [OF v(2)] by simp_all
  have "s' \<noteq> []"
  proof
    assume "s' = []"
    then have "va_empty r2" using v(3,4) by (auto simp: children_of_def mark_empty_def)
    then show False
      using rest_validated [OF v(5) assms(2)] by simp
  qed
  then have s: "s' = s" using v(1) b(1) by (auto simp: top_block_def get_or_def split: option.splits if_splits)
  have cs: "cs' = cs" using v(3) children_of_filter [OF b(3), of None] by (simp add: s)
  have lv: "\<forall>j \<in> set cs. \<forall>n \<in> set (leaf_nodes j). plain_leaf n"
    using assms(4) b(1) children_of_filter [OF b(3), of None] by (simp add: config_leaves_def)
  have "passed r2" using rest_validated [OF v(5) assms(2)] by simp
  then have "va_agents r2 = leaf_names bs" "va_supervisors r2 = JStr n # sup_names bs"
    using validated_names(2) [OF b(4) lv v(4) [unfolded cs]] r1 n(1) by (simp_all add: s)
  then have names: "va_agents r2 = map JStr (map built_name (tree_agents t))" "va_supervisors r2 = map JStr (tree_supervisors t)"
    using tree_agents_leaves [of t] n(2) by (simp_all add: comp_def)
  have k: "map key_form (map JStr xs) = map JStr xs" "key_form ` JStr ` A = JStr ` A" for xs A by (simp_all add: image_image)
  have "distinct (map JStr (map built_name (tree_agents t)))"
    "JStr ` set (map built_name (tree_agents t)) \<inter> JStr ` set (tree_supervisors t) = {}"
    using rest_validated [OF v(5) assms(2)] unfolding names k set_map by simp_all
  then have "distinct (map built_name (tree_agents t))" "set (map built_name (tree_agents t)) \<inter> set (tree_supervisors t) = {}"
    using distinct_map [of JStr "map built_name (tree_agents t)"] by auto
  then show ?thesis using n(2) by simp
qed

text \<open>C21. What a validated topology guarantees of the start. Take a topology without a \<^verbatim>\<open>topology_server\<close> node and
  without a leaf that has both an \<^verbatim>\<open>agent\<close> block and a \<^verbatim>\<open>type\<close>. If validation passes and the topology
  builds, agent names are distinct and are no supervisor names, so the start can fail to register the tree only because
  two supervisors share a name, or because something is named \<^verbatim>\<open>_runtime\<close>: both pass validation. The
  exception is needed: a \<^verbatim>\<open>topology_server\<close> also builds a gateway, under a name the validation does not
  see.\<close>

theorem validated_topology_registers:
  assumes "validate_topology py_str config = Inr v" "passed v" "build_root env (Some ''*'') config = Inr t"
    and "\<forall>n \<in> set (config_leaves config). plain_leaf n"
  shows "distinct (map built_name (tree_agents t)) \<and> set (map built_name (tree_agents t)) \<inter> set (tree_supervisors t) = {}
    \<and> ((\<exists>r. start_registry att yaml t (new_registry l) = Inr r) \<longleftrightarrow>
        distinct (tree_supervisors t) \<and> ''_runtime'' \<notin> set (map built_name (tree_agents t) @ tree_supervisors t))"
  using validated_tree [OF assms] start_registry_iff [of att yaml t l] by auto

definition twin_topology :: payload where
  "twin_topology =
     [(''supervision'', JDict [(''children'', JList
        [JDict [(''supervisor'', JDict [(''name'', JStr ''pool''), (''children'', JList
           [JDict [(''agent'', JDict [(''type'', JStr ''app.A''), (''name'', JStr ''a'')])]])])],
         JDict [(''supervisor'', JDict [(''name'', JStr ''pool''), (''children'', JList
           [JDict [(''type'', JStr ''app.B''), (''name'', JStr ''b'')]])])]])])]"

theorem validated_topology_registers_witness:
  "\<exists>v t. validate_topology (\<lambda>w. ''?'') twin_topology = Inr v \<and> passed v
     \<and> build_root sample_build (Some ''*'') twin_topology = Inr t
     \<and> \<not> (\<exists>r. start_registry sample_attrs [] t (new_registry True) = Inr r)"
proof -
  have "case validate_topology (\<lambda>w. ''?'') twin_topology of Inl e \<Rightarrow> False | Inr v \<Rightarrow> passed v" by code_simp
  then have "\<exists>v. validate_topology (\<lambda>w. ''?'') twin_topology = Inr v \<and> passed v" by (auto split: sum.splits)
  then obtain v where v: "validate_topology (\<lambda>w. ''?'') twin_topology = Inr v" "passed v" by blast
  have "\<exists>t. build_root sample_build (Some ''*'') twin_topology = Inr t \<and> tree_supervisors t = [''root'', ''pool'', ''pool'']"
    by (simp add: twin_topology_def sample_build_def build_defs)
  then obtain t where t: "build_root sample_build (Some ''*'') twin_topology = Inr t" "tree_supervisors t = [''root'', ''pool'', ''pool'']" by blast
  have "\<forall>n \<in> set (config_leaves twin_topology). plain_leaf n"
    by (simp add: twin_topology_def config_leaves_def top_block_def children_of_def plain_leaf_def)
  from validated_topology_registers [OF v t(1) this, of sample_attrs "[]" True] t show ?thesis using v by auto
qed

text \<open>Why \<^const>\<open>plain_leaf\<close> is assumed: the gateway that a \<^verbatim>\<open>topology_server\<close> named \<^verbatim>\<open>t\<close> builds is
  called \<^verbatim>\<open>t_gateway\<close>. An agent of this name passes validation, the supervisors are distinct and nothing is named
  \<^verbatim>\<open>_runtime\<close>, and yet the start cannot register the tree.\<close>

definition clash_topology :: payload where
  "clash_topology =
     [(''supervision'', JDict [(''children'', JList
        [JDict [(''type'', JStr ''topology_server''), (''name'', JStr ''t'')],
         JDict [(''type'', JStr ''app.A''), (''name'', JStr ''t_gateway'')]])])]"

theorem topology_server_name_clash:
  "\<exists>v t. validate_topology (\<lambda>w. ''?'') clash_topology = Inr v \<and> passed v
     \<and> build_root sample_build (Some ''*'') clash_topology = Inr t
     \<and> distinct (tree_supervisors t) \<and> ''_runtime'' \<notin> set (map built_name (tree_agents t) @ tree_supervisors t)
     \<and> start_registry sample_attrs [] t (new_registry True) = Inl ValueError"
proof -
  have "case validate_topology (\<lambda>w. ''?'') clash_topology of Inl e \<Rightarrow> False | Inr v \<Rightarrow> passed v" by code_simp
  then have "\<exists>v. validate_topology (\<lambda>w. ''?'') clash_topology = Inr v \<and> passed v" by (auto split: sum.splits)
  moreover have "case build_root sample_build (Some ''*'') clash_topology of Inl e \<Rightarrow> False
    | Inr t \<Rightarrow> tree_supervisors t = [''root'', ''t_supervisor''] \<and> map built_name (tree_agents t) = [''t'', ''t_gateway'', ''t_gateway'']"
    by code_simp
  then have "\<exists>t. build_root sample_build (Some ''*'') clash_topology = Inr t \<and> tree_supervisors t = [''root'', ''t_supervisor'']
      \<and> map built_name (tree_agents t) = [''t'', ''t_gateway'', ''t_gateway'']" by (auto split: sum.splits)
  moreover have "start_registry sample_attrs [] t (new_registry True) = Inl ValueError"
    if "map built_name (tree_agents t) = [''t'', ''t_gateway'', ''t_gateway'']" for t :: "unit built"
  proof -
    have "\<not> fresh_names (start_entries sample_attrs [] t) (new_registry True)"
      using that by (auto simp: fresh_names_def start_entries_def comp_def)
    then show ?thesis using register_names_fails [of "start_entries sample_attrs [] t" "new_registry True"] by (simp add: start_registry_def)
  qed
  ultimately show ?thesis by fastforce
qed

section \<open>What a comparison shows\<close>

lemma change_of_None: "change_of fa fb k = None \<longleftrightarrow> map_option key_form (flat_get fa k) = map_option key_form (flat_get fb k)"
  by (auto simp: change_of_def split: option.splits)

text \<open>A comparison reports exactly the differences. The reported keys are, in ascending order and each once, the keys
  whose values differ between the two flattened topologies, each with its old and its new value; so a comparison that
  reports nothing has compared equal flattenings.\<close>

theorem topology_diff_exact:
  "sorted (map (fst \<circ> snd) (topology_diff fa fb)) \<and> distinct (map (fst \<circ> snd) (topology_diff fa fb))
   \<and> (\<forall>cat k c. (cat, k, c) \<in> set (topology_diff fa fb) \<longleftrightarrow> change_of fa fb k = Some c \<and> cat = categorize_key k)
   \<and> (topology_diff fa fb = [] \<longleftrightarrow> (\<forall>k. map_option key_form (flat_get fa k) = map_option key_form (flat_get fb k)))"
proof -
  let ?ks = "sort (remdups (dkeys fa @ dkeys fb))"
  let ?f = "\<lambda>k. map_option (\<lambda>c. (categorize_key k, k, c)) (change_of fa fb k)"
  have keys: "map (fst \<circ> snd) (List.map_filter ?f ks) = filter (\<lambda>k. change_of fa fb k \<noteq> None) ks" for ks
    by (induction ks) (auto simp: List.map_filter_simps split: option.split)
  have known: "k \<in> set ?ks" if "change_of fa fb k = Some c" for k c
  proof (rule ccontr)
    assume "k \<notin> set ?ks"
    then have "dget fa k = None" "dget fb k = None" by (auto simp: map_of_eq_None_iff)
    then show False using that by (simp add: change_of_def flat_get_def)
  qed
  have mem: "(cat, k, c) \<in> set (topology_diff fa fb) \<longleftrightarrow> change_of fa fb k = Some c \<and> cat = categorize_key k" for cat k c
  proof
    assume "(cat, k, c) \<in> set (topology_diff fa fb)"
    then show "change_of fa fb k = Some c \<and> cat = categorize_key k" by (auto simp: topology_diff_def List.map_filter_def)
  next
    assume c: "change_of fa fb k = Some c \<and> cat = categorize_key k"
    then have "k \<in> set (filter (\<lambda>x. ?f x \<noteq> None) ?ks)" "(cat, k, c) = (the \<circ> ?f) k" using known [of k c] by auto
    then have "(cat, k, c) \<in> (the \<circ> ?f) ` set (filter (\<lambda>x. ?f x \<noteq> None) ?ks)" by (rule rev_image_eqI)
    then show "(cat, k, c) \<in> set (topology_diff fa fb)" unfolding topology_diff_def List.map_filter_def set_map .
  qed
  have nil: "topology_diff fa fb = [] \<longleftrightarrow> (\<forall>k. change_of fa fb k = None)"
  proof
    assume n: "topology_diff fa fb = []"
    show "\<forall>k. change_of fa fb k = None"
    proof (rule allI, rule ccontr)
      fix k assume "change_of fa fb k \<noteq> None"
      then show False using mem n by fastforce
    qed
  next
    assume "\<forall>k. change_of fa fb k = None"
    then have "x \<notin> set (topology_diff fa fb)" for x using mem by (cases x) simp
    then show "topology_diff fa fb = []" by (metis list.set_intros(1) neq_Nil_conv)
  qed
  have ord: "sorted (filter P ?ks)" "distinct (filter P ?ks)" for P
    using sorted_filter [of "\<lambda>k. k" ?ks P] by simp_all
  show ?thesis
    using mem nil ord unfolding change_of_None by (simp add: topology_diff_def keys)
qed

text \<open>A node in one of the flat forms: a generic server, a dynamic supervisor, a gateway, an evaluation agent, an
  introspection unit, an agent with a dotted type.\<close>

definition flat_leaf :: "json \<Rightarrow> bool" where
  "flat_leaf c = (case c of JDict node \<Rightarrow> dget node ''supervisor'' = None \<and> dget node ''agent'' = None | _ \<Rightarrow> False)"

lemma flatten_nodes_skip: "flatten_nodes py_str cs path acc = flatten_nodes py_str (filter (\<lambda>c. \<not> flat_leaf c) cs) path acc"
proof (induction cs arbitrary: acc)
  case (Cons c cs)
  show ?case
  proof (cases "flat_leaf c")
    case True
    then have "flatten_node py_str c path acc = Inr acc" by (auto simp: flat_leaf_def split: json.splits)
    then show ?thesis using Cons True by simp
  next
    case False
    then show ?thesis using Cons by (simp split: sum.split)
  qed
qed simp

text \<open>C36. A comparison does not see flat nodes. Two topologies that differ only in the flat nodes below the root, whether
  they are added, removed or changed in any setting, flatten alike, so the comparison reports no difference.\<close>

theorem topology_diff_misses_flat_nodes:
  assumes "filter (\<lambda>c. \<not> flat_leaf c) cs = filter (\<lambda>c. \<not> flat_leaf c) cs'"
    and "flatten_topology py_str ((''supervision'', JDict ((''children'', JList cs) # s)) # config) = Inr fa"
    and "flatten_topology py_str ((''supervision'', JDict ((''children'', JList cs') # s)) # config) = Inr fb"
  shows "topology_diff fa fb = []"
proof -
  have "flatten_nodes py_str cs p acc = flatten_nodes py_str cs' p acc" for p acc
    using flatten_nodes_skip [of py_str cs p acc] flatten_nodes_skip [of py_str cs' p acc] assms(1) by simp
  then have "flatten_topology py_str ((''supervision'', JDict ((''children'', JList cs) # s)) # config)
      = flatten_topology py_str ((''supervision'', JDict ((''children'', JList cs') # s)) # config)"
    by (simp add: flatten_topology_def as_dict_def flatten_transport_def get_block_def)
  then have "fa = fb" using assms(2,3) by simp
  moreover have "change_of f f k = None" for f k by (simp add: change_of_None)
  then have "topology_diff f f = []" for f by (simp add: topology_diff_def List.map_filter_def)
  ultimately show ?thesis by simp
qed

theorem topology_diff_misses_flat_nodes_witness:
  "\<exists>fa fb. flatten_topology (\<lambda>v. ''?'') [(''supervision'', JDict [(''children'', JList
        [JDict [(''type'', JStr ''dynamic_supervisor''), (''name'', JStr ''pool''), (''max_children'', JInt 5)]])])] = Inr fa
     \<and> flatten_topology (\<lambda>v. ''?'') [(''supervision'', JDict [(''children'', JList
        [JDict [(''type'', JStr ''dynamic_supervisor''), (''name'', JStr ''other''), (''max_children'', JInt 500)]])])] = Inr fb
     \<and> topology_diff fa fb = []"
proof -
  let ?c = "\<lambda>n k. JDict [(''type'', JStr ''dynamic_supervisor''), (''name'', JStr n), (''max_children'', JInt k)]"
  have f: "filter (\<lambda>c. \<not> flat_leaf c) [?c ''pool'' 5] = filter (\<lambda>c. \<not> flat_leaf c) [?c ''other'' 500]" by (simp add: flat_leaf_def)
  have "\<exists>fa. flatten_topology (\<lambda>v. ''?'') [(''supervision'', JDict [(''children'', JList [?c n k])])] = Inr fa" for n k
    by (simp add: flatten_topology_def as_dict_def upper_of_def flatten_transport_def get_block_def Let_def)
  then obtain fa fb where ab: "flatten_topology (\<lambda>v. ''?'') [(''supervision'', JDict [(''children'', JList [?c ''pool'' 5])])] = Inr fa"
    "flatten_topology (\<lambda>v. ''?'') [(''supervision'', JDict [(''children'', JList [?c ''other'' 500])])] = Inr fb" by meson
  from topology_diff_misses_flat_nodes [OF f ab] ab show ?thesis by blast
qed

section \<open>The number of supervisors\<close>

definition count_in :: "json \<Rightarrow> int" where
  "count_in c = (case c of JDict node \<Rightarrow> (case dget node ''supervisor'' of Some (JDict b) \<Rightarrow> count_supervisors b | _ \<Rightarrow> 0) | _ \<Rightarrow> 0)"

lemma count_supervisors_unfold:
  "count_supervisors s = 1 + (case children_of None s of Inl e \<Rightarrow> 0 | Inr cs \<Rightarrow> sum_list (map count_in cs))"
  unfolding count_in_def by (rule count_supervisors.simps)

lemma counted:
  "build_node env (Some ''*'') j = Inr b \<Longrightarrow> \<forall>n \<in> set (leaf_nodes j). plain_leaf n \<Longrightarrow>
     \<exists>x. b = Some x \<and> count_in j = int (length (tree_supervisors x))"
  "build_nodes env (Some ''*'') js = Inr bs \<Longrightarrow> \<forall>j \<in> set js. \<forall>n \<in> set (leaf_nodes j). plain_leaf n \<Longrightarrow>
     sum_list (map count_in js) = int (length (concat (map tree_supervisors bs)))"
proof (induction env "Some ''*''" j and env "Some ''*''" js arbitrary: b and bs rule: build_node_build_nodes.induct)
  case (1 env node)
  show ?case
  proof (cases "dget node ''supervisor''")
    case None
    then obtain x where x: "b = Some x" "build_leaf env node = Inr x"
      using "1.prems"(1) by (auto simp: node_belongs_to_def)
    then obtain n where "simple_leaf n x" using leaf_built [OF x(2)] "1.prems"(2) None by auto
    then show ?thesis using x(1) None by (simp add: simple_leaf_def count_in_def)
  next
    case (Some v)
    obtain s cs bs x where v: "v = JDict s" and cs: "children_of (Some ''*'') s = Inr cs" and bs: "build_nodes env (Some ''*'') cs = Inr bs"
      and x: "b = Some x" "sup_of_cfg (item s ''name'') bs s = Inr x"
      using "1.prems"(1) Some by (cases v) (auto split: sum.splits)
    obtain n st where n: "x = BSupervisor n st bs" using sup_of_cfg_Inr [OF x(2)] by blast
    have cs': "children_of None s = Inr cs" by (rule children_of_filter [OF cs])
    have "sum_list (map count_in cs) = int (length (concat (map tree_supervisors bs)))"
      using 1(1) [OF Some v cs bs] "1.prems"(2) Some v cs' by simp
    then show ?thesis using Some v cs' x(1) n by (simp add: count_in_def count_supervisors_unfold [of s])
  qed
next
  case (4 env c cs)
  obtain b where b: "build_node env (Some ''*'') c = Inr b" using "4.prems"(1) by (auto split: sum.splits)
  obtain bs' where bs': "build_nodes env (Some ''*'') cs = Inr bs'" using "4.prems"(1) b by (auto split: sum.splits)
  obtain x where "b = Some x" "count_in c = int (length (tree_supervisors x))" using 4(1) [OF b] "4.prems"(2) by auto
  then show ?case using 4(2) [OF b bs'] "4.prems" b bs' by auto
qed auto

text \<open>The number of supervisors that \<^verbatim>\<open>validate\<close> and \<^verbatim>\<open>show\<close> print is that of the tree that is built.\<close>

lemma count_supervisors_exact:
  assumes "build_root env (Some ''*'') config = Inr t" "top_block config = JDict s" "\<forall>n \<in> set (config_leaves config). plain_leaf n"
  shows "count_supervisors s = int (length (tree_supervisors t))"
proof -
  obtain s' cs bs where b: "top_block config = JDict s'" "children_of (Some ''*'') s' = Inr cs" "build_nodes env (Some ''*'') cs = Inr bs"
    "sup_of_cfg (Inr (get_or (JStr ''root'') s' ''name'')) bs s' = Inr t"
    using build_root_Inr [OF assms(1)] by metis
  have s: "s' = s" and cs: "children_of None s = Inr cs" using assms(2) b(1) children_of_filter [OF b(2), of None] by simp_all
  obtain n st where "t = BSupervisor n st bs" using sup_of_cfg_Inr [OF b(4)] by blast
  moreover have "\<forall>j \<in> set cs. \<forall>n \<in> set (leaf_nodes j). plain_leaf n" using assms(2,3) cs by (simp add: config_leaves_def)
  ultimately show ?thesis using counted(2) [OF b(3)] cs by (simp add: count_supervisors_unfold [of s])
qed

end
