(* ===== verification/Spec2Isabelle.thy ===== *)
theory Spec2Isabelle
  imports Message_Bus Dynamic_Supervisor Supervisor Eval_Agent Topology_Agent Worker Observability Topology_Tools
begin

text \<open>
  \<^bold>\<open>Civitas: a verification of its actor and supervision runtime.\<close>

  Civitas (\<^verbatim>\<open>src/civitas\<close>) runs agents as actors under supervision trees. An agent is an
  object with a mailbox and one task that takes a message at a time and calls user hooks; a message
  bus routes envelopes by name through a registry and a transport; supervisors restart crashed
  agents as fresh incarnations under a restart budget; dynamic supervisors spawn and retire agents
  at run time; streams carry chunked replies. Around this core are a gateway that turns HTTP requests
  into messages, a topology agent with the control plane behind it, workers that host agents for a
  runtime in another process, signed envelopes, stores for agent state, audit and span pipelines, and
  the configuration that a topology file describes.

  \<^bold>\<open>The parts and their theories\<close>

  \<^item> \<^verbatim>\<open>Civitas_Prelude\<close>: exceptions, results, JSON values, insertion-ordered dictionaries,
    Python string helpers, the locales of state machines, bounded buffers and sliding windows that
    components interpret.

  The core:
  \<^item> \<^verbatim>\<open>Messages\<close> (\<^verbatim>\<open>messages.py\<close>): the envelope, its dictionary form, time-ordered
    identifiers.
  \<^item> \<^verbatim>\<open>Mailbox\<close> (class \<^verbatim>\<open>Mailbox\<close> of \<^verbatim>\<open>process.py\<close>): two bounded queues with
    expiry, and the transfer of a mailbox to a fresh incarnation.
  \<^item> \<^verbatim>\<open>Registry\<close> (\<^verbatim>\<open>registry.py\<close>, the announcement handlers of \<^verbatim>\<open>runtime.py\<close>):
    routing entries, listeners, suspension flags, remote announcements ordered by epoch.
  \<^item> \<^verbatim>\<open>Streaming\<close> (\<^verbatim>\<open>streaming.py\<close>): the consumer's sink and its timed drain.
  \<^item> \<^verbatim>\<open>Agent_State\<close> and \<^verbatim>\<open>Agent_Loop\<close> (\<^verbatim>\<open>AgentProcess\<close> of
    \<^verbatim>\<open>process.py\<close>): status, suspension, checkpoints, messaging and streams; dispatch with
    retries, the message loop as a task with explicit program points, start, stop and teardown.
  \<^item> \<^verbatim>\<open>Restart_Engine\<close> (\<^verbatim>\<open>supervision/engine.py\<close>): crash window, verdicts, backoff.
  \<^item> \<^verbatim>\<open>Message_Bus\<close> (\<^verbatim>\<open>bus.py\<close>, \<^verbatim>\<open>serializer.py\<close>,
    \<^verbatim>\<open>transport/inprocess.py\<close>): routing, request and reply, teardown of an agent.
  \<^item> \<^verbatim>\<open>Supervisor\<close> and \<^verbatim>\<open>Dynamic_Supervisor\<close> (\<^verbatim>\<open>supervisor.py\<close>): trees,
    strategies, crash events, escalation, heartbeats; spawning, admission caps, exits, announcements.
  \<^item> \<^verbatim>\<open>Gen_Server\<close> (\<^verbatim>\<open>genserver.py\<close>): calls, casts, timers. \<^verbatim>\<open>Eval_Agent\<close>
    (\<^verbatim>\<open>evalloop.py\<close>): observed events, corrections under a rate limit, halting.

  The gateway and the control plane:
  \<^item> \<^verbatim>\<open>Gateway_Router\<close> (\<^verbatim>\<open>gateway/router.py\<close>): patterns and the ordered route table.
  \<^item> \<^verbatim>\<open>Gateway_Auth\<close> (\<^verbatim>\<open>types.py\<close>, \<^verbatim>\<open>middleware.py\<close>, \<^verbatim>\<open>auth.py\<close>,
    \<^verbatim>\<open>mtls.py\<close>, \<^verbatim>\<open>jwt_auth.py\<close>, \<^verbatim>\<open>ratelimit.py\<close> of the gateway): the middleware chain,
    keys, client certificates, tokens, rate limits.
  \<^item> \<^verbatim>\<open>Gateway\<close> (\<^verbatim>\<open>dispatch.py\<close>, \<^verbatim>\<open>core.py\<close>, \<^verbatim>\<open>asgi.py\<close> of the gateway): checks at
    the start, dispatch by route, streams, web sockets.
  \<^item> \<^verbatim>\<open>Topology_Agent\<close> (\<^verbatim>\<open>topology_server.py\<close>): the introspection of the tree and the
    writes of the control plane, behind the gateway.

  Distribution, security, storage, observation:
  \<^item> \<^verbatim>\<open>Security\<close> (\<^verbatim>\<open>security/\<close>): signing and verification of envelopes, replay cache, trusted keys,
    the announcement handlers of a signing runtime.
  \<^item> \<^verbatim>\<open>Worker\<close> (\<^verbatim>\<open>worker.py\<close>): registration, announcements, health, restart commands.
  \<^item> \<^verbatim>\<open>State_Store\<close> (\<^verbatim>\<open>plugins/state.py\<close>, \<^verbatim>\<open>plugins/encrypted_store.py\<close>): the in-memory store by
    values and with its heap of dictionaries, the encrypting store with its key ring.
  \<^item> \<^verbatim>\<open>Audit_Sinks\<close> (\<^verbatim>\<open>audit/sinks.py\<close>): the JSONL sink with its drain task.
  \<^item> \<^verbatim>\<open>Observability\<close> (\<^verbatim>\<open>observability/\<close>): the queue of spans, the export task, the in-memory span
    store and its reports.

  Configuration and the runtime:
  \<^item> \<^verbatim>\<open>Settings\<close> (\<^verbatim>\<open>secrets/\<close>, \<^verbatim>\<open>config.py\<close>, \<^verbatim>\<open>plugins/loader.py\<close>): substitution of
    variables, secret files, settings, plugins.
  \<^item> \<^verbatim>\<open>Topology_Config\<close> (\<^verbatim>\<open>Runtime.from_config\<close> of \<^verbatim>\<open>runtime.py\<close>, \<^verbatim>\<open>cli/run.py\<close>):
    the tree a topology file describes, filtered by process, and what a worker hosts of it.
  \<^item> \<^verbatim>\<open>Runtime\<close> (\<^verbatim>\<open>runtime.py\<close>): what \<^verbatim>\<open>start\<close> makes of the tree (identities, keys, spawn
    targets, registry), the display, the public operations.
  \<^item> \<^verbatim>\<open>Agent_Spawn\<close> (\<^verbatim>\<open>spawn_into\<close>, \<^verbatim>\<open>spawn\<close>, \<^verbatim>\<open>despawn\<close>, \<^verbatim>\<open>stop\<close> of \<^verbatim>\<open>process.py\<close>): how an agent uses
    dynamic supervisors, composed with their answers.
  \<^item> \<^verbatim>\<open>Topology_Tools\<close> (\<^verbatim>\<open>cli/topology.py\<close>): validation and comparison of topology files.

  \<^bold>\<open>How code becomes definitions\<close>

  An object is a record, a method a function from the record to a result and the new record. A hook
  of user code, a store, a bus or a clock is a field of an environment record and thus arbitrary; a
  raised exception is the left value of a sum; \<^const>\<open>None\<close> of an \<^verbatim>\<open>option\<close> around a
  result is a call that waits. What runs between two awaits is one step, so interleavings are
  sequences of steps: the locale \<^verbatim>\<open>invariant_machine\<close> carries invariants over every reachable
  state. Times are reals and are passed in. Fresh identifiers, nonces and random bytes are arguments.
  A request of the gateway is handled as a whole, the rest of the system being a state of its own
  type that the requests to the bus change.

  What the program calls from libraries is an argument: the codec of envelopes (\<^verbatim>\<open>message_codec\<close>: what
  was packed unpacks to itself), Ed25519 (\<^verbatim>\<open>ed25519_ok\<close>: an own signature verifies and is not empty),
  the cipher of the encrypting store, the check of a JSON web token, the import of classes and entry
  points, the text of a value. Configuration is read with the types that the code expects; where
  Python would raise on a value of another type, the definitions raise.

  \<^bold>\<open>What the lemmas show\<close>

  \<^item> Restarts: the budget counts exactly the crashes of the window, a strategy restarts exactly its
    scope, simultaneous crashes cost one round, an exhausted budget goes to the parent, a fresh
    incarnation keeps the messages and the suspension.
  \<^item> Messages: an answer reaches its caller once; retries are bounded; a stream that ends cleanly is
    complete; waiting ends by its deadline; callers of an agent that goes away get an error.
  \<^item> Admission: the caps of a dynamic supervisor hold in every reachable state.
  \<^item> The gateway: a route matches by its specification; each authentication fails closed; a gateway
    without protection does not start; a write of the control plane arrives with its principal.
  \<^item> Security and storage: only signed messages are accepted, each once; local keys win; the
    encrypting store refines the contract of a store and reads only what it wrote; audit lines and
    spans are not reordered, and a span is lost only to a full queue or to a cancellation that
    interrupts its export.
  \<^item> Configuration: substitution is exact; the processes of a topology partition its leaves; the
    start registers the tree as it stands and operations by name reach their agent; a spawn that
    is answered in time returns exactly when the child is there; what a passed validation promises of
    the start.
  Some theorems describe behaviour that differs from what comments and documents promise: under strict
  signing neither runtime nor supervisors can send, a trusted signer speaks for any sender, a worker
  that stopped in order cannot announce its agents again, a default route passes by the authentication
  of the topology routes, a spawn that times out leaves its child behind.

  \<^bold>\<open>Bounds\<close>

  No definition uses fuel. The retry loop of a dispatch ends by a measure on the attempts left, the
  timed drain by its list of arrivals; every other loop is structural.

  \<^bold>\<open>What is not modelled\<close>

  The network transports (\<^verbatim>\<open>transport/zmq.py\<close>, \<^verbatim>\<open>transport/nats.py\<close>), the tracer and the SQL
  stores, gRPC, HTTP/3 and OpenAPI of the gateway, the dashboard, most of the command line, MCP
  and the sandbox are calls into third-party libraries or output. Log lines and trace spans are only
  events where a theorem needs them. Threads do not occur: the program is single-threaded
  asynchronous code. Idealised: clocks are real numbers and a step takes no time, so a deadline is
  met exactly; the codec takes every payload, so the limits of MessagePack integers and the check of a
  payload by \<^verbatim>\<open>json.dumps\<close> do not show; files, audit sinks and servers do not fail; a handler of a
  dynamic supervisor runs to its end before the next one starts. Each theory says which of these it
  rests on.
\<close>

end
